(* ===== verification/GoPrelude.thy ===== *)
theory GoPrelude
  imports Main
begin

text \<open>
  What every component of the gateway shares: the error values the packages pass around
  (\<^verbatim>\<open>errors.New\<close>, \<^verbatim>\<open>fmt.Errorf\<close> with and without \<^verbatim>\<open>%w\<close>, the sentinels of the packages, the
  struct \<^verbatim>\<open>outbound.Error\<close>), Go's instants and durations, and the 64-bit wrap-around of its
  integers. The named collections gather the facts the component proofs rewrite with.
\<close>

named_theorems go_time \<open>instants, durations and their comparison\<close>
named_theorems go_err \<open>errors.Is, errors.As and the kinds of errors\<close>
named_theorems go_str \<open>string functions of the standard library\<close>
named_theorems go_http \<open>headers, response writers and requests\<close>

section \<open>Errors\<close>

text \<open>\<^verbatim>\<open>internal/outbound/errors.go\<close>: the kinds of upstream failures.\<close>

datatype error_kind =
    ErrBadRequest | ErrUnauthorized | ErrForbidden | ErrNotFound
  | ErrConflict | ErrRateLimited | ErrUnavailable | ErrUpstream

text \<open>
  A Go \<^verbatim>\<open>error\<close> value. \<open>ErrorString\<close> is an error built from a message alone, \<open>ErrWrapped\<close>
  one that wraps another error behind a message prefix, \<open>OutboundError\<close> the struct
  \<^verbatim>\<open>outbound.Error\<close>, \<open>ExternalError\<close> an error that code outside the repository returned (a
  database driver, the network, the identity provider), \<open>NilDereference\<close> the panic of a call on a nil
  interface (not an error value in Go: the server aborts the request); the other constructors are the sentinel
  variables of the packages and of the package \<^verbatim>\<open>context\<close>.
\<close>

datatype goerr =
    ErrorString string
  | ErrWrapped string goerr
  | OutboundError error_kind int string
  | ExternalError string
  | ErrSessionNotFound
  | ErrTokenNotFound
  | ErrFlowNotFound
  | ErrInvalidReturnTo
  | ErrProviderUnconfigured
  | ErrRefreshUnavailable
  | ErrRefreshFailed
  | NilDereference
  | ContextCanceled
  | ContextDeadlineExceeded

type_synonym 'a result = "goerr + 'a"

text \<open>\<^verbatim>\<open>errors.Is\<close>: the target occurs in the chain of wrapped errors.\<close>

fun errors_Is :: "goerr \<Rightarrow> goerr \<Rightarrow> bool" where
  "errors_Is (ErrWrapped m e) target = (ErrWrapped m e = target \<or> errors_Is e target)"
| "errors_Is e target = (e = target)"

text \<open>\<^verbatim>\<open>errors.As\<close> for the type \<^verbatim>\<open>*outbound.Error\<close>: the first such error of the chain.\<close>

fun errors_As_outbound :: "goerr \<Rightarrow> (error_kind \<times> int \<times> string) option" where
  "errors_As_outbound (ErrWrapped m e) = errors_As_outbound e"
| "errors_As_outbound (OutboundError k s m) = Some (k, s, m)"
| "errors_As_outbound _ = None"

definition is_ok :: "'a result \<Rightarrow> bool" where
  "is_ok r \<longleftrightarrow> (case r of Inl _ \<Rightarrow> False | Inr _ \<Rightarrow> True)"

lemma is_ok_simps [simp]: "is_ok (Inr x)" "\<not> is_ok (Inl e)"
  by (simp_all add: is_ok_def)

lemma is_ok_iff: "is_ok r \<longleftrightarrow> (\<exists>x. r = Inr x)"
  by (cases r) (simp_all add: is_ok_def)

lemma errors_Is_refl [simp, go_err]: "errors_Is e e"
  by (cases e) simp_all

section \<open>64-bit integers\<close>

text \<open>The value of a mathematical integer stored in an \<^verbatim>\<open>int64\<close>: two's complement.\<close>

definition wrap64 :: "int \<Rightarrow> int" where
  "wrap64 x = (x + 2 ^ 63) mod 2 ^ 64 - 2 ^ 63"

lemma wrap64_range: "- (2 ^ 63) \<le> wrap64 x" "wrap64 x < 2 ^ 63"
proof -
  have "0 \<le> (x + 2 ^ 63) mod (2 ^ 64 :: int)" "(x + 2 ^ 63) mod (2 ^ 64 :: int) < 2 ^ 64"
    by simp_all
  then show "- (2 ^ 63) \<le> wrap64 x" "wrap64 x < 2 ^ 63"
    by (simp_all add: wrap64_def)
qed

lemma wrap64_id: "- (2 ^ 63) \<le> x \<Longrightarrow> x < 2 ^ 63 \<Longrightarrow> wrap64 x = x"
  by (simp add: wrap64_def)

section \<open>Time\<close>

text \<open>
  An instant (\<^verbatim>\<open>time.Time\<close>) is the number of nanoseconds since Go's zero time
  (1 January of year 1), so the zero value is 0. A duration is a number of nanoseconds. All
  instants lie on one time line: the wall clock and the monotonic clock of Go are not told apart.
\<close>

type_synonym time = int
type_synonym duration = int

abbreviation Nanosecond :: duration where "Nanosecond \<equiv> 1"
abbreviation Millisecond :: duration where "Millisecond \<equiv> 1000000"
abbreviation Second :: duration where "Second \<equiv> 1000000000"
abbreviation Minute :: duration where "Minute \<equiv> 60000000000"
abbreviation Hour :: duration where "Hour \<equiv> 3600000000000"

definition IsZero :: "time \<Rightarrow> bool" where
  "IsZero t \<longleftrightarrow> t = 0"

definition After :: "time \<Rightarrow> time \<Rightarrow> bool" where
  "After t u \<longleftrightarrow> u < t"

definition Time_Add :: "time \<Rightarrow> duration \<Rightarrow> time" where
  "Time_Add t d = t + d"

text \<open>\<^verbatim>\<open>Time.Sub\<close> saturates at the least and the greatest duration.\<close>

definition Time_Sub :: "time \<Rightarrow> time \<Rightarrow> duration" where
  "Time_Sub t u = max (- (2 ^ 63)) (min (2 ^ 63 - 1) (t - u))"

text \<open>Seconds from Go's zero time to the Unix epoch.\<close>

abbreviation unix_offset :: int where "unix_offset \<equiv> 62135596800"

definition Unix :: "time \<Rightarrow> int" where
  "Unix t = wrap64 (t div Second - unix_offset)"

text \<open>\<^verbatim>\<open>time.Unix(sec, 0)\<close>: the internal second counter is an \<^verbatim>\<open>int64\<close>.\<close>

definition time_Unix :: "int \<Rightarrow> time" where
  "time_Unix sec = wrap64 (sec + unix_offset) * Second"

lemmas [go_time] = IsZero_def After_def Time_Add_def

lemma Time_Sub_le_iff: "d < 2 ^ 63 \<Longrightarrow> - (2 ^ 63) < d \<Longrightarrow> d \<le> Time_Sub t u \<longleftrightarrow> d \<le> t - u"
  unfolding Time_Sub_def by (simp add: le_max_iff_disj)

lemma Time_Sub_less_iff:
  "d < 2 ^ 63 \<Longrightarrow> - (2 ^ 63) < d \<Longrightarrow> Time_Sub t u < d \<longleftrightarrow> t - u < d"
  using Time_Sub_le_iff [of d t u] by linarith

lemma Time_Sub_nonpos: "Time_Sub t u \<le> 0 \<longleftrightarrow> t \<le> u"
  using Time_Sub_le_iff [of 1 t u] by simp linarith

lemma time_Unix_in_range:
  "0 \<le> sec \<Longrightarrow> sec < 2 ^ 62 \<Longrightarrow> time_Unix sec = (sec + unix_offset) * Second"
  by (simp add: time_Unix_def wrap64_id)

section \<open>Maps\<close>

text \<open>Go's \<^verbatim>\<open>delete(m, k)\<close>.\<close>

abbreviation map_delete :: "('k \<rightharpoonup> 'v) \<Rightarrow> 'k \<Rightarrow> ('k \<rightharpoonup> 'v)" where
  "map_delete m k \<equiv> m(k := None)"

end
