(* ===== verification/GoStrings.thy ===== *)
theory GoStrings
  imports GoPrelude "HOL-Library.Sublist"
begin

text \<open>
  The functions of Go's package \<^verbatim>\<open>strings\<close> (and \<^verbatim>\<open>path.Clean\<close>) that the gateway calls. A Go string
  is a sequence of bytes, so it is a \<^typ>\<open>string\<close> here, one character per byte.
  \<^verbatim>\<open>TrimSpace\<close> is exact on every byte string: it strips the UTF-8 encodings of the Unicode white
  space code points. Case mapping (\<^verbatim>\<open>ToLower\<close>, \<^verbatim>\<open>EqualFold\<close>) is that of the ASCII letters: the bytes of
  other letters, which Go maps too (the Kelvin sign to \<^verbatim>\<open>k\<close>, for one), are left as they are.
\<close>

section \<open>Definitions\<close>

subsection \<open>White space\<close>

text \<open>The UTF-8 encodings of the code points for which \<^verbatim>\<open>unicode.IsSpace\<close> holds.\<close>

definition space_encodings :: "string list" where
  "space_encodings =
     [[CHR 0x20], [CHR 0x09], [CHR 0x0A], [CHR 0x0B], [CHR 0x0C], [CHR 0x0D],
      [CHR 0xC2, CHR 0x85], [CHR 0xC2, CHR 0xA0],
      [CHR 0xE1, CHR 0x9A, CHR 0x80],
      [CHR 0xE2, CHR 0x80, CHR 0x80], [CHR 0xE2, CHR 0x80, CHR 0x81],
      [CHR 0xE2, CHR 0x80, CHR 0x82], [CHR 0xE2, CHR 0x80, CHR 0x83],
      [CHR 0xE2, CHR 0x80, CHR 0x84], [CHR 0xE2, CHR 0x80, CHR 0x85],
      [CHR 0xE2, CHR 0x80, CHR 0x86], [CHR 0xE2, CHR 0x80, CHR 0x87],
      [CHR 0xE2, CHR 0x80, CHR 0x88], [CHR 0xE2, CHR 0x80, CHR 0x89],
      [CHR 0xE2, CHR 0x80, CHR 0x8A],
      [CHR 0xE2, CHR 0x80, CHR 0xA8], [CHR 0xE2, CHR 0x80, CHR 0xA9],
      [CHR 0xE2, CHR 0x80, CHR 0xAF], [CHR 0xE2, CHR 0x81, CHR 0x9F],
      [CHR 0xE3, CHR 0x80, CHR 0x80]]"

text \<open>The length of the member of a list of byte strings that a string starts with, or 0.\<close>

definition match_len :: "string list \<Rightarrow> string \<Rightarrow> nat" where
  "match_len es s = (case find (\<lambda>e. take (length e) s = e) es of None \<Rightarrow> 0 | Some e \<Rightarrow> length e)"

text \<open>Drop matches from the front until none is left.\<close>

function trim_by :: "string list \<Rightarrow> string \<Rightarrow> string" where
  "trim_by es s =
     (if s = [] \<or> match_len es s = 0 then s else trim_by es (drop (match_len es s) s))"
  by pat_completeness auto
termination
  by (relation "measure (\<lambda>(es, s). length s)") auto

declare trim_by.simps [simp del]

definition TrimSpace :: "string \<Rightarrow> string" where
  "TrimSpace s =
     rev (trim_by (map rev space_encodings) (rev (trim_by space_encodings s)))"

subsection \<open>Prefixes, suffixes, searching and splitting\<close>

definition HasPrefix :: "string \<Rightarrow> string \<Rightarrow> bool" where
  "HasPrefix s p \<longleftrightarrow> take (length p) s = p"

definition HasSuffix :: "string \<Rightarrow> string \<Rightarrow> bool" where
  "HasSuffix s p \<longleftrightarrow> HasPrefix (rev s) (rev p)"

fun Contains :: "string \<Rightarrow> string \<Rightarrow> bool" where
  "Contains [] sub \<longleftrightarrow> sub = []"
| "Contains (c # s) sub \<longleftrightarrow> HasPrefix (c # s) sub \<or> Contains s sub"

definition TrimPrefix :: "string \<Rightarrow> string \<Rightarrow> string" where
  "TrimPrefix s p = (if HasPrefix s p then drop (length p) s else s)"

definition TrimSuffix :: "string \<Rightarrow> string \<Rightarrow> string" where
  "TrimSuffix s p = (if HasSuffix s p then take (length s - length p) s else s)"

text \<open>\<^verbatim>\<open>TrimLeft\<close>, \<^verbatim>\<open>TrimRight\<close> and \<^verbatim>\<open>Trim\<close> with a cutset of one byte.\<close>

definition TrimLeft :: "string \<Rightarrow> char \<Rightarrow> string" where
  "TrimLeft s c = dropWhile (\<lambda>x. x = c) s"

definition TrimRight :: "string \<Rightarrow> char \<Rightarrow> string" where
  "TrimRight s c = rev (TrimLeft (rev s) c)"

definition Trim :: "string \<Rightarrow> char \<Rightarrow> string" where
  "Trim s c = TrimRight (TrimLeft s c) c"

text \<open>\<^verbatim>\<open>strings.Split\<close> with a separator of one byte.\<close>

fun Split :: "string \<Rightarrow> char \<Rightarrow> string list" where
  "Split [] c = [[]]"
| "Split (x # s) c =
     (if x = c then [] # Split s c
      else (case Split s c of p # ps \<Rightarrow> (x # p) # ps | [] \<Rightarrow> [[x]]))"

text \<open>\<^verbatim>\<open>strings.Cut\<close> with a separator of one byte: the parts before and after its first occurrence.\<close>

fun Cut :: "string \<Rightarrow> char \<Rightarrow> string \<times> string \<times> bool" where
  "Cut [] c = ([], [], False)"
| "Cut (x # s) c =
     (if x = c then ([], s, True)
      else (case Cut s c of (before, after, found) \<Rightarrow> (x # before, after, found)))"

fun strings_Join :: "string list \<Rightarrow> string \<Rightarrow> string" where
  "strings_Join [] sep = []"
| "strings_Join [s] sep = s"
| "strings_Join (s # ss) sep = s @ sep @ strings_Join ss sep"

definition ReplaceAll :: "string \<Rightarrow> char \<Rightarrow> char \<Rightarrow> string" where
  "ReplaceAll s a b = map (\<lambda>x. if x = a then b else x) s"

subsection \<open>Letter case\<close>

definition lower_char :: "char \<Rightarrow> char" where
  "lower_char c =
     (let n = of_char c :: nat in if 65 \<le> n \<and> n \<le> 90 then char_of (n + 32) else c)"

definition upper_char :: "char \<Rightarrow> char" where
  "upper_char c =
     (let n = of_char c :: nat in if 97 \<le> n \<and> n \<le> 122 then char_of (n - 32) else c)"

definition ToLower :: "string \<Rightarrow> string" where
  "ToLower s = map lower_char s"

definition ToUpper :: "string \<Rightarrow> string" where
  "ToUpper s = map upper_char s"

definition EqualFold :: "string \<Rightarrow> string \<Rightarrow> bool" where
  "EqualFold a b \<longleftrightarrow> ToLower a = ToLower b"

subsection \<open>Numbers\<close>

text \<open>\<^verbatim>\<open>strconv.ParseInt(s, 10, 64)\<close>: an optional sign, then one or more digits, within the range of an \<^verbatim>\<open>int64\<close>.\<close>

definition digit_value :: "char \<Rightarrow> int option" where
  "digit_value c =
     (let n = of_char c :: int in if 48 \<le> n \<and> n \<le> 57 then Some (n - 48) else None)"

fun digits_value :: "int \<Rightarrow> string \<Rightarrow> int option" where
  "digits_value acc [] = Some acc"
| "digits_value acc (c # s) =
     (case digit_value c of None \<Rightarrow> None | Some d \<Rightarrow> digits_value (10 * acc + d) s)"

definition parse_unsigned :: "string \<Rightarrow> int option" where
  "parse_unsigned s = (if s = [] then None else digits_value 0 s)"

definition ParseInt64 :: "string \<Rightarrow> int option" where
  "ParseInt64 s =
     (let v = (if HasPrefix s ''-'' then map_option uminus (parse_unsigned (drop 1 s))
               else if HasPrefix s ''+'' then parse_unsigned (drop 1 s)
               else parse_unsigned s)
      in case v of
           None \<Rightarrow> None
         | Some n \<Rightarrow> if - (2 ^ 63) \<le> n \<and> n < 2 ^ 63 then Some n else None)"

subsection \<open>Quoting\<close>

text \<open>
  The verb \<^verbatim>\<open>%q\<close> of \<^verbatim>\<open>fmt\<close> (\<^verbatim>\<open>strconv.Quote\<close>) on ASCII: a double quote and a backslash are escaped, a
  control character gets its letter or two hexadecimal digits. Bytes beyond ASCII stay as they are, which is
  what Go does with the encodings of printable characters.
\<close>

definition hex_digit :: "nat \<Rightarrow> char" where
  "hex_digit n = ''0123456789abcdef'' ! n"

definition quote_char :: "char \<Rightarrow> string" where
  "quote_char c =
     (let n = of_char c :: nat in
      if n = 34 then [CHR 0x5C, CHR 0x22]
      else if n = 92 then [CHR 0x5C, CHR 0x5C]
      else if 7 \<le> n \<and> n \<le> 13 then [CHR 0x5C, ''abtnvfr'' ! (n - 7)]
      else if n < 32 \<or> n = 127 then [CHR 0x5C, CHR ''x'', hex_digit (n div 16), hex_digit (n mod 16)]
      else [c])"

definition Quote :: "string \<Rightarrow> string" where
  "Quote s = [CHR 0x22] @ concat (map quote_char s) @ [CHR 0x22]"

section \<open>Lemmas\<close>

lemma trim_by_Nil [simp]: "trim_by es [] = []"
  by (simp add: trim_by.simps)

lemma trim_by_stop: "match_len es s = 0 \<Longrightarrow> trim_by es s = s"
  by (simp add: trim_by.simps)

lemma trim_by_stopped: "trim_by es s = [] \<or> match_len es (trim_by es s) = 0"
proof (induction es s rule: trim_by.induct)
  case (1 es s)
  then show ?case
    by (cases "s = [] \<or> match_len es s = 0") (auto simp: trim_by.simps [of es s])
qed

lemma trim_by_suffix: "suffix (trim_by es s) s"
proof (induction es s rule: trim_by.induct)
  case (1 es s)
  then show ?case
    by (cases "s = [] \<or> match_len es s = 0")
      (auto simp: trim_by.simps [of es s] intro: suffix_order.trans suffix_drop)
qed

lemma trim_by_idem [simp]: "trim_by es (trim_by es s) = trim_by es s"
  using trim_by_stopped [of es s] by (auto simp: trim_by_stop)

lemma take_length_eq_prefix: "take (length e) s = e \<longleftrightarrow> prefix e s"
  by (metis append_eq_conv_conj append_take_drop_id prefix_def)

text \<open>A string that starts with no member of the list has no prefix that does.\<close>

lemma match_len_0_iff:
  assumes "[] \<notin> set es"
  shows "match_len es s = 0 \<longleftrightarrow> (\<forall>e \<in> set es. \<not> prefix e s)"
proof (cases "find (\<lambda>e. take (length e) s = e) es")
  case None
  then have "\<forall>e \<in> set es. \<not> prefix e s"
    by (simp add: find_None_iff take_length_eq_prefix)
  with None show ?thesis
    by (simp add: match_len_def)
next
  case (Some e)
  then have "e \<in> set es" "prefix e s"
    by (auto simp: find_Some_iff take_length_eq_prefix)
  with Some assms show ?thesis
    by (auto simp: match_len_def)
qed

lemma match_len_0_prefix:
  assumes "[] \<notin> set es" "match_len es s = 0" "prefix p s"
  shows "match_len es p = 0"
  using assms by (auto simp: match_len_0_iff dest: prefix_order.trans)

lemma space_encodings_nonempty [simp]: "[] \<notin> set space_encodings"
  by (simp add: space_encodings_def)

lemma TrimSpace_Nil [simp]: "TrimSpace [] = []"
  by (simp add: TrimSpace_def)

lemma TrimSpace_idem [simp, go_str]: "TrimSpace (TrimSpace s) = TrimSpace s"
proof -
  define l where "l = trim_by space_encodings s"
  define r where "r = rev (trim_by (map rev space_encodings) (rev l))"
  have "prefix r l"
    using trim_by_suffix [of "map rev space_encodings" "rev l"]
    by (simp add: r_def suffix_to_prefix)
  moreover have "l = [] \<or> match_len space_encodings l = 0"
    unfolding l_def by (rule trim_by_stopped)
  ultimately have "trim_by space_encodings r = r"
    using match_len_0_prefix [of space_encodings l r] by (auto intro: trim_by_stop)
  moreover have "TrimSpace s = r"
    by (simp add: TrimSpace_def r_def l_def)
  ultimately show ?thesis
    by (simp add: TrimSpace_def r_def)
qed

lemma HasPrefix_iff: "HasPrefix s p \<longleftrightarrow> prefix p s"
  by (simp add: HasPrefix_def take_length_eq_prefix)

lemma HasSuffix_iff: "HasSuffix s p \<longleftrightarrow> suffix p s"
  by (simp add: HasSuffix_def HasPrefix_iff suffix_to_prefix)

lemma Contains_iff: "Contains s sub \<longleftrightarrow> sublist sub s"
proof (induction s)
  case Nil
  then show ?case by simp
next
  case (Cons c s)
  then show ?case
    by (auto simp: HasPrefix_iff sublist_Cons_right)
qed

lemma Split_nonempty [simp]: "Split s c \<noteq> []"
  by (induction s) (auto split: list.splits)

lemma Split_no_sep: "p \<in> set (Split s c) \<Longrightarrow> c \<notin> set p"
proof (induction s arbitrary: p)
  case Nil
  then show ?case by simp
next
  case (Cons x s)
  then show ?case
    by (cases "Split s c") (auto split: if_splits)
qed

lemma Split_absent: "c \<notin> set s \<Longrightarrow> Split s c = [s]"
  by (induction s) auto

lemma Split_append_sep: "Split (a @ c # b) c = Split a c @ Split b c"
  by (induction a) (auto split: list.splits)

lemma Split_strings_Join:
  assumes "ss \<noteq> []" "\<forall>s \<in> set ss. c \<notin> set s"
  shows "Split (strings_Join ss [c]) c = ss"
  using assms by (induction ss "[c]" rule: strings_Join.induct) (auto simp: Split_absent Split_append_sep)

lemma Cut_parts:
  "Cut s c = (a, b, found) \<Longrightarrow> (if found then s = a @ c # b \<and> c \<notin> set a else s = a \<and> b = [] \<and> c \<notin> set s)"
  by (induction s arbitrary: a b found) (auto split: if_splits prod.splits)

lemma lower_char_idem [simp]: "lower_char (lower_char c) = lower_char c"
  by (simp add: lower_char_def Let_def)

lemma ToLower_idem [simp, go_str]: "ToLower (ToLower s) = ToLower s"
  by (simp add: ToLower_def)

lemma ToLower_Nil [simp]: "ToLower [] = []"
  by (simp add: ToLower_def)

lemma EqualFold_refl [simp]: "EqualFold s s"
  by (simp add: EqualFold_def)

lemma TrimRight_prefix: "prefix (TrimRight s c) s"
  using suffix_dropWhile [of "\<lambda>x. x = c" "rev s"] by (simp add: TrimRight_def TrimLeft_def suffix_to_prefix)

lemma hd_TrimRight: "TrimRight s c \<noteq> [] \<Longrightarrow> hd (TrimRight s c) = hd s"
  by (metis hd_append2 prefixE TrimRight_prefix)

lemma TrimRight_no_suffix: "\<not> suffix [c] (TrimRight s c)"
  using hd_dropWhile [of "\<lambda>x. x = c" "rev s"]
  by (cases "dropWhile (\<lambda>x. x = c) (rev s)")
    (auto simp: TrimRight_def TrimLeft_def suffix_to_prefix simp del: dropWhile_eq_Nil_conv)

text \<open>Evaluating \<^verbatim>\<open>TrimSpace\<close> on literals.\<close>

lemmas trim_eval =
  TrimSpace_def trim_by.simps match_len_def space_encodings_def

end
