(* ===== verification/GoWorld.thy ===== *)
theory GoWorld
  imports GoStrings
begin

text \<open>
  The part of the environment that every component reads: the clock and the random source.
  A world is a record that the components extend with their own state (the session map, the token
  map, and so on). Each call of \<^verbatim>\<open>time.Now\<close> takes the next reading of the clock, so that two reads
  in one operation are two instants; each \<^verbatim>\<open>rand.Read\<close> takes the next answer of the random source,
  which may be an error.
\<close>

section \<open>Definitions\<close>

record world =
  clk :: "nat \<Rightarrow> time"
  ticks :: nat
  rand_src :: "nat \<Rightarrow> nat \<Rightarrow> nat list result"
  rands :: nat

text \<open>\<^verbatim>\<open>time.Now()\<close>\<close>

definition Now :: "'z world_scheme \<Rightarrow> time \<times> 'z world_scheme" where
  "Now w = (clk w (ticks w), w\<lparr>ticks := Suc (ticks w)\<rparr>)"

text \<open>The reading that the next call of \<^verbatim>\<open>time.Now\<close> will return.\<close>

definition cur :: "'z world_scheme \<Rightarrow> time" where
  "cur w = clk w (ticks w)"

text \<open>\<^verbatim>\<open>rand.Read\<close> into a buffer of \<open>n\<close> bytes: the bytes read, or the error.\<close>

definition rand_Read :: "nat \<Rightarrow> 'z world_scheme \<Rightarrow> nat list result \<times> 'z world_scheme" where
  "rand_Read n w = (rand_src w (rands w) n, w\<lparr>rands := Suc (rands w)\<rparr>)"

text \<open>The clock never runs backwards.\<close>

definition clock_ok :: "'z world_scheme \<Rightarrow> bool" where
  "clock_ok w \<longleftrightarrow> mono (clk w)"

section \<open>Encodings of bytes\<close>

text \<open>The alphabet of \<^verbatim>\<open>base64.RawURLEncoding\<close> and of \<^verbatim>\<open>hex.EncodeToString\<close>.\<close>

definition base64_alphabet :: string where
  "base64_alphabet = ''ABCDEFGHIJKLMNOPQRSTUVWXYZabcdefghijklmnopqrstuvwxyz0123456789-_''"

definition hex_alphabet :: string where
  "hex_alphabet = ''0123456789abcdef''"

definition b64 :: "nat \<Rightarrow> char" where
  "b64 n = base64_alphabet ! (n mod 64)"

text \<open>\<^verbatim>\<open>base64.RawURLEncoding.EncodeToString\<close>: three bytes to four characters, no padding.\<close>

fun base64_RawURL :: "nat list \<Rightarrow> string" where
  "base64_RawURL [] = []"
| "base64_RawURL [a] = [b64 (a div 4), b64 (a mod 4 * 16)]"
| "base64_RawURL [a, b] =
     [b64 (a div 4), b64 (a mod 4 * 16 + b div 16), b64 (b mod 16 * 4)]"
| "base64_RawURL (a # b # c # bs) =
     b64 (a div 4) # b64 (a mod 4 * 16 + b div 16) #
     b64 (b mod 16 * 4 + c div 64) # b64 (c mod 64) # base64_RawURL bs"

definition hex_EncodeToString :: "nat list \<Rightarrow> string" where
  "hex_EncodeToString bs =
     concat (map (\<lambda>b. [hex_alphabet ! (b div 16 mod 16), hex_alphabet ! (b mod 16)]) bs)"

text \<open>Decoding base64: the value of a character, and the bytes of a list of values. One value alone at the end is an error.\<close>

definition b64_value :: "char \<Rightarrow> nat option" where
  "b64_value c = (let i = length (takeWhile (\<lambda>x. x \<noteq> c) base64_alphabet) in if i < 64 then Some i else None)"

fun b64_bytes :: "nat list \<Rightarrow> nat list option" where
  "b64_bytes [] = Some []"
| "b64_bytes [a] = None"
| "b64_bytes [a, b] = Some [a * 4 + b div 16]"
| "b64_bytes [a, b, c] = Some [a * 4 + b div 16, b mod 16 * 16 + c div 4]"
| "b64_bytes (a # b # c # d # ds) =
     map_option (\<lambda>bs. (a * 4 + b div 16) # (b mod 16 * 16 + c div 4) # (c mod 4 * 64 + d) # bs) (b64_bytes ds)"

section \<open>Lemmas\<close>

lemma Now_cur [simp]: "fst (Now w) = cur w"
  by (simp add: Now_def cur_def)

lemma Now_clk [simp]: "clk (snd (Now w)) = clk w" "ticks (snd (Now w)) = Suc (ticks w)"
  by (simp_all add: Now_def)

lemma Now_eq: "Now w = (cur w, w\<lparr>ticks := Suc (ticks w)\<rparr>)"
  by (simp add: Now_def cur_def)

lemma clock_ok_ticks [simp]: "clock_ok (w\<lparr>ticks := n\<rparr>) = clock_ok w"
  by (simp add: clock_ok_def)

lemma clock_ok_mono: "clock_ok w \<Longrightarrow> m \<le> n \<Longrightarrow> clk w m \<le> clk w n"
  by (simp add: clock_ok_def mono_def)

lemma cur_ticks: "clock_ok w \<Longrightarrow> ticks w \<le> n \<Longrightarrow> cur w \<le> cur (w\<lparr>ticks := n\<rparr>)"
  by (simp add: cur_def clock_ok_mono)

lemma base64_alphabet_length [simp]: "length base64_alphabet = 64"
  by (simp add: base64_alphabet_def)

lemma base64_alphabet_distinct: "distinct base64_alphabet"
  by (simp add: base64_alphabet_def)

lemma b64_inj: "m < 64 \<Longrightarrow> n < 64 \<Longrightarrow> b64 m = b64 n \<longleftrightarrow> m = n"
  using nth_eq_iff_index_eq [OF base64_alphabet_distinct, of m n] by (simp add: b64_def)

lemma base64_RawURL_length: "length (base64_RawURL bs) = (length bs * 4 + 2) div 3"
  by (induction bs rule: base64_RawURL.induct) simp_all

lemma base64_RawURL_Nil_iff [simp]: "base64_RawURL bs = [] \<longleftrightarrow> bs = []"
  by (cases bs rule: base64_RawURL.cases) simp_all

lemma b64_value_b64: "n < 64 \<Longrightarrow> b64_value (b64 n) = Some n"
proof -
  assume n: "n < 64"
  have "takeWhile (\<lambda>x. x \<noteq> base64_alphabet ! n) base64_alphabet = take n base64_alphabet"
    by (rule takeWhile_eq_take_P_nth)
      (use n base64_alphabet_distinct in \<open>auto simp: nth_eq_iff_index_eq\<close>)
  with n show ?thesis by (simp add: b64_value_def b64_def)
qed

lemma base64_RawURL_digits:
  "list_all (\<lambda>b. b < 256) bs \<Longrightarrow> \<exists>ds. base64_RawURL bs = map b64 ds \<and> list_all (\<lambda>d. d < 64) ds \<and> b64_bytes ds = Some bs"
proof (induction bs rule: base64_RawURL.induct)
  case 1
  show ?case by (intro exI [of _ "[]"]) simp
next
  case (2 a)
  then show ?case by (intro exI [of _ "[a div 4, a mod 4 * 16]"]) auto
next
  case (3 a b)
  then show ?case
    by (intro exI [of _ "[a div 4, a mod 4 * 16 + b div 16, b mod 16 * 4]"]) auto
next
  case (4 a b c bs)
  then obtain ds where "base64_RawURL bs = map b64 ds" "list_all (\<lambda>d. d < 64) ds" "b64_bytes ds = Some bs" by auto
  with 4 show ?case
    by (intro exI [of _ "a div 4 # (a mod 4 * 16 + b div 16) # (b mod 16 * 4 + c div 64) # c mod 64 # ds"]) auto
qed

text \<open>Distinct byte buffers have distinct encodings.\<close>

lemma base64_RawURL_inj:
  assumes "list_all (\<lambda>b. b < 256) as" "list_all (\<lambda>b. b < 256) bs" "base64_RawURL as = base64_RawURL bs"
  shows "as = bs"
proof -
  obtain ds es where d: "base64_RawURL as = map b64 ds" "list_all (\<lambda>d. d < 64) ds" "b64_bytes ds = Some as"
    and e: "base64_RawURL bs = map b64 es" "list_all (\<lambda>d. d < 64) es" "b64_bytes es = Some bs"
    using base64_RawURL_digits [OF assms(1)] base64_RawURL_digits [OF assms(2)] by blast
  have "inj_on b64 (set ds \<union> set es)"
    using d(2) e(2) by (auto simp: inj_on_def list_all_iff b64_inj)
  with d(1) e(1) assms(3) have "ds = es" by (auto dest: inj_on_map_eq_map [THEN iffD1])
  with d(3) e(3) show ?thesis by simp
qed

end
