(* ===== verification/Session.thy ===== *)
theory Session
  imports GoWorld
begin

text \<open>
  The browser sessions (\<^verbatim>\<open>internal/session\<close>): the record \<^verbatim>\<open>Session\<close>, the interface \<^verbatim>\<open>Store\<close> as a record
  of operations, the in-memory store, and \<^verbatim>\<open>LifecycleStore\<close>, which wraps any store and enforces the
  absolute lifetime and the idle timeout. The interface a base store promises is the locale
  \<open>exact_session_store\<close>, what clients may rely on (also through the lifecycle wrapper) the locale
  \<open>session_store_contract\<close>; both are interpreted on the in-memory store.
\<close>

section \<open>Definitions\<close>

subsection \<open>Sessions and stores (store.go)\<close>

record session =
  sess_ID :: string
  sess_Subject :: string
  sess_Issuer :: string
  sess_Username :: string
  sess_DisplayName :: string
  sess_Email :: string
  sess_Roles :: "string list"
  sess_CreatedAt :: time
  sess_ExpiresAt :: time
  sess_LastSeen :: time

text \<open>The interface \<^verbatim>\<open>session.Store\<close>: each operation takes the world and returns the next one.\<close>

record 'w session_store =
  ss_Get :: "'w \<Rightarrow> string \<Rightarrow> 'w \<times> session result"
  ss_Put :: "'w \<Rightarrow> session \<Rightarrow> 'w \<times> goerr option"
  ss_Delete :: "'w \<Rightarrow> string \<Rightarrow> 'w \<times> goerr option"

subsection \<open>The in-memory store (memory.go)\<close>

record session_world = world +
  sessions :: "string \<rightharpoonup> session"

definition MemoryStore_Delete ::
  "'z session_world_scheme \<Rightarrow> string \<Rightarrow> 'z session_world_scheme \<times> goerr option" where
  "MemoryStore_Delete w i = (w\<lparr>sessions := map_delete (sessions w) i\<rparr>, None)"

text \<open>
  The expiry is compared with the clock only for an entry whose \<^verbatim>\<open>ExpiresAt\<close> is set, as the
  short-circuit operators of the source do.
\<close>

definition MemoryStore_Get ::
  "'z session_world_scheme \<Rightarrow> string \<Rightarrow> 'z session_world_scheme \<times> session result" where
  "MemoryStore_Get w i =
     (case sessions w i of
        None \<Rightarrow> (w, Inl ErrSessionNotFound)
      | Some v \<Rightarrow>
          (if IsZero (sess_ExpiresAt v) then (w, Inr v)
           else let (now, w1) = Now w
                in if \<not> After (sess_ExpiresAt v) now
                   then (fst (MemoryStore_Delete w1 i), Inl ErrSessionNotFound)
                   else (w1, Inr v)))"

definition MemoryStore_Put ::
  "'z session_world_scheme \<Rightarrow> session \<Rightarrow> 'z session_world_scheme \<times> goerr option" where
  "MemoryStore_Put w v = (w\<lparr>sessions := (sessions w)(sess_ID v \<mapsto> v)\<rparr>, None)"

definition MemoryStore :: "'z session_world_scheme session_store" where
  "MemoryStore = \<lparr>ss_Get = MemoryStore_Get, ss_Put = MemoryStore_Put, ss_Delete = MemoryStore_Delete\<rparr>"

subsection \<open>Lifetimes and idle timeouts (lifecycle.go)\<close>

record lifecycle =
  lc_MaxLifetime :: duration
  lc_IdleTimeout :: duration
  lc_TouchInterval :: duration

definition touch_interval :: "lifecycle \<Rightarrow> duration" where
  "touch_interval s = (if lc_TouchInterval s \<le> 0 then Minute else lc_TouchInterval s)"

text \<open>The two tests that end a session.\<close>

definition lifetime_over :: "lifecycle \<Rightarrow> session \<Rightarrow> time \<Rightarrow> bool" where
  "lifetime_over s v now \<longleftrightarrow>
     0 < lc_MaxLifetime s \<and> \<not> IsZero (sess_CreatedAt v) \<and>
     \<not> After (Time_Add (sess_CreatedAt v) (lc_MaxLifetime s)) now"

definition idle_over :: "lifecycle \<Rightarrow> session \<Rightarrow> time \<Rightarrow> bool" where
  "idle_over s v now \<longleftrightarrow>
     0 < lc_IdleTimeout s \<and> \<not> IsZero (sess_LastSeen v) \<and>
     \<not> After (Time_Add (sess_LastSeen v) (lc_IdleTimeout s)) now"

definition touch_due :: "lifecycle \<Rightarrow> session \<Rightarrow> time \<Rightarrow> bool" where
  "touch_due s v now \<longleftrightarrow>
     0 < lc_IdleTimeout s \<and>
     (IsZero (sess_LastSeen v) \<or> touch_interval s \<le> Time_Sub now (sess_LastSeen v))"

text \<open>
  \<^verbatim>\<open>LifecycleStore.Get\<close> holds no lock between its read of the underlying store and its write-back
  of \<^verbatim>\<open>LastSeen\<close>, so another request can run in between. The two halves are defined separately and
  \<^verbatim>\<open>Get\<close> is their composition: the first half reads and checks, the second writes back.
\<close>

datatype get_progress = GetDone "session result" | GetTouch session

definition LifecycleStore_Get_check ::
  "lifecycle \<Rightarrow> 'z world_scheme session_store \<Rightarrow> 'z world_scheme \<Rightarrow> string
   \<Rightarrow> 'z world_scheme \<times> get_progress" where
  "LifecycleStore_Get_check s next w i =
     (case ss_Get next w i of
        (w1, Inl e) \<Rightarrow> (w1, GetDone (Inl e))
      | (w1, Inr v) \<Rightarrow>
          let (now, w2) = Now w1
          in if lifetime_over s v now
             then (fst (ss_Delete next w2 i), GetDone (Inl ErrSessionNotFound))
             else if idle_over s v now
             then (fst (ss_Delete next w2 i), GetDone (Inl ErrSessionNotFound))
             else if touch_due s v now
             then (w2, GetTouch (v\<lparr>sess_LastSeen := now\<rparr>))
             else (w2, GetDone (Inr v)))"

definition LifecycleStore_Get_touch ::
  "'z world_scheme session_store \<Rightarrow> 'z world_scheme \<Rightarrow> get_progress
   \<Rightarrow> 'z world_scheme \<times> session result" where
  "LifecycleStore_Get_touch next w p =
     (case p of
        GetDone r \<Rightarrow> (w, r)
      | GetTouch v \<Rightarrow>
          (case ss_Put next w v of
             (w1, Some e) \<Rightarrow> (w1, Inl e)
           | (w1, None) \<Rightarrow> (w1, Inr v)))"

definition LifecycleStore_Get ::
  "lifecycle \<Rightarrow> 'z world_scheme session_store \<Rightarrow> 'z world_scheme \<Rightarrow> string
   \<Rightarrow> 'z world_scheme \<times> session result" where
  "LifecycleStore_Get s next w i =
     (let (w1, p) = LifecycleStore_Get_check s next w i in LifecycleStore_Get_touch next w1 p)"

text \<open>The session that \<^verbatim>\<open>LifecycleStore.Put\<close> hands to the underlying store.\<close>

definition lifecycle_normalize :: "lifecycle \<Rightarrow> time \<Rightarrow> session \<Rightarrow> session" where
  "lifecycle_normalize s now v =
     (let v1 = (if IsZero (sess_CreatedAt v) then v\<lparr>sess_CreatedAt := now\<rparr> else v);
          v2 = (if IsZero (sess_LastSeen v1) then v1\<lparr>sess_LastSeen := now\<rparr> else v1)
      in if 0 < lc_MaxLifetime s
         then let absolute = Time_Add (sess_CreatedAt v2) (lc_MaxLifetime s)
              in if IsZero (sess_ExpiresAt v2) \<or> After (sess_ExpiresAt v2) absolute
                 then v2\<lparr>sess_ExpiresAt := absolute\<rparr> else v2
         else v2)"

definition LifecycleStore_Put ::
  "lifecycle \<Rightarrow> 'z world_scheme session_store \<Rightarrow> 'z world_scheme \<Rightarrow> session
   \<Rightarrow> 'z world_scheme \<times> goerr option" where
  "LifecycleStore_Put s next w v =
     (let (now, w1) = Now w in ss_Put next w1 (lifecycle_normalize s now v))"

definition LifecycleStore_Delete ::
  "'z world_scheme session_store \<Rightarrow> 'z world_scheme \<Rightarrow> string \<Rightarrow> 'z world_scheme \<times> goerr option" where
  "LifecycleStore_Delete next w i = ss_Delete next w i"

definition LifecycleStore ::
  "lifecycle \<Rightarrow> 'z world_scheme session_store \<Rightarrow> 'z world_scheme session_store" where
  "LifecycleStore s next =
     \<lparr>ss_Get = LifecycleStore_Get s next, ss_Put = LifecycleStore_Put s next,
      ss_Delete = LifecycleStore_Delete next\<rparr>"

subsection \<open>Sequences of operations\<close>

text \<open>
  What the handlers do with the store between two observations: reads, writes and deletions of any
  sessions in any order, and pauses in which the clock advances.
\<close>

datatype store_op = OpGet string | OpPut session | OpDelete string | OpPause nat

fun store_step :: "'z world_scheme session_store \<Rightarrow> 'z world_scheme \<Rightarrow> store_op \<Rightarrow> 'z world_scheme" where
  "store_step st w (OpGet i) = fst (ss_Get st w i)"
| "store_step st w (OpPut v) = fst (ss_Put st w v)"
| "store_step st w (OpDelete i) = fst (ss_Delete st w i)"
| "store_step st w (OpPause n) = w\<lparr>ticks := ticks w + n\<rparr>"

fun store_run :: "'z world_scheme session_store \<Rightarrow> 'z world_scheme \<Rightarrow> store_op list \<Rightarrow> 'z world_scheme" where
  "store_run st w [] = w"
| "store_run st w (x # xs) = store_run st (store_step st w x) xs"

fun writes_session :: "string \<Rightarrow> store_op \<Rightarrow> bool" where
  "writes_session i (OpPut v) = (sess_ID v = i)"
| "writes_session i _ = False"

text \<open>Does the operation read or write the session \<open>i\<close>?\<close>

fun concerns_session :: "string \<Rightarrow> store_op \<Rightarrow> bool" where
  "concerns_session i (OpGet j) = (i = j)"
| "concerns_session i (OpPut v) = (sess_ID v = i)"
| "concerns_session i _ = False"

text \<open>A configuration, a session and a world for concrete runs: the clock advances a second a read.\<close>

definition demo_lifecycle :: lifecycle where
  "demo_lifecycle =
     \<lparr>lc_MaxLifetime = 8 * Hour, lc_IdleTimeout = 30 * Minute, lc_TouchInterval = Minute\<rparr>"

definition demo_clock :: "nat \<Rightarrow> time" where
  "demo_clock n = 63000000000 * Second + int n * Second"

definition demo_session :: session where
  "demo_session =
     \<lparr>sess_ID = ''s1'', sess_Subject = ''alice'', sess_Issuer = ''https://idp'',
      sess_Username = ''alice'', sess_DisplayName = ''Alice'', sess_Email = ''a@example.com'',
      sess_Roles = [''reader''], sess_CreatedAt = 0, sess_ExpiresAt = 0, sess_LastSeen = 0\<rparr>"

definition demo_world :: session_world where
  "demo_world =
     \<lparr>clk = demo_clock, ticks = 0, rand_src = (\<lambda>i n. Inr (replicate n i)), rands = 0,
      sessions = Map.empty\<rparr>"

subsection \<open>What a store promises\<close>

definition live :: "time \<Rightarrow> session \<Rightarrow> bool" where
  "live t v \<longleftrightarrow> IsZero (sess_ExpiresAt v) \<or> After (sess_ExpiresAt v) t"

text \<open>The session without its time stamps: whose session it is and what it may do.\<close>

definition principal_of :: "session \<Rightarrow> session" where
  "principal_of v = v\<lparr>sess_CreatedAt := 0, sess_ExpiresAt := 0, sess_LastSeen := 0\<rparr>"

text \<open>Every session is filed under its own identifier.\<close>

definition keyed :: "(string \<rightharpoonup> session) \<Rightarrow> bool" where
  "keyed m \<longleftrightarrow> (\<forall>i v. m i = Some v \<longrightarrow> sess_ID v = i)"

text \<open>No operation turns the clock back or exchanges it.\<close>

definition clock_kept :: "'z world_scheme \<Rightarrow> 'z world_scheme \<Rightarrow> bool" where
  "clock_kept w w' \<longleftrightarrow> clk w' = clk w \<and> ticks w \<le> ticks w'"

section \<open>General lemmas\<close>

lemma clock_kept_refl [simp]: "clock_kept w w"
  by (simp add: clock_kept_def)

lemma clock_kept_trans: "clock_kept a b \<Longrightarrow> clock_kept b c \<Longrightarrow> clock_kept a c"
  by (auto simp: clock_kept_def)

lemma clock_kept_Now: "clock_kept w (snd (Now w))"
  by (simp add: clock_kept_def Now_def)

lemma clock_kept_cur: "clock_ok w \<Longrightarrow> clock_kept w w' \<Longrightarrow> cur w \<le> cur w'"
  by (simp add: clock_kept_def cur_def clock_ok_mono)

lemma clock_kept_ok: "clock_kept w w' \<Longrightarrow> clock_ok w' = clock_ok w"
  by (simp add: clock_kept_def clock_ok_def)

lemma principal_of_LastSeen [simp]:
  "principal_of (v\<lparr>sess_LastSeen := t\<rparr>) = principal_of v"
  by (simp add: principal_of_def)

lemma principal_of_normalize [simp]:
  "principal_of (lifecycle_normalize s now v) = principal_of v"
  by (simp add: lifecycle_normalize_def principal_of_def Let_def)

lemma normalize_ID [simp]: "sess_ID (lifecycle_normalize s now v) = sess_ID v"
  by (simp add: lifecycle_normalize_def Let_def)

text \<open>The worlds in which the first half of a lifecycle read can end.\<close>

lemma check_world:
  assumes "P (fst (ss_Get next w i))"
    and "P (fst (ss_Get next w i)) \<Longrightarrow> P (snd (Now (fst (ss_Get next w i))))"
    and "P (snd (Now (fst (ss_Get next w i)))) \<Longrightarrow>
         P (fst (ss_Delete next (snd (Now (fst (ss_Get next w i)))) i))"
  shows "P (fst (LifecycleStore_Get_check s next w i))"
  using assms
  by (cases "ss_Get next w i"; cases "snd (ss_Get next w i)")
    (auto simp: LifecycleStore_Get_check_def Let_def split: prod.split)

section \<open>Interfaces\<close>

text \<open>
  \<open>session_store_contract\<close> is what the authentication service, the token manager, the user-context
  resolver and the authorization middleware use of a session store: \<open>view\<close> is the set of stored
  sessions, \<open>inv\<close> the store's own invariant. A successful read returns a stored session of the same
  principal that has not expired; the operations touch no other session.
\<close>

locale session_store_contract =
  fixes store :: "'z world_scheme session_store"
    and view :: "'z world_scheme \<Rightarrow> string \<rightharpoonup> session"
    and inv :: "'z world_scheme \<Rightarrow> bool"
  assumes Get_found: "inv w \<Longrightarrow> ss_Get store w i = (w', Inr v) \<Longrightarrow>
      \<exists>v0. view w i = Some v0 \<and> principal_of v = principal_of v0 \<and>
           sess_ExpiresAt v = sess_ExpiresAt v0 \<and> sess_CreatedAt v = sess_CreatedAt v0 \<and>
           live (cur w) v \<and> view w' = (view w)(i \<mapsto> v)"
    and Get_missed: "inv w \<Longrightarrow> ss_Get store w i = (w', Inl e) \<Longrightarrow>
      view w' = view w \<or> view w' = (view w)(i := None)"
    and Put_stored: "inv w \<Longrightarrow> ss_Put store w v = (w', None) \<Longrightarrow>
      \<exists>v'. view w' = (view w)(sess_ID v \<mapsto> v') \<and> principal_of v' = principal_of v"
    and Put_failed: "inv w \<Longrightarrow> ss_Put store w v = (w', Some e) \<Longrightarrow> view w' = view w"
    and Delete_done: "inv w \<Longrightarrow> ss_Delete store w i = (w', None) \<Longrightarrow> view w' = (view w)(i := None)"
    and Delete_failed: "inv w \<Longrightarrow> ss_Delete store w i = (w', Some e) \<Longrightarrow> view w' = view w"
    and inv_Get: "inv w \<Longrightarrow> inv (fst (ss_Get store w i))"
    and inv_Put: "inv w \<Longrightarrow> inv (fst (ss_Put store w v))"
    and inv_Delete: "inv w \<Longrightarrow> inv (fst (ss_Delete store w i))"
    and clock_Get: "clock_kept w (fst (ss_Get store w i))"
    and clock_Put: "clock_kept w (fst (ss_Put store w v))"
    and clock_Delete: "clock_kept w (fst (ss_Delete store w i))"
    and inv_pause: "inv w \<Longrightarrow> inv (w\<lparr>ticks := n\<rparr>)"
    and view_pause: "view (w\<lparr>ticks := n\<rparr>) = view w"
begin

lemma inv_step: "inv w \<Longrightarrow> inv (store_step store w x)"
  by (cases x) (simp_all add: inv_Get inv_Put inv_Delete inv_pause)

lemma inv_run: "inv w \<Longrightarrow> inv (store_run store w xs)"
  by (induction xs arbitrary: w) (simp_all add: inv_step)

lemma clock_step: "clock_kept w (store_step store w x)"
  by (cases x) (simp_all add: clock_Get clock_Put clock_Delete, simp add: clock_kept_def)

lemma clock_run: "clock_kept w (store_run store w xs)"
  by (induction xs arbitrary: w) (auto intro: clock_step clock_kept_trans)

text \<open>Without writing it, no operation brings a session back: once gone it stays gone.\<close>

lemma gone_step:
  assumes "inv w" "view w i = None" "\<not> writes_session i x"
  shows "view (store_step store w x) i = None"
proof (cases x)
  case (OpGet j)
  obtain w' r where r: "ss_Get store w j = (w', r)" by fastforce
  show ?thesis
  proof (cases r)
    case (Inl e)
    with r Get_missed [of w j w' e] assms show ?thesis by (auto simp: OpGet)
  next
    case (Inr v)
    with r Get_found [of w j w' v] assms show ?thesis by (auto simp: OpGet)
  qed
next
  case (OpPut v)
  obtain w' r where r: "ss_Put store w v = (w', r)" by fastforce
  show ?thesis
  proof (cases r)
    case None
    with r Put_stored [of w v w'] assms show ?thesis by (auto simp: OpPut)
  next
    case (Some e)
    with r Put_failed [of w v w' e] assms show ?thesis by (auto simp: OpPut)
  qed
next
  case (OpDelete j)
  obtain w' r where r: "ss_Delete store w j = (w', r)" by fastforce
  show ?thesis
  proof (cases r)
    case None
    with r Delete_done [of w j w'] assms show ?thesis by (auto simp: OpDelete)
  next
    case (Some e)
    with r Delete_failed [of w j w' e] assms show ?thesis by (auto simp: OpDelete)
  qed
next
  case (OpPause n)
  with assms show ?thesis by (simp add: view_pause)
qed

lemma gone_run:
  "inv w \<Longrightarrow> view w i = None \<Longrightarrow> \<not> list_ex (writes_session i) xs \<Longrightarrow>
   view (store_run store w xs) i = None"
  by (induction xs arbitrary: w) (simp_all add: gone_step inv_step)

text \<open>After a deletion every read misses until the session is written again.\<close>

lemma deleted_stays_deleted:
  assumes "inv w" "ss_Delete store w i = (w1, None)" "\<not> list_ex (writes_session i) xs"
  shows "\<not> is_ok (snd (ss_Get store (store_run store w1 xs) i))"
proof -
  have inv1: "inv w1" using inv_Delete [OF assms(1), of i] assms(2) by simp
  have "view w1 i = None" using Delete_done [OF assms(1,2)] by simp
  then have "view (store_run store w1 xs) i = None"
    using gone_run inv1 assms(3) by blast
  moreover obtain w2 r where "ss_Get store (store_run store w1 xs) i = (w2, r)" by fastforce
  ultimately show ?thesis
    using Get_found inv_run [OF inv1, of xs] by (cases r) fastforce+
qed

end

text \<open>
  \<open>exact_session_store\<close> is the promise of a base store: a read returns exactly what was stored, a
  write stores exactly what it is given.
\<close>

locale exact_session_store =
  fixes store :: "'z world_scheme session_store"
    and view :: "'z world_scheme \<Rightarrow> string \<rightharpoonup> session"
    and inv :: "'z world_scheme \<Rightarrow> bool"
  assumes Get_exact: "inv w \<Longrightarrow> ss_Get store w i = (w', Inr v) \<Longrightarrow>
      view w i = Some v \<and> live (cur w) v \<and> view w' = view w"
    and Get_miss: "inv w \<Longrightarrow> ss_Get store w i = (w', Inl e) \<Longrightarrow>
      view w' = view w \<or> view w' = (view w)(i := None)"
    and Put_exact: "inv w \<Longrightarrow> ss_Put store w v = (w', None) \<Longrightarrow> view w' = (view w)(sess_ID v \<mapsto> v)"
    and Put_fail: "inv w \<Longrightarrow> ss_Put store w v = (w', Some e) \<Longrightarrow> view w' = view w"
    and Delete_exact: "inv w \<Longrightarrow> ss_Delete store w i = (w', None) \<Longrightarrow> view w' = (view w)(i := None)"
    and Delete_fail: "inv w \<Longrightarrow> ss_Delete store w i = (w', Some e) \<Longrightarrow> view w' = view w"
    and keeps_inv: "inv w \<Longrightarrow> inv (fst (ss_Get store w i))" "inv w \<Longrightarrow> inv (fst (ss_Put store w v))"
      "inv w \<Longrightarrow> inv (fst (ss_Delete store w i))" "inv w \<Longrightarrow> inv (w\<lparr>ticks := n\<rparr>)"
    and keeps_clock: "clock_kept w (fst (ss_Get store w i))" "clock_kept w (fst (ss_Put store w v))"
      "clock_kept w (fst (ss_Delete store w i))"
    and inv_keyed: "inv w \<Longrightarrow> keyed (view w)"
    and view_ticks: "view (w\<lparr>ticks := n\<rparr>) = view w"
begin

lemma Now_inv: "inv w \<Longrightarrow> inv (snd (Now w))"
  by (simp add: Now_def keeps_inv(4))

lemma Now_view: "view (snd (Now w)) = view w"
  by (simp add: Now_def view_ticks)

text \<open>Deleting through a base store: the view loses the session or the store failed.\<close>

lemma Delete_view:
  "inv w \<Longrightarrow> view (fst (ss_Delete store w i)) = view w \<or>
             view (fst (ss_Delete store w i)) = (view w)(i := None)"
  using Delete_exact [of w i] Delete_fail [of w i]
  by (cases "ss_Delete store w i"; cases "snd (ss_Delete store w i)") auto

text \<open>The first half of a lifecycle read: the possible outcomes and what each leaves behind.\<close>

lemma check_inv: "inv w \<Longrightarrow> inv (fst (LifecycleStore_Get_check s store w i))"
  by (rule check_world [where P = inv]) (simp_all add: keeps_inv Now_inv)

lemma check_clock: "clock_kept w (fst (LifecycleStore_Get_check s store w i))"
  by (rule check_world [where P = "clock_kept w"])
    (blast intro: keeps_clock clock_kept_Now clock_kept_trans)+

lemma check_touch:
  assumes "inv w" "LifecycleStore_Get_check s store w i = (w', GetTouch v)"
  shows "\<exists>v0 t. view w i = Some v0 \<and> v = v0\<lparr>sess_LastSeen := t\<rparr> \<and> live (cur w) v0 \<and>
           sess_ID v = i \<and> view w' = view w \<and> inv w'"
proof -
  obtain w1 r where r: "ss_Get store w i = (w1, r)" by fastforce
  with assms(2) obtain v0 where v0: "r = Inr v0"
    by (cases r) (auto simp: LifecycleStore_Get_check_def)
  have *: "view w i = Some v0" "live (cur w) v0" "view w1 = view w"
    using Get_exact [OF assms(1)] r v0 by auto
  moreover have "v = v0\<lparr>sess_LastSeen := cur w1\<rparr>" "w' = snd (Now w1)"
    using assms(2) r v0
    by (auto simp: LifecycleStore_Get_check_def Let_def Now_eq split: if_splits)
  moreover have "inv w1" using keeps_inv(1) [OF assms(1), of i] r by simp
  moreover have "sess_ID v0 = i"
    using inv_keyed [OF assms(1)] *(1) by (auto simp: keyed_def)
  ultimately show ?thesis
    by (auto simp: Now_view Now_inv)
qed

lemma check_done_ok:
  assumes "inv w" "LifecycleStore_Get_check s store w i = (w', GetDone (Inr v))"
  shows "view w i = Some v \<and> live (cur w) v \<and> view w' = view w"
proof -
  obtain w1 r where r: "ss_Get store w i = (w1, r)" by fastforce
  with assms(2) obtain v0 where v0: "r = Inr v0"
    by (cases r) (auto simp: LifecycleStore_Get_check_def)
  with assms(2) r have "v0 = v" "w' = snd (Now w1)"
    by (auto simp: LifecycleStore_Get_check_def Let_def Now_eq split: if_splits)
  with Get_exact [OF assms(1)] r v0 show ?thesis by (auto simp: Now_view)
qed

lemma check_done_err:
  assumes "inv w" "LifecycleStore_Get_check s store w i = (w', GetDone (Inl e))"
  shows "view w' = view w \<or> view w' = (view w)(i := None)"
proof -
  obtain w1 r where r: "ss_Get store w i = (w1, r)" by fastforce
  show ?thesis
  proof (cases r)
    case (Inl e')
    with assms r Get_miss [OF assms(1)] show ?thesis
      by (auto simp: LifecycleStore_Get_check_def)
  next
    case (Inr v)
    have "view w1 = view w" "inv w1"
      using Get_exact [OF assms(1)] keeps_inv(1) [OF assms(1), of i] r Inr by auto
    moreover have "w' = fst (ss_Delete store (snd (Now w1)) i)"
      using assms(2) r Inr
      by (auto simp: LifecycleStore_Get_check_def Let_def Now_eq split: if_splits)
    ultimately show ?thesis
      using Delete_view [OF Now_inv, of w1 i] by (auto simp: Now_view)
  qed
qed

text \<open>The whole read, by the outcome of its first half.\<close>

lemma Get_cases:
  assumes "LifecycleStore_Get s store w i = (w', r)"
  obtains (Done) "LifecycleStore_Get_check s store w i = (w', GetDone r)"
  | (Touched) w1 v where "LifecycleStore_Get_check s store w i = (w1, GetTouch v)"
      "ss_Put store w1 v = (w', None)" "r = Inr v"
  | (Failed) w1 v e where "LifecycleStore_Get_check s store w i = (w1, GetTouch v)"
      "ss_Put store w1 v = (w', Some e)" "r = Inl e"
proof (cases "LifecycleStore_Get_check s store w i")
  case (Pair w1 p)
  show thesis
  proof (cases p)
    case (GetDone r')
    with Pair assms Done show thesis
      by (simp add: LifecycleStore_Get_def LifecycleStore_Get_touch_def)
  next
    case (GetTouch v)
    with Pair assms Touched Failed show thesis
      by (auto simp: LifecycleStore_Get_def LifecycleStore_Get_touch_def
          split: prod.splits option.splits)
  qed
qed

lemma lifecycle_Get_found:
  assumes "inv w" "LifecycleStore_Get s store w i = (w', Inr v)"
  shows "\<exists>v0. view w i = Some v0 \<and> principal_of v = principal_of v0 \<and>
           sess_ExpiresAt v = sess_ExpiresAt v0 \<and> sess_CreatedAt v = sess_CreatedAt v0 \<and>
           live (cur w) v \<and> view w' = (view w)(i \<mapsto> v)"
  using assms(2)
proof (cases rule: Get_cases)
  case Done
  with check_done_ok [OF assms(1)] show ?thesis by (auto simp: fun_upd_idem)
next
  case (Touched w1 v1)
  then obtain v0 t where *: "view w i = Some v0" "v = v0\<lparr>sess_LastSeen := t\<rparr>" "live (cur w) v0"
    "sess_ID v = i" "view w1 = view w" "inv w1"
    using check_touch [OF assms(1)] by fastforce
  then have "view w' = (view w)(i \<mapsto> v)"
    using Put_exact [of w1 v w'] Touched by simp
  with * show ?thesis by (simp add: live_def)
qed simp

lemma lifecycle_Get_missed:
  assumes "inv w" "LifecycleStore_Get s store w i = (w', Inl e)"
  shows "view w' = view w \<or> view w' = (view w)(i := None)"
  using assms(2)
proof (cases rule: Get_cases)
  case Done
  with check_done_err [OF assms(1)] show ?thesis by blast
next
  case (Failed w1 v1 e')
  then have "view w1 = view w" "inv w1"
    using check_touch [OF assms(1)] by fastforce+
  with Failed Put_fail [of w1 v1 w' e'] show ?thesis by simp
qed simp

lemma lifecycle_Get_keeps:
  "inv w \<Longrightarrow> inv (fst (LifecycleStore_Get s store w i))"
  "clock_kept w (fst (LifecycleStore_Get s store w i))"
  using check_inv [of w s i] check_clock [of w s i] keeps_inv(2) keeps_clock(2)
  by (auto simp: LifecycleStore_Get_def LifecycleStore_Get_touch_def
      split: prod.splits get_progress.splits option.splits)
    (metis clock_kept_trans fst_conv keeps_inv(2) keeps_clock(2))+

text \<open>The lifecycle wrapper of a base store meets the contract of clients.\<close>

lemma lifecycle_contract: "session_store_contract (LifecycleStore s store) view inv"
proof
  fix w v w'
  assume "inv w" "ss_Put (LifecycleStore s store) w v = (w', None)"
  then show "\<exists>v'. view w' = (view w)(sess_ID v \<mapsto> v') \<and> principal_of v' = principal_of v"
    using Put_exact [OF Now_inv, of w "lifecycle_normalize s (cur w) v" w']
    by (auto simp: LifecycleStore_def LifecycleStore_Put_def Now_eq view_ticks intro: exI)
next
  fix w v w' e
  assume "inv w" "ss_Put (LifecycleStore s store) w v = (w', Some e)"
  then show "view w' = view w"
    using Put_fail [OF Now_inv, of w "lifecycle_normalize s (cur w) v" w' e]
    by (simp add: LifecycleStore_def LifecycleStore_Put_def Now_eq view_ticks)
next
  fix w v
  show "clock_kept w (fst (ss_Put (LifecycleStore s store) w v))"
    using keeps_clock(2) clock_kept_Now [of w] clock_kept_trans
    by (simp add: LifecycleStore_def LifecycleStore_Put_def Now_eq) blast
qed (simp_all add: LifecycleStore_def LifecycleStore_Put_def LifecycleStore_Delete_def Now_eq
    lifecycle_Get_found lifecycle_Get_missed lifecycle_Get_keeps Delete_exact Delete_fail
    keeps_inv keeps_clock view_ticks)

end

text \<open>A base store meets the contract of clients.\<close>

sublocale exact_session_store \<subseteq> base: session_store_contract store view inv
proof
  fix w i w' v
  assume "inv w" "ss_Get store w i = (w', Inr v)"
  then show "\<exists>v0. view w i = Some v0 \<and> principal_of v = principal_of v0 \<and>
           sess_ExpiresAt v = sess_ExpiresAt v0 \<and> sess_CreatedAt v = sess_CreatedAt v0 \<and>
           live (cur w) v \<and> view w' = (view w)(i \<mapsto> v)"
    using Get_exact by (auto simp: fun_upd_idem)
next
  fix w v w'
  assume "inv w" "ss_Put store w v = (w', None)"
  then show "\<exists>v'. view w' = (view w)(sess_ID v \<mapsto> v') \<and> principal_of v' = principal_of v"
    using Put_exact by blast
qed (rule Get_miss Put_fail Delete_exact Delete_fail keeps_inv keeps_clock view_ticks; assumption)+

section \<open>The in-memory store and its lifecycle wrapper\<close>

lemmas memory_defs =
  MemoryStore_def MemoryStore_Get_def MemoryStore_Put_def MemoryStore_Delete_def

lemma keyed_simps [simp]:
  "keyed m \<Longrightarrow> keyed (m(i := None))" "keyed m \<Longrightarrow> keyed (m(sess_ID v \<mapsto> v))"
  by (auto simp: keyed_def)

interpretation mem: exact_session_store MemoryStore sessions "\<lambda>w. keyed (sessions w)"
  by unfold_locales
    (auto simp: memory_defs live_def Now_eq go_time Let_def clock_kept_def
      split: option.splits if_splits)

interpretation life: session_store_contract "LifecycleStore s MemoryStore" sessions
  "\<lambda>w. keyed (sessions w)" for s
  by (rule mem.lifecycle_contract)

text \<open>A read of the in-memory store: the world after it and the decision.\<close>

definition base_world :: "'z session_world_scheme \<Rightarrow> string \<Rightarrow> 'z session_world_scheme" where
  "base_world w i = fst (MemoryStore_Get w i)"

lemma memory_Get_iff:
  "snd (MemoryStore_Get w i) =
     (case sessions w i of
        None \<Rightarrow> Inl ErrSessionNotFound
      | Some v \<Rightarrow> if live (cur w) v then Inr v else Inl ErrSessionNotFound)"
  by (auto simp: memory_defs live_def Now_eq go_time Let_def split: option.splits)

lemma memory_Get_removes:
  "snd (MemoryStore_Get w i) = Inl e \<Longrightarrow> sessions (base_world w i) i = None"
  by (auto simp: base_world_def memory_defs Now_eq Let_def split: option.splits if_splits)

lemma base_world_sessions:
  "snd (MemoryStore_Get w i) = Inr v \<Longrightarrow> sessions (base_world w i) = sessions w"
  by (auto simp: base_world_def memory_defs Now_eq Let_def split: option.splits if_splits)

lemma base_world_clock: "clock_kept w (base_world w i)"
  using mem.keeps_clock(1) [of w i] by (simp add: base_world_def MemoryStore_def)

text \<open>The decision of a lifecycle read over the in-memory store.\<close>

lemma lifecycle_Get_result:
  "snd (LifecycleStore_Get s MemoryStore w i) =
     (case sessions w i of
        None \<Rightarrow> Inl ErrSessionNotFound
      | Some v \<Rightarrow>
          let now = cur (base_world w i)
          in if \<not> live (cur w) v \<or> lifetime_over s v now \<or> idle_over s v now
             then Inl ErrSessionNotFound
             else if touch_due s v now then Inr (v\<lparr>sess_LastSeen := now\<rparr>) else Inr v)"
proof (cases "snd (MemoryStore_Get w i)")
  case (Inl e)
  then show ?thesis
    using memory_Get_iff [of w i]
    by (cases "MemoryStore_Get w i")
      (auto simp: LifecycleStore_Get_def LifecycleStore_Get_check_def LifecycleStore_Get_touch_def
        MemoryStore_def split: option.splits if_splits)
next
  case (Inr v)
  then have "sessions w i = Some v" "live (cur w) v"
    using memory_Get_iff [of w i] by (auto split: option.splits if_splits)
  with Inr show ?thesis
    by (cases "MemoryStore_Get w i")
      (auto simp: LifecycleStore_Get_def LifecycleStore_Get_check_def LifecycleStore_Get_touch_def
        MemoryStore_def MemoryStore_Put_def Let_def Now_eq base_world_def)
qed

text \<open>A refused read leaves nothing of the session in the store.\<close>

lemma lifecycle_Get_refused:
  assumes "snd (LifecycleStore_Get s MemoryStore w i) = Inl e"
  shows "sessions (fst (LifecycleStore_Get s MemoryStore w i)) i = None"
proof (cases "snd (MemoryStore_Get w i)")
  case (Inl e')
  then show ?thesis
    using memory_Get_removes [OF Inl]
    by (cases "MemoryStore_Get w i")
      (auto simp: LifecycleStore_Get_def LifecycleStore_Get_check_def LifecycleStore_Get_touch_def
        MemoryStore_def base_world_def)
next
  case (Inr v)
  with assms show ?thesis
    by (cases "MemoryStore_Get w i")
      (auto simp: LifecycleStore_Get_def LifecycleStore_Get_check_def LifecycleStore_Get_touch_def
        MemoryStore_def MemoryStore_Put_def MemoryStore_Delete_def Let_def Now_eq
        split: if_splits)
qed

text \<open>
  The absolute cap as an invariant of a stored session: it was created at \<open>c\<close> and does not outlive
  \<open>c\<close> plus the maximal lifetime. Reads, deletions, pauses and writes of other sessions keep it.
\<close>

definition capped :: "duration \<Rightarrow> time \<Rightarrow> session option \<Rightarrow> bool" where
  "capped m c x \<longleftrightarrow>
     (\<forall>v. x = Some v \<longrightarrow> sess_CreatedAt v = c \<and>
        (if IsZero (sess_ExpiresAt v) then \<not> IsZero c else sess_ExpiresAt v \<le> c + m))"

lemma capped_None [simp]: "capped m c None"
  by (simp add: capped_def)

lemma capped_step:
  assumes "keyed (sessions w)" "capped m c (sessions w i)" "\<not> writes_session i x"
  shows "capped m c (sessions (store_step (LifecycleStore s MemoryStore) w x) i)"
proof (cases x)
  case (OpGet j)
  obtain w' r where r: "ss_Get (LifecycleStore s MemoryStore) w j = (w', r)" by fastforce
  show ?thesis
  proof (cases r)
    case (Inl e)
    with r life.Get_missed [OF assms(1), of s j w' e] assms show ?thesis by (auto simp: OpGet)
  next
    case (Inr v)
    with r life.Get_found [OF assms(1), of s j w' v] assms show ?thesis
      by (cases "i = j") (auto simp: OpGet capped_def)
  qed
next
  case (OpPut v)
  with assms(2,3) show ?thesis
    by (auto simp: LifecycleStore_def LifecycleStore_Put_def memory_defs Now_eq)
next
  case (OpDelete j)
  with assms(2) show ?thesis
    by (auto simp: LifecycleStore_def LifecycleStore_Delete_def memory_defs)
next
  case (OpPause n)
  with assms(2) show ?thesis by simp
qed

lemma capped_run:
  "keyed (sessions w) \<Longrightarrow> capped m c (sessions w i) \<Longrightarrow> \<not> list_ex (writes_session i) xs \<Longrightarrow>
   capped m c (sessions (store_run (LifecycleStore s MemoryStore) w xs) i)"
proof (induction xs arbitrary: w)
  case (Cons x xs)
  then show ?case by (simp add: capped_step life.inv_step)
qed simp

lemma normalize_capped:
  assumes "0 < lc_MaxLifetime s"
  shows "capped (lc_MaxLifetime s) (sess_CreatedAt (lifecycle_normalize s now v))
     (Some (lifecycle_normalize s now v))"
  using assms by (auto simp: capped_def lifecycle_normalize_def Let_def go_time)

text \<open>A capped session is refused from the end of its lifetime on.\<close>

lemma capped_refused:
  assumes "0 < lc_MaxLifetime s" "clock_ok w" "capped (lc_MaxLifetime s) c (sessions w i)"
    and "c + lc_MaxLifetime s \<le> cur w"
  shows "snd (LifecycleStore_Get s MemoryStore w i) = Inl ErrSessionNotFound"
proof -
  have "cur w \<le> cur (base_world w i)"
    using clock_kept_cur [OF assms(2) base_world_clock] .
  with assms show ?thesis
    by (auto simp: lifecycle_Get_result capped_def live_def lifetime_over_def go_time Let_def
        split: option.split if_splits)
qed

text \<open>The touch interval bounds how stale \<^verbatim>\<open>LastSeen\<close> can be after a successful read.\<close>

lemma touch_interval_pos: "0 < touch_interval s"
  by (simp add: touch_interval_def)

lemma touch_freshness:
  assumes "snd (LifecycleStore_Get s MemoryStore w i) = Inr v"
    and "0 < lc_IdleTimeout s" and "touch_interval s < 2 ^ 63"
  shows "cur (base_world w i) - sess_LastSeen v < touch_interval s"
  using assms touch_interval_pos [of s]
  by (auto simp: lifecycle_Get_result touch_due_def Time_Sub_less_iff not_le Let_def
      split: option.splits if_splits)

lemma lifecycle_Get_stored:
  assumes "keyed (sessions w)" "LifecycleStore_Get s MemoryStore w i = (w1, Inr v)"
  shows "sessions w1 i = Some v"
  using life.Get_found [OF assms(1), of s i w1 v] assms(2) by (auto simp: LifecycleStore_def)

text \<open>An operation that does not concern a session leaves it alone or deletes it.\<close>

lemma unconcerned_step:
  assumes "keyed (sessions w)" "\<not> concerns_session i x"
    and st: "st = LifecycleStore s MemoryStore"
  shows "sessions (store_step st w x) i \<in> {sessions w i, None}"
proof (cases x)
  case (OpGet j)
  obtain w' r where r: "ss_Get st w j = (w', r)" by fastforce
  with assms life.Get_missed [OF assms(1), of s j w'] life.Get_found [OF assms(1), of s j w']
  show ?thesis by (cases r) (fastforce simp: OpGet)+
qed (use assms in \<open>auto simp: LifecycleStore_def LifecycleStore_Put_def LifecycleStore_Delete_def
    memory_defs Now_eq\<close>)

lemma unconcerned_run:
  "keyed (sessions w) \<Longrightarrow> \<not> list_ex (concerns_session i) xs \<Longrightarrow>
   sessions (store_run (LifecycleStore s MemoryStore) w xs) i \<in> {sessions w i, None}"
proof (induction xs arbitrary: w)
  case (Cons x xs)
  let ?w = "store_step (LifecycleStore s MemoryStore) w x"
  have "sessions (store_run (LifecycleStore s MemoryStore) ?w xs) i \<in> {sessions ?w i, None}"
    using Cons.prems life.inv_step by (intro Cons.IH) simp_all
  moreover have "sessions ?w i \<in> {sessions w i, None}"
    using Cons.prems unconcerned_step [OF _ _ refl, of w i x s] by simp
  ultimately show ?case by auto
qed simp

lemma MemoryStore_sel [simp]:
  "ss_Get MemoryStore = MemoryStore_Get" "ss_Put MemoryStore = MemoryStore_Put"
  "ss_Delete MemoryStore = MemoryStore_Delete"
  by (simp_all add: MemoryStore_def)

lemma LifecycleStore_sel [simp]:
  "ss_Get (LifecycleStore s st) = LifecycleStore_Get s st"
  "ss_Put (LifecycleStore s st) = LifecycleStore_Put s st"
  "ss_Delete (LifecycleStore s st) = LifecycleStore_Delete st"
  by (simp_all add: LifecycleStore_def)

section \<open>Properties\<close>

text \<open>
  C2. The maximal lifetime is an absolute cap: once a session has been written through the
  lifecycle store, no sequence of later reads (each of which may refresh \<^verbatim>\<open>LastSeen\<close>), deletions,
  pauses and writes of other sessions makes it readable at or after its creation time plus
  \<^verbatim>\<open>MaxLifetime\<close>; the refusing read also removes it.
\<close>

theorem absolute_lifetime_cap:
  assumes "0 < lc_MaxLifetime s" and "keyed (sessions w)" and "clock_ok w"
    and put: "LifecycleStore_Put s MemoryStore w v = (w1, None)"
    and "\<not> list_ex (writes_session (sess_ID v)) xs"
    and w2: "w2 = store_run (LifecycleStore s MemoryStore) w1 xs"
    and late: "sess_CreatedAt (lifecycle_normalize s (cur w) v) + lc_MaxLifetime s \<le> cur w2"
  shows "snd (LifecycleStore_Get s MemoryStore w2 (sess_ID v)) = Inl ErrSessionNotFound \<and>
     sessions (fst (LifecycleStore_Get s MemoryStore w2 (sess_ID v))) (sess_ID v) = None"
proof -
  let ?c = "sess_CreatedAt (lifecycle_normalize s (cur w) v)"
  have w1: "sessions w1 = (sessions w)(sess_ID v \<mapsto> lifecycle_normalize s (cur w) v)"
    "clock_kept w w1"
    using put by (auto simp: LifecycleStore_Put_def memory_defs Now_eq clock_kept_def)
  then have keyed1: "keyed (sessions w1)"
    using keyed_simps(2) [OF assms(2), of "lifecycle_normalize s (cur w) v"] by simp
  have "capped (lc_MaxLifetime s) ?c (sessions w1 (sess_ID v))"
    using normalize_capped [OF assms(1)] w1 by simp
  then have "capped (lc_MaxLifetime s) ?c (sessions w2 (sess_ID v))"
    using capped_run [OF keyed1] assms(5) w2 by blast
  moreover have "clock_ok w2"
    using w1(2) w2 assms(3) life.clock_run [of w1] clock_kept_ok clock_kept_trans by blast
  ultimately have "snd (LifecycleStore_Get s MemoryStore w2 (sess_ID v)) = Inl ErrSessionNotFound"
    using capped_refused [OF assms(1)] late by blast
  then show ?thesis by (simp add: lifecycle_Get_refused)
qed

lemma demo_clock_ok [simp]: "clock_ok demo_world"
  by (simp add: clock_ok_def demo_world_def demo_clock_def mono_def)

lemmas demo_eval =
  demo_world_def demo_lifecycle_def demo_session_def demo_clock_def cur_def
  LifecycleStore_def LifecycleStore_Put_def LifecycleStore_Get_def LifecycleStore_Get_check_def
  LifecycleStore_Get_touch_def LifecycleStore_Delete_def lifecycle_normalize_def
  lifetime_over_def idle_over_def touch_due_def touch_interval_def
  memory_defs Now_eq Let_def go_time Time_Sub_def live_def base_world_def

lemma demo_session_ID: "sess_ID demo_session = ''s1''"
  by (simp add: demo_session_def)

theorem absolute_lifetime_cap_witness:
  "let st = LifecycleStore demo_lifecycle MemoryStore;
       w1 = fst (LifecycleStore_Put demo_lifecycle MemoryStore demo_world demo_session);
       w2 = store_run st w1 [OpPause 60, OpGet ''s1'', OpPause 28800]
   in is_ok (snd (LifecycleStore_Get demo_lifecycle MemoryStore w1 ''s1'')) \<and>
      snd (LifecycleStore_Get demo_lifecycle MemoryStore w2 ''s1'') = Inl ErrSessionNotFound"
proof -
  let ?w1 = "fst (LifecycleStore_Put demo_lifecycle MemoryStore demo_world demo_session)"
  let ?xs = "[OpPause 60, OpGet ''s1'', OpPause 28800]"
  let ?w2 = "store_run (LifecycleStore demo_lifecycle MemoryStore) ?w1 ?xs"
  have "snd (LifecycleStore_Get demo_lifecycle MemoryStore ?w2 (sess_ID demo_session)) =
      Inl ErrSessionNotFound"
  proof (rule conjunct1 [OF absolute_lifetime_cap])
    show "0 < lc_MaxLifetime demo_lifecycle" by (simp add: demo_lifecycle_def)
    show "keyed (sessions demo_world)" by (simp add: keyed_def demo_world_def)
    show "clock_ok demo_world" by simp
    show "LifecycleStore_Put demo_lifecycle MemoryStore demo_world demo_session = (?w1, None)"
      by (simp add: LifecycleStore_Put_def memory_defs Now_eq)
    show "\<not> list_ex (writes_session (sess_ID demo_session)) ?xs" by simp
    show "?w2 = ?w2" ..
    show "sess_CreatedAt (lifecycle_normalize demo_lifecycle (cur demo_world) demo_session) +
        lc_MaxLifetime demo_lifecycle \<le> cur ?w2"
      by (simp add: demo_eval)
  qed
  moreover have "is_ok (snd (LifecycleStore_Get demo_lifecycle MemoryStore ?w1 ''s1''))"
    by (simp add: demo_eval)
  ultimately show ?thesis
    by (simp only: Let_def demo_session_ID simp_thms)
qed

text \<open>
  C3. The idle timeout ends a session: after a successful read, if no request reads or writes the
  session for \<^verbatim>\<open>IdleTimeout\<close> after the recorded \<^verbatim>\<open>LastSeen\<close> (whatever happens to other sessions
  meanwhile), the next read is refused and the session is removed from the store.
\<close>

theorem idle_session_ends:
  assumes "0 < lc_IdleTimeout s" and "keyed (sessions w)" and "clock_ok w"
    and get: "LifecycleStore_Get s MemoryStore w i = (w1, Inr v)"
    and "\<not> list_ex (concerns_session i) xs"
    and w2: "w2 = store_run (LifecycleStore s MemoryStore) w1 xs"
    and late: "\<not> IsZero (sess_LastSeen v)" "sess_LastSeen v + lc_IdleTimeout s \<le> cur w2"
  shows "snd (LifecycleStore_Get s MemoryStore w2 i) = Inl ErrSessionNotFound \<and>
     sessions (fst (LifecycleStore_Get s MemoryStore w2 i)) i = None"
proof -
  have keyed1: "keyed (sessions w1)" and "clock_kept w w1"
    using mem.lifecycle_Get_keeps [where w = w and s = s and i = i] assms(2) get by simp_all
  then have "clock_ok w2"
    using w2 assms(3) life.clock_run [of w1] clock_kept_ok clock_kept_trans by blast
  then have "cur w2 \<le> cur (base_world w2 i)"
    using clock_kept_cur base_world_clock by blast
  moreover have "sessions w2 i \<in> {Some v, None}"
    using unconcerned_run [OF keyed1 assms(5), of s] lifecycle_Get_stored [OF assms(2) get] w2
    by simp
  ultimately have "snd (LifecycleStore_Get s MemoryStore w2 i) = Inl ErrSessionNotFound"
    using assms(1) late by (auto simp: lifecycle_Get_result idle_over_def go_time Let_def)
  then show ?thesis by (simp add: lifecycle_Get_refused)
qed

theorem idle_session_ends_witness:
  "let w1 = fst (LifecycleStore_Put demo_lifecycle MemoryStore demo_world demo_session);
       w2 = fst (LifecycleStore_Get demo_lifecycle MemoryStore w1 ''s1'');
       w3 = store_run (LifecycleStore demo_lifecycle MemoryStore) w2 [OpPause 1800]
   in snd (LifecycleStore_Get demo_lifecycle MemoryStore w3 ''s1'') = Inl ErrSessionNotFound"
proof -
  let ?w1 = "fst (LifecycleStore_Put demo_lifecycle MemoryStore demo_world demo_session)"
  let ?w2 = "fst (LifecycleStore_Get demo_lifecycle MemoryStore ?w1 ''s1'')"
  let ?v = "lifecycle_normalize demo_lifecycle (cur demo_world) demo_session"
  have "snd (LifecycleStore_Get demo_lifecycle MemoryStore
      (store_run (LifecycleStore demo_lifecycle MemoryStore) ?w2 [OpPause 1800]) ''s1'') =
      Inl ErrSessionNotFound"
  proof (rule conjunct1 [OF idle_session_ends])
    show "0 < lc_IdleTimeout demo_lifecycle" by (simp add: demo_eval)
    show "keyed (sessions ?w1)" by (simp add: demo_eval keyed_def)
    show "clock_ok ?w1" using demo_clock_ok by (simp add: LifecycleStore_Put_def memory_defs Now_eq
        clock_ok_def)
    show "LifecycleStore_Get demo_lifecycle MemoryStore ?w1 ''s1'' = (?w2, Inr ?v)"
      by (simp add: demo_eval)
    show "\<not> list_ex (concerns_session ''s1'') [OpPause 1800]" by simp
    show "store_run (LifecycleStore demo_lifecycle MemoryStore) ?w2 [OpPause 1800] =
      store_run (LifecycleStore demo_lifecycle MemoryStore) ?w2 [OpPause 1800]" ..
    show "\<not> IsZero (sess_LastSeen ?v)" by (simp add: demo_eval)
    show "sess_LastSeen ?v + lc_IdleTimeout demo_lifecycle
      \<le> cur (store_run (LifecycleStore demo_lifecycle MemoryStore) ?w2 [OpPause 1800])"
      by (simp add: demo_eval)
  qed
  then show ?thesis by (simp only: Let_def)
qed

text \<open>
  An active user is not logged out by the idle timeout: with a touch interval within the idle
  timeout (what the configuration check demands), a read that comes within \<^verbatim>\<open>IdleTimeout\<close> minus
  \<^verbatim>\<open>TouchInterval\<close> of a successful one succeeds again, unless the session has expired or reached
  its absolute lifetime; the lazily written \<^verbatim>\<open>LastSeen\<close> never loses more than a touch interval.
\<close>

theorem active_session_kept:
  assumes "keyed (sessions w)"
    and "touch_interval s \<le> lc_IdleTimeout s" and "lc_IdleTimeout s < 2 ^ 63"
    and get: "LifecycleStore_Get s MemoryStore w i = (w1, Inr v)"
    and w2: "w2 = w1\<lparr>ticks := ticks w1 + n\<rparr>"
    and soon: "cur (base_world w2 i) \<le> cur (base_world w i) + (lc_IdleTimeout s - touch_interval s)"
    and "live (cur w2) v" and "\<not> lifetime_over s v (cur (base_world w2 i))"
  shows "is_ok (snd (LifecycleStore_Get s MemoryStore w2 i))"
proof -
  have "cur (base_world w i) - sess_LastSeen v < touch_interval s"
    using touch_freshness [of s w i v] get assms(2,3) touch_interval_pos [of s] by simp
  with soon have "\<not> idle_over s v (cur (base_world w2 i))"
    by (auto simp: idle_over_def go_time)
  moreover have "sessions w2 i = Some v"
    using lifecycle_Get_stored [OF assms(1) get] w2 by simp
  ultimately show ?thesis
    using assms(7,8) by (simp add: lifecycle_Get_result Let_def)
qed

theorem active_session_kept_witness:
  "let w1 = fst (LifecycleStore_Put demo_lifecycle MemoryStore demo_world demo_session);
       w2 = fst (LifecycleStore_Get demo_lifecycle MemoryStore w1 ''s1'')
   in is_ok (snd (LifecycleStore_Get demo_lifecycle MemoryStore
        (w2\<lparr>ticks := ticks w2 + 1700\<rparr>) ''s1''))"
proof -
  let ?w1 = "fst (LifecycleStore_Put demo_lifecycle MemoryStore demo_world demo_session)"
  let ?w2 = "fst (LifecycleStore_Get demo_lifecycle MemoryStore ?w1 ''s1'')"
  let ?v = "lifecycle_normalize demo_lifecycle (cur demo_world) demo_session"
  let ?w3 = "?w2\<lparr>ticks := ticks ?w2 + 1700\<rparr>"
  have "is_ok (snd (LifecycleStore_Get demo_lifecycle MemoryStore ?w3 ''s1''))"
  proof (rule active_session_kept)
    show "keyed (sessions ?w1)" by (simp add: demo_eval keyed_def)
    show "touch_interval demo_lifecycle \<le> lc_IdleTimeout demo_lifecycle"
      "lc_IdleTimeout demo_lifecycle < 2 ^ 63" by (simp_all add: demo_eval)
    show "LifecycleStore_Get demo_lifecycle MemoryStore ?w1 ''s1'' = (?w2, Inr ?v)"
      by (simp add: demo_eval)
    show "?w3 = ?w3" ..
    show "cur (base_world ?w3 ''s1'') \<le> cur (base_world ?w1 ''s1'') +
        (lc_IdleTimeout demo_lifecycle - touch_interval demo_lifecycle)"
      "live (cur ?w3) ?v" "\<not> lifetime_over demo_lifecycle ?v (cur (base_world ?w3 ''s1''))"
      by (simp_all add: demo_eval)
  qed
  then show ?thesis by (simp only: Let_def)
qed

text \<open>
  Logout is effective for requests that do not overlap it: after a successful deletion, no
  sequence of store operations that does not write the session again makes a read of it succeed.
\<close>

theorem deleted_session_stays_deleted:
  assumes "keyed (sessions w)" and "LifecycleStore_Delete MemoryStore w i = (w1, None)"
    and "\<not> list_ex (writes_session i) xs"
  shows "\<not> is_ok (snd (LifecycleStore_Get s MemoryStore
           (store_run (LifecycleStore s MemoryStore) w1 xs) i))"
  using life.deleted_stays_deleted [OF assms(1), of s i w1 xs] assms(2,3)
  by (simp add: LifecycleStore_def)

theorem deleted_session_stays_deleted_witness:
  "let w1 = fst (LifecycleStore_Put demo_lifecycle MemoryStore demo_world demo_session);
       w2 = fst (LifecycleStore_Delete MemoryStore w1 ''s1'')
   in is_ok (snd (LifecycleStore_Get demo_lifecycle MemoryStore w1 ''s1'')) \<and>
      \<not> is_ok (snd (LifecycleStore_Get demo_lifecycle MemoryStore
          (store_run (LifecycleStore demo_lifecycle MemoryStore) w2 [OpGet ''s1'']) ''s1''))"
proof -
  let ?w1 = "fst (LifecycleStore_Put demo_lifecycle MemoryStore demo_world demo_session)"
  let ?w2 = "fst (LifecycleStore_Delete MemoryStore ?w1 ''s1'')"
  have "\<not> is_ok (snd (LifecycleStore_Get demo_lifecycle MemoryStore
      (store_run (LifecycleStore demo_lifecycle MemoryStore) ?w2 [OpGet ''s1'']) ''s1''))"
  proof (rule deleted_session_stays_deleted)
    show "keyed (sessions ?w1)" by (simp add: demo_eval keyed_def)
    show "LifecycleStore_Delete MemoryStore ?w1 ''s1'' = (?w2, None)"
      by (simp add: LifecycleStore_Delete_def memory_defs)
    show "\<not> list_ex (writes_session ''s1'') [OpGet ''s1'']" by simp
  qed
  moreover have "is_ok (snd (LifecycleStore_Get demo_lifecycle MemoryStore ?w1 ''s1''))"
    by (simp add: demo_eval)
  ultimately show ?thesis by (simp only: Let_def simp_thms)
qed

text \<open>
  The write-back of \<^verbatim>\<open>LastSeen\<close> is not atomic with the read: when a request has read a session
  and is about to refresh \<^verbatim>\<open>LastSeen\<close>, and the session is deleted (logged out) before the
  write-back, the write-back stores the session again and the request succeeds.
\<close>

theorem touch_restores_deleted_session:
  assumes "keyed (sessions w)" and "LifecycleStore_Get_check s MemoryStore w i = (w1, GetTouch v)"
    and "LifecycleStore_Delete MemoryStore w1 i = (w2, None)"
  shows "sessions w2 i = None \<and>
     (\<exists>w3. LifecycleStore_Get_touch MemoryStore w2 (GetTouch v) = (w3, Inr v) \<and> sessions w3 i = Some v)"
proof -
  have "sess_ID v = i" using mem.check_touch [OF assms(1,2)] by blast
  with assms(3) show ?thesis
    by (auto simp: LifecycleStore_Delete_def LifecycleStore_Get_touch_def memory_defs)
qed

theorem touch_restores_deleted_session_witness:
  "let w1 = fst (LifecycleStore_Put demo_lifecycle MemoryStore demo_world demo_session);
       c = LifecycleStore_Get_check demo_lifecycle MemoryStore (w1\<lparr>ticks := 120\<rparr>) ''s1'';
       w3 = fst (LifecycleStore_Delete MemoryStore (fst c) ''s1'');
       w4 = fst (LifecycleStore_Get_touch MemoryStore w3 (snd c))
   in sessions w3 ''s1'' = None \<and> sessions w4 ''s1'' \<noteq> None \<and>
      is_ok (snd (LifecycleStore_Get demo_lifecycle MemoryStore w4 ''s1''))"
proof -
  let ?w1 = "fst (LifecycleStore_Put demo_lifecycle MemoryStore demo_world demo_session)\<lparr>ticks := 120\<rparr>"
  let ?c = "LifecycleStore_Get_check demo_lifecycle MemoryStore ?w1 ''s1''"
  let ?v = "(lifecycle_normalize demo_lifecycle (cur demo_world) demo_session)
    \<lparr>sess_LastSeen := demo_clock 121\<rparr>"
  let ?w3 = "fst (LifecycleStore_Delete MemoryStore (fst ?c) ''s1'')"
  have c: "snd ?c = GetTouch ?v" by (simp add: demo_eval)
  have "sessions ?w3 ''s1'' = None \<and> (\<exists>w4. LifecycleStore_Get_touch MemoryStore ?w3 (GetTouch ?v) =
      (w4, Inr ?v) \<and> sessions w4 ''s1'' = Some ?v)"
  proof (rule touch_restores_deleted_session)
    show "keyed (sessions ?w1)" by (simp add: demo_eval keyed_def)
    show "?c = (fst ?c, GetTouch ?v)" by (simp add: prod_eq_iff c)
    show "LifecycleStore_Delete MemoryStore (fst ?c) ''s1'' = (?w3, None)"
      by (simp add: LifecycleStore_Delete_def memory_defs)
  qed
  then have "sessions ?w3 ''s1'' = None"
    "sessions (fst (LifecycleStore_Get_touch MemoryStore ?w3 (snd ?c))) ''s1'' \<noteq> None"
    unfolding c by auto
  moreover have "is_ok (snd (LifecycleStore_Get demo_lifecycle MemoryStore
      (fst (LifecycleStore_Get_touch MemoryStore ?w3 (snd ?c))) ''s1''))"
    unfolding c by (simp add: demo_eval)
  ultimately show ?thesis
    unfolding Let_def by blast
qed

end
