(* ===== verification/Token.thy ===== *)
theory Token
  imports Session
begin

text \<open>
  The server-side OAuth tokens (\<^verbatim>\<open>internal/token\<close>): the token set, the interface \<^verbatim>\<open>Store\<close> and its
  in-memory implementation, the refresh lock, and \<^verbatim>\<open>StoreManager\<close>, which hands out access tokens and
  refreshes them under the lock. \<^verbatim>\<open>AccessToken\<close> is written as the composition of the stretches of
  code between its interleaving points, so that the same stretches serve the sequential function and
  the step relation of many requests in \<open>TokenConcurrency\<close>.
\<close>

section \<open>Definitions\<close>

subsection \<open>Token sets and stores (store.go)\<close>

record token_set =
  ts_AccessToken :: string
  ts_RefreshToken :: string
  ts_IDToken :: string
  ts_ExpiryUnix :: int

record 'w token_store =
  tk_Get :: "'w \<Rightarrow> string \<Rightarrow> 'w \<times> token_set result"
  tk_Put :: "'w \<Rightarrow> string \<Rightarrow> token_set \<Rightarrow> time \<Rightarrow> 'w \<times> goerr option"
  tk_Delete :: "'w \<Rightarrow> string \<Rightarrow> 'w \<times> goerr option"

subsection \<open>The in-memory store (memory.go)\<close>

record token_entry =
  te_Set :: token_set
  te_ExpiresAt :: time

text \<open>
  \<open>locks\<close> is the state of \<^verbatim>\<open>MemoryLocker\<close>: for each key whose semaphore exists, whether its token
  is in the channel (\<open>True\<close>: free).
\<close>

record token_world = session_world +
  tokens :: "string \<rightharpoonup> token_entry"
  locks :: "string \<rightharpoonup> bool"

definition TokenMemory_Delete ::
  "'z token_world_scheme \<Rightarrow> string \<Rightarrow> 'z token_world_scheme \<times> goerr option" where
  "TokenMemory_Delete w i = (w\<lparr>tokens := map_delete (tokens w) i\<rparr>, None)"

definition TokenMemory_Get ::
  "'z token_world_scheme \<Rightarrow> string \<Rightarrow> 'z token_world_scheme \<times> token_set result" where
  "TokenMemory_Get w i =
     (case tokens w i of
        None \<Rightarrow> (w, Inl ErrTokenNotFound)
      | Some v \<Rightarrow>
          (if IsZero (te_ExpiresAt v) then (w, Inr (te_Set v))
           else let (now, w1) = Now w
                in if \<not> After (te_ExpiresAt v) now
                   then (fst (TokenMemory_Delete w1 i), Inl ErrTokenNotFound)
                   else (w1, Inr (te_Set v))))"

definition TokenMemory_Put ::
  "'z token_world_scheme \<Rightarrow> string \<Rightarrow> token_set \<Rightarrow> time \<Rightarrow> 'z token_world_scheme \<times> goerr option" where
  "TokenMemory_Put w i v expiresAt =
     (w\<lparr>tokens := (tokens w)(i \<mapsto> \<lparr>te_Set = v, te_ExpiresAt = expiresAt\<rparr>)\<rparr>, None)"

definition TokenMemory :: "'z token_world_scheme token_store" where
  "TokenMemory = \<lparr>tk_Get = TokenMemory_Get, tk_Put = TokenMemory_Put, tk_Delete = TokenMemory_Delete\<rparr>"

subsection \<open>The refresh lock (lock.go)\<close>

text \<open>
  A locker: \<^verbatim>\<open>Lock\<close> returns once the lock is held or with an error; while it waits, other requests
  may change the world. The unlock function of the source is the second operation.
\<close>

record 'w refresh_locker =
  lk_Lock :: "'w \<Rightarrow> string \<Rightarrow> duration \<Rightarrow> 'w \<times> unit result"
  lk_Unlock :: "'w \<Rightarrow> string \<Rightarrow> 'w \<times> goerr option"

text \<open>\<^verbatim>\<open>MemoryLocker.Lock\<close> up to the \<^verbatim>\<open>select\<close>: the semaphore of the key exists from now on.\<close>

definition MemoryLocker_ensure :: "'z token_world_scheme \<Rightarrow> string \<Rightarrow> 'z token_world_scheme" where
  "MemoryLocker_ensure w key =
     (case locks w key of
        None \<Rightarrow> w\<lparr>locks := (locks w)(key \<mapsto> True)\<rparr>
      | Some _ \<Rightarrow> w)"

text \<open>
  The \<^verbatim>\<open>select\<close>: an error if the context is done, the lock if the semaphore holds a token; where
  both are ready Go picks either, where neither is the request waits (no transition).
\<close>

inductive MemoryLocker_Lock ::
  "goerr option \<Rightarrow> 'z token_world_scheme \<Rightarrow> string \<Rightarrow> 'z token_world_scheme \<times> unit result \<Rightarrow> bool" where
  lock_cancelled: "ctx = Some e \<Longrightarrow> MemoryLocker_Lock ctx w key (MemoryLocker_ensure w key, Inl e)"
| lock_taken: "locks (MemoryLocker_ensure w key) key = Some True \<Longrightarrow>
     MemoryLocker_Lock ctx w key
       ((MemoryLocker_ensure w key)\<lparr>locks := (locks (MemoryLocker_ensure w key))(key \<mapsto> False)\<rparr>, Inr ())"

inductive_simps lock_ok_iff: "MemoryLocker_Lock ctx w key (w', Inr u)"

inductive_simps lock_err_iff: "MemoryLocker_Lock ctx w key (w', Inl e)"

definition MemoryLocker_Unlock ::
  "'z token_world_scheme \<Rightarrow> string \<Rightarrow> 'z token_world_scheme \<times> goerr option" where
  "MemoryLocker_Unlock w key = (w\<lparr>locks := (locks w)(key \<mapsto> True)\<rparr>, None)"

subsection \<open>The token manager (manager.go)\<close>

record 'w store_manager =
  sm_Store :: "'w token_store option"
  sm_Sessions :: "'w session_store option"
  sm_Refresher :: "('w \<Rightarrow> string \<Rightarrow> 'w \<times> token_set result) option"
  sm_Locker :: "'w refresh_locker option"
  sm_RefreshBefore :: duration
  sm_LockTTL :: duration

definition refresh_before :: "'w store_manager \<Rightarrow> duration" where
  "refresh_before m = (if sm_RefreshBefore m \<le> 0 then 30 * Second else sm_RefreshBefore m)"

definition lockTTL :: "'w store_manager \<Rightarrow> duration" where
  "lockTTL m = (if 0 < sm_LockTTL m then sm_LockTTL m else 10 * Second)"

text \<open>\<^verbatim>\<open>needsRefresh\<close> reads the clock only for a set with an expiry.\<close>

definition stale_at :: "'w store_manager \<Rightarrow> token_set \<Rightarrow> time \<Rightarrow> bool" where
  "stale_at m ts now \<longleftrightarrow> \<not> After (time_Unix (ts_ExpiryUnix ts)) (Time_Add now (refresh_before m))"

definition needsRefresh ::
  "'z world_scheme store_manager \<Rightarrow> token_set \<Rightarrow> 'z world_scheme \<Rightarrow> bool \<times> 'z world_scheme" where
  "needsRefresh m ts w =
     (if ts_ExpiryUnix ts \<le> 0 then (False, w)
      else let (now, w1) = Now w in (stale_at m ts now, w1))"

definition sessionExpiry ::
  "'w store_manager \<Rightarrow> 'w \<Rightarrow> string \<Rightarrow> 'w \<times> time result" where
  "sessionExpiry m w sid =
     (case sm_Sessions m of
        None \<Rightarrow> (w, Inl (ErrorString ''session store is required for token refresh''))
      | Some ss \<Rightarrow>
          (case ss_Get ss w sid of
             (w1, Inl e) \<Rightarrow> (w1, Inl e)
           | (w1, Inr s) \<Rightarrow> (w1, Inr (sess_ExpiresAt s))))"

definition invalidate :: "'w store_manager \<Rightarrow> 'w token_store \<Rightarrow> 'w \<Rightarrow> string \<Rightarrow> 'w" where
  "invalidate m st w sid =
     (let w1 = fst (tk_Delete st w sid)
      in case sm_Sessions m of None \<Rightarrow> w1 | Some ss \<Rightarrow> fst (ss_Delete ss w1 sid))"

text \<open>Where a request stands in \<^verbatim>\<open>AccessToken\<close>.\<close>

datatype at_pc =
    AtLock
  | AtCall token_set
  | AtPersist token_set "token_set result"
  | AtDone "string result"

text \<open>The fast path, before the lock.\<close>

definition at_start ::
  "'z world_scheme store_manager \<Rightarrow> 'z world_scheme token_store \<Rightarrow> 'z world_scheme \<Rightarrow> string
   \<Rightarrow> 'z world_scheme \<times> at_pc" where
  "at_start m st w sid =
     (case tk_Get st w sid of
        (w1, Inl e) \<Rightarrow> (w1, AtDone (Inl e))
      | (w1, Inr current) \<Rightarrow>
          if ts_AccessToken current = [] then (w1, AtDone (Inl (ErrorString ''access token missing'')))
          else let (needs, w2) = needsRefresh m current w1
               in if \<not> needs then (w2, AtDone (Inr (ts_AccessToken current)))
                  else if ts_RefreshToken current = [] \<or> sm_Refresher m = None
                  then (w2, AtDone (Inl ErrRefreshUnavailable))
                  else (w2, AtLock))"

text \<open>The second look at the store, with the lock held.\<close>

definition at_reread ::
  "'z world_scheme store_manager \<Rightarrow> 'z world_scheme token_store \<Rightarrow> 'z world_scheme \<Rightarrow> string
   \<Rightarrow> 'z world_scheme \<times> at_pc" where
  "at_reread m st w sid =
     (case tk_Get st w sid of
        (w1, Inl e) \<Rightarrow> (w1, AtDone (Inl e))
      | (w1, Inr current) \<Rightarrow>
          let (needs, w2) = needsRefresh m current w1
          in if \<not> needs then (w2, AtDone (Inr (ts_AccessToken current)))
             else if ts_RefreshToken current = [] then (w2, AtDone (Inl ErrRefreshUnavailable))
             else (w2, AtCall current))"

text \<open>The call of the identity provider.\<close>

definition at_call ::
  "'w store_manager \<Rightarrow> 'w \<Rightarrow> token_set \<Rightarrow> 'w \<times> at_pc" where
  "at_call m w current =
     (case sm_Refresher m of
        None \<Rightarrow> (w, AtDone (Inl ErrRefreshUnavailable))
      | Some refresh \<Rightarrow>
          (case refresh w (ts_RefreshToken current) of (w1, r) \<Rightarrow> (w1, AtPersist current r)))"

text \<open>A refreshed set keeps the refresh token and the ID token that the provider did not replace.\<close>

definition merge_refreshed :: "token_set \<Rightarrow> token_set \<Rightarrow> token_set" where
  "merge_refreshed current refreshed =
     refreshed
       \<lparr>ts_RefreshToken := (if ts_RefreshToken refreshed = [] then ts_RefreshToken current
                            else ts_RefreshToken refreshed),
        ts_IDToken := (if ts_IDToken refreshed = [] then ts_IDToken current
                       else ts_IDToken refreshed)\<rparr>"

text \<open>What follows the provider's answer: invalidate, or store the new set.\<close>

definition at_persist ::
  "'z world_scheme store_manager \<Rightarrow> 'z world_scheme token_store \<Rightarrow> 'z world_scheme \<Rightarrow> string
   \<Rightarrow> token_set \<Rightarrow> token_set result \<Rightarrow> 'z world_scheme \<times> string result" where
  "at_persist m st w sid current answer =
     (case answer of
        Inl e \<Rightarrow> (invalidate m st w sid, Inl (ErrWrapped ''refresh rejected'' ErrRefreshFailed))
      | Inr refreshed \<Rightarrow>
          let (invalid, w1) =
                (if ts_AccessToken refreshed = [] then (True, w)
                 else let (now, w') = Now w in (ts_ExpiryUnix refreshed \<le> Unix now, w'))
          in if invalid
             then (invalidate m st w1 sid,
                   Inl (ErrWrapped ''invalid refreshed token set'' ErrRefreshFailed))
             else let merged = merge_refreshed current refreshed
                  in (case sessionExpiry m w1 sid of
                        (w2, Inl e) \<Rightarrow> (invalidate m st w2 sid, Inl e)
                      | (w2, Inr expiresAt) \<Rightarrow>
                          (case tk_Put st w2 sid merged expiresAt of
                             (w3, Some e) \<Rightarrow> (w3, Inl (ErrWrapped ''persist refreshed token'' e))
                           | (w3, None) \<Rightarrow> (w3, Inr (ts_AccessToken merged)))))"

text \<open>The critical section: everything between the lock and its release.\<close>

definition at_locked ::
  "'z world_scheme store_manager \<Rightarrow> 'z world_scheme token_store \<Rightarrow> 'z world_scheme \<Rightarrow> string
   \<Rightarrow> 'z world_scheme \<times> string result" where
  "at_locked m st w sid =
     (case at_reread m st w sid of
        (w1, AtCall current) \<Rightarrow>
          (case at_call m w1 current of
             (w2, AtPersist cur' answer) \<Rightarrow> at_persist m st w2 sid cur' answer
           | (w2, AtDone r) \<Rightarrow> (w2, r)
           | (w2, _) \<Rightarrow> (w2, Inl ErrRefreshUnavailable))
      | (w1, AtDone r) \<Rightarrow> (w1, r)
      | (w1, _) \<Rightarrow> (w1, Inl ErrRefreshUnavailable))"

definition refresh_key :: "string \<Rightarrow> string" where
  "refresh_key sid = ''token-refresh:'' @ sid"

definition AccessToken ::
  "'z world_scheme store_manager \<Rightarrow> 'z world_scheme \<Rightarrow> string \<Rightarrow> 'z world_scheme \<times> string result" where
  "AccessToken m w sid =
     (case sm_Store m of
        None \<Rightarrow> (w, Inl (ErrorString ''token store is not configured''))
      | Some st \<Rightarrow>
          (case at_start m st w sid of
             (w1, AtDone r) \<Rightarrow> (w1, r)
           | (w1, _) \<Rightarrow>
               (case sm_Locker m of
                  None \<Rightarrow> at_locked m st w1 sid
                | Some l \<Rightarrow>
                    (case lk_Lock l w1 (refresh_key sid) (lockTTL m) of
                       (w2, Inl e) \<Rightarrow> (w2, Inl (ErrWrapped ''acquire refresh lock'' e))
                     | (w2, Inr _) \<Rightarrow>
                         (case at_locked m st w2 sid of
                            (w3, r) \<Rightarrow> (fst (lk_Unlock l w3 (refresh_key sid)), r))))))"

subsection \<open>Vocabulary of the properties\<close>

text \<open>
  A token set without an expiry never expires; one with an expiry lives until that second, in either
  of the two comparisons the code makes.
\<close>

definition unexpired :: "token_set \<Rightarrow> time \<Rightarrow> bool" where
  "unexpired ts now \<longleftrightarrow>
     ts_ExpiryUnix ts \<le> 0 \<or> now < time_Unix (ts_ExpiryUnix ts) \<or> Unix now < ts_ExpiryUnix ts"

text \<open>No part of the manager turns the clock back.\<close>

definition clocked_manager :: "'z world_scheme store_manager \<Rightarrow> bool" where
  "clocked_manager m \<longleftrightarrow>
     (\<forall>st. sm_Store m = Some st \<longrightarrow>
        (\<forall>w i ts t. clock_kept w (fst (tk_Get st w i)) \<and> clock_kept w (fst (tk_Put st w i ts t)) \<and>
           clock_kept w (fst (tk_Delete st w i)))) \<and>
     (\<forall>ss. sm_Sessions m = Some ss \<longrightarrow>
        (\<forall>w i. clock_kept w (fst (ss_Get ss w i)) \<and> clock_kept w (fst (ss_Delete ss w i)))) \<and>
     (\<forall>rf. sm_Refresher m = Some rf \<longrightarrow> (\<forall>w rt. clock_kept w (fst (rf w rt)))) \<and>
     (\<forall>l. sm_Locker m = Some l \<longrightarrow>
        (\<forall>w k d. clock_kept w (fst (lk_Lock l w k d)) \<and> clock_kept w (fst (lk_Unlock l w k))))"

text \<open>The access token of a set that was unexpired at an instant between two worlds.\<close>

definition fresh_during :: "'z world_scheme \<Rightarrow> 'z world_scheme \<Rightarrow> string \<Rightarrow> bool" where
  "fresh_during w w' tok \<longleftrightarrow>
     (\<exists>ts now. tok = ts_AccessToken ts \<and> unexpired ts now \<and> cur w \<le> now \<and> now \<le> cur w')"

text \<open>
  What the properties ask of a locker and of a provider: waiting for the lock and calling the
  provider keep the session map well filed, releasing the lock changes no store, and the errors of
  the locker are its own.
\<close>

definition locker_frame :: "'z token_world_scheme refresh_locker \<Rightarrow> bool" where
  "locker_frame l \<longleftrightarrow>
     (\<forall>w k. tokens (fst (lk_Unlock l w k)) = tokens w \<and> sessions (fst (lk_Unlock l w k)) = sessions w) \<and>
     (\<forall>w k d. keyed (sessions w) \<longrightarrow> keyed (sessions (fst (lk_Lock l w k d)))) \<and>
     (\<forall>w k d w' e. lk_Lock l w k d = (w', Inl e) \<longrightarrow> \<not> errors_Is e ErrRefreshFailed)"

definition refresher_frame ::
  "('z token_world_scheme \<Rightarrow> string \<Rightarrow> 'z token_world_scheme \<times> token_set result) \<Rightarrow> bool" where
  "refresher_frame rf \<longleftrightarrow> (\<forall>w rt. keyed (sessions w) \<longrightarrow> keyed (sessions (fst (rf w rt))))"

section \<open>Interfaces\<close>

text \<open>
  What the token manager and the authentication service use of a token store; \<open>tview\<close> is the stored
  sets with the time at which each lapses.
\<close>

locale token_store_contract =
  fixes tstore :: "'z world_scheme token_store"
    and tview :: "'z world_scheme \<Rightarrow> string \<rightharpoonup> token_entry"
  assumes TGet_ok: "tk_Get tstore w i = (w', Inr ts) \<Longrightarrow>
      \<exists>en. tview w i = Some en \<and> te_Set en = ts \<and> tview w' = tview w"
    and TGet_err: "tk_Get tstore w i = (w', Inl e) \<Longrightarrow>
      tview w' = tview w \<or> tview w' = (tview w)(i := None)"
    and TPut_ok: "tk_Put tstore w i ts t = (w', None) \<Longrightarrow>
      tview w' = (tview w)(i \<mapsto> \<lparr>te_Set = ts, te_ExpiresAt = t\<rparr>)"
    and TPut_err: "tk_Put tstore w i ts t = (w', Some e) \<Longrightarrow> tview w' = tview w"
    and TDelete_ok: "tk_Delete tstore w i = (w', None) \<Longrightarrow> tview w' = (tview w)(i := None)"
    and TDelete_err: "tk_Delete tstore w i = (w', Some e) \<Longrightarrow> tview w' = tview w"
    and tview_ticks: "tview (w\<lparr>ticks := n\<rparr>) = tview w"

text \<open>
  A token store and a session store in one world: neither touches the other's data, and deletions
  succeed. The lemmas of the manager are proved once here.
\<close>

locale token_and_sessions =
  token_store_contract tstore tview + session_store_contract store view inv
  for tstore :: "'z world_scheme token_store" and tview
    and store :: "'z world_scheme session_store" and view and inv +
  assumes Get_tview: "tview (fst (ss_Get store w i)) = tview w"
    and Delete_tview: "tview (fst (ss_Delete store w i)) = tview w"
    and TPut_view: "view (fst (tk_Put tstore w i ts t)) = view w"
    and TDelete_view: "view (fst (tk_Delete tstore w i)) = view w"
    and TDelete_inv: "inv w \<Longrightarrow> inv (fst (tk_Delete tstore w i))"
    and TDelete_total: "snd (tk_Delete tstore w i) = None"
    and Delete_total: "snd (ss_Delete store w i) = None"
begin

lemma invalidate_removes:
  assumes "sm_Sessions m = Some store" "inv w"
  shows "tview (invalidate m tstore w sid) = (tview w)(sid := None)"
    and "view (invalidate m tstore w sid) = (view w)(sid := None)"
proof -
  let ?w1 = "fst (tk_Delete tstore w sid)"
  have 1: "tview ?w1 = (tview w)(sid := None)"
    using TDelete_ok [of w sid ?w1] TDelete_total [of w sid] by (simp add: prod_eq_iff)
  show "tview (invalidate m tstore w sid) = (tview w)(sid := None)"
    using 1 assms Delete_tview by (simp add: invalidate_def Let_def)
  have "view (fst (ss_Delete store ?w1 sid)) = (view ?w1)(sid := None)"
    using Delete_done [OF TDelete_inv [OF assms(2)], of sid sid] Delete_total [of ?w1 sid]
    by (simp add: prod_eq_iff)
  then show "view (invalidate m tstore w sid) = (view w)(sid := None)"
    using assms TDelete_view by (simp add: invalidate_def)
qed

text \<open>
  The two ways in which the code after the provider's answer can end: the set is stored with the
  session's own expiry, or tokens and session are both gone (unless only the write failed).
\<close>

lemma persist_stores:
  assumes "sm_Sessions m = Some store" "inv w"
    and ok: "at_persist m tstore w sid current answer = (w', Inr tok)"
  shows "\<exists>refreshed s. answer = Inr refreshed \<and> tok = ts_AccessToken refreshed \<and>
      Unix (cur w) < ts_ExpiryUnix refreshed \<and> view w' sid = Some s \<and>
      tview w' = (tview w)(sid \<mapsto>
        \<lparr>te_Set = merge_refreshed current refreshed, te_ExpiresAt = sess_ExpiresAt s\<rparr>) \<and>
      (\<exists>s0. view w sid = Some s0 \<and> sess_ExpiresAt s = sess_ExpiresAt s0)"
proof -
  obtain refreshed where a: "answer = Inr refreshed"
    using ok by (cases answer) (auto simp: at_persist_def)
  define w1 where "w1 = w\<lparr>ticks := Suc (ticks w)\<rparr>"
  have live: "ts_AccessToken refreshed \<noteq> []" "Unix (cur w) < ts_ExpiryUnix refreshed"
    using ok a by (auto simp: at_persist_def Now_eq Let_def split: if_splits)
  obtain w2 r where r: "ss_Get store w1 sid = (w2, r)" by fastforce
  have ok': "(case sessionExpiry m w1 sid of
       (w2, Inl e) \<Rightarrow> (invalidate m tstore w2 sid, Inl e)
     | (w2, Inr expiresAt) \<Rightarrow>
         (case tk_Put tstore w2 sid (merge_refreshed current refreshed) expiresAt of
            (w3, Some e) \<Rightarrow> (w3, Inl (ErrWrapped ''persist refreshed token'' e))
          | (w3, None) \<Rightarrow> (w3, Inr (ts_AccessToken (merge_refreshed current refreshed))))) = (w', Inr tok)"
    using ok a live by (simp add: at_persist_def Now_eq Let_def w1_def)
  then obtain s where s: "r = Inr s"
    using r assms(1) by (cases r) (auto simp: sessionExpiry_def)
  have put: "tk_Put tstore w2 sid (merge_refreshed current refreshed) (sess_ExpiresAt s) = (w', None)"
    "tok = ts_AccessToken refreshed"
    using ok' r s assms(1)
    by (auto simp: sessionExpiry_def merge_refreshed_def split: prod.splits option.splits)
  have "inv w1" "view w1 = view w" "tview w1 = tview w"
    by (simp_all add: w1_def inv_pause assms(2) view_pause tview_ticks)
  then obtain s0 where "view w sid = Some s0" "sess_ExpiresAt s = sess_ExpiresAt s0"
    "view w2 sid = Some s" "tview w2 = tview w"
    using Get_found [of w1 sid w2 s] Get_tview [of w1 sid] r s by auto
  then show ?thesis
    using a live put TPut_ok [OF put(1)] TPut_view [of w2 sid] by auto (metis fst_conv)+
qed

lemma persist_rejects:
  assumes "sm_Sessions m = Some store" "inv w"
    and bad: "case answer of Inl _ \<Rightarrow> True | Inr refreshed \<Rightarrow>
        ts_AccessToken refreshed = [] \<or> ts_ExpiryUnix refreshed \<le> Unix (cur w)"
  shows "\<exists>w' e. at_persist m tstore w sid current answer = (w', Inl e) \<and>
      errors_Is e ErrRefreshFailed \<and> tview w' sid = None \<and> view w' sid = None"
proof -
  have "inv (w\<lparr>ticks := n\<rparr>)" for n
    by (simp add: inv_pause assms(2))
  with assms show ?thesis
    by (cases answer)
      (auto simp: at_persist_def Now_eq Let_def invalidate_removes)
qed

end

section \<open>The in-memory stores meet the interfaces\<close>

lemmas token_memory_defs =
  TokenMemory_def TokenMemory_Get_def TokenMemory_Put_def TokenMemory_Delete_def

interpretation tmem: token_store_contract TokenMemory tokens
  by unfold_locales
    (auto simp: token_memory_defs Now_eq Let_def split: option.splits if_splits)

lemma memory_session_tokens [simp]:
  "tokens (fst (MemoryStore_Get w i)) = tokens w"
  "tokens (fst (MemoryStore_Put w v)) = tokens w"
  "tokens (fst (MemoryStore_Delete w i)) = tokens w"
  by (auto simp: memory_defs Now_eq Let_def split: option.splits)

lemma lifecycle_Get_tokens [simp]: "tokens (fst (LifecycleStore_Get s MemoryStore w i)) = tokens w"
proof -
  have "tokens (fst (LifecycleStore_Get_check s MemoryStore w i)) = tokens w"
    by (rule check_world [where P = "\<lambda>w'. tokens w' = tokens w"])
      (simp_all add: MemoryStore_def Now_def)
  then show ?thesis
    by (auto simp: LifecycleStore_Get_def LifecycleStore_Get_touch_def MemoryStore_def
        MemoryStore_Put_def split: prod.splits get_progress.splits)
qed

interpretation tm: token_and_sessions TokenMemory tokens "LifecycleStore s MemoryStore" sessions
  "\<lambda>w. keyed (sessions w)" for s
  by unfold_locales
    (simp_all add: LifecycleStore_Delete_def token_memory_defs MemoryStore_Delete_def)

section \<open>The token manager\<close>

lemma refresh_before_pos: "0 < refresh_before m"
  by (simp add: refresh_before_def)

lemma needsRefresh_world: "snd (needsRefresh m ts w) = w \<or> snd (needsRefresh m ts w) = snd (Now w)"
  by (simp add: needsRefresh_def Let_def split: prod.split)

lemma needsRefresh_clock: "clock_kept w (snd (needsRefresh m ts w))"
  using needsRefresh_world [of m ts w] clock_kept_Now [of w] by auto

lemma needsRefresh_fresh: "\<not> fst (needsRefresh m ts w) \<Longrightarrow> unexpired ts (cur w)"
  using refresh_before_pos [of m]
  by (auto simp: needsRefresh_def unexpired_def stale_at_def Now_eq go_time split: if_splits)

lemma fresh_during_mono:
  assumes "fresh_during w w' tok" "clock_ok v" "clock_kept v w" "clock_kept w w'" "clock_kept w' v'"
  shows "fresh_during v v' tok"
proof -
  have "cur v \<le> cur w" "cur w' \<le> cur v'"
    using clock_kept_cur clock_kept_ok clock_kept_trans assms by blast+
  with assms(1) show ?thesis unfolding fresh_during_def by force
qed

lemma fresh_duringI:
  assumes "\<not> fst (needsRefresh m ts w1)" "clock_ok w" "clock_kept w w1"
    "w2 = snd (needsRefresh m ts w1)"
  shows "fresh_during w w2 (ts_AccessToken ts)"
proof -
  have "cur w \<le> cur w1" "cur w1 \<le> cur w2"
    using assms clock_kept_cur clock_kept_ok clock_kept_trans needsRefresh_clock by blast+
  then show ?thesis
    using needsRefresh_fresh [OF assms(1)] by (auto simp: fresh_during_def)
qed

lemma needsRefresh_result:
  assumes "clock_ok w" "clock_kept w w0" "needsRefresh m ts w0 = (b, w1)"
  shows "clock_kept w w1" "\<not> b \<Longrightarrow> fresh_during w w1 (ts_AccessToken ts)"
proof -
  have parts: "fst (needsRefresh m ts w0) = b" "w1 = snd (needsRefresh m ts w0)"
    by (simp_all add: assms(3))
  show "clock_kept w w1"
    unfolding parts(2) using assms(2) needsRefresh_clock by (rule clock_kept_trans)
  show "fresh_during w w1 (ts_AccessToken ts)" if "\<not> b"
    using that unfolding parts(1) [symmetric] by (rule fresh_duringI) (fact assms(1,2) parts(2))+
qed

text \<open>Every stretch of \<^verbatim>\<open>AccessToken\<close> keeps the clock, and a token it returns was fresh.\<close>

lemma clocked_parts:
  assumes "clocked_manager m"
  shows "sm_Store m = Some st \<Longrightarrow> clock_kept w (fst (tk_Get st w i))"
    "sm_Store m = Some st \<Longrightarrow> clock_kept w (fst (tk_Put st w i ts t))"
    "sm_Store m = Some st \<Longrightarrow> clock_kept w (fst (tk_Delete st w i))"
    "sm_Sessions m = Some ss \<Longrightarrow> clock_kept w (fst (ss_Get ss w i))"
    "sm_Sessions m = Some ss \<Longrightarrow> clock_kept w (fst (ss_Delete ss w i))"
    "sm_Refresher m = Some rf \<Longrightarrow> clock_kept w (fst (rf w rt))"
    "sm_Locker m = Some l \<Longrightarrow> clock_kept w (fst (lk_Lock l w k d))"
    "sm_Locker m = Some l \<Longrightarrow> clock_kept w (fst (lk_Unlock l w k))"
  using assms by (simp_all add: clocked_manager_def)

lemma at_start_fresh:
  assumes "clocked_manager m" "sm_Store m = Some st" "clock_ok w" "at_start m st w sid = (w1, pc)"
  shows "clock_kept w w1 \<and> (\<forall>tok. pc = AtDone (Inr tok) \<longrightarrow> fresh_during w w1 tok)"
proof -
  obtain w0 r where r: "tk_Get st w sid = (w0, r)" by fastforce
  have k: "clock_kept w w0" using clocked_parts(1) [OF assms(1,2), of w sid] r by simp
  note n = needsRefresh_result [OF assms(3) k]
  show ?thesis
    using k r assms(4) by (cases r) (auto simp: at_start_def split: prod.splits if_splits dest: n)
qed

lemma at_reread_fresh:
  assumes "clocked_manager m" "sm_Store m = Some st" "clock_ok w" "at_reread m st w sid = (w1, pc)"
  shows "clock_kept w w1 \<and> (\<forall>tok. pc = AtDone (Inr tok) \<longrightarrow> fresh_during w w1 tok)"
proof -
  obtain w0 r where r: "tk_Get st w sid = (w0, r)" by fastforce
  have k: "clock_kept w w0" using clocked_parts(1) [OF assms(1,2), of w sid] r by simp
  note n = needsRefresh_result [OF assms(3) k]
  show ?thesis
    using k r assms(4) by (cases r) (auto simp: at_reread_def split: prod.splits if_splits dest: n)
qed

lemma invalidate_clock:
  assumes "clocked_manager m" "sm_Store m = Some st"
  shows "clock_kept w (invalidate m st w sid)"
  using clocked_parts(3) [OF assms, of w sid] clocked_parts(5) [OF assms(1)]
  by (auto simp: invalidate_def Let_def split: option.split intro: clock_kept_trans)

lemma sessionExpiry_clock:
  assumes "clocked_manager m"
  shows "clock_kept w (fst (sessionExpiry m w sid))"
  using clocked_parts(4) [OF assms, of _ w sid]
  by (auto simp: sessionExpiry_def split: option.split prod.split sum.split)

lemma at_persist_fresh:
  assumes "clocked_manager m" "sm_Store m = Some st" "clock_ok w"
    and eq: "at_persist m st w sid current answer = (w', r)"
  shows "clock_kept w w' \<and> (\<forall>tok. r = Inr tok \<longrightarrow> fresh_during w w' tok)"
proof (cases answer)
  case (Inl e)
  with eq invalidate_clock [OF assms(1,2), of w sid] show ?thesis
    by (auto simp: at_persist_def)
next
  case (Inr refreshed)
  let ?w1 = "w\<lparr>ticks := Suc (ticks w)\<rparr>"
  have k1: "clock_kept w ?w1" by (simp add: clock_kept_def)
  obtain w2 x where x: "sessionExpiry m ?w1 sid = (w2, x)" by fastforce
  have k2: "clock_kept w w2"
    using clock_kept_trans [OF k1 sessionExpiry_clock [OF assms(1)], of sid] x by simp
  have inv: "clock_kept w (invalidate m st v sid)" if "clock_kept w v" for v
    using clock_kept_trans [OF that invalidate_clock [OF assms(1,2)]] .
  have put: "clock_kept w w3" if "tk_Put st w2 sid ts t = (w3, y)" for ts t w3 y
    using clock_kept_trans [OF k2, of w3] clocked_parts(2) [OF assms(1,2), of w2 sid ts t] that
    by simp
  have fresh: "fresh_during w w3 (ts_AccessToken (merge_refreshed current refreshed))"
    if "Unix (cur w) < ts_ExpiryUnix refreshed" "clock_kept w w3" for w3 :: "'a world_scheme"
    using that clock_kept_cur [OF assms(3) that(2)]
    by (auto simp: fresh_during_def unexpired_def merge_refreshed_def intro!: exI [of _ refreshed] exI [of _ "cur w"])
  from eq Inr x show ?thesis
    by (auto simp: at_persist_def Now_eq Let_def split: if_splits prod.splits sum.splits option.splits
        intro: inv k1 k2 put fresh)
qed

lemma at_locked_fresh:
  assumes "clocked_manager m" "sm_Store m = Some st" "clock_ok w"
    and eq: "at_locked m st w sid = (w', r)"
  shows "clock_kept w w' \<and> (\<forall>tok. r = Inr tok \<longrightarrow> fresh_during w w' tok)"
proof -
  obtain w1 pc where pc: "at_reread m st w sid = (w1, pc)" by fastforce
  note reread = at_reread_fresh [OF assms(1-3) pc]
  show ?thesis
  proof (cases pc)
    case (AtCall current)
    obtain w2 pc2 where pc2: "at_call m w1 current = (w2, pc2)" by fastforce
    have k2: "clock_kept w w2"
      using pc2 reread clock_kept_trans [of w w1 w2] clocked_parts(6) [OF assms(1), of _ w1]
      by (auto simp: at_call_def split: option.splits prod.splits) (metis fst_conv)
    show ?thesis
    proof (cases "sm_Refresher m")
      case None
      with pc AtCall pc2 eq k2 show ?thesis
        by (auto simp: at_locked_def at_call_def)
    next
      case (Some rf)
      then obtain answer where a: "pc2 = AtPersist current answer"
        using pc2 by (auto simp: at_call_def split: prod.splits)
      have eq2: "at_persist m st w2 sid current answer = (w', r)"
        using eq pc AtCall pc2 a by (simp add: at_locked_def)
      have "clock_ok w2" using k2 clock_kept_ok assms(3) by blast
      note persist = at_persist_fresh [OF assms(1,2) this eq2]
      have "clock_kept w w'" using persist k2 clock_kept_trans by blast
      moreover have "fresh_during w w' tok" if "r = Inr tok" for tok
        using that persist fresh_during_mono [OF _ assms(3) k2, of w' tok w'] by simp
      ultimately show ?thesis by blast
    qed
  qed (use eq pc reread in \<open>auto simp: at_locked_def\<close>)
qed

text \<open>The in-memory stores fail only by not finding something.\<close>

lemma TokenMemory_Get_error: "TokenMemory_Get w i = (w', Inl e) \<Longrightarrow> e = ErrTokenNotFound"
  by (auto simp: token_memory_defs Now_eq Let_def split: option.splits if_splits)

lemma TokenMemory_Get_sessions [simp]: "sessions (fst (TokenMemory_Get w i)) = sessions w"
  by (auto simp: token_memory_defs Now_eq Let_def split: option.splits)

lemma lifecycle_Get_error:
  "LifecycleStore_Get s MemoryStore w i = (w', Inl e) \<Longrightarrow> e = ErrSessionNotFound"
  using lifecycle_Get_result [of s w i]
  by (auto simp: Let_def split: option.splits if_splits)

text \<open>The manager over the in-memory stores.\<close>

definition memory_manager :: "lifecycle \<Rightarrow> 'z token_world_scheme store_manager \<Rightarrow> bool" where
  "memory_manager s m \<longleftrightarrow>
     sm_Store m = Some TokenMemory \<and> sm_Sessions m = Some (LifecycleStore s MemoryStore) \<and>
     (\<forall>rf. sm_Refresher m = Some rf \<longrightarrow> refresher_frame rf) \<and>
     (\<forall>l. sm_Locker m = Some l \<longrightarrow> locker_frame l)"

lemma needsRefresh_sessions [simp]: "sessions (snd (needsRefresh m ts w)) = sessions w"
  using needsRefresh_world [of m ts w] by (auto simp: Now_def)

lemma needsRefresh_tokens [simp]: "tokens (snd (needsRefresh m ts w)) = tokens w"
  using needsRefresh_world [of m ts w] by (auto simp: Now_def)

lemma at_reread_call:
  assumes "at_reread m TokenMemory w sid = (w1, AtCall current)"
  shows "\<exists>en. tokens w sid = Some en \<and> te_Set en = current \<and> tokens w1 = tokens w \<and>
    sessions w1 = sessions w"
proof -
  obtain w0 r where r: "TokenMemory_Get w sid = (w0, r)" by fastforce
  with assms obtain ts where ts: "r = Inr ts"
    by (cases r) (auto simp: at_reread_def TokenMemory_def)
  then have "current = ts" "w1 = snd (needsRefresh m ts w0)"
    using assms r by (auto simp: at_reread_def TokenMemory_def split: prod.splits if_splits)
  moreover have "sessions w0 = sessions w" using TokenMemory_Get_sessions [of w sid] r by simp
  moreover have "\<exists>en. tokens w sid = Some en \<and> te_Set en = ts \<and> tokens w0 = tokens w"
    using tmem.TGet_ok [of w sid w0 ts] r ts by (simp add: TokenMemory_def)
  ultimately show ?thesis by auto
qed

lemma at_reread_error:
  assumes "at_reread m TokenMemory w sid = (w1, AtDone (Inl e))"
  shows "e = ErrTokenNotFound \<or> e = ErrRefreshUnavailable"
  using assms TokenMemory_Get_error
  by (auto simp: at_reread_def TokenMemory_def split: prod.splits sum.splits if_splits)

lemma at_start_error:
  assumes "at_start m TokenMemory w sid = (w1, AtDone (Inl e))"
  shows "\<not> errors_Is e ErrRefreshFailed"
proof -
  obtain w0 r where r: "TokenMemory_Get w sid = (w0, r)" by fastforce
  show ?thesis
  proof (cases r)
    case (Inl e')
    with r assms have "e' = ErrTokenNotFound" "e = e'"
      using TokenMemory_Get_error by (auto simp: at_start_def TokenMemory_def)
    then show ?thesis by simp
  next
    case (Inr ts)
    with r assms show ?thesis
      by (auto simp: at_start_def TokenMemory_def split: prod.splits if_splits)
  qed
qed

lemma at_start_sessions:
  assumes "at_start m TokenMemory w sid = (w1, pc)"
  shows "sessions w1 = sessions w"
proof -
  obtain w0 r where r: "TokenMemory_Get w sid = (w0, r)" by fastforce
  then have "sessions w0 = sessions w" using TokenMemory_Get_sessions [of w sid] by simp
  moreover have "w1 = w0 \<or> (\<exists>ts. w1 = snd (needsRefresh m ts w0))"
  proof (cases r)
    case (Inl e)
    with assms r show ?thesis by (auto simp: at_start_def TokenMemory_def)
  next
    case (Inr ts)
    obtain needs w2 where n: "needsRefresh m ts w0 = (needs, w2)" by fastforce
    have "w1 = w0 \<or> w1 = w2"
      using assms r Inr n by (auto simp: at_start_def TokenMemory_def split: if_splits)
    then show ?thesis using n snd_conv by metis
  qed
  ultimately show ?thesis by auto
qed

lemma persist_failed_closed:
  assumes "sm_Sessions m = Some (LifecycleStore s MemoryStore)" "keyed (sessions w)"
    and eq: "at_persist m TokenMemory w sid current answer = (w', Inl e)"
    and failed: "errors_Is e ErrRefreshFailed"
  shows "tokens w' sid = None \<and> sessions w' sid = None"
proof (cases "case answer of Inl _ \<Rightarrow> True | Inr refreshed \<Rightarrow>
    ts_AccessToken refreshed = [] \<or> ts_ExpiryUnix refreshed \<le> Unix (cur w)")
  case True
  with tm.persist_rejects [OF assms(1,2), of answer sid current] eq show ?thesis by auto
next
  case False
  then obtain refreshed where a: "answer = Inr refreshed" "ts_AccessToken refreshed \<noteq> []"
    "\<not> ts_ExpiryUnix refreshed \<le> Unix (cur w)"
    by (cases answer) auto
  then have "e = ErrSessionNotFound"
    using eq assms(1) lifecycle_Get_error
    by (auto simp: at_persist_def Now_eq Let_def sessionExpiry_def TokenMemory_def TokenMemory_Put_def
        split: prod.splits sum.splits)
  with failed show ?thesis by simp
qed

lemma at_locked_failed_closed:
  assumes "memory_manager s m" "keyed (sessions w)"
    and eq: "at_locked m TokenMemory w sid = (w', Inl e)"
    and failed: "errors_Is e ErrRefreshFailed"
  shows "tokens w' sid = None \<and> sessions w' sid = None"
proof -
  obtain w1 pc where pc: "at_reread m TokenMemory w sid = (w1, pc)" by fastforce
  obtain current where c: "pc = AtCall current"
    using pc eq failed at_reread_error [of m w sid w1]
    by (cases pc) (auto simp: at_locked_def)
  obtain rf where rf: "sm_Refresher m = Some rf"
    using pc c eq failed by (cases "sm_Refresher m") (auto simp: at_locked_def at_call_def)
  obtain w2 answer where a: "rf w1 (ts_RefreshToken current) = (w2, answer)" by fastforce
  have "keyed (sessions w1)" using at_reread_call pc c assms(2) by fastforce
  then have "keyed (sessions w2)"
    using assms(1) rf a by (auto simp: memory_manager_def refresher_frame_def) (metis fst_conv)
  moreover have "at_persist m TokenMemory w2 sid current answer = (w', Inl e)"
    using eq pc c rf a by (simp add: at_locked_def at_call_def)
  moreover have "sm_Sessions m = Some (LifecycleStore s MemoryStore)"
    using assms(1) by (simp add: memory_manager_def)
  ultimately show ?thesis
    using persist_failed_closed [of m s w2 sid current answer w' e] failed by blast
qed

text \<open>A call that succeeds leaves the stored set as it was or stores the refreshed one.\<close>

definition refreshed_entry ::
  "'z token_world_scheme \<Rightarrow> 'z token_world_scheme \<Rightarrow> string \<Rightarrow> token_entry \<Rightarrow> bool" where
  "refreshed_entry w w' sid en \<longleftrightarrow>
     (\<exists>old s0 s1. tokens w sid = Some old \<and> sessions w sid = Some s0 \<and> sessions w' sid = Some s1 \<and>
        sess_ExpiresAt s1 = sess_ExpiresAt s0 \<and> te_ExpiresAt en = sess_ExpiresAt s0 \<and>
        ts_RefreshToken (te_Set en) \<noteq> [] \<and>
        (ts_IDToken (te_Set old) \<noteq> [] \<longrightarrow> ts_IDToken (te_Set en) \<noteq> []))"

definition stores_kept :: "'z token_world_scheme \<Rightarrow> 'z token_world_scheme \<Rightarrow> bool" where
  "stores_kept w w' \<longleftrightarrow> tokens w' = tokens w \<and> sessions w' = sessions w"

text \<open>The provider and the locker leave both stores alone: no other request interferes.\<close>

definition quiet_manager :: "'z token_world_scheme store_manager \<Rightarrow> bool" where
  "quiet_manager m \<longleftrightarrow>
     (\<forall>rf. sm_Refresher m = Some rf \<longrightarrow> (\<forall>v rt. stores_kept v (fst (rf v rt)))) \<and>
     (\<forall>l. sm_Locker m = Some l \<longrightarrow>
        (\<forall>v k d. stores_kept v (fst (lk_Lock l v k d)) \<and> stores_kept v (fst (lk_Unlock l v k))))"

lemma quiet_parts:
  assumes "quiet_manager m"
  shows "sm_Refresher m = Some rf \<Longrightarrow> stores_kept v (fst (rf v rt))"
    and "sm_Locker m = Some l \<Longrightarrow> stores_kept v (fst (lk_Lock l v k d))"
    and "sm_Locker m = Some l \<Longrightarrow> stores_kept v (fst (lk_Unlock l v k))"
  using assms by (simp_all add: quiet_manager_def)

lemma TokenMemory_Get_ok:
  assumes "TokenMemory_Get w sid = (w0, Inr ts)"
  shows "\<exists>en. tokens w sid = Some en \<and> te_Set en = ts" "stores_kept w w0"
  using tmem.TGet_ok [of w sid w0 ts] TokenMemory_Get_sessions [of w sid] assms
  by (auto simp: TokenMemory_def stores_kept_def)

lemma at_reread_done:
  assumes "at_reread m TokenMemory w sid = (w1, AtDone (Inr tok))"
  shows "\<exists>en. tokens w sid = Some en \<and> ts_AccessToken (te_Set en) = tok \<and> stores_kept w w1"
proof -
  obtain w0 ts where r: "TokenMemory_Get w sid = (w0, Inr ts)" and
    e: "w1 = snd (needsRefresh m ts w0)" "tok = ts_AccessToken ts"
    using assms by (auto simp: at_reread_def TokenMemory_def split: prod.splits sum.splits if_splits)
  show ?thesis using TokenMemory_Get_ok [OF r] e by (auto simp: stores_kept_def)
qed

lemma at_start_done:
  assumes "at_start m TokenMemory w sid = (w1, pc)" "\<nexists>e. pc = AtDone (Inl e)"
  shows "\<exists>en. tokens w sid = Some en \<and> stores_kept w w1 \<and>
    (pc = AtLock \<or> pc = AtDone (Inr (ts_AccessToken (te_Set en))))"
proof -
  obtain w0 ts where r: "TokenMemory_Get w sid = (w0, Inr ts)" and
    e: "w1 = snd (needsRefresh m ts w0)" "pc = AtLock \<or> pc = AtDone (Inr (ts_AccessToken ts))"
    using assms by (auto simp: at_start_def TokenMemory_def split: prod.splits sum.splits if_splits)
  show ?thesis using TokenMemory_Get_ok [OF r] e by (auto simp: stores_kept_def)
qed

lemma persist_entry:
  assumes "sm_Sessions m = Some (LifecycleStore s MemoryStore)" "keyed (sessions w)"
    and ok: "at_persist m TokenMemory w sid (te_Set old) answer = (w', Inr tok)"
    and old: "tokens w sid = Some old" "ts_RefreshToken (te_Set old) \<noteq> []"
  shows "\<exists>en. tokens w' sid = Some en \<and> ts_AccessToken (te_Set en) = tok \<and> refreshed_entry w w' sid en"
  using tm.persist_stores [OF assms(1,2) ok] old
  by (auto simp: refreshed_entry_def merge_refreshed_def)

lemma at_locked_entry:
  assumes "memory_manager s m" "keyed (sessions w)"
    and quiet: "quiet_manager m" and eq: "at_locked m TokenMemory w sid = (w', Inr tok)"
  shows "\<exists>en. tokens w' sid = Some en \<and> ts_AccessToken (te_Set en) = tok \<and>
    (stores_kept w w' \<or> refreshed_entry w w' sid en)"
proof -
  obtain w1 pc where pc: "at_reread m TokenMemory w sid = (w1, pc)" by fastforce
  have sm: "sm_Sessions m = Some (LifecycleStore s MemoryStore)"
    using assms(1) by (simp add: memory_manager_def)
  show ?thesis
  proof (cases pc)
    case (AtCall current)
    obtain f where f: "sm_Refresher m = Some f"
      using pc AtCall eq by (cases "sm_Refresher m") (auto simp: at_locked_def at_call_def)
    obtain w2 answer where a: "f w1 (ts_RefreshToken current) = (w2, answer)" by fastforce
    obtain old where old: "tokens w sid = Some old" "te_Set old = current" "stores_kept w w1"
      using at_reread_call [of m w sid w1 current] pc AtCall by (auto simp: stores_kept_def)
    have rt: "ts_RefreshToken current \<noteq> []"
      using pc AtCall by (auto simp: at_reread_def split: prod.splits sum.splits if_splits)
    have k: "stores_kept w w2"
      using quiet_parts(1) [OF quiet f, of w1 "ts_RefreshToken current"] a old(3)
      by (simp add: stores_kept_def)
    have "at_persist m TokenMemory w2 sid (te_Set old) answer = (w', Inr tok)"
      using eq pc AtCall f a old(2) by (simp add: at_locked_def at_call_def)
    then show ?thesis
      using persist_entry [OF sm, of w2 sid old answer w' tok] k old rt assms(2)
      by (auto simp: stores_kept_def refreshed_entry_def)
  qed (use eq pc at_reread_done [of m w sid w1 tok] in \<open>auto simp: at_locked_def stores_kept_def\<close>)
qed

section \<open>A concrete manager\<close>

text \<open>
  One login whose access token has ten seconds left, behind the in-memory stores and the in-memory
  lock, with the request's context cancelled should the lock be taken.
\<close>

definition demo_locker :: "'z token_world_scheme refresh_locker" where
  "demo_locker =
     \<lparr>lk_Lock = (\<lambda>w key d. let v = MemoryLocker_ensure w key
        in if locks v key = Some True then (v\<lparr>locks := (locks v)(key \<mapsto> False)\<rparr>, Inr ())
           else (v, Inl ContextCanceled)),
      lk_Unlock = MemoryLocker_Unlock\<rparr>"

definition demo_manager ::
  "token_set result \<Rightarrow> token_world store_manager" where
  "demo_manager answer =
     \<lparr>sm_Store = Some TokenMemory, sm_Sessions = Some (LifecycleStore demo_lifecycle MemoryStore),
      sm_Refresher = Some (\<lambda>w rt. (w, answer)), sm_Locker = Some demo_locker,
      sm_RefreshBefore = 0, sm_LockTTL = 0\<rparr>"

definition demo_login :: token_world where
  "demo_login =
     \<lparr>clk = demo_clock, ticks = 5, rand_src = (\<lambda>i n. Inr (replicate n i)), rands = 0,
      sessions = [''s1'' \<mapsto> lifecycle_normalize demo_lifecycle (demo_clock 0) demo_session],
      tokens = [''s1'' \<mapsto>
        \<lparr>te_Set = \<lparr>ts_AccessToken = ''a1'', ts_RefreshToken = ''r1'', ts_IDToken = ''i1'',
                   ts_ExpiryUnix = 864403215\<rparr>,
         te_ExpiresAt = demo_clock 3600\<rparr>],
      locks = Map.empty\<rparr>"

definition demo_answer :: token_set where
  "demo_answer = \<lparr>ts_AccessToken = ''a2'', ts_RefreshToken = [], ts_IDToken = [],
     ts_ExpiryUnix = 864406800\<rparr>"

lemma demo_locker_is_memory_locker:
  "MemoryLocker_Lock (Some ContextCanceled) w key (lk_Lock demo_locker w key d)"
  using lock_taken [of w key "Some ContextCanceled"]
  by (simp add: demo_locker_def Let_def lock_cancelled)

lemma ensure_frame [simp]:
  "stores_kept w (MemoryLocker_ensure w key)" "clock_kept w (MemoryLocker_ensure w key)"
  "sessions (MemoryLocker_ensure w key) = sessions w" "tokens (MemoryLocker_ensure w key) = tokens w"
  by (simp_all add: MemoryLocker_ensure_def stores_kept_def clock_kept_def split: option.split)

lemma stores_kept_refl [simp]: "stores_kept w w"
  by (simp add: stores_kept_def)

lemma demo_locker_frame: "locker_frame demo_locker"
  by (auto simp: locker_frame_def demo_locker_def MemoryLocker_Unlock_def Let_def split: if_splits)

lemma demo_manager_memory: "memory_manager demo_lifecycle (demo_manager answer)"
  by (simp add: memory_manager_def demo_manager_def demo_locker_frame refresher_frame_def)

lemma demo_manager_quiet: "quiet_manager (demo_manager answer)"
  by (simp add: quiet_manager_def demo_manager_def demo_locker_def MemoryLocker_Unlock_def
      stores_kept_def Let_def)

lemma token_memory_clock:
  "clock_kept w (fst (TokenMemory_Get w i))" "clock_kept w (fst (TokenMemory_Put w i ts t))"
  "clock_kept w (fst (TokenMemory_Delete w i))"
  by (auto simp: token_memory_defs Now_eq Let_def clock_kept_def split: option.split)

lemma demo_locker_clock:
  "clock_kept w (fst (lk_Lock demo_locker w k d))" "clock_kept w (fst (lk_Unlock demo_locker w k))"
  by (auto simp: demo_locker_def MemoryLocker_Unlock_def MemoryLocker_ensure_def clock_kept_def Let_def
      split: option.split)

lemma demo_manager_clocked: "clocked_manager (demo_manager answer)"
proof -
  have "clock_kept w (fst (LifecycleStore_Get demo_lifecycle MemoryStore w i))"
    "clock_kept w (fst (LifecycleStore_Delete MemoryStore w i))" for w :: token_world and i
    using life.clock_Get [of w demo_lifecycle i] life.clock_Delete [of w demo_lifecycle i] by simp_all
  then show ?thesis
    by (simp add: clocked_manager_def demo_manager_def TokenMemory_def token_memory_clock
        demo_locker_clock)
qed

lemma demo_keyed: "keyed (sessions demo_login)"
  by (simp add: keyed_def demo_login_def lifecycle_normalize_def demo_session_def Let_def)

lemmas demo_token_eval = demo_manager_def demo_login_def demo_answer_def AccessToken_def at_start_def
  at_reread_def at_locked_def at_call_def at_persist_def needsRefresh_def stale_at_def refresh_before_def
  lockTTL_def sessionExpiry_def invalidate_def merge_refreshed_def token_memory_defs demo_locker_def
  MemoryLocker_ensure_def MemoryLocker_Unlock_def Unix_def time_Unix_def wrap64_def

section \<open>Properties\<close>

text \<open>
  The manager never hands out an expired token: whatever the stores, the provider and the lock
  answer, a token that \<^verbatim>\<open>AccessToken\<close> returns belongs to a token set that had no expiry or had not
  expired at an instant during the call.
\<close>

theorem access_token_unexpired:
  assumes "clocked_manager m" and "clock_ok w" and ok: "AccessToken m w sid = (w', Inr tok)"
  shows "\<exists>ts now. tok = ts_AccessToken ts \<and> unexpired ts now \<and> cur w \<le> now \<and> now \<le> cur w'"
proof -
  obtain st where st: "sm_Store m = Some st"
    using ok by (cases "sm_Store m") (auto simp: AccessToken_def)
  obtain w1 pc where pc: "at_start m st w sid = (w1, pc)" by fastforce
  note start = at_start_fresh [OF assms(1) st assms(2) pc]
  have "fresh_during w w' tok"
  proof (cases "\<exists>r. pc = AtDone r")
    case True
    with ok st pc start show ?thesis by (auto simp: AccessToken_def)
  next
    case False
    show ?thesis
    proof (cases "sm_Locker m")
      case None
      then have "at_locked m st w1 sid = (w', Inr tok)"
        using ok st pc False by (auto simp: AccessToken_def split: at_pc.splits)
      then have "clock_kept w1 w' \<and> fresh_during w1 w' tok"
        using at_locked_fresh [OF assms(1) st, of w1] clock_kept_ok start assms(2) by blast
      then show ?thesis
        using fresh_during_mono [OF _ assms(2), of w1 w' tok w'] start by simp
    next
      case (Some l)
      obtain w2 lr where l: "lk_Lock l w1 (refresh_key sid) (lockTTL m) = (w2, lr)" by fastforce
      obtain w3 r where r: "at_locked m st w2 sid = (w3, r)" by fastforce
      have "lr = Inr ()" "r = Inr tok" "w' = fst (lk_Unlock l w3 (refresh_key sid))"
        using ok st pc False Some l r
        by (auto simp: AccessToken_def split: at_pc.splits sum.splits)
      moreover have k2: "clock_kept w w2"
        using clock_kept_trans start clocked_parts(7) [OF assms(1) Some, of w1] l by (metis fst_conv)
      moreover have "clock_kept w3 w'"
        using clocked_parts(8) [OF assms(1) Some] calculation by simp
      ultimately show ?thesis
        using at_locked_fresh [OF assms(1) st _ r] clock_kept_ok [OF k2] assms(2)
          fresh_during_mono [OF _ assms(2) k2, of w3 tok w'] by simp
    qed
  qed
  then show ?thesis by (simp add: fresh_during_def)
qed

theorem access_token_unexpired_witness:
  "\<exists>ts now. ''a2'' = ts_AccessToken ts \<and> unexpired ts now \<and> cur demo_login \<le> now \<and>
     now \<le> cur (fst (AccessToken (demo_manager (Inr demo_answer)) demo_login ''s1''))"
proof (rule access_token_unexpired)
  show "clocked_manager (demo_manager (Inr demo_answer))" by (rule demo_manager_clocked)
  show "clock_ok demo_login" by (simp add: clock_ok_def demo_login_def demo_clock_def mono_def)
  show "AccessToken (demo_manager (Inr demo_answer)) demo_login ''s1'' =
      (fst (AccessToken (demo_manager (Inr demo_answer)) demo_login ''s1''), Inr ''a2'')"
    by (simp add: demo_token_eval demo_eval)
qed

text \<open>
  C4. Refresh failure fails closed: over the in-memory stores with the lifecycle wrapper, a call of
  \<^verbatim>\<open>AccessToken\<close> that reports \<^verbatim>\<open>ErrRefreshFailed\<close> (the provider refused, or answered with an empty or
  already expired token) leaves neither the token set nor the session behind.
\<close>

theorem refresh_failure_invalidates:
  assumes "memory_manager s m" and "keyed (sessions w)"
    and fail: "AccessToken m w sid = (w', Inl e)" and failed: "errors_Is e ErrRefreshFailed"
  shows "tokens w' sid = None \<and> sessions w' sid = None"
proof -
  have st: "sm_Store m = Some TokenMemory" using assms(1) by (simp add: memory_manager_def)
  obtain w1 pc where pc: "at_start m TokenMemory w sid = (w1, pc)" by fastforce
  have nd: "\<forall>r. pc \<noteq> AtDone r"
    using fail failed st pc by (auto simp: AccessToken_def dest: at_start_error)
  have keyed1: "keyed (sessions w1)" using at_start_sessions [OF pc] assms(2) by simp
  show ?thesis
  proof (cases "sm_Locker m")
    case None
    then have "at_locked m TokenMemory w1 sid = (w', Inl e)"
      using fail st pc nd by (auto simp: AccessToken_def split: at_pc.splits)
    then show ?thesis using at_locked_failed_closed [OF assms(1) keyed1] failed by blast
  next
    case (Some l)
    then have fr: "locker_frame l" using assms(1) by (simp add: memory_manager_def)
    obtain w2 lr where l: "lk_Lock l w1 (refresh_key sid) (lockTTL m) = (w2, lr)" by fastforce
    obtain w3 r where r: "at_locked m TokenMemory w2 sid = (w3, r)" by fastforce
    have "lr = Inr ()" "r = Inl e" "w' = fst (lk_Unlock l w3 (refresh_key sid))"
      using fail failed st pc nd Some l r fr
      by (auto simp: AccessToken_def locker_frame_def split: at_pc.splits sum.splits)
    moreover have "keyed (sessions w2)"
      using fr keyed1 l by (auto simp: locker_frame_def) (metis fst_conv)
    ultimately show ?thesis
      using at_locked_failed_closed [OF assms(1) _ _ failed] r fr by (auto simp: locker_frame_def)
  qed
qed

theorem refresh_failure_invalidates_witness:
  "let w' = fst (AccessToken (demo_manager (Inl (ExternalError ''invalid_grant''))) demo_login ''s1'')
   in tokens w' ''s1'' = None \<and> sessions w' ''s1'' = None"
  unfolding Let_def
proof (rule refresh_failure_invalidates)
  show "memory_manager demo_lifecycle (demo_manager (Inl (ExternalError ''invalid_grant'')))"
    by (rule demo_manager_memory)
  show "keyed (sessions demo_login)" by (rule demo_keyed)
  show "AccessToken (demo_manager (Inl (ExternalError ''invalid_grant''))) demo_login ''s1'' =
      (fst (AccessToken (demo_manager (Inl (ExternalError ''invalid_grant''))) demo_login ''s1''),
       Inl (ErrWrapped ''refresh rejected'' ErrRefreshFailed))"
    by (simp add: demo_token_eval demo_eval)
  show "errors_Is (ErrWrapped ''refresh rejected'' ErrRefreshFailed) ErrRefreshFailed" by simp
qed

text \<open>
  C23. A refresh never prolongs a login and never loses what later refreshes need: after a successful
  call of \<^verbatim>\<open>AccessToken\<close> the stored set holds the token handed out, and either both stores are as
  before, or the session existed and kept its expiry, the stored set lapses exactly with the session,
  and it has a refresh token (and an ID token if there was one), even if the provider sent none.
\<close>

theorem refresh_bound_to_session:
  assumes "memory_manager s m" and "keyed (sessions w)"
    and quiet: "quiet_manager m" and ok: "AccessToken m w sid = (w', Inr tok)"
  shows "\<exists>en. tokens w' sid = Some en \<and> ts_AccessToken (te_Set en) = tok \<and>
    (stores_kept w w' \<or> refreshed_entry w w' sid en)"
proof -
  have st: "sm_Store m = Some TokenMemory" using assms(1) by (simp add: memory_manager_def)
  obtain w1 pc where pc: "at_start m TokenMemory w sid = (w1, pc)" by fastforce
  have ne: "\<nexists>e. pc = AtDone (Inl e)" using ok st pc by (auto simp: AccessToken_def)
  obtain en0 where start: "tokens w sid = Some en0" "stores_kept w w1"
    "pc = AtLock \<or> pc = AtDone (Inr (ts_AccessToken (te_Set en0)))"
    using at_start_done [OF pc ne] by blast
  show ?thesis
  proof (cases "pc = AtLock")
    case False
    with start st pc ok show ?thesis by (auto simp: AccessToken_def stores_kept_def)
  next
    case True
    have "\<exists>w2 w3. stores_kept w w2 \<and> at_locked m TokenMemory w2 sid = (w3, Inr tok) \<and> stores_kept w3 w'"
    proof (cases "sm_Locker m")
      case None
      with ok st pc True start(2) show ?thesis
        by (auto simp: AccessToken_def stores_kept_def)
    next
      case (Some l)
      obtain w2 lr where l: "lk_Lock l w1 (refresh_key sid) (lockTTL m) = (w2, lr)" by fastforce
      obtain w3 r where r: "at_locked m TokenMemory w2 sid = (w3, r)" by fastforce
      have "r = Inr tok" "w' = fst (lk_Unlock l w3 (refresh_key sid))"
        using ok st pc True Some l r by (auto simp: AccessToken_def split: sum.splits)
      moreover have "stores_kept w w2"
        using quiet_parts(2) [OF quiet Some, of w1 "refresh_key sid" "lockTTL m"] l start(2)
        by (simp add: stores_kept_def)
      ultimately show ?thesis using r quiet_parts(3) [OF quiet Some] by blast
    qed
    then obtain w2 w3 where w23: "stores_kept w w2" "stores_kept w3 w'"
      "at_locked m TokenMemory w2 sid = (w3, Inr tok)" by blast
    have "keyed (sessions w2)" using w23(1) assms(2) by (simp add: stores_kept_def)
    then show ?thesis
      using at_locked_entry [OF assms(1) _ quiet w23(3)] w23(1,2)
      by (auto simp: stores_kept_def refreshed_entry_def)
  qed
qed

theorem refresh_bound_to_session_witness:
  "let w' = fst (AccessToken (demo_manager (Inr demo_answer)) demo_login ''s1'')
   in \<exists>en. tokens w' ''s1'' = Some en \<and> ts_AccessToken (te_Set en) = ''a2'' \<and>
        (stores_kept demo_login w' \<or> refreshed_entry demo_login w' ''s1'' en)"
  unfolding Let_def
proof (rule refresh_bound_to_session)
  show "memory_manager demo_lifecycle (demo_manager (Inr demo_answer))" by (rule demo_manager_memory)
  show "keyed (sessions demo_login)" by (rule demo_keyed)
  show "quiet_manager (demo_manager (Inr demo_answer))" by (rule demo_manager_quiet)
  show "AccessToken (demo_manager (Inr demo_answer)) demo_login ''s1'' =
      (fst (AccessToken (demo_manager (Inr demo_answer)) demo_login ''s1''), Inr ''a2'')"
    by (simp add: demo_token_eval demo_eval)
qed

end
