(* ===== verification/TokenConcurrency.thy ===== *)
theory TokenConcurrency
  imports Token
begin

text \<open>
  Many requests refreshing tokens at once. Each request runs \<^verbatim>\<open>StoreManager.AccessToken\<close> in the
  stretches of \<open>Token\<close>; between them any other request may run, the clock may advance, a session may
  be logged out and the identity provider answers when it likes. The lock is the in-memory one
  (\<^verbatim>\<open>internal/token/lock.go\<close>). The log of the refresh tokens sent to the provider shows that with a
  provider that rotates refresh tokens no refresh token is ever presented twice.
\<close>

section \<open>Definitions\<close>

text \<open>Where a request stands; from \<open>HaveLock\<close> to \<open>Unlocking\<close> it holds the lock of its session.\<close>

datatype stage =
    Start
  | WaitLock
  | HaveLock
  | Calling token_set
  | Persisting token_set "token_set result"
  | Unlocking "string result"
  | Finished "string result"

record refresh_system =
  rs_world :: token_world
  rs_stage :: "nat \<Rightarrow> stage"
  rs_calls :: "(string \<times> string) list"

text \<open>
  One step of one request or of the environment. \<open>sid_of\<close> gives the session of each request. The
  provider is outside the repository: its answer to a refresh is any error or any token set whose
  refresh token is new for that session, the behaviour of a provider with refresh-token rotation.
\<close>

inductive refresh_step ::
  "token_world store_manager \<Rightarrow> (nat \<Rightarrow> string) \<Rightarrow> refresh_system \<Rightarrow> refresh_system \<Rightarrow> bool"
  for m :: "token_world store_manager" and sid_of :: "nat \<Rightarrow> string" where
  start_done: "rs_stage S i = Start \<Longrightarrow> at_start m TokenMemory (rs_world S) (sid_of i) = (w, AtDone r) \<Longrightarrow>
     refresh_step m sid_of S (S\<lparr>rs_world := w, rs_stage := (rs_stage S)(i := Finished r)\<rparr>)"
| start_stale: "rs_stage S i = Start \<Longrightarrow> at_start m TokenMemory (rs_world S) (sid_of i) = (w, AtLock) \<Longrightarrow>
     refresh_step m sid_of S (S\<lparr>rs_world := w, rs_stage := (rs_stage S)(i := WaitLock)\<rparr>)"
| lock_ok: "rs_stage S i = WaitLock \<Longrightarrow>
     MemoryLocker_Lock ctx (rs_world S) (refresh_key (sid_of i)) (w, Inr ()) \<Longrightarrow>
     refresh_step m sid_of S (S\<lparr>rs_world := w, rs_stage := (rs_stage S)(i := HaveLock)\<rparr>)"
| lock_err: "rs_stage S i = WaitLock \<Longrightarrow>
     MemoryLocker_Lock ctx (rs_world S) (refresh_key (sid_of i)) (w, Inl e) \<Longrightarrow>
     refresh_step m sid_of S
       (S\<lparr>rs_world := w,
          rs_stage := (rs_stage S)(i := Finished (Inl (ErrWrapped ''acquire refresh lock'' e)))\<rparr>)"
| reread_done: "rs_stage S i = HaveLock \<Longrightarrow>
     at_reread m TokenMemory (rs_world S) (sid_of i) = (w, AtDone r) \<Longrightarrow>
     refresh_step m sid_of S (S\<lparr>rs_world := w, rs_stage := (rs_stage S)(i := Unlocking r)\<rparr>)"
| reread_call: "rs_stage S i = HaveLock \<Longrightarrow>
     at_reread m TokenMemory (rs_world S) (sid_of i) = (w, AtCall c) \<Longrightarrow>
     refresh_step m sid_of S (S\<lparr>rs_world := w, rs_stage := (rs_stage S)(i := Calling c)\<rparr>)"
| call: "rs_stage S i = Calling c \<Longrightarrow>
     (case answer of Inl _ \<Rightarrow> True | Inr ts \<Rightarrow>
        ts_RefreshToken ts \<noteq> [] \<and> ts_RefreshToken ts \<noteq> ts_RefreshToken c \<and>
        (sid_of i, ts_RefreshToken ts) \<notin> set (rs_calls S)) \<Longrightarrow>
     refresh_step m sid_of S
       (S\<lparr>rs_stage := (rs_stage S)(i := Persisting c answer),
          rs_calls := (sid_of i, ts_RefreshToken c) # rs_calls S\<rparr>)"
| persist: "rs_stage S i = Persisting c answer \<Longrightarrow>
     at_persist m TokenMemory (rs_world S) (sid_of i) c answer = (w, r) \<Longrightarrow>
     refresh_step m sid_of S (S\<lparr>rs_world := w, rs_stage := (rs_stage S)(i := Unlocking r)\<rparr>)"
| unlock: "rs_stage S i = Unlocking r \<Longrightarrow>
     refresh_step m sid_of S
       (S\<lparr>rs_world := fst (MemoryLocker_Unlock (rs_world S) (refresh_key (sid_of i))),
          rs_stage := (rs_stage S)(i := Finished r)\<rparr>)"
| clock: "refresh_step m sid_of S (S\<lparr>rs_world := (rs_world S)\<lparr>ticks := ticks (rs_world S) + n\<rparr>\<rparr>)"
| logout: "refresh_step m sid_of S
     (S\<lparr>rs_world := fst (MemoryStore_Delete (fst (TokenMemory_Delete (rs_world S) sid)) sid)\<rparr>)"

definition refresh_reach ::
  "token_world store_manager \<Rightarrow> (nat \<Rightarrow> string) \<Rightarrow> refresh_system \<Rightarrow> refresh_system \<Rightarrow> bool" where
  "refresh_reach m sid_of = (refresh_step m sid_of)\<^sup>*\<^sup>*"

text \<open>Nothing has run yet: every request is at its start, no lock is taken, nothing was sent.\<close>

definition refresh_init :: "refresh_system \<Rightarrow> bool" where
  "refresh_init S \<longleftrightarrow>
     (\<forall>i. rs_stage S i = Start) \<and> (\<forall>k. locks (rs_world S) k \<noteq> Some False) \<and> rs_calls S = []"

fun critical :: "stage \<Rightarrow> bool" where
  "critical HaveLock = True"
| "critical (Calling _) = True"
| "critical (Persisting _ _) = True"
| "critical (Unlocking _) = True"
| "critical _ = False"

fun persisting :: "stage \<Rightarrow> bool" where
  "persisting (Persisting _ _) = True"
| "persisting _ = False"

section \<open>What the stretches leave alone\<close>

text \<open>A read of session \<open>sid\<close> keeps the locks and the other sets, and at most drops its own set.\<close>

definition at_most_drops :: "string \<Rightarrow> token_world \<Rightarrow> token_world \<Rightarrow> bool" where
  "at_most_drops sid w w' \<longleftrightarrow> locks w' = locks w \<and>
     (tokens w' = tokens w \<or> tokens w' = (tokens w)(sid := None))"

lemma at_most_drops_sub: "at_most_drops sid w w' \<Longrightarrow> tokens w' j = Some en \<Longrightarrow> tokens w j = Some en"
  by (auto simp: at_most_drops_def split: if_splits)

lemma TokenMemory_Get_drops: "TokenMemory_Get w sid = (w', r) \<Longrightarrow> at_most_drops sid w w'"
  by (auto simp: token_memory_defs Now_eq Let_def at_most_drops_def split: option.splits if_splits)

lemma needsRefresh_drops:
  assumes "needsRefresh m ts w = (b, w')" "at_most_drops sid w0 w"
  shows "at_most_drops sid w0 w'"
proof -
  have "w' = w \<or> w' = snd (Now w)" using needsRefresh_world [of m ts w] assms(1) by auto
  with assms(2) show ?thesis by (auto simp: at_most_drops_def Now_def)
qed

lemma at_start_drops:
  "at_start m TokenMemory w sid = (w', pc) \<Longrightarrow> at_most_drops sid w w'"
  by (auto simp: at_start_def TokenMemory_def split: prod.splits sum.splits if_splits
      intro: TokenMemory_Get_drops needsRefresh_drops)

lemma at_reread_drops:
  "at_reread m TokenMemory w sid = (w', pc) \<Longrightarrow> at_most_drops sid w w'"
  by (auto simp: at_reread_def TokenMemory_def split: prod.splits sum.splits if_splits
      intro: TokenMemory_Get_drops needsRefresh_drops)

lemma lifecycle_Get_locks [simp]: "locks (fst (LifecycleStore_Get s MemoryStore w i)) = locks w"
proof -
  have "locks (fst (LifecycleStore_Get_check s MemoryStore w i)) = locks w"
    by (rule check_world [where P = "\<lambda>w'. locks w' = locks w"])
      (auto simp: memory_defs Now_eq Let_def split: option.splits)
  then show ?thesis
    by (auto simp: LifecycleStore_Get_def LifecycleStore_Get_touch_def MemoryStore_def
        MemoryStore_Put_def split: prod.splits get_progress.splits)
qed

lemma sessionExpiry_frame:
  assumes "memory_manager s m" "sessionExpiry m w sid = (w', r)"
  shows "locks w' = locks w" "tokens w' = tokens w"
proof -
  have "w' = fst (LifecycleStore_Get s MemoryStore w sid)"
    using assms by (auto simp: memory_manager_def sessionExpiry_def split: prod.splits sum.splits)
  then show "locks w' = locks w" "tokens w' = tokens w" by simp_all
qed

lemma invalidate_frame:
  assumes "memory_manager s m"
  shows "locks (invalidate m TokenMemory w sid) = locks w"
    "tokens (invalidate m TokenMemory w sid) = (tokens w)(sid := None)"
  using assms by (simp_all add: memory_manager_def invalidate_def token_memory_defs
      LifecycleStore_Delete_def memory_defs)

text \<open>After the provider's answer the set is gone or replaced by the merged one.\<close>

lemma at_persist_frame:
  assumes m: "memory_manager s m" and eq: "at_persist m TokenMemory w sid c answer = (w', r)"
  shows "locks w' = locks w \<and>
    (tokens w' = (tokens w)(sid := None) \<or>
     (\<exists>ts t. answer = Inr ts \<and>
        tokens w' = (tokens w)(sid \<mapsto> \<lparr>te_Set = merge_refreshed c ts, te_ExpiresAt = t\<rparr>)))"
proof (cases answer)
  case (Inl e)
  with eq invalidate_frame [OF m] show ?thesis by (auto simp: at_persist_def)
next
  case (Inr ts)
  let ?w1 = "w\<lparr>ticks := Suc (ticks w)\<rparr>"
  obtain w2 x where x: "sessionExpiry m ?w1 sid = (w2, x)" by fastforce
  note f = sessionExpiry_frame [OF m x]
  show ?thesis
  proof (cases "ts_AccessToken ts = [] \<or> ts_ExpiryUnix ts \<le> Unix (cur w)")
    case True
    with eq Inr show ?thesis by (auto simp: at_persist_def Now_eq Let_def invalidate_frame [OF m] split: if_splits)
  next
    case False
    show ?thesis
    proof (cases x)
      case (Inl e)
      with eq Inr False x f show ?thesis
        by (auto simp: at_persist_def Now_eq Let_def invalidate_frame [OF m])
    next
      case (Inr t)
      with eq \<open>answer = Inr ts\<close> False x f show ?thesis
        by (auto simp: at_persist_def Now_eq Let_def TokenMemory_def TokenMemory_Put_def)
    qed
  qed
qed

lemma refresh_key_inj [simp]: "refresh_key a = refresh_key b \<longleftrightarrow> a = b"
  by (simp add: refresh_key_def)

lemma lock_frame:
  assumes "MemoryLocker_Lock ctx w key (w', r)"
  shows "tokens w' = tokens w"
    and "k \<noteq> key \<Longrightarrow> locks w' k = Some False \<longleftrightarrow> locks w k = Some False"
    and "r = Inr () \<Longrightarrow> locks w key \<noteq> Some False \<and> locks w' key = Some False"
    and "r = Inl e \<Longrightarrow> locks w key = Some False \<longleftrightarrow> locks w' key = Some False"
  using assms
  by (auto simp: MemoryLocker_ensure_def elim!: MemoryLocker_Lock.cases split: option.splits)

section \<open>The invariant\<close>

definition refresh_inv :: "(nat \<Rightarrow> string) \<Rightarrow> refresh_system \<Rightarrow> bool" where
  "refresh_inv sid_of S \<longleftrightarrow>
     (\<forall>i j. critical (rs_stage S i) \<longrightarrow> critical (rs_stage S j) \<longrightarrow> sid_of i = sid_of j \<longrightarrow> i = j) \<and>
     (\<forall>i. critical (rs_stage S i) \<longrightarrow> locks (rs_world S) (refresh_key (sid_of i)) = Some False) \<and>
     (\<forall>i c. rs_stage S i = Calling c \<longrightarrow> (sid_of i, ts_RefreshToken c) \<notin> set (rs_calls S)) \<and>
     (\<forall>sid en. tokens (rs_world S) sid = Some en \<longrightarrow>
        (\<forall>i. sid_of i = sid \<longrightarrow> \<not> persisting (rs_stage S i)) \<longrightarrow>
        (sid, ts_RefreshToken (te_Set en)) \<notin> set (rs_calls S)) \<and>
     (\<forall>i c ts. rs_stage S i = Persisting c (Inr ts) \<longrightarrow>
        ts_RefreshToken ts \<noteq> [] \<and> (sid_of i, ts_RefreshToken ts) \<notin> set (rs_calls S)) \<and>
     distinct (rs_calls S)"

lemma refresh_inv_parts:
  assumes "refresh_inv sid_of S"
  shows inv_mutex: "critical (rs_stage S i) \<Longrightarrow> critical (rs_stage S j) \<Longrightarrow> sid_of i = sid_of j \<Longrightarrow> i = j"
    and inv_locked: "critical (rs_stage S i) \<Longrightarrow> locks (rs_world S) (refresh_key (sid_of i)) = Some False"
    and inv_calling: "rs_stage S i = Calling c \<Longrightarrow> (sid_of i, ts_RefreshToken c) \<notin> set (rs_calls S)"
    and inv_stored: "tokens (rs_world S) sid = Some en \<Longrightarrow>
        (\<And>i. sid_of i = sid \<Longrightarrow> \<not> persisting (rs_stage S i)) \<Longrightarrow>
        (sid, ts_RefreshToken (te_Set en)) \<notin> set (rs_calls S)"
    and inv_answer: "rs_stage S i = Persisting c (Inr ts) \<Longrightarrow>
        ts_RefreshToken ts \<noteq> [] \<and> (sid_of i, ts_RefreshToken ts) \<notin> set (rs_calls S)"
    and inv_distinct: "distinct (rs_calls S)"
  using assms by (auto simp: refresh_inv_def)

lemma persisting_critical: "persisting g \<Longrightarrow> critical g"
  by (cases g) simp_all

lemma refresh_invI:
  assumes "rs_world S = w" "rs_stage S = st" "rs_calls S = calls"
    and "\<And>i j. critical (st i) \<Longrightarrow> critical (st j) \<Longrightarrow> sid_of i = sid_of j \<Longrightarrow> i = j"
    and "\<And>i. critical (st i) \<Longrightarrow> locks w (refresh_key (sid_of i)) = Some False"
    and "\<And>i c. st i = Calling c \<Longrightarrow> (sid_of i, ts_RefreshToken c) \<notin> set calls"
    and "\<And>sid en. tokens w sid = Some en \<Longrightarrow> \<forall>i. sid_of i = sid \<longrightarrow> \<not> persisting (st i) \<Longrightarrow>
        (sid, ts_RefreshToken (te_Set en)) \<notin> set calls"
    and "\<And>i c ts. st i = Persisting c (Inr ts) \<Longrightarrow>
        ts_RefreshToken ts \<noteq> [] \<and> (sid_of i, ts_RefreshToken ts) \<notin> set calls"
    and "distinct calls"
  shows "refresh_inv sid_of S"
  unfolding refresh_inv_def assms(1-3) using assms(4-9) by blast

text \<open>At most one request of a session is critical when one moves on, or enters where none was.\<close>

lemma mutex_upd:
  assumes inv: "refresh_inv sid_of S"
    and g: "critical g \<Longrightarrow> critical (rs_stage S i) \<or> (\<forall>j. sid_of j = sid_of i \<longrightarrow> \<not> critical (rs_stage S j))"
    and j: "critical (((rs_stage S)(i := g)) j)" and k: "critical (((rs_stage S)(i := g)) k)"
    and eq: "sid_of j = sid_of k"
  shows "j = k"
proof -
  have other: "l = i" if "critical g" "critical (rs_stage S l)" "sid_of l = sid_of i" for l
    using g [OF that(1)] inv_mutex [OF inv that(2) _ that(3)] that(2,3) by blast
  show ?thesis
  proof (cases "j = i"; cases "k = i")
    assume "j = i" "k \<noteq> i"
    with j k have "critical g" "critical (rs_stage S k)" by simp_all
    then show ?thesis using other [of k] eq \<open>j = i\<close> by simp
  next
    assume "j \<noteq> i" "k = i"
    with j k have "critical g" "critical (rs_stage S j)" by simp_all
    then show ?thesis using other [of j] eq \<open>k = i\<close> by simp
  next
    assume "j \<noteq> i" "k \<noteq> i"
    with j k have "critical (rs_stage S j)" "critical (rs_stage S k)" by simp_all
    then show ?thesis using inv_mutex [OF inv _ _ eq] by blast
  qed simp
qed

text \<open>
  A step of request \<open>i\<close> that sends nothing, starts no call and no store, keeps every lock that
  another request holds and adds no token set, keeps the invariant.
\<close>

lemma inv_quiet_step:
  assumes inv: "refresh_inv sid_of S"
    and sub: "\<And>j en. tokens w' j = Some en \<Longrightarrow> tokens (rs_world S) j = Some en"
    and other: "\<And>j. j \<noteq> i \<Longrightarrow> critical (rs_stage S j) \<Longrightarrow> locks w' (refresh_key (sid_of j)) = Some False"
    and own: "critical g \<Longrightarrow> locks w' (refresh_key (sid_of i)) = Some False"
    and mutex: "critical g \<Longrightarrow> critical (rs_stage S i) \<or> (\<forall>j. sid_of j = sid_of i \<longrightarrow> \<not> critical (rs_stage S j))"
    and np: "\<not> persisting g" "\<not> persisting (rs_stage S i)"
    and call: "\<And>c. g = Calling c \<Longrightarrow> (sid_of i, ts_RefreshToken c) \<notin> set (rs_calls S)"
  shows "refresh_inv sid_of (S\<lparr>rs_world := w', rs_stage := (rs_stage S)(i := g)\<rparr>)"
proof -
  have m1: "j = k" if "critical (((rs_stage S)(i := g)) j)" "critical (((rs_stage S)(i := g)) k)"
    "sid_of j = sid_of k" for j k
    using mutex_upd [OF inv mutex that] .
  have m2: "locks w' (refresh_key (sid_of j)) = Some False"
    if "critical (((rs_stage S)(i := g)) j)" for j
    using that other own by (auto split: if_splits)
  have m3: "(sid_of j, ts_RefreshToken c) \<notin> set (rs_calls S)"
    if "((rs_stage S)(i := g)) j = Calling c" for j c
    using that call inv_calling [OF inv] by (auto split: if_splits)
  have m4: "(sid, ts_RefreshToken (te_Set en)) \<notin> set (rs_calls S)"
    if "tokens w' sid = Some en" "\<forall>j. sid_of j = sid \<longrightarrow> \<not> persisting (((rs_stage S)(i := g)) j)" for sid en
    using that np inv_stored [OF inv sub] by (metis fun_upd_other)
  have m5: "ts_RefreshToken ts \<noteq> [] \<and> (sid_of j, ts_RefreshToken ts) \<notin> set (rs_calls S)"
    if "((rs_stage S)(i := g)) j = Persisting c (Inr ts)" for j c ts
    using that np inv_answer [OF inv] by (auto split: if_splits)
  show ?thesis
    by (rule refresh_invI [OF _ _ _ m1 m2 m3 m4 m5 inv_distinct [OF inv]]) (simp_all add: fun_upd_def)
qed

lemma inv_call_step:
  assumes inv: "refresh_inv sid_of S" and at: "rs_stage S i = Calling c"
    and fresh: "case answer of Inl _ \<Rightarrow> True | Inr ts \<Rightarrow>
        ts_RefreshToken ts \<noteq> [] \<and> ts_RefreshToken ts \<noteq> ts_RefreshToken c \<and>
        (sid_of i, ts_RefreshToken ts) \<notin> set (rs_calls S)"
  shows "refresh_inv sid_of (S\<lparr>rs_stage := (rs_stage S)(i := Persisting c answer),
          rs_calls := (sid_of i, ts_RefreshToken c) # rs_calls S\<rparr>)"
proof -
  let ?st = "(rs_stage S)(i := Persisting c answer)"
  let ?calls = "(sid_of i, ts_RefreshToken c) # rs_calls S"
  have ci: "critical (rs_stage S i)" by (simp add: at)
  have m1: "j = k" if "critical (?st j)" "critical (?st k)" "sid_of j = sid_of k" for j k
    by (rule mutex_upd [OF inv disjI1 [OF ci] that])
  have same: "j = i" if "critical (?st j)" "sid_of j = sid_of i" for j
    by (rule m1 [OF that(1) _ that(2)]) simp
  have m2: "locks (rs_world S) (refresh_key (sid_of j)) = Some False" if "critical (?st j)" for j
    using that ci inv_locked [OF inv] by (auto split: if_splits)
  have m3: "(sid_of j, ts_RefreshToken d) \<notin> set ?calls" if "?st j = Calling d" for j d
  proof -
    have "j \<noteq> i" "rs_stage S j = Calling d" using that by (auto split: if_splits)
    moreover have "sid_of j \<noteq> sid_of i" using same [of j] that calculation(1) by (auto simp del: fun_upd_apply)
    ultimately show ?thesis using inv_calling [OF inv, of j d] by simp
  qed
  have m4: "(sid, ts_RefreshToken (te_Set en)) \<notin> set ?calls"
    if "tokens (rs_world S) sid = Some en" "\<forall>j. sid_of j = sid \<longrightarrow> \<not> persisting (?st j)" for sid en
    using that inv_stored [OF inv that(1)] at by (auto split: if_splits)
  have m5: "ts_RefreshToken ts \<noteq> [] \<and> (sid_of j, ts_RefreshToken ts) \<notin> set ?calls"
    if "?st j = Persisting d (Inr ts)" for j d ts
  proof (cases "j = i")
    case True
    with that fresh show ?thesis by auto
  next
    case False
    with that have "rs_stage S j = Persisting d (Inr ts)" by simp
    moreover have "sid_of j \<noteq> sid_of i" using same [of j] that False by (auto simp del: fun_upd_apply)
    ultimately show ?thesis using inv_answer [OF inv, of j d ts] by simp
  qed
  have "distinct ?calls" using inv_distinct [OF inv] inv_calling [OF inv at] by simp
  then show ?thesis
    by (intro refresh_invI [OF _ _ _ m1 m2 m3 m4 m5]) (simp_all add: fun_upd_def)
qed

lemma inv_persist_step:
  assumes inv: "refresh_inv sid_of S" and at: "rs_stage S i = Persisting c answer"
    and m: "memory_manager s m"
    and eq: "at_persist m TokenMemory (rs_world S) (sid_of i) c answer = (w, r)"
  shows "refresh_inv sid_of (S\<lparr>rs_world := w, rs_stage := (rs_stage S)(i := Unlocking r)\<rparr>)"
proof -
  let ?st = "(rs_stage S)(i := Unlocking r)"
  note frame = at_persist_frame [OF m eq]
  have ci: "critical (rs_stage S i)" by (simp add: at)
  have m1: "j = k" if "critical (?st j)" "critical (?st k)" "sid_of j = sid_of k" for j k
    by (rule mutex_upd [OF inv disjI1 [OF ci] that])
  have m2: "locks w (refresh_key (sid_of j)) = Some False" if "critical (?st j)" for j
    using that ci inv_locked [OF inv] frame by (auto split: if_splits)
  have m3: "(sid_of j, ts_RefreshToken d) \<notin> set (rs_calls S)" if "?st j = Calling d" for j d
    using that inv_calling [OF inv] by (auto split: if_splits)
  have m4: "(sid, ts_RefreshToken (te_Set en)) \<notin> set (rs_calls S)"
    if "tokens w sid = Some en" "\<forall>j. sid_of j = sid \<longrightarrow> \<not> persisting (?st j)" for sid en
  proof (cases "sid = sid_of i")
    case True
    with frame that(1) obtain ts t where "answer = Inr ts" "te_Set en = merge_refreshed c ts"
      by auto
    then show ?thesis using inv_answer [OF inv, of i c ts] at True by (simp add: merge_refreshed_def)
  next
    case False
    then have "tokens (rs_world S) sid = Some en" using frame that(1) by auto
    then show ?thesis using inv_stored [OF inv] that(2) False by (metis fun_upd_other)
  qed
  have m5: "ts_RefreshToken ts \<noteq> [] \<and> (sid_of j, ts_RefreshToken ts) \<notin> set (rs_calls S)"
    if "?st j = Persisting d (Inr ts)" for j d ts
    using that inv_answer [OF inv] by (auto split: if_splits)
  show ?thesis
    by (rule refresh_invI [OF _ _ _ m1 m2 m3 m4 m5 inv_distinct [OF inv]]) (simp_all add: fun_upd_def)
qed

text \<open>The environment steps take token sets away and leave locks, requests and log alone.\<close>

lemma inv_env_step:
  assumes inv: "refresh_inv sid_of S" and "locks w' = locks (rs_world S)"
    and sub: "\<And>j en. tokens w' j = Some en \<Longrightarrow> tokens (rs_world S) j = Some en"
  shows "refresh_inv sid_of (S\<lparr>rs_world := w'\<rparr>)"
  by (rule refresh_invI [OF _ _ _ inv_mutex [OF inv] _ inv_calling [OF inv] _ inv_answer [OF inv]
        inv_distinct [OF inv]])
    (use assms(2) inv_locked [OF inv] inv_stored [OF inv sub] in auto)

text \<open>A part of \<open>AccessToken\<close> that drops at most the token set of its own session keeps the invariant.\<close>

lemma inv_drop_step:
  assumes inv: "refresh_inv sid_of S" and d: "at_most_drops (sid_of i) (rs_world S) w"
    and at: "\<not> persisting (rs_stage S i)" and g: "\<not> persisting g" "critical g \<Longrightarrow> critical (rs_stage S i)"
    and call: "\<And>c. g = Calling c \<Longrightarrow> (sid_of i, ts_RefreshToken c) \<notin> set (rs_calls S)"
  shows "refresh_inv sid_of (S\<lparr>rs_world := w, rs_stage := (rs_stage S)(i := g)\<rparr>)"
  by (rule inv_quiet_step [OF inv at_most_drops_sub [OF d]])
    (use assms inv_locked [OF inv] in \<open>auto simp: at_most_drops_def\<close>)

lemma inv_lock_step:
  assumes inv: "refresh_inv sid_of S" and at: "rs_stage S i = WaitLock"
    and lock: "MemoryLocker_Lock ctx (rs_world S) (refresh_key (sid_of i)) (w, Inr ())"
  shows "refresh_inv sid_of (S\<lparr>rs_world := w, rs_stage := (rs_stage S)(i := HaveLock)\<rparr>)"
proof -
  note f = lock_frame [OF lock]
  have free: "\<not> critical (rs_stage S j)" if "sid_of j = sid_of i" for j
    using f(3) inv_locked [OF inv, of j] that by auto
  have "locks w (refresh_key (sid_of j)) = Some False" if "critical (rs_stage S j)" for j
    using f(2) [of "refresh_key (sid_of j)"] inv_locked [OF inv that] free that by auto
  then show ?thesis
    by (intro inv_quiet_step [OF inv]) (use f(1,3) free at in auto)
qed

lemma inv_lock_fails:
  assumes inv: "refresh_inv sid_of S" and at: "rs_stage S i = WaitLock" and g: "\<not> critical g"
    and lock: "MemoryLocker_Lock ctx (rs_world S) (refresh_key (sid_of i)) (w, Inl e)"
  shows "refresh_inv sid_of (S\<lparr>rs_world := w, rs_stage := (rs_stage S)(i := g)\<rparr>)"
proof -
  note f = lock_frame [OF lock]
  have "locks w (refresh_key (sid_of j)) = Some False" if "critical (rs_stage S j)" for j
    using f(2) [of "refresh_key (sid_of j)"] f(4) [of e] inv_locked [OF inv that]
    by (cases "sid_of j = sid_of i") auto
  then show ?thesis
    by (intro inv_quiet_step [OF inv]) (use f(1) at g persisting_critical [of g] in auto)
qed

text \<open>The token set that is read under the lock was not sent yet: nobody else of the session is between call and store.\<close>

lemma reread_token_unsent:
  assumes inv: "refresh_inv sid_of S" and at: "rs_stage S i = HaveLock"
    and reread: "at_reread m TokenMemory (rs_world S) (sid_of i) = (w, AtCall c)"
  shows "(sid_of i, ts_RefreshToken c) \<notin> set (rs_calls S)"
proof -
  have ci: "critical (rs_stage S i)" by (simp add: at)
  obtain en where en: "tokens (rs_world S) (sid_of i) = Some en" "te_Set en = c"
    using at_reread_call [OF reread] by blast
  have "\<not> persisting (rs_stage S j)" if "sid_of j = sid_of i" for j
    using inv_mutex [OF inv persisting_critical ci that] at by auto
  then show ?thesis
    using inv_stored [OF inv en(1)] en(2) by auto
qed

lemma inv_unlock_step:
  assumes inv: "refresh_inv sid_of S" and at: "rs_stage S i = Unlocking r"
  shows "refresh_inv sid_of (S\<lparr>rs_world := fst (MemoryLocker_Unlock (rs_world S) (refresh_key (sid_of i))),
          rs_stage := (rs_stage S)(i := Finished r)\<rparr>)"
proof -
  have "sid_of j \<noteq> sid_of i" if "j \<noteq> i" "critical (rs_stage S j)" for j
    using inv_mutex [OF inv that(2), of i] that(1) at by auto
  then show ?thesis
    by (intro inv_quiet_step [OF inv])
      (use at inv_locked [OF inv] in \<open>auto simp: MemoryLocker_Unlock_def\<close>)
qed

lemma refresh_inv_step:
  assumes m: "memory_manager s m" and inv: "refresh_inv sid_of S" and step: "refresh_step m sid_of S S'"
  shows "refresh_inv sid_of S'"
  using step
proof (cases rule: refresh_step.cases)
  case (start_done i w r)
  then show ?thesis by (auto intro: inv_drop_step [OF inv at_start_drops])
next
  case (start_stale i w)
  then show ?thesis by (auto intro: inv_drop_step [OF inv at_start_drops])
next
  case (lock_ok i ctx w)
  then show ?thesis by (auto intro: inv_lock_step [OF inv])
next
  case (lock_err i ctx w e)
  then show ?thesis by (auto intro: inv_lock_fails [OF inv])
next
  case (reread_done i w r)
  then show ?thesis by (auto intro: inv_drop_step [OF inv at_reread_drops])
next
  case (reread_call i w c)
  then show ?thesis
    using reread_token_unsent [OF inv reread_call(2,3)]
    by (auto intro: inv_drop_step [OF inv at_reread_drops])
next
  case (call i c answer)
  then show ?thesis by (simp add: inv_call_step [OF inv])
next
  case (persist i c answer w r)
  then show ?thesis by (simp add: inv_persist_step [OF inv _ m])
next
  case (unlock i r)
  then show ?thesis by (simp add: inv_unlock_step [OF inv])
next
  case (clock n)
  show ?thesis unfolding clock by (rule inv_env_step [OF inv]) simp_all
next
  case (logout sid)
  show ?thesis unfolding logout
    by (rule inv_env_step [OF inv])
      (auto simp: token_memory_defs memory_defs split: if_splits)
qed

lemma refresh_inv_reach:
  assumes "memory_manager s m" "refresh_reach m sid_of S S'" "refresh_inv sid_of S"
  shows "refresh_inv sid_of S'"
  using assms(2,3) unfolding refresh_reach_def
  by (induction rule: rtranclp_induct) (auto intro: refresh_inv_step [OF assms(1)])

lemma refresh_inv_init: "refresh_init S \<Longrightarrow> refresh_inv sid_of S"
  by (simp add: refresh_init_def refresh_inv_def)

section \<open>A concrete run\<close>

text \<open>
  Two requests of the session of \<open>demo_login\<close> find the access token about to expire; the first
  refreshes it, the second waits for the lock and finds the new token.
\<close>

definition demo_old :: token_set where
  "demo_old = \<lparr>ts_AccessToken = ''a1'', ts_RefreshToken = ''r1'', ts_IDToken = ''i1'',
     ts_ExpiryUnix = 864403215\<rparr>"

definition demo_rotated :: token_set where
  "demo_rotated = \<lparr>ts_AccessToken = ''a2'', ts_RefreshToken = ''r2'', ts_IDToken = ''i2'',
     ts_ExpiryUnix = 864406800\<rparr>"

definition demo_new :: "string \<rightharpoonup> token_entry" where
  "demo_new = [''s1'' \<mapsto> \<lparr>te_Set = demo_rotated, te_ExpiresAt = demo_clock 28800\<rparr>]"

definition demo_key :: string where
  "demo_key = refresh_key ''s1''"

definition demo_sys ::
  "nat \<Rightarrow> (string \<rightharpoonup> bool) \<Rightarrow> (string \<rightharpoonup> token_entry) \<Rightarrow> stage \<Rightarrow> stage \<Rightarrow> (string \<times> string) list
   \<Rightarrow> refresh_system" where
  "demo_sys t lk toks g0 g1 calls =
     \<lparr>rs_world = demo_login\<lparr>ticks := t, tokens := toks, locks := lk\<rparr>,
      rs_stage = (\<lambda>i. if i = 0 then g0 else if i = 1 then g1 else Start), rs_calls = calls\<rparr>"

abbreviation demo_step :: "refresh_system \<Rightarrow> refresh_system \<Rightarrow> bool" where
  "demo_step \<equiv> refresh_step (demo_manager (Inr demo_rotated)) (\<lambda>_. ''s1'')"

lemmas demo_sys_eval = demo_sys_def demo_old_def demo_rotated_def demo_new_def demo_key_def
  fun_eq_iff demo_token_eval demo_eval

lemma demo_step1:
  "demo_step (demo_sys 5 Map.empty (tokens demo_login) Start Start [])
     (demo_sys 7 Map.empty (tokens demo_login) WaitLock Start [])"
  by (rule back_subst [of "demo_step (demo_sys 5 Map.empty (tokens demo_login) Start Start [])",
        OF refresh_step.start_stale [where i = 0 and w = "demo_login\<lparr>ticks := 7, tokens := (tokens demo_login), locks := Map.empty\<rparr>"]])
    (simp_all add: demo_sys_eval)

lemma demo_step2:
  "demo_step (demo_sys 7 Map.empty (tokens demo_login) WaitLock Start [])
     (demo_sys 9 Map.empty (tokens demo_login) WaitLock WaitLock [])"
  by (rule back_subst [of "demo_step (demo_sys 7 Map.empty (tokens demo_login) WaitLock Start [])",
        OF refresh_step.start_stale [where i = 1 and w = "demo_login\<lparr>ticks := 9, tokens := (tokens demo_login), locks := Map.empty\<rparr>"]])
    (simp_all add: demo_sys_eval)

lemma demo_step3:
  "demo_step (demo_sys 9 Map.empty (tokens demo_login) WaitLock WaitLock [])
     (demo_sys 9 [demo_key \<mapsto> False] (tokens demo_login) HaveLock WaitLock [])"
  by (rule back_subst [of "demo_step (demo_sys 9 Map.empty (tokens demo_login) WaitLock WaitLock [])",
        OF refresh_step.lock_ok [where i = 0 and w = "demo_login\<lparr>ticks := 9, tokens := tokens demo_login, locks := [demo_key \<mapsto> False]\<rparr>" and ctx = None]])
    (simp_all add: lock_ok_iff demo_sys_eval)

lemma demo_step4:
  "demo_step (demo_sys 9 [demo_key \<mapsto> False] (tokens demo_login) HaveLock WaitLock [])
     (demo_sys 11 [demo_key \<mapsto> False] (tokens demo_login) (Calling demo_old) WaitLock [])"
  by (rule back_subst [of "demo_step (demo_sys 9 [demo_key \<mapsto> False] (tokens demo_login) HaveLock WaitLock [])",
        OF refresh_step.reread_call [where i = 0 and w = "demo_login\<lparr>ticks := 11, tokens := tokens demo_login, locks := [demo_key \<mapsto> False]\<rparr>" and c = demo_old]])
    (simp_all add: demo_sys_eval)

lemma demo_step5:
  "demo_step (demo_sys 11 [demo_key \<mapsto> False] (tokens demo_login) (Calling demo_old) WaitLock [])
     (demo_sys 11 [demo_key \<mapsto> False] (tokens demo_login) (Persisting demo_old (Inr demo_rotated)) WaitLock [(''s1'', ''r1'')])"
  by (rule back_subst [of "demo_step (demo_sys 11 [demo_key \<mapsto> False] (tokens demo_login) (Calling demo_old) WaitLock [])",
        OF refresh_step.call [where i = 0 and c = demo_old and answer = "Inr demo_rotated"]])
    (simp_all add: demo_sys_eval)

lemma demo_step6:
  "demo_step (demo_sys 11 [demo_key \<mapsto> False] (tokens demo_login) (Persisting demo_old (Inr demo_rotated)) WaitLock [(''s1'', ''r1'')])
     (demo_sys 14 [demo_key \<mapsto> False] demo_new (Unlocking (Inr ''a2'')) WaitLock [(''s1'', ''r1'')])"
  by (rule back_subst [of "demo_step (demo_sys 11 [demo_key \<mapsto> False] (tokens demo_login) (Persisting demo_old (Inr demo_rotated)) WaitLock [(''s1'', ''r1'')])",
        OF refresh_step.persist [where i = 0 and w = "demo_login\<lparr>ticks := 14, tokens := demo_new, locks := [demo_key \<mapsto> False]\<rparr>" and c = demo_old and answer = "Inr demo_rotated" and r = "Inr ''a2''"]])
    (simp_all add: demo_sys_eval)

lemma demo_step7:
  "demo_step (demo_sys 14 [demo_key \<mapsto> False] demo_new (Unlocking (Inr ''a2'')) WaitLock [(''s1'', ''r1'')])
     (demo_sys 14 [demo_key \<mapsto> True] demo_new (Finished (Inr ''a2'')) WaitLock [(''s1'', ''r1'')])"
  by (rule back_subst [of "demo_step (demo_sys 14 [demo_key \<mapsto> False] demo_new (Unlocking (Inr ''a2'')) WaitLock [(''s1'', ''r1'')])",
        OF refresh_step.unlock [where i = 0 and r = "Inr ''a2''"]])
    (simp_all add: demo_sys_eval)

lemma demo_step8:
  "demo_step (demo_sys 14 [demo_key \<mapsto> True] demo_new (Finished (Inr ''a2'')) WaitLock [(''s1'', ''r1'')])
     (demo_sys 14 [demo_key \<mapsto> False] demo_new (Finished (Inr ''a2'')) HaveLock [(''s1'', ''r1'')])"
  by (rule back_subst [of "demo_step (demo_sys 14 [demo_key \<mapsto> True] demo_new (Finished (Inr ''a2'')) WaitLock [(''s1'', ''r1'')])",
        OF refresh_step.lock_ok [where i = 1 and w = "demo_login\<lparr>ticks := 14, tokens := demo_new, locks := [demo_key \<mapsto> False]\<rparr>" and ctx = None]])
    (simp_all add: lock_ok_iff demo_sys_eval)

lemma demo_step9:
  "demo_step (demo_sys 14 [demo_key \<mapsto> False] demo_new (Finished (Inr ''a2'')) HaveLock [(''s1'', ''r1'')])
     (demo_sys 16 [demo_key \<mapsto> False] demo_new (Finished (Inr ''a2'')) (Unlocking (Inr ''a2'')) [(''s1'', ''r1'')])"
  by (rule back_subst [of "demo_step (demo_sys 14 [demo_key \<mapsto> False] demo_new (Finished (Inr ''a2'')) HaveLock [(''s1'', ''r1'')])",
        OF refresh_step.reread_done [where i = 1 and w = "demo_login\<lparr>ticks := 16, tokens := demo_new, locks := [demo_key \<mapsto> False]\<rparr>" and r = "Inr ''a2''"]])
    (simp_all add: demo_sys_eval)

lemmas demo_steps = demo_step1 demo_step2 demo_step3 demo_step4 demo_step5 demo_step6 demo_step7 demo_step8 demo_step9

lemma demo_run:
  "refresh_reach (demo_manager (Inr demo_rotated)) (\<lambda>_. ''s1'')
     (demo_sys 5 Map.empty (tokens demo_login) Start Start [])
     (demo_sys 16 [demo_key \<mapsto> False] demo_new (Finished (Inr ''a2'')) (Unlocking (Inr ''a2''))
        [(''s1'', ''r1'')])"
  unfolding refresh_reach_def
  by (rule converse_rtranclp_into_rtranclp, rule demo_steps)+ (rule rtranclp.rtrancl_refl)

section \<open>Properties\<close>

text \<open>
  C1. Concurrent requests never present a refresh token twice: from any state in which no request has
  started, over every interleaving of requests, clock, logouts and provider answers, each pair of
  session and refresh token occurs at most once in the log of refresh calls (so a provider that
  revokes a login when a rotated token is reused never does so), and at most one request per session
  is between taking and releasing the refresh lock.
\<close>

theorem refresh_token_sent_once:
  assumes "memory_manager s m" and "refresh_init S" and "refresh_reach m sid_of S S'"
  shows "distinct (rs_calls S') \<and>
    (\<forall>i j. critical (rs_stage S' i) \<and> critical (rs_stage S' j) \<and> sid_of i = sid_of j \<longrightarrow> i = j)"
proof -
  have "refresh_inv sid_of S'"
    using refresh_inv_reach [OF assms(1,3) refresh_inv_init [OF assms(2)]] .
  then show ?thesis using inv_mutex inv_distinct by blast
qed

theorem refresh_token_sent_once_witness:
  "let S' = demo_sys 16 [demo_key \<mapsto> False] demo_new (Finished (Inr ''a2'')) (Unlocking (Inr ''a2''))
              [(''s1'', ''r1'')]
   in distinct (rs_calls S') \<and>
      (\<forall>i j. critical (rs_stage S' i) \<and> critical (rs_stage S' j) \<and> ''s1'' = ''s1'' \<longrightarrow> i = j)"
  unfolding Let_def
proof (rule refresh_token_sent_once)
  show "memory_manager demo_lifecycle (demo_manager (Inr demo_rotated))" by (rule demo_manager_memory)
  show "refresh_init (demo_sys 5 Map.empty (tokens demo_login) Start Start [])"
    by (simp add: refresh_init_def demo_sys_def)
qed (rule demo_run)

end
