(* ===== verification/GoURL.thy ===== *)
theory GoURL
  imports GoStrings
begin

text \<open>
  The functions of \<^verbatim>\<open>net/url\<close> and \<^verbatim>\<open>path\<close> that the gateway calls: \<^verbatim>\<open>url.Parse\<close> with all fields of its result,
  percent-encoding by the part of a URL that is encoded, and \<^verbatim>\<open>path.Clean\<close>. Of an IP literal in brackets only the
  brackets and the port are examined, and an IPv6 zone is not told apart.
\<close>

section \<open>Definitions\<close>

subsection \<open>Character classes\<close>

definition byte_of :: "char \<Rightarrow> nat" where
  "byte_of c = of_char c"

definition is_alpha :: "char \<Rightarrow> bool" where
  "is_alpha c \<longleftrightarrow> (let n = byte_of c in 65 \<le> n \<and> n \<le> 90 \<or> 97 \<le> n \<and> n \<le> 122)"

definition is_digit :: "char \<Rightarrow> bool" where
  "is_digit c \<longleftrightarrow> (let n = byte_of c in 48 \<le> n \<and> n \<le> 57)"

definition is_alnum :: "char \<Rightarrow> bool" where
  "is_alnum c \<longleftrightarrow> is_alpha c \<or> is_digit c"

definition hex_value :: "char \<Rightarrow> nat option" where
  "hex_value c =
     (let n = byte_of c
      in if 48 \<le> n \<and> n \<le> 57 then Some (n - 48)
         else if 97 \<le> n \<and> n \<le> 102 then Some (n - 87)
         else if 65 \<le> n \<and> n \<le> 70 then Some (n - 55)
         else None)"

text \<open>The control bytes that \<^verbatim>\<open>url.Parse\<close> refuses.\<close>

definition is_ctl :: "char \<Rightarrow> bool" where
  "is_ctl c \<longleftrightarrow> (let n = byte_of c in n < 32 \<or> n = 127)"

subsection \<open>Percent-encoding\<close>

fun unescape :: "string \<Rightarrow> string option" where
  "unescape [] = Some []"
| "unescape (c # s) =
     (if c = CHR ''%'' then
        (case s of
           a # b # s' \<Rightarrow>
             (case (hex_value a, hex_value b) of
                (Some x, Some y) \<Rightarrow> map_option (\<lambda>t. char_of (16 * x + y) # t) (unescape s')
              | _ \<Rightarrow> None)
         | _ \<Rightarrow> None)
      else map_option (\<lambda>t. c # t) (unescape s))"

text \<open>\<^verbatim>\<open>shouldEscape\<close>: which bytes are written as an escape depends on the part of the URL.\<close>

datatype encoding =
    EncodePath
  | EncodeHost
  | EncodeUserPassword
  | EncodeQueryComponent
  | EncodeFragment

definition shouldEscape :: "char \<Rightarrow> encoding \<Rightarrow> bool" where
  "shouldEscape c mode =
     (if is_alnum c then False
      else if mode = EncodeHost \<and> (c \<in> set ''!$&()*+,;=:[]<>'' \<or> c = CHR 0x27 \<or> c = CHR 0x22) then False
      else if c \<in> set ''-_.~'' then False
      else if c \<in> set ''$&+,/:;=?@'' then
        (case mode of
           EncodePath \<Rightarrow> c = CHR ''?''
         | EncodeUserPassword \<Rightarrow> c \<in> set ''@/?:''
         | EncodeQueryComponent \<Rightarrow> True
         | EncodeFragment \<Rightarrow> False
         | EncodeHost \<Rightarrow> True)
      else if mode = EncodeFragment \<and> c \<in> set ''!()*'' then False
      else True)"

definition upperhex :: string where
  "upperhex = ''0123456789ABCDEF''"

definition escape_char :: "encoding \<Rightarrow> char \<Rightarrow> string" where
  "escape_char mode c =
     (if c = CHR '' '' \<and> mode = EncodeQueryComponent then ''+''
      else if shouldEscape c mode then
        [CHR ''%'', upperhex ! (byte_of c div 16), upperhex ! (byte_of c mod 16)]
      else [c])"

definition escape :: "encoding \<Rightarrow> string \<Rightarrow> string" where
  "escape mode s = concat (map (escape_char mode) s)"

text \<open>\<^verbatim>\<open>validEncoded\<close>: a raw path or fragment that may be printed as it was read.\<close>

definition validEncoded :: "encoding \<Rightarrow> string \<Rightarrow> bool" where
  "validEncoded mode s \<longleftrightarrow>
     list_all (\<lambda>c. c \<in> set ''!$&()*+,;=:@[]%'' \<or> c = CHR 0x27 \<or> \<not> shouldEscape c mode) s"

text \<open>In a host, an escape is allowed only for \<^verbatim>\<open>%25\<close> and for bytes beyond ASCII.\<close>

definition host_char :: "char \<Rightarrow> bool" where
  "host_char c \<longleftrightarrow> is_alnum c \<or> c \<in> set ''-_.~!$&()*+,;=:[]<>'' \<or> c = CHR 0x27 \<or> c = CHR 0x22 \<or>
     128 \<le> byte_of c"

fun host_escapes_ok :: "string \<Rightarrow> bool" where
  "host_escapes_ok [] \<longleftrightarrow> True"
| "host_escapes_ok (c # s) \<longleftrightarrow>
     (if c = CHR ''%'' then
        (case s of
           a # b # s' \<Rightarrow>
             (case hex_value a of
                Some x \<Rightarrow> (8 \<le> x \<or> [a, b] = ''25'') \<and> host_escapes_ok s'
              | None \<Rightarrow> False)
         | _ \<Rightarrow> False)
      else host_char c \<and> host_escapes_ok s)"

definition unescape_host :: "string \<Rightarrow> string option" where
  "unescape_host s = (if host_escapes_ok s then unescape s else None)"

subsection \<open>Scheme, authority and path\<close>

text \<open>\<^verbatim>\<open>getScheme\<close>: the scheme and the rest; an error for a leading colon.\<close>

fun getScheme_from :: "string \<Rightarrow> string \<Rightarrow> (string \<times> string) option" where
  "getScheme_from seen [] = Some ([], rev seen)"
| "getScheme_from seen (c # s) =
     (if is_alpha c then getScheme_from (c # seen) s
      else if is_digit c \<or> c \<in> set ''+-.'' then
        (if seen = [] then Some ([], c # s) else getScheme_from (c # seen) s)
      else if c = CHR '':'' then
        (if seen = [] then None else Some (rev seen, s))
      else Some ([], rev seen @ c # s))"

definition getScheme :: "string \<Rightarrow> (string \<times> string) option" where
  "getScheme s = getScheme_from [] s"

text \<open>The parts before and after the last occurrence of a character.\<close>

definition cut_last :: "string \<Rightarrow> char \<Rightarrow> (string \<times> string) option" where
  "cut_last s c = (case Cut (rev s) c of (a, b, found) \<Rightarrow> if found then Some (rev b, rev a) else None)"

definition validOptionalPort :: "string \<Rightarrow> bool" where
  "validOptionalPort p \<longleftrightarrow> p = [] \<or> (hd p = CHR '':'' \<and> list_all is_digit (tl p))"

definition validUserinfo :: "string \<Rightarrow> bool" where
  "validUserinfo s \<longleftrightarrow>
     list_all (\<lambda>c. is_alnum c \<or> c \<in> set ''-._:~!$&()*+,;=%@'' \<or> c = CHR 0x27) s"

definition parseHost :: "string \<Rightarrow> string option" where
  "parseHost host =
     (if HasPrefix host ''['' then
        (case cut_last host (CHR '']'') of
           None \<Rightarrow> None
         | Some (_, colonPort) \<Rightarrow> if validOptionalPort colonPort then unescape_host host else None)
      else
        (case cut_last host (CHR '':'') of
           Some (name, port) \<Rightarrow>
             if CHR '':'' \<notin> set name \<and> list_all is_digit port then unescape_host host else None
         | None \<Rightarrow> unescape_host host))"

definition parseAuthority :: "string \<Rightarrow> string option" where
  "parseAuthority authority =
     (case cut_last authority (CHR ''@'') of
        None \<Rightarrow> parseHost authority
      | Some (userinfo, host) \<Rightarrow>
          (case parseHost host of
             None \<Rightarrow> None
           | Some h \<Rightarrow> if validUserinfo userinfo \<and> unescape userinfo \<noteq> None then Some h else None))"

text \<open>
  The user information of an authority that \<^verbatim>\<open>parseAuthority\<close> accepts; then its two parts can be decoded, since the
  colon between them is no hexadecimal digit.
\<close>

definition decoded :: "string \<Rightarrow> string" where
  "decoded s = (case unescape s of None \<Rightarrow> [] | Some d \<Rightarrow> d)"

record userinfo =
  ui_username :: string
  ui_password :: string
  ui_passwordSet :: bool

definition parse_userinfo :: "string \<Rightarrow> userinfo" where
  "parse_userinfo s =
     (if CHR '':'' \<notin> set s then
        \<lparr>ui_username = decoded s, ui_password = [], ui_passwordSet = False\<rparr>
      else (case Cut s (CHR '':'') of (name, password, _) \<Rightarrow>
        \<lparr>ui_username = decoded name, ui_password = decoded password,
         ui_passwordSet = True\<rparr>))"

definition authority_user :: "string \<Rightarrow> userinfo option" where
  "authority_user authority = map_option (\<lambda>(user, _). parse_userinfo user) (cut_last authority (CHR ''@''))"

record url =
  u_Scheme :: string
  u_Opaque :: string
  u_User :: "userinfo option"
  u_Host :: string
  u_Path :: string
  u_RawPath :: string
  u_OmitHost :: bool
  u_ForceQuery :: bool
  u_RawQuery :: string
  u_Fragment :: string
  u_RawFragment :: string

definition empty_url :: url where
  "empty_url = \<lparr>u_Scheme = [], u_Opaque = [], u_User = None, u_Host = [], u_Path = [], u_RawPath = [],
     u_OmitHost = False, u_ForceQuery = False, u_RawQuery = [], u_Fragment = [], u_RawFragment = []\<rparr>"

text \<open>
  \<^verbatim>\<open>setPath\<close> and \<^verbatim>\<open>setFragment\<close>: the decoded text, and the text as it was read where encoding again does not give it.
\<close>

definition raw_text :: "encoding \<Rightarrow> string \<Rightarrow> string \<Rightarrow> string" where
  "raw_text mode p d = (if escape mode d = p then [] else p)"

definition setPath :: "url \<Rightarrow> string \<Rightarrow> url option" where
  "setPath u p = map_option (\<lambda>d. u\<lparr>u_Path := d, u_RawPath := raw_text EncodePath p d\<rparr>) (unescape p)"

definition setFragment :: "url \<Rightarrow> string \<Rightarrow> url option" where
  "setFragment u f =
     map_option (\<lambda>d. u\<lparr>u_Fragment := d, u_RawFragment := raw_text EncodeFragment f d\<rparr>) (unescape f)"

text \<open>The rest after the scheme, cut at its query: a single question mark at the end is remembered as such.\<close>

definition force_query :: "string \<Rightarrow> bool" where
  "force_query rest \<longleftrightarrow> (case Cut rest (CHR ''?'') of (_, query, found) \<Rightarrow> found \<and> query = [])"

text \<open>The URL without its fragment (\<^verbatim>\<open>parse\<close> with \<^verbatim>\<open>viaRequest\<close> false).\<close>

definition parse_noFragment :: "string \<Rightarrow> url option" where
  "parse_noFragment raw =
     (if list_ex is_ctl raw then None
      else if raw = ''*'' then Some (empty_url\<lparr>u_Path := ''*''\<rparr>)
      else (case getScheme raw of
        None \<Rightarrow> None
      | Some (scheme0, rest0) \<Rightarrow>
          let scheme = ToLower scheme0;
              (rest, query, _) = Cut rest0 (CHR ''?'');
              u = empty_url\<lparr>u_Scheme := scheme, u_RawQuery := query, u_ForceQuery := force_query rest0\<rparr>
          in if \<not> HasPrefix rest ''/'' \<and> scheme \<noteq> [] then Some (u\<lparr>u_Opaque := rest\<rparr>)
             else if \<not> HasPrefix rest ''/'' \<and> CHR '':'' \<in> set (fst (Cut rest (CHR ''/''))) then None
             else if (scheme \<noteq> [] \<or> \<not> HasPrefix rest ''///'') \<and> HasPrefix rest ''//'' then
               (let (authority, after, found) = Cut (drop 2 rest) (CHR ''/'')
                in case parseAuthority authority of
                     None \<Rightarrow> None
                   | Some host \<Rightarrow>
                       setPath (u\<lparr>u_User := authority_user authority, u_Host := host\<rparr>)
                         (if found then CHR ''/'' # after else []))
             else setPath (u\<lparr>u_OmitHost := scheme \<noteq> [] \<and> HasPrefix rest ''/''\<rparr>) rest))"

definition url_Parse :: "string \<Rightarrow> url option" where
  "url_Parse raw =
     (let (u, frag, _) = Cut raw (CHR ''#'')
      in case parse_noFragment u of
           None \<Rightarrow> None
         | Some r \<Rightarrow> if frag = [] then Some r else setFragment r frag)"

subsection \<open>Printing\<close>

definition Userinfo_String :: "userinfo \<Rightarrow> string" where
  "Userinfo_String ui =
     (if ui_username ui \<noteq> [] \<or> ui_password ui \<noteq> [] then
        escape EncodeUserPassword (ui_username ui) @
        (if ui_passwordSet ui then CHR '':'' # escape EncodeUserPassword (ui_password ui) else [])
      else [])"

definition EscapedPath :: "url \<Rightarrow> string" where
  "EscapedPath u =
     (if u_RawPath u \<noteq> [] \<and> validEncoded EncodePath (u_RawPath u) \<and> unescape (u_RawPath u) = Some (u_Path u)
      then u_RawPath u
      else if u_Path u = ''*'' then ''*''
      else escape EncodePath (u_Path u))"

definition EscapedFragment :: "url \<Rightarrow> string" where
  "EscapedFragment u =
     (if u_RawFragment u \<noteq> [] \<and> validEncoded EncodeFragment (u_RawFragment u) \<and>
         unescape (u_RawFragment u) = Some (u_Fragment u)
      then u_RawFragment u else escape EncodeFragment (u_Fragment u))"

text \<open>\<^verbatim>\<open>URL.String\<close>, first the part in front of the query.\<close>

definition url_authority :: "url \<Rightarrow> string" where
  "url_authority u =
     (if (u_Scheme u \<noteq> [] \<or> u_Host u \<noteq> [] \<or> u_User u \<noteq> None) \<and>
         \<not> (u_OmitHost u \<and> u_Host u = [] \<and> u_User u = None) then
        (if u_Host u \<noteq> [] \<or> u_Path u \<noteq> [] \<or> u_User u \<noteq> None then ''//'' else []) @
        (case u_User u of None \<Rightarrow> [] | Some ui \<Rightarrow> Userinfo_String ui @ ''@'') @
        (if u_Host u \<noteq> [] then escape EncodeHost (u_Host u) else [])
      else [])"

definition url_front :: "url \<Rightarrow> string" where
  "url_front u =
     (let scheme = (if u_Scheme u \<noteq> [] then u_Scheme u @ '':'' else [])
      in if u_Opaque u \<noteq> [] then scheme @ u_Opaque u
         else
           (let before = scheme @ url_authority u;
                p = EscapedPath u;
                before1 = (if p \<noteq> [] \<and> hd p \<noteq> CHR ''/'' \<and> u_Host u \<noteq> [] then before @ ''/'' else before);
                before2 = (if before1 = [] \<and> CHR '':'' \<in> set (fst (Cut p (CHR ''/''))) then ''./'' else before1)
            in before2 @ p))"

definition URL_String :: "url \<Rightarrow> string" where
  "URL_String u =
     url_front u @
     (if u_ForceQuery u \<or> u_RawQuery u \<noteq> [] then CHR ''?'' # u_RawQuery u else []) @
     (if u_Fragment u \<noteq> [] then CHR ''#'' # EscapedFragment u else [])"

definition IsAbs :: "url \<Rightarrow> bool" where
  "IsAbs u \<longleftrightarrow> u_Scheme u \<noteq> []"

subsection \<open>path.Clean\<close>

fun clean_segs :: "bool \<Rightarrow> string list \<Rightarrow> string list \<Rightarrow> string list" where
  "clean_segs rooted st [] = rev st"
| "clean_segs rooted st (s # ss) =
     (if s = [] \<or> s = ''.'' then clean_segs rooted st ss
      else if s = ''..'' then
        (case st of
           t # ts \<Rightarrow> if t \<noteq> ''..'' then clean_segs rooted ts ss else clean_segs rooted (s # st) ss
         | [] \<Rightarrow> if rooted then clean_segs rooted [] ss else clean_segs rooted [s] ss)
      else clean_segs rooted (s # st) ss)"

fun join_path :: "string list \<Rightarrow> string" where
  "join_path [] = []"
| "join_path [s] = s"
| "join_path (s # ss) = s @ CHR ''/'' # join_path ss"

definition path_Clean :: "string \<Rightarrow> string" where
  "path_Clean p =
     (if p = [] then ''.''
      else if hd p = CHR ''/'' then CHR ''/'' # join_path (clean_segs True [] (Split p (CHR ''/'')))
      else (let segs = clean_segs False [] (Split p (CHR ''/''))
            in if segs = [] then ''.'' else join_path segs))"

section \<open>Lemmas\<close>

lemma Cut_fst_prefix: "prefix (fst (Cut s c)) s"
  by (induction s) (auto split: prod.split)

lemma Cut_fst_no_sep: "c \<notin> set (fst (Cut s c))"
  by (induction s) (auto split: prod.split)

lemma clean_segs_from:
  "x \<in> set (clean_segs r st ss) \<Longrightarrow> x \<in> set st \<or> (x \<in> set ss \<and> x \<noteq> [] \<and> x \<noteq> ''.'')"
  by (induction r st ss rule: clean_segs.induct) (auto split: if_splits list.splits)

lemma clean_segs_Split:
  assumes "x \<in> set (clean_segs r [] (Split p (CHR ''/'')))"
  shows "x \<noteq> []" "CHR ''/'' \<notin> set x"
  using clean_segs_from [OF assms] Split_no_sep [of x p "CHR ''/''"] by auto

lemma join_path_hd:
  assumes "\<forall>x \<in> set ss. x \<noteq> [] \<and> CHR ''/'' \<notin> set x"
  shows "join_path ss = [] \<or> hd (join_path ss) \<noteq> CHR ''/''"
  using assms by (cases ss rule: join_path.cases) (auto simp: hd_append, (metis hd_in_set)+)

text \<open>A rooted path cleans to a rooted path with exactly one leading slash.\<close>

lemma path_Clean_rooted:
  assumes "p \<noteq> []" "hd p = CHR ''/''"
  shows "\<exists>t. path_Clean p = CHR ''/'' # t \<and> (t = [] \<or> hd t \<noteq> CHR ''/'')"
proof -
  have "join_path (clean_segs True [] (Split p (CHR ''/''))) = [] \<or>
      hd (join_path (clean_segs True [] (Split p (CHR ''/'')))) \<noteq> CHR ''/''"
    by (rule join_path_hd) (use clean_segs_Split in blast)
  with assms show ?thesis by (simp add: path_Clean_def)
qed

lemma Split_join_path:
  assumes "ss \<noteq> []" "\<forall>s \<in> set ss. CHR ''/'' \<notin> set s"
  shows "Split (join_path ss) (CHR ''/'') = ss"
proof -
  have app: "Split (s @ CHR ''/'' # t) (CHR ''/'') = s # Split t (CHR ''/'')" if "CHR ''/'' \<notin> set s" for s t
    using that by (induction s) auto
  show ?thesis
    using assms by (induction ss rule: join_path.induct) (auto simp: Split_absent app)
qed

lemma Cut_append:
  "Cut (s @ t) c = (if c \<in> set s then (fst (Cut s c), fst (snd (Cut s c)) @ t, True)
                    else (s @ fst (Cut t c), snd (Cut t c)))"
  by (induction s) (auto simp: case_prod_beta)

lemma Cut_found: "snd (snd (Cut s c)) \<longleftrightarrow> c \<in> set s"
  by (induction s) (auto simp: case_prod_beta)

lemma Cut_absent: "c \<notin> set s \<Longrightarrow> Cut s c = (s, [], False)"
  by (induction s) auto

lemma getScheme_slash [simp]: "getScheme (CHR ''/'' # s) = Some ([], CHR ''/'' # s)"
  by (simp add: getScheme_def is_alpha_def is_digit_def byte_of_def)

lemma cut_last_Some: "cut_last s c = Some (a, b) \<Longrightarrow> s = a @ c # b \<and> c \<notin> set b"
  using Cut_parts [of "rev s" c] by (auto simp: cut_last_def split: prod.splits if_splits)
    (metis rev.simps(2) rev_append rev_rev_ident append_assoc append_Cons append_Nil)

lemma cut_last_None: "cut_last s c = None \<Longrightarrow> c \<notin> set s"
  using Cut_parts [of "rev s" c] by (auto simp: cut_last_def split: prod.splits if_splits)

end
