(* ===== verification/GoQuery.thy ===== *)
theory GoQuery
  imports GoURL "HOL-Library.List_Lexorder" "HOL-Library.Char_ord"
begin

text \<open>
  Queries (\<^verbatim>\<open>url.Values\<close>): parsing, lookup, replacement and encoding with sorted keys, and the lemmas that relate the
  text of a URL to its parts. \<^verbatim>\<open>url.Values\<close> is a list of keys with their values, each key once; the limit on the number
  of parameters that recent releases of Go apply is left out.
\<close>

section \<open>Definitions\<close>

definition QueryEscape :: "string \<Rightarrow> string" where
  "QueryEscape s = escape EncodeQueryComponent s"

definition QueryUnescape :: "string \<Rightarrow> string option" where
  "QueryUnescape s = unescape (ReplaceAll s (CHR ''+'') (CHR '' ''))"

type_synonym url_values = "(string \<times> string list) list"

fun values_add :: "string \<Rightarrow> string \<Rightarrow> url_values \<Rightarrow> url_values" where
  "values_add k v [] = [(k, [v])]"
| "values_add k v ((k', vs) # q) = (if k' = k then (k', vs @ [v]) # q else (k', vs) # values_add k v q)"

definition parse_pair :: "string \<Rightarrow> url_values \<Rightarrow> url_values" where
  "parse_pair s q =
     (if CHR '';'' \<in> set s \<or> s = [] then q
      else (case Cut s (CHR ''='') of (k, v, _) \<Rightarrow>
        (case (QueryUnescape k, QueryUnescape v) of (Some k', Some v') \<Rightarrow> values_add k' v' q | _ \<Rightarrow> q)))"

text \<open>\<^verbatim>\<open>ParseQuery\<close> as \<^verbatim>\<open>URL.Query\<close> calls it: pairs that cannot be read are skipped.\<close>

definition ParseQuery :: "string \<Rightarrow> url_values" where
  "ParseQuery s = fold parse_pair (Split s (CHR ''&'')) []"

definition Values_Get :: "url_values \<Rightarrow> string \<Rightarrow> string" where
  "Values_Get q k = (case map_of q k of Some (v # _) \<Rightarrow> v | _ \<Rightarrow> [])"

fun Values_Set :: "string \<Rightarrow> string \<Rightarrow> url_values \<Rightarrow> url_values" where
  "Values_Set k v [] = [(k, [v])]"
| "Values_Set k v ((k', vs) # q) = (if k' = k then (k', [v]) # q else (k', vs) # Values_Set k v q)"

definition encode_pair :: "string \<Rightarrow> string \<Rightarrow> string" where
  "encode_pair k v = QueryEscape k @ CHR ''='' # QueryEscape v"

definition Values_Encode :: "url_values \<Rightarrow> string" where
  "Values_Encode q =
     strings_Join (concat (map (\<lambda>(k, vs). map (encode_pair k) vs) (sort_key fst q))) ''&''"

section \<open>Lemmas\<close>

subsection \<open>Percent-encoding\<close>

lemmas char_classes = is_alnum_def is_alpha_def is_digit_def byte_of_def Let_def

lemma upperhex_digits:
  assumes "n < 16"
  shows "hex_value (upperhex ! n) = Some n" "is_alnum (upperhex ! n)"
proof -
  have "list_all (\<lambda>n. hex_value (upperhex ! n) = Some n \<and> is_alnum (upperhex ! n)) [0..<16]" by code_simp
  with assms show "hex_value (upperhex ! n) = Some n" "is_alnum (upperhex ! n)" by (simp_all add: list_all_iff)
qed

lemma byte_halves: "byte_of c div 16 < 16" "byte_of c mod 16 < 16" "char_of (16 * (byte_of c div 16) + byte_of c mod 16) = c"
proof -
  have "byte_of c < 256" by (simp add: byte_of_def)
  then show "byte_of c div 16 < 16" by (simp add: div_less_iff_less_mult)
  show "byte_of c mod 16 < 16" by simp
  show "char_of (16 * (byte_of c div 16) + byte_of c mod 16) = c" by (simp add: byte_of_def)
qed

lemma char_of_byte_of [simp]: "char_of (byte_of c) = c"
  by (simp add: byte_of_def)

lemma alnum_not_escaped: "is_alnum c \<Longrightarrow> \<not> shouldEscape c mode"
  by (simp add: shouldEscape_def)

lemma shouldEscape_percent [simp]: "shouldEscape (CHR ''%'') mode"
  by (simp add: shouldEscape_def char_classes)

lemma shouldEscape_ctl:
  assumes "is_ctl c"
  shows "shouldEscape c mode"
proof -
  have "list_all (\<lambda>x. \<not> is_ctl x) ''!$&()*+,;=:[]<>-_.~/?@''" "\<not> is_ctl (CHR 0x27)" "\<not> is_ctl (CHR 0x22)"
    by code_simp+
  with assms have "c \<notin> set ''!$&()*+,;=:[]<>-_.~/?@''" and c: "c \<noteq> CHR 0x27" "c \<noteq> CHR 0x22"
    by (auto simp only: list_all_iff)
  then have "c \<notin> set ''!$&()*+,;=:[]<>''" "c \<notin> set ''-_.~''" "c \<notin> set ''$&+,/:;=?@''" "c \<notin> set ''!()*''" by simp_all
  moreover have "\<not> is_alnum c" using assms by (auto simp: is_ctl_def char_classes)
  ultimately show ?thesis using c by (simp only: shouldEscape_def simp_thms if_False)
qed

lemma shouldEscape_query: "c \<in> set ''$&+,/:;=?@#'' \<Longrightarrow> shouldEscape c EncodeQueryComponent"
proof -
  have "list_all (\<lambda>c. shouldEscape c EncodeQueryComponent) ''$&+,/:;=?@#''" by code_simp
  then show "c \<in> set ''$&+,/:;=?@#'' \<Longrightarrow> shouldEscape c EncodeQueryComponent" unfolding list_all_iff by blast
qed

lemma escape_Nil [simp]: "escape mode [] = []"
  by (simp add: escape_def)

lemma escape_Cons [simp]: "escape mode (c # s) = escape_char mode c @ escape mode s"
  by (simp add: escape_def)

lemma escape_append [simp]: "escape mode (s @ t) = escape mode s @ escape mode t"
  by (simp add: escape_def)

lemma escape_eq_Nil [simp]: "escape mode s = [] \<longleftrightarrow> s = []"
  by (cases s) (auto simp: escape_char_def)

text \<open>What an encoded text consists of.\<close>

lemma escape_set:
  assumes "x \<in> set (escape mode s)"
  shows "x = CHR ''%'' \<or> mode = EncodeQueryComponent \<and> x = CHR ''+'' \<or> \<not> shouldEscape x mode"
  using assms
proof (induction s)
  case (Cons c s)
  then show ?case
    using alnum_not_escaped [OF upperhex_digits(2) [OF byte_halves(1) [of c]]]
      alnum_not_escaped [OF upperhex_digits(2) [OF byte_halves(2) [of c]]]
    by (auto simp: escape_char_def split: if_splits)
qed simp

lemma escape_no_ctl: "\<not> list_ex is_ctl (escape mode s)"
proof -
  have "\<not> is_ctl (CHR ''%'')" "\<not> is_ctl (CHR ''+'')" by code_simp+
  then have "\<not> is_ctl x" if "x \<in> set (escape mode s)" for x
    using escape_set [OF that] shouldEscape_ctl [of x mode] by blast
  then show ?thesis by (auto simp: list_ex_iff)
qed

lemma unescape_escape:
  "mode \<noteq> EncodeQueryComponent \<Longrightarrow> unescape (escape mode s @ t) = map_option ((@) s) (unescape t)"
proof (induction s)
  case Nil
  then show ?case by (simp add: option.map_ident)
next
  case (Cons c s)
  then show ?case
    by (cases "c = CHR ''%''")
      (auto simp: escape_char_def upperhex_digits byte_halves option.map_comp comp_def)
qed

lemma unescape_escape' [simp]: "mode \<noteq> EncodeQueryComponent \<Longrightarrow> unescape (escape mode s) = Some s"
  using unescape_escape [of mode s "[]"] by simp

lemma QueryUnescape_QueryEscape [simp]: "QueryUnescape (QueryEscape s) = Some s"
proof (induction s)
  case (Cons c s)
  have e: "shouldEscape (CHR ''+'') EncodeQueryComponent" by code_simp
  have "upperhex ! n \<noteq> CHR ''+''" if "n < 16" for n
    using upperhex_digits(2) [OF that] by (auto simp: is_alnum_def is_alpha_def is_digit_def byte_of_def)
  with Cons e show ?case
    by (cases "c = CHR ''%''")
      (auto simp: QueryUnescape_def QueryEscape_def ReplaceAll_def escape_char_def upperhex_digits byte_halves)
qed (simp add: QueryUnescape_def QueryEscape_def ReplaceAll_def)

lemma QueryEscape_set:
  assumes "x \<in> set (QueryEscape s)"
  shows "x \<notin> set ''&=;?#''" "\<not> is_ctl x"
proof -
  have "x = CHR ''%'' \<or> x = CHR ''+'' \<or> \<not> shouldEscape x EncodeQueryComponent"
    using assms escape_set unfolding QueryEscape_def by blast
  moreover have "\<not> is_ctl (CHR ''%'')" "\<not> is_ctl (CHR ''+'')" by code_simp+
  ultimately show "x \<notin> set ''&=;?#''" "\<not> is_ctl x"
    using shouldEscape_ctl [of x EncodeQueryComponent] shouldEscape_query [of x] by auto
qed

subsection \<open>Encoded queries\<close>

lemma encode_pair_set:
  assumes "x \<in> set (encode_pair k v)"
  shows "x \<notin> set ''&;?#''" "\<not> is_ctl x"
proof -
  have "\<not> is_ctl (CHR ''='')" by code_simp
  with assms show "x \<notin> set ''&;?#''" "\<not> is_ctl x"
    using QueryEscape_set [of x k] QueryEscape_set [of x v] by (auto simp: encode_pair_def)
qed

lemma parse_pair_encode: "parse_pair (encode_pair k v) q = values_add k v q"
proof -
  have "CHR ''='' \<notin> set (QueryEscape k)" "CHR '';'' \<notin> set (encode_pair k v)"
    using QueryEscape_set(1) [of "CHR ''=''" k] encode_pair_set(1) [of "CHR '';''" k v] by auto
  then show ?thesis by (simp add: parse_pair_def) (simp add: encode_pair_def Cut_append)
qed

lemma parse_pair_fold: "parse_pair \<circ> encode_pair k = values_add k"
  by (simp add: fun_eq_iff parse_pair_encode)

lemma values_add_new: "k \<notin> fst ` set q \<Longrightarrow> values_add k v q = q @ [(k, [v])]"
  by (induction q rule: values_add.induct) auto

lemma values_add_last: "k \<notin> fst ` set q \<Longrightarrow> values_add k v (q @ [(k, vs)]) = q @ [(k, vs @ [v])]"
  by (induction q) auto

lemma fold_values_add_last:
  "k \<notin> fst ` set q \<Longrightarrow> fold (values_add k) vs (q @ [(k, us)]) = q @ [(k, us @ vs)]"
  by (induction vs arbitrary: us) (auto simp: values_add_last)

lemma fold_values_add:
  assumes "k \<notin> fst ` set q" "vs \<noteq> []"
  shows "fold (values_add k) vs q = q @ [(k, vs)]"
  using assms by (cases vs) (auto simp: values_add_new fold_values_add_last)

lemma fold_parse_encoded:
  assumes "distinct (map fst (q0 @ q))" "\<forall>(k, vs) \<in> set q. vs \<noteq> []"
  shows "fold parse_pair (concat (map (\<lambda>(k, vs). map (encode_pair k) vs) q)) q0 = q0 @ q"
  using assms
proof (induction q arbitrary: q0)
  case (Cons e q)
  obtain k vs where e: "e = (k, vs)" by fastforce
  have "fold parse_pair (map (encode_pair k) vs) q0 = q0 @ [(k, vs)]"
    using Cons.prems fold_values_add [of k q0 vs] by (auto simp: e fold_map parse_pair_fold image_iff)
  then show ?case using Cons.IH [of "q0 @ [(k, vs)]"] Cons.prems by (simp add: e)
qed simp

lemma distinct_sort_keys: "distinct (map fst q) \<Longrightarrow> distinct (map fst (sort_key fst q))"
  by (simp add: distinct_map inj_on_def)

text \<open>Reading an encoded query gives its values, with the keys in order.\<close>

lemma ParseQuery_Encode:
  assumes "distinct (map fst q)" "\<forall>(k, vs) \<in> set q. vs \<noteq> []"
  shows "ParseQuery (Values_Encode q) = sort_key fst q"
proof -
  let ?ss = "concat (map (\<lambda>(k, vs). map (encode_pair k) vs) (sort_key fst q))"
  have *: "fold parse_pair ?ss [] = sort_key fst q"
    using fold_parse_encoded [of "[]" "sort_key fst q"] distinct_sort_keys [OF assms(1)] assms(2) by simp
  show ?thesis
  proof (cases "?ss = []")
    case True
    with * show ?thesis by (simp add: ParseQuery_def Values_Encode_def parse_pair_def)
  next
    case False
    have "\<forall>s \<in> set ?ss. CHR ''&'' \<notin> set s" using encode_pair_set(1) [of "CHR ''&''"] by auto
    from Split_strings_Join [OF False this] * show ?thesis by (simp add: ParseQuery_def Values_Encode_def)
  qed
qed

lemma strings_Join_set: "x \<in> set (strings_Join ss sep) \<Longrightarrow> x \<in> set sep \<or> (\<exists>s \<in> set ss. x \<in> set s)"
  by (induction ss sep rule: strings_Join.induct) auto

lemma Values_Encode_set: "x \<in> set (Values_Encode q) \<Longrightarrow> x \<noteq> CHR ''#'' \<and> x \<noteq> CHR ''?'' \<and> \<not> is_ctl x"
proof -
  assume "x \<in> set (Values_Encode q)"
  moreover have "\<not> is_ctl (CHR ''&'')" by code_simp
  ultimately show ?thesis
    using encode_pair_set [of x] unfolding Values_Encode_def by (fastforce dest!: strings_Join_set)
qed

subsection \<open>Parsed and changed queries\<close>

definition values_ok :: "url_values \<Rightarrow> bool" where
  "values_ok q \<longleftrightarrow> distinct (map fst q) \<and> (\<forall>(k, vs) \<in> set q. vs \<noteq> [])"

lemma values_add_keys: "fst ` set (values_add k v q) = insert k (fst ` set q)"
  by (induction k v q rule: values_add.induct) auto

lemma values_add_ok: "values_ok q \<Longrightarrow> values_ok (values_add k v q)"
  using values_add_keys by (induction k v q rule: values_add.induct) (auto simp: values_ok_def image_iff)

lemma ParseQuery_ok: "values_ok (ParseQuery s)"
proof -
  have "values_ok q \<Longrightarrow> values_ok (fold parse_pair ss q)" for ss q
    by (induction ss arbitrary: q) (auto simp: parse_pair_def values_add_ok split: prod.split option.split)
  from this [of "[]"] show ?thesis unfolding ParseQuery_def by (simp add: values_ok_def)
qed

lemma Values_Set_keys: "fst ` set (Values_Set k v q) = insert k (fst ` set q)"
  by (induction k v q rule: Values_Set.induct) auto

lemma Values_Set_ok: "values_ok q \<Longrightarrow> values_ok (Values_Set k v q)"
  using Values_Set_keys by (induction k v q rule: Values_Set.induct) (auto simp: values_ok_def image_iff)

lemma map_of_Values_Set: "map_of (Values_Set k v q) = (map_of q)(k \<mapsto> [v])"
  by (induction k v q rule: Values_Set.induct) auto

lemma map_of_sort_key:
  assumes "distinct (map fst q)"
  shows "map_of (sort_key fst q) = map_of q"
proof
  fix k
  show "map_of (sort_key fst q) k = map_of q k"
  proof (cases "map_of q k")
    case None
    then have "k \<notin> fst ` set (sort_key fst q)" by (simp add: map_of_eq_None_iff)
    with None show ?thesis by (simp only: map_of_eq_None_iff [symmetric])
  next
    case (Some vs)
    then have "(k, vs) \<in> set (sort_key fst q)" by (simp add: map_of_SomeD)
    then show ?thesis using Some map_of_is_SomeI [OF distinct_sort_keys [OF assms]] by simp
  qed
qed

lemma map_of_ParseQuery_Encode: "values_ok q \<Longrightarrow> map_of (ParseQuery (Values_Encode q)) = map_of q"
  by (simp add: values_ok_def ParseQuery_Encode map_of_sort_key)

end
