(* ===== verification/GoURLText.thy ===== *)
theory GoURLText
  imports GoQuery
begin

text \<open>
  The text of a URL and its parts: the query can be read off a printed URL, and printing a URL with a scheme and a host
  gives a text that parses to the same scheme, host, path and query. These carry the facts about the addresses that the
  gateway composes and about the lines of its access log.
\<close>

section \<open>Characters of a printed URL\<close>

text \<open>The query of a text: what stands between the question mark and the fragment.\<close>

definition text_query :: "string \<Rightarrow> string" where
  "text_query s = fst (snd (Cut (fst (Cut s (CHR ''#''))) (CHR ''?'')))"

definition plain_char :: "char \<Rightarrow> bool" where
  "plain_char c \<longleftrightarrow> c \<noteq> CHR ''?'' \<and> c \<noteq> CHR ''#'' \<and> \<not> is_ctl c"

lemma plain_literals:
  "list_all plain_char ''!$&()*+,;=:@[]%/.~'' \<and> plain_char (CHR 0x27)"
  by code_simp

lemma escaped_delimiters:
  "mode \<noteq> EncodeQueryComponent \<Longrightarrow> mode \<noteq> EncodeFragment \<Longrightarrow>
     shouldEscape (CHR ''?'') mode \<and> shouldEscape (CHR ''#'') mode"
  by (cases mode) (simp_all add: shouldEscape_def char_classes)

lemma not_escaped_plain:
  assumes "\<not> shouldEscape c mode" "mode \<noteq> EncodeQueryComponent" "mode \<noteq> EncodeFragment"
  shows "plain_char c"
  using assms escaped_delimiters [OF assms(2,3)] shouldEscape_ctl [of c mode] by (auto simp: plain_char_def)

lemma escape_plain:
  assumes "mode \<noteq> EncodeQueryComponent" "mode \<noteq> EncodeFragment"
  shows "list_all plain_char (escape mode s)"
  using escape_set [of _ mode s] not_escaped_plain [OF _ assms] plain_literals assms(1)
  by (auto simp: list_all_iff)

lemma validEncoded_plain:
  assumes "validEncoded mode s" "mode \<noteq> EncodeQueryComponent" "mode \<noteq> EncodeFragment"
  shows "list_all plain_char s"
proof -
  have "list_all plain_char ''!$&()*+,;=:@[]%''" by code_simp
  with assms(1) not_escaped_plain [OF _ assms(2,3)] plain_literals show ?thesis
    unfolding validEncoded_def list_all_iff by blast
qed

lemma EscapedPath_plain: "list_all plain_char (EscapedPath u)"
  using plain_literals by (auto simp: EscapedPath_def validEncoded_plain escape_plain)

lemma Userinfo_String_plain: "list_all plain_char (Userinfo_String ui)"
  using plain_literals by (simp add: Userinfo_String_def escape_plain)

lemma url_authority_plain: "list_all plain_char (url_authority u)"
  using plain_literals by (auto simp: url_authority_def Userinfo_String_plain escape_plain split: option.split)

lemma url_front_plain:
  assumes "u_Opaque u = []" "list_all plain_char (u_Scheme u)"
  shows "list_all plain_char (url_front u)"
  using assms plain_literals by (auto simp: url_front_def Let_def url_authority_plain EscapedPath_plain)

lemma plain_absent: "list_all plain_char s \<Longrightarrow> CHR ''?'' \<notin> set s \<and> CHR ''#'' \<notin> set s"
  by (auto simp: list_all_iff plain_char_def)

lemma URL_String_Cut:
  assumes "u_Opaque u = []" "list_all plain_char (u_Scheme u)" "CHR ''#'' \<notin> set (u_RawQuery u)"
  shows "fst (Cut (URL_String u) (CHR ''#'')) =
    url_front u @ (if u_ForceQuery u \<or> u_RawQuery u \<noteq> [] then CHR ''?'' # u_RawQuery u else [])"
  using plain_absent [OF url_front_plain [OF assms(1,2)]] assms(3) by (simp add: URL_String_def Cut_append Cut_absent)

lemma text_query_URL_String:
  assumes "u_Opaque u = []" "list_all plain_char (u_Scheme u)" "CHR ''#'' \<notin> set (u_RawQuery u)"
  shows "text_query (URL_String u) = u_RawQuery u"
  using plain_absent [OF url_front_plain [OF assms(1,2)]]
  by (auto simp: text_query_def URL_String_Cut [OF assms] Cut_append Cut_absent)

section \<open>Schemes\<close>

definition scheme_char :: "char \<Rightarrow> bool" where
  "scheme_char c \<longleftrightarrow> is_alpha c \<or> is_digit c \<or> c \<in> set ''+-.''"

definition valid_scheme :: "string \<Rightarrow> bool" where
  "valid_scheme s \<longleftrightarrow> s \<noteq> [] \<and> is_alpha (hd s) \<and> list_all scheme_char s"

lemma getScheme_from_valid:
  assumes "getScheme_from seen s = Some (sch, r)" "sch \<noteq> []" "seen \<noteq> [] \<Longrightarrow> valid_scheme (rev seen)"
  shows "valid_scheme sch \<and> rev seen @ s = sch @ CHR '':'' # r"
  using assms
proof (induction seen s rule: getScheme_from.induct)
  case (2 seen c s)
  consider "is_alpha c" | "\<not> is_alpha c" "is_digit c \<or> c \<in> set ''+-.''" "seen \<noteq> []"
    | "\<not> is_alpha c" "\<not> (is_digit c \<or> c \<in> set ''+-.'')" "c = CHR '':''" "seen \<noteq> []"
    using 2(3,4) by (auto simp del: list.set split: if_splits)
  then show ?case
  proof cases
    case 1
    then have "valid_scheme (rev (c # seen))"
      using 2(5) by (cases seen) (auto simp: valid_scheme_def scheme_char_def hd_append)
    with 1 2(1,3,4) show ?thesis by simp
  next
    case c: 2
    then have "valid_scheme (rev (c # seen))"
      using 2(5) by (cases seen) (auto simp: valid_scheme_def scheme_char_def hd_append simp del: list.set)
    with c 2(2-4) show ?thesis by (simp del: list.set)
  next
    case c: 3
    with 2(3,5) show ?thesis by (auto simp del: list.set)
  qed
qed simp

lemma getScheme_from_print:
  "list_all scheme_char s \<Longrightarrow> seen \<noteq> [] \<Longrightarrow> getScheme_from seen (s @ CHR '':'' # r) = Some (rev seen @ s, r)"
proof (induction s arbitrary: seen)
  case Nil
  have "\<not> is_alpha (CHR '':'')" "\<not> is_digit (CHR '':'')" by code_simp+
  with Nil show ?case by simp
next
  case (Cons c s)
  then show ?case
    by (cases "is_alpha c") (auto simp: scheme_char_def simp del: list.set)
qed

lemma getScheme_print: "valid_scheme s \<Longrightarrow> getScheme (s @ CHR '':'' # r) = Some (s, r)"
  using getScheme_from_print [of "tl s" "[hd s]" r]
  by (cases s) (auto simp: getScheme_def valid_scheme_def)

lemma lower_char_alpha: "is_alpha c \<Longrightarrow> is_alpha (lower_char c)"
  by (auto simp: is_alpha_def lower_char_def byte_of_def Let_def)

lemma lower_char_other: "\<not> is_alpha c \<Longrightarrow> lower_char c = c"
  by (auto simp: is_alpha_def lower_char_def byte_of_def Let_def)

lemma valid_scheme_ToLower: "valid_scheme s \<Longrightarrow> valid_scheme (ToLower s)"
proof -
  have "scheme_char c \<Longrightarrow> scheme_char (lower_char c)" for c
    by (cases "is_alpha c") (auto simp: scheme_char_def lower_char_alpha lower_char_other simp del: list.set)
  then show "valid_scheme s \<Longrightarrow> valid_scheme (ToLower s)"
    by (cases s) (auto simp: valid_scheme_def ToLower_def lower_char_alpha list_all_iff)
qed

lemma valid_scheme_plain: "valid_scheme s \<Longrightarrow> list_all plain_char s"
proof -
  have "plain_char c" if "scheme_char c" for c
    using that plain_literals by (auto simp: scheme_char_def plain_char_def is_alpha_def is_digit_def is_ctl_def byte_of_def Let_def)
  then show "valid_scheme s \<Longrightarrow> list_all plain_char s" by (auto simp: valid_scheme_def list_all_iff)
qed

section \<open>Hosts\<close>

text \<open>A separator that is no hexadecimal digit splits an encoded text.\<close>

lemma unescape_sep:
  assumes "hex_value c = None" "c \<noteq> CHR ''%''"
  shows "unescape (a @ c # b) =
    (case (unescape a, unescape b) of (Some x, Some y) \<Rightarrow> Some (x @ c # y) | _ \<Rightarrow> None)"
proof (induction a rule: unescape.induct)
  case 1
  with assms show ?case by (simp split: option.split)
next
  case (2 d a)
  show ?case
  proof (cases "d = CHR ''%''")
    case True
    show ?thesis
    proof (cases a rule: remdups_adj.cases)
      case 1
      with True assms show ?thesis by (cases b) (auto split: option.split)
    next
      case (2 x)
      with True assms show ?thesis by (auto split: option.split)
    next
      case (3 x y a')
      with True "2.IH"(1) show ?thesis by (auto split: option.splits)
    qed
  next
    case False
    with "2.IH"(2) show ?thesis by (auto split: option.splits)
  qed
qed

lemma host_escapes_sep:
  assumes "hex_value c = None" "c \<noteq> CHR ''%''"
  shows "host_escapes_ok (a @ c # b) \<Longrightarrow> unescape a \<noteq> None \<Longrightarrow> host_escapes_ok a \<and> host_escapes_ok b"
proof (induction a rule: host_escapes_ok.induct)
  case 1
  with assms show ?case by simp
next
  case (2 d a)
  show ?case
  proof (cases "d = CHR ''%''")
    case True
    show ?thesis
    proof (cases a rule: remdups_adj.cases)
      case 1
      with True assms "2.prems" show ?thesis by (cases b) auto
    next
      case (2 x)
      with True assms "2.prems" show ?thesis by (auto split: option.splits)
    next
      case (3 x y a')
      with True "2.IH"(1) "2.prems" show ?thesis by (auto split: option.splits)
    qed
  next
    case False
    with 2 show ?thesis by auto
  qed
qed

text \<open>
  The characters of a decoded host: an escape stands for the percent sign or for a byte beyond ASCII.
\<close>

definition decoded_host_char :: "char \<Rightarrow> bool" where
  "decoded_host_char c \<longleftrightarrow> host_char c \<or> c = CHR ''%''"

lemma host_escape_values:
  assumes "hex_value a = Some x" "hex_value b = Some y" "8 \<le> x \<or> [a, b] = ''25''"
  shows "char_of (16 * x + y) = CHR ''%'' \<or> 128 \<le> byte_of (char_of (16 * x + y))"
proof -
  have "x < 16" "y < 16" using assms(1,2) by (auto simp: hex_value_def Let_def split: if_splits)
  have v: "hex_value (CHR ''2'') = Some 2" "hex_value (CHR ''5'') = Some 5" "(char_of (37 :: nat)) = CHR ''%''"
    by code_simp+
  show ?thesis
  proof (cases "8 \<le> x")
    case True
    with \<open>x < 16\<close> \<open>y < 16\<close> show ?thesis by (simp add: byte_of_def)
  next
    case False
    with assms v have "x = 2" "y = 5" by auto
    with v(3) show ?thesis by simp
  qed
qed

lemma unescape_host_chars:
  "host_escapes_ok s \<Longrightarrow> unescape s = Some h \<Longrightarrow>
     list_all decoded_host_char h \<and> (\<forall>c \<in> set h. c = CHR ''%'' \<or> 128 \<le> byte_of c \<or> c \<in> set s)"
proof (induction s arbitrary: h rule: unescape.induct)
  case (2 d s)
  show ?case
  proof (cases "d = CHR ''%''")
    case True
    then obtain a b s' x y h' where s: "s = a # b # s'" "hex_value a = Some x" "hex_value b = Some y"
      "unescape s' = Some h'" "h = char_of (16 * x + y) # h'" "8 \<le> x \<or> [a, b] = ''25''" "host_escapes_ok s'"
      using 2(3,4) by (auto split: list.splits option.splits)
    have "list_all decoded_host_char h' \<and> (\<forall>c \<in> set h'. c = CHR ''%'' \<or> 128 \<le> byte_of c \<or> c \<in> set s')"
      by (rule "2.IH"(1) [OF True s(1)]) (use s in auto)
    moreover have "decoded_host_char (char_of (16 * x + y))"
      using host_escape_values [OF s(2,3,6)] unfolding decoded_host_char_def host_char_def by blast
    ultimately show ?thesis using host_escape_values [OF s(2,3,6)] s(1,5) by auto
  next
    case False
    then obtain h' where h: "unescape s = Some h'" "h = d # h'" "host_char d" "host_escapes_ok s"
      using 2(3,4) by auto
    from "2.IH"(2) [OF False h(4,1)] h(2,3) show ?thesis by (auto simp: decoded_host_char_def)
  qed
qed simp

lemma host_char_kept: "host_char c \<Longrightarrow> byte_of c < 128 \<Longrightarrow> \<not> shouldEscape c EncodeHost \<and> c \<noteq> CHR ''%''"
proof -
  assume "host_char c" "byte_of c < 128"
  then have "is_alnum c \<or> c \<in> set ''-_.~!$&()*+,;=:[]<>'' \<or> c = CHR 0x27 \<or> c = CHR 0x22"
    unfolding host_char_def by simp
  moreover have "list_all (\<lambda>c. \<not> shouldEscape c EncodeHost \<and> c \<noteq> CHR ''%'') ''-_.~!$&()*+,;=:[]<>''"
    "\<not> shouldEscape (CHR 0x27) EncodeHost" "\<not> shouldEscape (CHR 0x22) EncodeHost" by code_simp+
  moreover have "is_alnum c \<Longrightarrow> c \<noteq> CHR ''%''" by (auto simp: char_classes)
  ultimately show ?thesis using alnum_not_escaped [of c EncodeHost] unfolding list_all_iff by blast
qed

lemma host_char_high: "128 \<le> byte_of c \<Longrightarrow> shouldEscape c EncodeHost"
proof -
  assume c: "128 \<le> byte_of c"
  have "list_all (\<lambda>c. byte_of c < 128) ''-_.~!$&()*+,;=:[]<>/?@''" "byte_of (CHR 0x27) < 128" "byte_of (CHR 0x22) < 128"
    by code_simp+
  with c have "c \<notin> set ''-_.~!$&()*+,;=:[]<>/?@''" and q: "c \<noteq> CHR 0x27" "c \<noteq> CHR 0x22"
    unfolding list_all_iff by (metis not_le)+
  then have "c \<notin> set ''!$&()*+,;=:[]<>''" "c \<notin> set ''-_.~''" "c \<notin> set ''$&+,/:;=?@''" "c \<notin> set ''!()*''" by simp_all
  moreover have "\<not> is_alnum c" using c by (auto simp: char_classes)
  ultimately show ?thesis using q by (simp only: shouldEscape_def simp_thms if_False)
qed

lemma escape_host_ok: "list_all decoded_host_char h \<Longrightarrow> host_escapes_ok (escape EncodeHost h)"
proof (induction h)
  case (Cons c h)
  have p: "escape_char EncodeHost (CHR ''%'') = ''%25''" "hex_value (CHR ''2'') = Some 2" by code_simp+
  consider "c = CHR ''%''" | "host_char c" "byte_of c < 128" | "128 \<le> byte_of c"
    using Cons.prems by (metis decoded_host_char_def list.pred_inject(2) not_le)
  then show ?case
  proof cases
    case 1
    with Cons p show ?thesis by simp
  next
    case 2
    with Cons host_char_kept [OF 2] show ?thesis by (simp add: escape_char_def)
  next
    case 3
    have "8 \<le> byte_of c div 16" using 3 by simp
    with Cons host_char_high [OF 3] show ?thesis
      by (simp add: escape_char_def upperhex_digits byte_halves)
  qed
qed simp

text \<open>Hosts that \<^verbatim>\<open>url.Parse\<close> returns; they are printed in a form that parses to them.\<close>

definition parsed_host :: "string \<Rightarrow> bool" where
  "parsed_host h \<longleftrightarrow> (\<exists>s. parseHost s = Some h)"

lemma host_separators:
  "hex_value (CHR '':'') = None" "hex_value (CHR '']'') = None" "hex_value (CHR ''@'') = None"
  "\<not> shouldEscape (CHR '':'') EncodeHost" "\<not> shouldEscape (CHR '']'') EncodeHost" "\<not> shouldEscape (CHR ''['') EncodeHost"
  "shouldEscape (CHR ''@'') EncodeHost" "shouldEscape (CHR ''/'') EncodeHost"
  by code_simp+

lemma escape_host_set: "c \<in> set (escape EncodeHost h) \<Longrightarrow> c \<in> set h \<or> c = CHR ''%'' \<or> is_alnum c"
  by (induction h) (auto simp: escape_char_def upperhex_digits byte_halves split: if_splits)

lemma cut_last_found: "c \<notin> set b \<Longrightarrow> cut_last (a @ c # b) c = Some (a, b)"
  by (simp add: cut_last_def Cut_append)

lemma cut_last_absent: "c \<notin> set s \<Longrightarrow> cut_last s c = None"
  by (simp add: cut_last_def Cut_absent)

text \<open>The last separator of a host stays where it is, and what follows it too when that is a port.\<close>

lemma host_sep:
  assumes "host_escapes_ok (a @ c # b)" "unescape (a @ c # b) = Some h"
    and c: "hex_value c = None" "c \<noteq> CHR ''%''" "byte_of c < 128" "\<not> shouldEscape c EncodeHost" "\<not> is_alnum c"
  obtains x y where "unescape a = Some x" "unescape b = Some y"
    "escape EncodeHost h = escape EncodeHost x @ c # escape EncodeHost y"
    "c \<notin> set a \<Longrightarrow> c \<notin> set (escape EncodeHost x)" "c \<notin> set b \<Longrightarrow> c \<notin> set (escape EncodeHost y)"
proof -
  from assms(2) obtain x y where xy: "unescape a = Some x" "unescape b = Some y" "h = x @ c # y"
    by (auto simp: unescape_sep [OF c(1,2)] split: option.splits)
  with host_escapes_sep [OF c(1,2) assms(1)] have ok: "host_escapes_ok a" "host_escapes_ok b" by simp_all
  have no: "c \<notin> set (escape EncodeHost z)" if "host_escapes_ok s" "unescape s = Some z" "c \<notin> set s" for s z
    using unescape_host_chars [OF that(1,2)] that(3) escape_host_set [of c z] c by (meson not_le)
  show ?thesis
  proof (rule that [OF xy(1,2)])
    show "escape EncodeHost h = escape EncodeHost x @ c # escape EncodeHost y"
      using c(4) by (simp add: xy(3) escape_char_def)
  qed (use no ok xy in blast)+
qed

lemma colon_sep:
  "hex_value (CHR '':'') = None" "CHR '':'' \<noteq> CHR ''%''" "byte_of (CHR '':'') < 128"
  "\<not> shouldEscape (CHR '':'') EncodeHost" "\<not> is_alnum (CHR '':'')"
  by code_simp+

lemma bracket_sep:
  "hex_value (CHR '']'') = None" "CHR '']'' \<noteq> CHR ''%''" "byte_of (CHR '']'') < 128"
  "\<not> shouldEscape (CHR '']'') EncodeHost" "\<not> is_alnum (CHR '']'')"
  by code_simp+

lemma port_kept:
  assumes "list_all (\<lambda>c. is_digit c \<or> c = CHR '':'') p"
  shows "unescape p = Some p" "escape EncodeHost p = p"
proof -
  have "c \<noteq> CHR ''%'' \<and> \<not> shouldEscape c EncodeHost" if "is_digit c \<or> c = CHR '':''" for c
    using that colon_sep(4) alnum_not_escaped [of c] by (auto simp: char_classes)
  with assms show "unescape p = Some p" "escape EncodeHost p = p"
    by (induction p) (auto simp: escape_char_def)
qed

lemma unescape_host_hd:
  assumes "host_escapes_ok s" "unescape s = Some (CHR ''['' # h)"
  shows "HasPrefix s ''[''"
proof (cases s)
  case (Cons d t)
  show ?thesis
  proof (cases "d = CHR ''%''")
    case True
    with assms Cons obtain a b x y where v: "hex_value a = Some x" "hex_value b = Some y" "8 \<le> x \<or> [a, b] = ''25''"
      "char_of (16 * x + y) = CHR ''[''"
      by (auto split: list.splits option.splits)
    have "byte_of (CHR ''['') < 128" by code_simp
    with host_escape_values [OF v(1-3)] v(4) show ?thesis by simp
  next
    case False
    with assms Cons show ?thesis by (auto simp: HasPrefix_def)
  qed
qed (use assms in simp)

lemma escape_host_hd: "HasPrefix (escape EncodeHost h) ''['' \<longleftrightarrow> HasPrefix h ''[''"
  using bracket_sep(4) by (cases h) (auto simp: HasPrefix_def escape_char_def host_separators)

lemma parseHost_escape_bracket:
  assumes "parseHost s = Some h" "HasPrefix s ''[''" "host_escapes_ok s" "unescape s = Some h"
    and "unescape_host (escape EncodeHost h) = Some h"
  shows "parseHost (escape EncodeHost h) = Some h"
proof -
  obtain a port where cut: "s = a @ CHR '']'' # port" "CHR '']'' \<notin> set port" and port: "validOptionalPort port"
    using assms(1,2) by (auto simp: parseHost_def dest!: cut_last_Some split: option.splits if_splits)
  have p: "list_all (\<lambda>c. is_digit c \<or> c = CHR '':'') port"
    using port by (cases port) (auto simp: validOptionalPort_def list_all_iff)
  obtain x where "escape EncodeHost h = escape EncodeHost x @ CHR '']'' # port"
    using host_sep [OF assms(3,4) [unfolded cut(1)] bracket_sep] port_kept [OF p] by (metis option.inject)
  then have "cut_last (escape EncodeHost h) (CHR '']'') = Some (escape EncodeHost x, port)"
    using cut(2) by (simp add: cut_last_found)
  moreover from assms(2,4) have "HasPrefix h ''[''" by (cases s) (auto simp: HasPrefix_def)
  ultimately show ?thesis using port assms(5) by (simp add: parseHost_def escape_host_hd)
qed

lemma parseHost_escape_name:
  assumes "parseHost s = Some h" "\<not> HasPrefix s ''[''" "host_escapes_ok s" "unescape s = Some h"
    and "unescape_host (escape EncodeHost h) = Some h"
  shows "parseHost (escape EncodeHost h) = Some h"
proof -
  have nb: "\<not> HasPrefix h ''[''"
    using assms(2,4) unescape_host_hd [OF assms(3)] by (cases h) (auto simp: HasPrefix_def)
  show ?thesis
  proof (cases "cut_last s (CHR '':'')")
    case None
    have "CHR '':'' \<notin> set (escape EncodeHost h)"
      using cut_last_None [OF None] unescape_host_chars [OF assms(3,4)] escape_host_set [of "CHR '':''" h] colon_sep
      by (meson not_le)
    with nb assms(5) show ?thesis by (simp add: parseHost_def escape_host_hd cut_last_absent)
  next
    case (Some ap)
    then obtain a port where cut: "s = a @ CHR '':'' # port" "CHR '':'' \<notin> set port" "cut_last s (CHR '':'') = Some (a, port)"
      by (metis cut_last_Some surj_pair)
    with assms(1,2) have p: "CHR '':'' \<notin> set a" "list_all is_digit port"
      by (auto simp: parseHost_def split: if_splits)
    then have "list_all (\<lambda>c. is_digit c \<or> c = CHR '':'') port" by (auto simp: list_all_iff)
    then obtain x where x: "escape EncodeHost h = escape EncodeHost x @ CHR '':'' # port" "CHR '':'' \<notin> set (escape EncodeHost x)"
      using host_sep [OF assms(3,4) [unfolded cut(1)] colon_sep] port_kept [of port] p(1) by (metis option.inject)
    then have "cut_last (escape EncodeHost h) (CHR '':'') = Some (escape EncodeHost x, port)"
      using cut(2) by (simp add: cut_last_found)
    with x(2) p(2) nb assms(5) show ?thesis by (simp add: parseHost_def escape_host_hd)
  qed
qed

lemma parseHost_escape:
  assumes "parseHost s = Some h"
  shows "parseHost (escape EncodeHost h) = Some h"
proof -
  have s: "host_escapes_ok s" "unescape s = Some h"
    using assms by (auto simp: parseHost_def unescape_host_def split: if_splits option.splits)
  then have "unescape_host (escape EncodeHost h) = Some h"
    by (simp add: unescape_host_def escape_host_ok unescape_host_chars)
  with parseHost_escape_bracket [OF assms _ s] parseHost_escape_name [OF assms _ s] show ?thesis by blast
qed

section \<open>Authorities\<close>

lemma userinfo_unescaped:
  assumes "\<not> shouldEscape c EncodeUserPassword"
  shows "is_alnum c \<or> c \<in> set ''-_.~$&+,;=''"
proof (rule ccontr)
  assume no: "\<not> (is_alnum c \<or> c \<in> set ''-_.~$&+,;='')"
  then have n: "\<not> is_alnum c" "c \<notin> set ''-_.~''" by simp_all
  show False
  proof (cases "c \<in> set ''$&+,/:;=?@''")
    case True
    with no have "c \<in> set ''@/?:''" by auto
    with assms n True show False by (simp only: shouldEscape_def encoding.distinct simp_thms if_False if_True encoding.case)
  next
    case False
    with assms n show False by (simp only: shouldEscape_def encoding.distinct simp_thms if_False if_True)
  qed
qed

lemma userinfo_chars:
  "list_all (\<lambda>c. is_alnum c \<or> c \<in> set ''-._:~!$&()*+,;=%@'' \<or> c = CHR 0x27) (escape EncodeUserPassword s)"
  "CHR ''@'' \<notin> set (escape EncodeUserPassword s)" "CHR ''/'' \<notin> set (escape EncodeUserPassword s)"
proof -
  have esc: "shouldEscape (CHR ''@'') EncodeUserPassword" "shouldEscape (CHR ''/'') EncodeUserPassword" by code_simp+
  have "is_alnum c \<or> c \<in> set ''-._:~!$&()*+,;=%@''" if "c \<in> set (escape EncodeUserPassword s)" for c
  proof -
    have "set ''-_.~$&+,;='' \<subseteq> set ''-._:~!$&()*+,;=%@''" by simp
    moreover have "CHR ''%'' \<in> set ''-._:~!$&()*+,;=%@''" by simp
    ultimately show ?thesis using escape_set [OF that] userinfo_unescaped [of c] by blast
  qed
  then show "list_all (\<lambda>c. is_alnum c \<or> c \<in> set ''-._:~!$&()*+,;=%@'' \<or> c = CHR 0x27) (escape EncodeUserPassword s)"
    unfolding list_all_iff by blast
  show "CHR ''@'' \<notin> set (escape EncodeUserPassword s)" "CHR ''/'' \<notin> set (escape EncodeUserPassword s)"
    using escape_set [of _ EncodeUserPassword s] esc by fastforce+
qed

lemma Userinfo_String_ok:
  "validUserinfo (Userinfo_String ui)" "unescape (Userinfo_String ui) \<noteq> None"
  "CHR ''@'' \<notin> set (Userinfo_String ui)" "CHR ''/'' \<notin> set (Userinfo_String ui)"
proof -
  show "validUserinfo (Userinfo_String ui)"
    using userinfo_chars(1) unfolding validUserinfo_def Userinfo_String_def by simp
  show "unescape (Userinfo_String ui) \<noteq> None"
    by (simp add: Userinfo_String_def unescape_sep colon_sep(1))
  show "CHR ''@'' \<notin> set (Userinfo_String ui)" "CHR ''/'' \<notin> set (Userinfo_String ui)"
    using userinfo_chars(2,3) by (simp_all add: Userinfo_String_def)
qed

lemma escape_host_no_at:
  "CHR ''@'' \<notin> set (escape EncodeHost h)" "CHR ''/'' \<notin> set (escape EncodeHost h)"
  using escape_set [of _ EncodeHost h] host_separators(7,8) by fastforce+

text \<open>The authority of a URL with a host, after the two slashes.\<close>

definition authority_text :: "url \<Rightarrow> string" where
  "authority_text u =
     (case u_User u of None \<Rightarrow> [] | Some ui \<Rightarrow> Userinfo_String ui @ ''@'') @ escape EncodeHost (u_Host u)"

lemma authority_text_parses:
  assumes "parseHost s = Some (u_Host u)"
  shows "parseAuthority (authority_text u) = Some (u_Host u)" "CHR ''/'' \<notin> set (authority_text u)"
proof -
  show "parseAuthority (authority_text u) = Some (u_Host u)"
    using parseHost_escape [OF assms] Userinfo_String_ok escape_host_no_at(1)
    by (auto simp: parseAuthority_def authority_text_def cut_last_absent cut_last_found split: option.split)
  show "CHR ''/'' \<notin> set (authority_text u)"
    using Userinfo_String_ok(4) escape_host_no_at(2) by (simp add: authority_text_def split: option.split)
qed

lemma parseAuthority_host: "parseAuthority a = Some h \<Longrightarrow> \<exists>s. parseHost s = Some h"
  by (auto simp: parseAuthority_def split: option.splits if_splits)

section \<open>Printing and parsing\<close>

text \<open>
  The authority of a rest that starts with two slashes, and the path after it.
\<close>

definition rest_auth :: "string \<Rightarrow> string" where
  "rest_auth b = fst (Cut (drop 2 b) (CHR ''/''))"

definition rest_path :: "string \<Rightarrow> string" where
  "rest_path b = (if CHR ''/'' \<in> set (drop 2 b) then CHR ''/'' # fst (snd (Cut (drop 2 b) (CHR ''/''))) else [])"

lemma parse_noFragment_absolute:
  assumes "\<not> list_ex is_ctl t" "t \<noteq> ''*''" "getScheme t = Some (s, r)" "s \<noteq> []"
    and "HasPrefix (fst (Cut r (CHR ''?''))) ''//''" "parseAuthority (rest_auth (fst (Cut r (CHR ''?'')))) = Some h"
    and "unescape (rest_path (fst (Cut r (CHR ''?'')))) = Some p"
  shows "\<exists>u. parse_noFragment t = Some u \<and> u_Scheme u = ToLower s \<and> u_Host u = h \<and> u_Path u = p \<and>
    u_RawQuery u = fst (snd (Cut r (CHR ''?''))) \<and> u_Opaque u = [] \<and> (u_RawPath u = [] \<or> hd (u_RawPath u) = CHR ''/'')"
proof -
  have "HasPrefix (fst (Cut r (CHR ''?''))) ''/''"
    using assms(5) by (cases "fst (Cut r (CHR ''?''))") (auto simp: HasPrefix_def)
  then show ?thesis
    using assms
    by (auto simp: parse_noFragment_def Let_def case_prod_beta rest_auth_def rest_path_def Cut_found ToLower_def
        setPath_def raw_text_def empty_url_def)
qed

lemma parse_noFragment_absoluteD:
  assumes "parse_noFragment t = Some u" "u_Scheme u \<noteq> []" "u_Host u \<noteq> []"
  obtains s r where "\<not> list_ex is_ctl t" "t \<noteq> ''*''" "getScheme t = Some (s, r)" "s \<noteq> []"
    "u_Scheme u = ToLower s" "HasPrefix (fst (Cut r (CHR ''?''))) ''//''"
    "parseAuthority (rest_auth (fst (Cut r (CHR ''?'')))) = Some (u_Host u)"
    "unescape (rest_path (fst (Cut r (CHR ''?'')))) = Some (u_Path u)"
proof -
  have ctl: "\<not> list_ex is_ctl t" and star: "t \<noteq> ''*''"
    using assms by (auto simp: parse_noFragment_def empty_url_def split: if_splits)
  from assms(1) ctl star obtain s r where gs: "getScheme t = Some (s, r)"
    by (auto simp: parse_noFragment_def split: if_splits option.splits)
  have "s \<noteq> []"
    using assms ctl star gs
    by (auto simp: parse_noFragment_def ToLower_def Let_def case_prod_beta setPath_def empty_url_def
        split: if_splits option.splits)
  moreover from this have "ToLower s \<noteq> []" by (simp add: ToLower_def)
  ultimately show ?thesis
    using that [OF ctl star gs] assms ctl star gs
    by (auto simp: parse_noFragment_def Let_def case_prod_beta rest_auth_def rest_path_def Cut_found setPath_def empty_url_def
        split: if_splits option.splits)
qed

text \<open>What holds of a URL with a scheme and a host that \<^verbatim>\<open>url.Parse\<close> returned, also after its path or query was replaced.\<close>

definition absolute :: "url \<Rightarrow> bool" where
  "absolute u \<longleftrightarrow> valid_scheme (u_Scheme u) \<and> ToLower (u_Scheme u) = u_Scheme u \<and> u_Opaque u = [] \<and>
     u_Host u \<noteq> [] \<and> (\<exists>s. parseHost s = Some (u_Host u)) \<and>
     (u_Path u = [] \<or> hd (u_Path u) = CHR ''/'') \<and> (u_RawPath u = [] \<or> hd (u_RawPath u) = CHR ''/'')"

lemma rest_path_hd: "rest_path b = [] \<or> hd (rest_path b) = CHR ''/''"
  by (simp add: rest_path_def)

lemma unescape_hd: "unescape s = Some t \<Longrightarrow> s = [] \<or> hd s = CHR ''/'' \<Longrightarrow> t = [] \<or> hd t = CHR ''/''"
  by (cases s) auto

lemma url_Parse_absolute:
  assumes "url_Parse raw = Some u" "u_Scheme u \<noteq> []" "u_Host u \<noteq> []"
  shows "absolute u"
proof -
  from assms obtain r where r: "parse_noFragment (fst (Cut raw (CHR ''#''))) = Some r" "u_Scheme r = u_Scheme u"
    "u_Host r = u_Host u" "u_Path r = u_Path u" "u_RawPath r = u_RawPath u" "u_Opaque r = u_Opaque u"
    by (auto simp: url_Parse_def setFragment_def case_prod_beta split: option.splits if_splits)
  from r(2,3) assms(2,3) have "u_Scheme r \<noteq> []" "u_Host r \<noteq> []" by simp_all
  with r(1) show ?thesis
  proof (rule parse_noFragment_absoluteD)
    fix s rest
    assume a: "\<not> list_ex is_ctl (fst (Cut raw (CHR ''#'')))" "fst (Cut raw (CHR ''#'')) \<noteq> ''*''"
      "getScheme (fst (Cut raw (CHR ''#''))) = Some (s, rest)" "s \<noteq> []" "u_Scheme r = ToLower s"
      "HasPrefix (fst (Cut rest (CHR ''?''))) ''//''"
      "parseAuthority (rest_auth (fst (Cut rest (CHR ''?'')))) = Some (u_Host r)"
      "unescape (rest_path (fst (Cut rest (CHR ''?'')))) = Some (u_Path r)"
    from parse_noFragment_absolute [OF a(1-4,6-8)] r(1)
    have "u_Opaque r = []" "u_RawPath r = [] \<or> hd (u_RawPath r) = CHR ''/''" by auto
    moreover have "valid_scheme s"
      using getScheme_from_valid [of "[]"] a(3,4) unfolding getScheme_def by auto
    ultimately show "absolute u"
      using r(2-6) a(5) assms(3) parseAuthority_host [OF a(7)] unescape_hd [OF a(8) rest_path_hd] valid_scheme_ToLower
      by (simp add: absolute_def) (metis ToLower_idem)
  qed
qed

lemma EscapedPath_hd:
  assumes "absolute u"
  shows "EscapedPath u = [] \<or> hd (EscapedPath u) = CHR ''/''"
proof -
  have "\<not> shouldEscape (CHR ''/'') EncodePath" by code_simp
  with assms show ?thesis by (cases "u_Path u") (auto simp: absolute_def EscapedPath_def escape_char_def)
qed

lemma unescape_EscapedPath [simp]: "unescape (EscapedPath u) = Some (u_Path u)"
  by (simp add: EscapedPath_def)

lemma unescape_EscapedFragment [simp]: "unescape (EscapedFragment u) = Some (u_Fragment u)"
  by (simp add: EscapedFragment_def)

lemma absolute_front:
  assumes "absolute u"
  shows "url_front u = u_Scheme u @ CHR '':'' # ''//'' @ authority_text u @ EscapedPath u"
  using assms EscapedPath_hd [OF assms]
  by (auto simp: url_front_def absolute_def valid_scheme_def url_authority_def authority_text_def Let_def)

lemma rest_of_front:
  assumes "CHR ''/'' \<notin> set a" "p = [] \<or> hd p = CHR ''/''"
  shows "rest_auth (''//'' @ a @ p) = a" "rest_path (''//'' @ a @ p) = p"
  using assms by (cases p; auto simp: rest_auth_def rest_path_def Cut_append Cut_absent)+

lemma url_Parse_fragment:
  assumes "parse_noFragment (fst (Cut s (CHR ''#''))) = Some r" "unescape (fst (snd (Cut s (CHR ''#'')))) \<noteq> None"
  shows "\<exists>u. url_Parse s = Some u \<and> u_Scheme u = u_Scheme r \<and> u_Host u = u_Host r \<and> u_Path u = u_Path r \<and>
    u_RawQuery u = u_RawQuery r"
  using assms by (auto simp: url_Parse_def case_prod_beta setFragment_def)

lemma getScheme_from_set: "getScheme_from seen s = Some (sch, r) \<Longrightarrow> set r \<subseteq> set seen \<union> set s"
  by (induction seen s rule: getScheme_from.induct) (auto simp del: list.set split: if_splits, auto)

lemma Cut_set: "set (fst (Cut s c)) \<subseteq> set s" "set (fst (snd (Cut s c))) \<subseteq> set s"
  by (induction s) (auto simp: case_prod_beta)

lemma parse_noFragment_query: "parse_noFragment t = Some u \<Longrightarrow> set (u_RawQuery u) \<subseteq> set t \<and> \<not> list_ex is_ctl t"
proof -
  assume p: "parse_noFragment t = Some u"
  then have "\<not> list_ex is_ctl t" by (simp add: parse_noFragment_def split: if_splits)
  moreover have "set (fst (snd (Cut r (CHR ''?'')))) \<subseteq> set t" if "getScheme t = Some (sch, r)" for sch r
    using getScheme_from_set [of "[]" t] that Cut_set(2) [of r] unfolding getScheme_def by fastforce
  then have "set (u_RawQuery u) \<subseteq> set t"
    using p by (auto simp: parse_noFragment_def setPath_def empty_url_def Let_def case_prod_beta split: if_splits option.splits)
  ultimately show ?thesis by blast
qed

lemma url_Parse_query:
  assumes "url_Parse s = Some u"
  shows "\<forall>x \<in> set (u_RawQuery u). x \<noteq> CHR ''#'' \<and> \<not> is_ctl x"
proof -
  from assms obtain r where "parse_noFragment (fst (Cut s (CHR ''#''))) = Some r" "u_RawQuery r = u_RawQuery u"
    by (auto simp: url_Parse_def setFragment_def case_prod_beta split: option.splits if_splits)
  with parse_noFragment_query [of "fst (Cut s (CHR ''#''))" r] Cut_fst_no_sep [of "CHR ''#''" s] show ?thesis
    by (auto simp: list_ex_iff)
qed

text \<open>A printed URL with a scheme and a host parses, to the same scheme, host, path and query.\<close>

lemma URL_String_parses:
  assumes abs: "absolute u" and q: "\<forall>x \<in> set (u_RawQuery u). x \<noteq> CHR ''#'' \<and> \<not> is_ctl x"
  shows "\<exists>u'. url_Parse (URL_String u) = Some u' \<and> absolute u' \<and> u_Scheme u' = u_Scheme u \<and> u_Host u' = u_Host u \<and>
    u_Path u' = u_Path u \<and> u_RawQuery u' = u_RawQuery u"
proof -
  let ?q = "if u_ForceQuery u \<or> u_RawQuery u \<noteq> [] then CHR ''?'' # u_RawQuery u else []"
  let ?t = "url_front u @ ?q" and ?b = "''//'' @ authority_text u @ EscapedPath u"
  have sch: "valid_scheme (u_Scheme u)" "ToLower (u_Scheme u) = u_Scheme u" "u_Opaque u = []"
    using abs by (simp_all add: absolute_def)
  from abs obtain h where "parseHost h = Some (u_Host u)" by (auto simp: absolute_def)
  note auth = authority_text_parses [OF this]
  note plain = url_front_plain [OF sch(3) valid_scheme_plain [OF sch(1)]]
  have front: "url_front u = u_Scheme u @ CHR '':'' # ?b" by (rule absolute_front [OF abs])
  have noctl: "\<not> list_ex is_ctl ?t"
  proof -
    have "\<not> is_ctl (CHR ''?'')" by code_simp
    with plain q show ?thesis by (auto simp: list_ex_iff list_all_iff plain_char_def)
  qed
  have cut: "fst (Cut (?b @ ?q) (CHR ''?'')) = ?b" "fst (snd (Cut (?b @ ?q) (CHR ''?''))) = u_RawQuery u"
    using plain_absent [OF plain] unfolding front by (simp_all add: Cut_append Cut_absent)
  have "getScheme ?t = Some (u_Scheme u, ?b @ ?q)"
    unfolding front using getScheme_print [OF sch(1), of "?b @ ?q"] by simp
  from parse_noFragment_absolute [OF noctl _ this, unfolded cut rest_of_front [OF auth(2) EscapedPath_hd [OF abs]]]
  obtain r where r: "parse_noFragment ?t = Some r" "u_Scheme r = u_Scheme u" "u_Host r = u_Host u"
    "u_Path r = u_Path u" "u_RawQuery r = u_RawQuery u"
    using sch auth(1) front by (auto simp: HasPrefix_def valid_scheme_def)
  have "fst (Cut (URL_String u) (CHR ''#'')) = ?t"
    using URL_String_Cut [OF sch(3) valid_scheme_plain [OF sch(1)]] q by blast
  with r(1) have front_parses: "parse_noFragment (fst (Cut (URL_String u) (CHR ''#''))) = Some r" by simp
  have "fst (snd (Cut (URL_String u) (CHR ''#''))) = (if u_Fragment u \<noteq> [] then EscapedFragment u else [])"
    using plain_absent [OF plain] q by (auto simp: URL_String_def Cut_append Cut_absent)
  then have "unescape (fst (snd (Cut (URL_String u) (CHR ''#'')))) \<noteq> None" by simp
  from url_Parse_fragment [OF front_parses this] obtain u' where u': "url_Parse (URL_String u) = Some u'"
    "u_Scheme u' = u_Scheme r" "u_Host u' = u_Host r" "u_Path u' = u_Path r" "u_RawQuery u' = u_RawQuery r" by blast
  with r sch abs have "absolute u'" by (intro url_Parse_absolute [OF u'(1)]) (auto simp: absolute_def valid_scheme_def)
  with u' r show ?thesis by auto
qed

end
