(* ===== verification/GoHTTP.thy ===== *)
theory GoHTTP
  imports GoURLText Session
begin

text \<open>
  The parts of \<^verbatim>\<open>net/http\<close> that the gateway's handlers use: headers with canonical keys, the request
  with the values that the middleware puts into its context, the response writer (whose headers are
  frozen by the first \<^verbatim>\<open>WriteHeader\<close>), \<^verbatim>\<open>http.Error\<close>, \<^verbatim>\<open>http.SetCookie\<close>, \<^verbatim>\<open>http.Redirect\<close>, and JSON
  values. A handler is a function on the world and the response writer.
\<close>

section \<open>Definitions\<close>

subsection \<open>Headers\<close>

type_synonym header = "string \<rightharpoonup> string list"

definition isTokenChar :: "char \<Rightarrow> bool" where
  "isTokenChar c \<longleftrightarrow> is_alnum c \<or> c \<in> set ''!#$%&*+-.^_|~'' \<or> c = CHR 0x27 \<or> c = CHR 0x60"

fun canonical_from :: "bool \<Rightarrow> string \<Rightarrow> string" where
  "canonical_from up [] = []"
| "canonical_from up (c # s) =
     (if up then upper_char c else lower_char c) # canonical_from (c = CHR ''-'') s"

definition CanonicalHeaderKey :: "string \<Rightarrow> string" where
  "CanonicalHeaderKey k = (if list_all isTokenChar k then canonical_from True k else k)"

definition Header_Get :: "header \<Rightarrow> string \<Rightarrow> string" where
  "Header_Get h k = (case h (CanonicalHeaderKey k) of Some (v # _) \<Rightarrow> v | _ \<Rightarrow> [])"

definition Header_Set :: "header \<Rightarrow> string \<Rightarrow> string \<Rightarrow> header" where
  "Header_Set h k v = h(CanonicalHeaderKey k \<mapsto> [v])"

definition Header_Del :: "header \<Rightarrow> string \<Rightarrow> header" where
  "Header_Del h k = h(CanonicalHeaderKey k := None)"

subsection \<open>Requests\<close>

text \<open>
  A request's body as its handlers read it: the bytes that the client sends, behind the readers of
  \<^verbatim>\<open>http.MaxBytesReader\<close>, each of which stops with an error after its limit. \<open>read_body\<close> is the text that can be read
  and whether reading ends with that error.
\<close>

datatype body_reader = RawBody string | MaxBytesReader body_reader int

fun read_body :: "body_reader \<Rightarrow> string \<times> bool" where
  "read_body (RawBody s) = (s, False)"
| "read_body (MaxBytesReader b limit) =
     (case read_body b of (s, failed) \<Rightarrow>
        if int (length s) \<le> max 0 limit then (s, failed) else (take (nat limit) s, True))"

text \<open>
  The fields of \<^verbatim>\<open>http.Request\<close> that the gateway reads. \<open>rq_Cookies\<close> is \<^verbatim>\<open>r.Cookie\<close> (\<open>None\<close> where it
  fails), \<open>rq_PathValue\<close> is \<^verbatim>\<open>r.PathValue\<close>. The last six fields are the values that the middleware stores in the
  request's context. \<open>rq_Path\<close> is \<^verbatim>\<open>r.URL.Path\<close>, \<open>rq_Query\<close> is \<^verbatim>\<open>r.URL.Query().Get\<close>.
\<close>

record request =
  rq_Method :: string
  rq_URL :: url
  rq_Header :: header
  rq_Body :: "body_reader option"
  rq_Cookies :: "string \<rightharpoonup> string"
  rq_RemoteAddr :: string
  rq_PathValue :: "string \<Rightarrow> string"
  rq_Pattern :: string
  cx_RequestID :: string
  cx_TraceID :: string
  cx_ClientIP :: string
  cx_ClientIPSource :: string
  cx_CFRay :: string
  cx_Session :: "session option"

abbreviation rq_Path :: "request \<Rightarrow> string" where
  "rq_Path r \<equiv> u_Path (rq_URL r)"

definition rq_Query :: "request \<Rightarrow> string \<Rightarrow> string" where
  "rq_Query r k = Values_Get (ParseQuery (u_RawQuery (rq_URL r))) k"

subsection \<open>Responses\<close>

text \<open>
  The values that the JSON encoder gets. \<open>JTime\<close> is a \<^verbatim>\<open>time.Time\<close>, which it prints in RFC 3339 form.
\<close>

datatype json =
    JNull
  | JBool bool
  | JNum int
  | JStr string
  | JTime time
  | JArr "json list"
  | JObj "(string \<times> json) list"

datatype body_part = Text string | Json json

record cookie =
  ck_Name :: string
  ck_Value :: string
  ck_Path :: string
  ck_Secure :: bool
  ck_HttpOnly :: bool
  ck_SameSiteLax :: bool
  ck_Expires :: time
  ck_MaxAge :: int

text \<open>
  \<open>rw_Status\<close> is 0 until the first \<^verbatim>\<open>WriteHeader\<close>; \<open>rw_Sent\<close> is the header block that goes out with it.
  The \<^verbatim>\<open>Set-Cookie\<close> lines are kept as structured values.
\<close>

record response_writer =
  rw_Header :: header
  rw_Cookies :: "cookie list"
  rw_Status :: int
  rw_Sent :: header
  rw_Body :: "body_part list"

definition new_response :: response_writer where
  "new_response = \<lparr>rw_Header = Map.empty, rw_Cookies = [], rw_Status = 0, rw_Sent = Map.empty,
     rw_Body = []\<rparr>"

definition SetHeader :: "response_writer \<Rightarrow> string \<Rightarrow> string \<Rightarrow> response_writer" where
  "SetHeader rw k v = rw\<lparr>rw_Header := Header_Set (rw_Header rw) k v\<rparr>"

definition DelHeader :: "response_writer \<Rightarrow> string \<Rightarrow> response_writer" where
  "DelHeader rw k = rw\<lparr>rw_Header := Header_Del (rw_Header rw) k\<rparr>"

definition WriteHeader :: "response_writer \<Rightarrow> int \<Rightarrow> response_writer" where
  "WriteHeader rw code =
     (if rw_Status rw = 0 then rw\<lparr>rw_Status := code, rw_Sent := rw_Header rw\<rparr> else rw)"

definition Write :: "response_writer \<Rightarrow> body_part \<Rightarrow> response_writer" where
  "Write rw b = (WriteHeader rw 200)\<lparr>rw_Body := rw_Body rw @ [b]\<rparr>"

definition SetCookie :: "response_writer \<Rightarrow> cookie \<Rightarrow> response_writer" where
  "SetCookie rw c = rw\<lparr>rw_Cookies := rw_Cookies rw @ [c]\<rparr>"

definition http_Error :: "response_writer \<Rightarrow> string \<Rightarrow> int \<Rightarrow> response_writer" where
  "http_Error rw msg code =
     (let rw1 = DelHeader rw ''Content-Length'';
          rw2 = SetHeader rw1 ''Content-Type'' ''text/plain; charset=utf-8'';
          rw3 = SetHeader rw2 ''X-Content-Type-Options'' ''nosniff'';
          rw4 = WriteHeader rw3 code
      in Write rw4 (Text (msg @ [CHR 0x0A])))"

definition StatusText :: "int \<Rightarrow> string" where
  "StatusText code =
     (if code = 200 then ''OK'' else if code = 201 then ''Created''
      else if code = 202 then ''Accepted'' else if code = 204 then ''No Content''
      else if code = 301 then ''Moved Permanently'' else if code = 302 then ''Found''
      else if code = 303 then ''See Other'' else if code = 304 then ''Not Modified''
      else if code = 307 then ''Temporary Redirect'' else if code = 308 then ''Permanent Redirect''
      else if code = 400 then ''Bad Request'' else if code = 401 then ''Unauthorized''
      else if code = 403 then ''Forbidden'' else if code = 404 then ''Not Found''
      else if code = 405 then ''Method Not Allowed'' else if code = 409 then ''Conflict''
      else if code = 413 then ''Request Entity Too Large''
      else if code = 422 then ''Unprocessable Entity''
      else if code = 429 then ''Too Many Requests''
      else if code = 500 then ''Internal Server Error''
      else if code = 501 then ''Not Implemented'' else if code = 502 then ''Bad Gateway''
      else if code = 503 then ''Service Unavailable'' else if code = 504 then ''Gateway Timeout''
      else [])"

subsection \<open>Redirects\<close>

definition hexEscapeNonASCII :: "string \<Rightarrow> string" where
  "hexEscapeNonASCII s =
     concat (map (\<lambda>c. if 128 \<le> byte_of c
        then [CHR ''%'', hex_alphabet ! (byte_of c div 16), hex_alphabet ! (byte_of c mod 16)]
        else [c]) s)"

definition htmlEscape :: "string \<Rightarrow> string" where
  "htmlEscape s =
     concat (map (\<lambda>c. if c = CHR ''&'' then ''&amp;'' else if c = CHR ''<'' then ''&lt;''
        else if c = CHR ''>'' then ''&gt;'' else if c = CHR 0x22 then ''&#34;''
        else if c = CHR 0x27 then ''&#39;'' else [c]) s)"

text \<open>The directory part of \<^verbatim>\<open>path.Split\<close>.\<close>

definition path_dir :: "string \<Rightarrow> string" where
  "path_dir p = (case cut_last p (CHR ''/'') of Some (d, _) \<Rightarrow> d @ ''/'' | None \<Rightarrow> [])"

text \<open>The value of the \<^verbatim>\<open>Location\<close> header that \<^verbatim>\<open>http.Redirect\<close> sends for a target.\<close>

definition redirect_location :: "string \<Rightarrow> string \<Rightarrow> string" where
  "redirect_location reqpath target =
     (case url_Parse target of
        Some u \<Rightarrow>
          if u_Scheme u = [] \<and> u_Host u = [] then
            (let oldpath = (if reqpath = [] then ''/'' else reqpath);
                 abs = (if target = [] \<or> hd target \<noteq> CHR ''/'' then path_dir oldpath @ target else target);
                 (p, q, found) = Cut abs (CHR ''?'');
                 cleaned = path_Clean p;
                 slashed = (if HasSuffix p ''/'' \<and> \<not> HasSuffix cleaned ''/'' then cleaned @ ''/''
                            else cleaned)
             in slashed @ (if found then CHR ''?'' # q else []))
          else target
      | None \<Rightarrow> target)"

definition http_Redirect :: "response_writer \<Rightarrow> request \<Rightarrow> string \<Rightarrow> int \<Rightarrow> response_writer" where
  "http_Redirect rw r target code =
     (let loc = redirect_location (rq_Path r) target;
          hadCT = rw_Header rw ''Content-Type'' \<noteq> None;
          rw1 = SetHeader rw ''Location'' (hexEscapeNonASCII loc);
          rw2 = (if \<not> hadCT \<and> (rq_Method r = ''GET'' \<or> rq_Method r = ''HEAD'')
                 then SetHeader rw1 ''Content-Type'' ''text/html; charset=utf-8'' else rw1);
          rw3 = WriteHeader rw2 code
      in if \<not> hadCT \<and> rq_Method r = ''GET''
         then Write rw3 (Text (''<a href='' @ [CHR 0x22] @ htmlEscape loc @ [CHR 0x22] @ ''>'' @
                StatusText code @ ''</a>.'' @ [CHR 0x0A, CHR 0x0A]))
         else rw3)"

subsection \<open>Handlers\<close>

type_synonym 'w handler = "request \<Rightarrow> 'w \<Rightarrow> response_writer \<Rightarrow> 'w \<times> response_writer"

section \<open>Lemmas\<close>

lemma Header_Get_Set [simp]:
  "Header_Get (Header_Set h k v) k' =
     (if CanonicalHeaderKey k = CanonicalHeaderKey k' then v else Header_Get h k')"
  by (simp add: Header_Get_def Header_Set_def)

lemma WriteHeader_sel [simp]:
  "rw_Header (WriteHeader rw c) = rw_Header rw" "rw_Cookies (WriteHeader rw c) = rw_Cookies rw"
  "rw_Status (WriteHeader rw c) = (if rw_Status rw = 0 then c else rw_Status rw)"
  "rw_Sent (WriteHeader rw c) = (if rw_Status rw = 0 then rw_Header rw else rw_Sent rw)"
  "rw_Body (WriteHeader rw c) = rw_Body rw"
  by (simp_all add: WriteHeader_def)

lemma Write_sel [simp]:
  "rw_Header (Write rw b) = rw_Header rw" "rw_Cookies (Write rw b) = rw_Cookies rw"
  "rw_Status (Write rw b) = (if rw_Status rw = 0 then 200 else rw_Status rw)"
  "rw_Sent (Write rw b) = (if rw_Status rw = 0 then rw_Header rw else rw_Sent rw)"
  "rw_Body (Write rw b) = rw_Body rw @ [b]"
  by (simp_all add: Write_def)

lemma SetHeader_sel [simp]:
  "rw_Header (SetHeader rw k v) = Header_Set (rw_Header rw) k v"
  "rw_Cookies (SetHeader rw k v) = rw_Cookies rw" "rw_Status (SetHeader rw k v) = rw_Status rw"
  "rw_Sent (SetHeader rw k v) = rw_Sent rw" "rw_Body (SetHeader rw k v) = rw_Body rw"
  "rw_Header (DelHeader rw k) = Header_Del (rw_Header rw) k"
  "rw_Cookies (DelHeader rw k) = rw_Cookies rw" "rw_Status (DelHeader rw k) = rw_Status rw"
  "rw_Sent (DelHeader rw k) = rw_Sent rw" "rw_Body (DelHeader rw k) = rw_Body rw"
  by (simp_all add: SetHeader_def DelHeader_def)

lemma SetCookie_sel [simp]:
  "rw_Header (SetCookie rw c) = rw_Header rw" "rw_Cookies (SetCookie rw c) = rw_Cookies rw @ [c]"
  "rw_Status (SetCookie rw c) = rw_Status rw" "rw_Sent (SetCookie rw c) = rw_Sent rw"
  "rw_Body (SetCookie rw c) = rw_Body rw"
  by (simp_all add: SetCookie_def)

lemma http_Error_status [simp]:
  "rw_Status (http_Error rw msg c) =
     (if rw_Status rw = 0 then (if c = 0 then 200 else c) else rw_Status rw)"
  "rw_Cookies (http_Error rw msg c) = rw_Cookies rw"
  by (simp_all add: http_Error_def Let_def)

lemma http_Redirect_status [simp]:
  "c \<noteq> 0 \<Longrightarrow> rw_Status (http_Redirect rw r t c) = (if rw_Status rw = 0 then c else rw_Status rw)"
  "rw_Cookies (http_Redirect rw r t c) = rw_Cookies rw"
  by (simp_all add: http_Redirect_def Let_def)

lemma http_Redirect_location:
  assumes "c \<noteq> 0" "rw_Status rw = 0"
  shows "Header_Get (rw_Sent (http_Redirect rw r t c)) ''Location'' =
     hexEscapeNonASCII (redirect_location (rq_Path r) t)"
  using assms by (simp add: http_Redirect_def Let_def CanonicalHeaderKey_def isTokenChar_def
      is_alnum_def is_alpha_def is_digit_def byte_of_def upper_char_def lower_char_def)

text \<open>
  A location is local when it is a path on the same host: one leading slash, not two (which would
  start an authority).
\<close>

definition local_location :: "string \<Rightarrow> bool" where
  "local_location l \<longleftrightarrow> (\<exists>t. l = CHR ''/'' # t \<and> (t = [] \<or> hd t \<noteq> CHR ''/''))"

lemma hexEscape_hd:
  "hexEscapeNonASCII (c # t) = (if 128 \<le> byte_of c
     then [CHR ''%'', hex_alphabet ! (byte_of c div 16), hex_alphabet ! (byte_of c mod 16)]
     else [c]) @ hexEscapeNonASCII t"
  by (simp add: hexEscapeNonASCII_def)

lemma hexEscape_local: "local_location l \<Longrightarrow> local_location (hexEscapeNonASCII l)"
proof -
  assume "local_location l"
  then obtain t where l: "l = CHR ''/'' # t" "t = [] \<or> hd t \<noteq> CHR ''/''"
    by (auto simp: local_location_def)
  then have "hexEscapeNonASCII t = [] \<or> hd (hexEscapeNonASCII t) \<noteq> CHR ''/''"
    by (cases t) (auto simp: hexEscape_hd, simp add: hexEscapeNonASCII_def)
  then show ?thesis by (simp add: l(1) hexEscape_hd local_location_def byte_of_def)
qed

lemma path_dir_rooted:
  assumes "p \<noteq> []" "hd p = CHR ''/''"
  shows "path_dir p \<noteq> []" "hd (path_dir p) = CHR ''/''"
proof -
  have "CHR ''/'' \<in> set p" using assms hd_in_set by fastforce
  then obtain d e where d: "cut_last p (CHR ''/'') = Some (d, e)"
    using cut_last_None by (cases "cut_last p (CHR ''/'')") auto
  with cut_last_Some [OF d] assms show "path_dir p \<noteq> []" "hd (path_dir p) = CHR ''/''"
    by (auto simp: path_dir_def hd_append)
qed

text \<open>Cleaning the path part of a rooted reference, with its trailing slash and its query.\<close>

lemma cleaned_local:
  assumes "a \<noteq> []" "hd a = CHR ''/''" "Cut a (CHR ''?'') = (p, q, found)"
  shows "local_location ((if HasSuffix p ''/'' \<and> \<not> HasSuffix (path_Clean p) ''/'' then path_Clean p @ ''/''
      else path_Clean p) @ (if found then CHR ''?'' # q else []))"
proof -
  have "p \<noteq> []" "hd p = CHR ''/''"
    using Cut_parts [OF assms(3)] assms(1,2) by (auto simp: hd_append split: if_splits)
  then obtain t where t: "path_Clean p = CHR ''/'' # t" "t = [] \<or> hd t \<noteq> CHR ''/''"
    using path_Clean_rooted by blast
  then show ?thesis
    by (cases t) (auto simp: local_location_def HasSuffix_def HasPrefix_def)
qed

text \<open>Redirecting to a reference without scheme and host sends a local location.\<close>

lemma redirect_location_local:
  assumes "url_Parse target = Some u" "u_Scheme u = []" "u_Host u = []"
    and "reqpath = [] \<or> hd reqpath = CHR ''/''"
  shows "local_location (redirect_location reqpath target)"
proof -
  define old where "old = (if reqpath = [] then ''/'' else reqpath)"
  define a where "a = (if target = [] \<or> hd target \<noteq> CHR ''/'' then path_dir old @ target else target)"
  obtain p q found where c: "Cut a (CHR ''?'') = (p, q, found)" using prod_cases3 by blast
  have "old \<noteq> []" "hd old = CHR ''/''" using assms(4) by (auto simp: old_def)
  then have "a \<noteq> []" "hd a = CHR ''/''"
    using path_dir_rooted [of old] by (auto simp: a_def hd_append)
  from cleaned_local [OF this c] assms(1-3) c show ?thesis
    by (simp add: redirect_location_def Let_def old_def [symmetric] a_def [symmetric])
qed

end
