(* ===== verification/Auth.thy ===== *)
theory Auth
  imports Token GoHTTP
begin

text \<open>
  The login service (\<^verbatim>\<open>internal/auth\<close>): the login flows and their in-memory store, \<^verbatim>\<open>Service\<close> with
  \<^verbatim>\<open>StartLogin\<close>, \<^verbatim>\<open>CompleteCallback\<close> and \<^verbatim>\<open>Logout\<close>, and the check of the \<^verbatim>\<open>return_to\<close> parameter. The identity
  provider is an interface, a record of functions; SHA-256 is an argument.
\<close>

section \<open>Definitions\<close>

subsection \<open>Contracts (contracts.go)\<close>

record identity =
  id_Subject :: string
  id_Issuer :: string
  id_Username :: string
  id_DisplayName :: string
  id_Email :: string
  id_Roles :: "string list"

record auth_token_set =
  at_AccessToken :: string
  at_RefreshToken :: string
  at_IDToken :: string
  at_Expiry :: time

record exchange_result =
  er_Identity :: identity
  er_Tokens :: auth_token_set

record 'w identity_provider =
  ip_AuthorizationURL :: "'w \<Rightarrow> string \<Rightarrow> string \<Rightarrow> string \<Rightarrow> string \<Rightarrow> 'w \<times> string result"
  ip_Exchange :: "'w \<Rightarrow> string \<Rightarrow> string \<Rightarrow> string \<Rightarrow> string \<Rightarrow> 'w \<times> exchange_result result"
  ip_EndSessionURL :: "'w \<Rightarrow> string \<Rightarrow> string \<Rightarrow> 'w \<times> string result"

definition UnconfiguredProvider :: "'w identity_provider" where
  "UnconfiguredProvider =
     \<lparr>ip_AuthorizationURL = (\<lambda>w _ _ _ _. (w, Inl ErrProviderUnconfigured)),
      ip_Exchange = (\<lambda>w _ _ _ _. (w, Inl ErrProviderUnconfigured)),
      ip_EndSessionURL = (\<lambda>w _ _. (w, Inl ErrProviderUnconfigured))\<rparr>"

subsection \<open>Login flows (flow_store.go)\<close>

record flow =
  fl_State :: string
  fl_Nonce :: string
  fl_CodeVerifier :: string
  fl_ReturnTo :: string
  fl_ExpiresAt :: time

record 'w flow_store =
  fs_Put :: "'w \<Rightarrow> flow \<Rightarrow> 'w \<times> goerr option"
  fs_Take :: "'w \<Rightarrow> string \<Rightarrow> 'w \<times> flow result"

record auth_world = token_world +
  flows :: "string \<rightharpoonup> flow"

definition MemoryFlowStore_Put ::
  "'z auth_world_scheme \<Rightarrow> flow \<Rightarrow> 'z auth_world_scheme \<times> goerr option" where
  "MemoryFlowStore_Put w f = (w\<lparr>flows := (flows w)(fl_State f \<mapsto> f)\<rparr>, None)"

definition MemoryFlowStore_Take ::
  "'z auth_world_scheme \<Rightarrow> string \<Rightarrow> 'z auth_world_scheme \<times> flow result" where
  "MemoryFlowStore_Take w state =
     (case flows w state of
        None \<Rightarrow> (w, Inl ErrFlowNotFound)
      | Some f \<Rightarrow>
          (let (now, w1) = Now (w\<lparr>flows := map_delete (flows w) state\<rparr>)
           in if \<not> After (fl_ExpiresAt f) now then (w1, Inl ErrFlowNotFound) else (w1, Inr f)))"

definition MemoryFlowStore :: "'z auth_world_scheme flow_store" where
  "MemoryFlowStore = \<lparr>fs_Put = MemoryFlowStore_Put, fs_Take = MemoryFlowStore_Take\<rparr>"

subsection \<open>The service (service.go)\<close>

definition SessionCookieName :: string where
  "SessionCookieName = ''__Host-bff_session''"

definition InsecureSessionCookieName :: string where
  "InsecureSessionCookieName = ''bff_session''"

definition SessionCookieNameFor :: "bool \<Rightarrow> string" where
  "SessionCookieNameFor secure = (if secure then SessionCookieName else InsecureSessionCookieName)"

record 'w service =
  sv_Provider :: "'w identity_provider option"
  sv_Flows :: "'w flow_store option"
  sv_Sessions :: "'w session_store option"
  sv_Tokens :: "'w token_store option"
  sv_RedirectURI :: string
  sv_LogoutReturn :: string
  sv_FlowTTL :: duration
  sv_SessionTTL :: duration

record callback_result =
  cb_SessionID :: string
  cb_Subject :: string
  cb_Username :: string
  cb_ReturnTo :: string
  cb_ExpiresAt :: time

definition randomURLSafe :: "nat \<Rightarrow> 'z world_scheme \<Rightarrow> 'z world_scheme \<times> string result" where
  "randomURLSafe n w =
     (case rand_Read n w of
        (Inl e, w1) \<Rightarrow> (w1, Inl e)
      | (Inr buf, w1) \<Rightarrow> (w1, Inr (base64_RawURL buf)))"

definition safeLocalReturnTo :: "string \<Rightarrow> bool" where
  "safeLocalReturnTo v \<longleftrightarrow>
     (case url_Parse v of
        None \<Rightarrow> False
      | Some u \<Rightarrow>
          if IsAbs u \<or> u_Host u \<noteq> [] \<or> \<not> HasPrefix (u_Path u) ''/'' then False
          else \<not> HasPrefix v ''//'')"

definition flow_ttl :: "'w service \<Rightarrow> duration" where
  "flow_ttl s = (if sv_FlowTTL s \<le> 0 then 5 * Minute else sv_FlowTTL s)"

definition session_ttl :: "'w service \<Rightarrow> duration" where
  "session_ttl s = (if sv_SessionTTL s \<le> 0 then 8 * Hour else sv_SessionTTL s)"

definition StartLogin ::
  "(string \<Rightarrow> nat list) \<Rightarrow> 'z world_scheme service \<Rightarrow> 'z world_scheme \<Rightarrow> string
   \<Rightarrow> 'z world_scheme \<times> string result" where
  "StartLogin sha256 s w returnTo0 =
     (case (sv_Provider s, sv_Flows s) of
        (Some prov, Some fs) \<Rightarrow>
          (let returnTo = (if returnTo0 = [] then ''/'' else returnTo0)
           in if \<not> safeLocalReturnTo returnTo then (w, Inl ErrInvalidReturnTo)
              else
              (case randomURLSafe 32 w of
                 (w1, Inl e) \<Rightarrow> (w1, Inl e)
               | (w1, Inr state) \<Rightarrow>
              (case randomURLSafe 32 w1 of
                 (w2, Inl e) \<Rightarrow> (w2, Inl e)
               | (w2, Inr nonce) \<Rightarrow>
              (case randomURLSafe 64 w2 of
                 (w3, Inl e) \<Rightarrow> (w3, Inl e)
               | (w3, Inr verifier) \<Rightarrow>
                   (let challenge = base64_RawURL (sha256 verifier);
                        (now, w4) = Now w3
                    in case fs_Put fs w4
                              \<lparr>fl_State = state, fl_Nonce = nonce, fl_CodeVerifier = verifier,
                               fl_ReturnTo = returnTo, fl_ExpiresAt = Time_Add now (flow_ttl s)\<rparr> of
                         (w5, Some e) \<Rightarrow> (w5, Inl e)
                       | (w5, None) \<Rightarrow>
                           ip_AuthorizationURL prov w5 state nonce challenge (sv_RedirectURI s))))))
      | _ \<Rightarrow> (w, Inl (ErrorString ''auth service is not configured'')))"

text \<open>The session that a completed login stores.\<close>

definition login_session :: "string \<Rightarrow> identity \<Rightarrow> time \<Rightarrow> time \<Rightarrow> session" where
  "login_session sid i now expires =
     \<lparr>sess_ID = sid, sess_Subject = id_Subject i, sess_Issuer = id_Issuer i,
      sess_Username = id_Username i, sess_DisplayName = id_DisplayName i, sess_Email = id_Email i,
      sess_Roles = id_Roles i, sess_CreatedAt = now, sess_ExpiresAt = expires, sess_LastSeen = now\<rparr>"

definition login_tokens :: "auth_token_set \<Rightarrow> token_set" where
  "login_tokens t =
     \<lparr>ts_AccessToken = at_AccessToken t, ts_RefreshToken = at_RefreshToken t,
      ts_IDToken = at_IDToken t, ts_ExpiryUnix = Unix (at_Expiry t)\<rparr>"

text \<open>\<^verbatim>\<open>CompleteCallback\<close> from the generation of the session identifier on.\<close>

definition establish_session ::
  "'z world_scheme service \<Rightarrow> 'z world_scheme \<Rightarrow> string \<Rightarrow> exchange_result
   \<Rightarrow> 'z world_scheme \<times> callback_result result" where
  "establish_session s w returnTo result =
     (case randomURLSafe 32 w of
        (w1, Inl e) \<Rightarrow> (w1, Inl e)
      | (w1, Inr sid) \<Rightarrow>
          (let (now, w2) = Now w1;
               expires = Time_Add now (session_ttl s);
               i = er_Identity result
           in case sv_Sessions s of
                None \<Rightarrow> (w2, Inl NilDereference)
              | Some ss \<Rightarrow>
                  (case ss_Put ss w2 (login_session sid i now expires) of
                     (w3, Some e) \<Rightarrow> (w3, Inl e)
                   | (w3, None) \<Rightarrow>
                       (case sv_Tokens s of
                          None \<Rightarrow> (w3, Inl NilDereference)
                        | Some ts \<Rightarrow>
                            (case tk_Put ts w3 sid (login_tokens (er_Tokens result)) expires of
                               (w4, Some e) \<Rightarrow> (fst (ss_Delete ss w4 sid), Inl e)
                             | (w4, None) \<Rightarrow>
                                 (w4, Inr \<lparr>cb_SessionID = sid, cb_Subject = id_Subject i,
                                           cb_Username = id_Username i, cb_ReturnTo = returnTo,
                                           cb_ExpiresAt = expires\<rparr>))))))"

definition CompleteCallback ::
  "'z world_scheme service \<Rightarrow> 'z world_scheme \<Rightarrow> string \<Rightarrow> string
   \<Rightarrow> 'z world_scheme \<times> callback_result result" where
  "CompleteCallback s w state code =
     (if state = [] \<or> code = [] then (w, Inl (ErrorString ''missing state or code''))
      else (case sv_Flows s of
        None \<Rightarrow> (w, Inl NilDereference)
      | Some fs \<Rightarrow>
          (case fs_Take fs w state of
             (w1, Inl e) \<Rightarrow> (w1, Inl e)
           | (w1, Inr f) \<Rightarrow>
               (case sv_Provider s of
                  None \<Rightarrow> (w1, Inl NilDereference)
                | Some prov \<Rightarrow>
                    (case ip_Exchange prov w1 code (fl_CodeVerifier f) (sv_RedirectURI s) (fl_Nonce f) of
                       (w2, Inl e) \<Rightarrow> (w2, Inl e)
                     | (w2, Inr result) \<Rightarrow>
                         if id_Subject (er_Identity result) = [] \<or> id_Issuer (er_Identity result) = []
                         then (w2, Inl (ErrorString ''provider returned incomplete identity''))
                         else establish_session s w2 (fl_ReturnTo f) result)))))"

text \<open>The token part of \<^verbatim>\<open>Logout\<close>: the ID token for the provider, and the deletion.\<close>

definition logout_tokens ::
  "'w service \<Rightarrow> 'w \<Rightarrow> string \<Rightarrow> 'w \<times> string result" where
  "logout_tokens s w sid =
     (case sv_Tokens s of
        None \<Rightarrow> (w, Inr [])
      | Some ts \<Rightarrow>
          (case tk_Get ts w sid of
             (w1, r) \<Rightarrow>
               (let found = (case r of
                       Inr t \<Rightarrow> Inr (ts_IDToken t)
                     | Inl e \<Rightarrow> if errors_Is e ErrTokenNotFound then Inr []
                               else Inl (ErrWrapped ''load logout token'' e))
                in case found of
                     Inl e \<Rightarrow> (w1, Inl e)
                   | Inr idToken \<Rightarrow>
                       (case tk_Delete ts w1 sid of
                          (w2, Some e) \<Rightarrow> (w2, Inl (ErrWrapped ''delete logout token'' e))
                        | (w2, None) \<Rightarrow> (w2, Inr idToken)))))"

definition Logout ::
  "'w service \<Rightarrow> 'w \<Rightarrow> string \<Rightarrow> bool \<Rightarrow> 'w \<times> string result" where
  "Logout s w sid global =
     (if sid = [] then (w, Inr (sv_LogoutReturn s))
      else (case logout_tokens s w sid of
        (w1, Inl e) \<Rightarrow> (w1, Inl e)
      | (w1, Inr idToken) \<Rightarrow>
          (case sv_Sessions s of
             None \<Rightarrow> (w1, Inl (ErrorString ''session store is not configured''))
           | Some ss \<Rightarrow>
               (case ss_Delete ss w1 sid of
                  (w2, Some e) \<Rightarrow> (w2, Inl (ErrWrapped ''delete session'' e))
                | (w2, None) \<Rightarrow>
                    if global \<and> idToken \<noteq> []
                    then (case sv_Provider s of
                            None \<Rightarrow> (w2, Inl NilDereference)
                          | Some prov \<Rightarrow> ip_EndSessionURL prov w2 idToken (sv_LogoutReturn s))
                    else (w2, Inr (sv_LogoutReturn s))))))"

subsection \<open>Vocabulary of the properties\<close>

text \<open>The calls of the identity provider leave the stores and the clock of the gateway alone.\<close>

definition front_kept :: "'z auth_world_scheme \<Rightarrow> 'z auth_world_scheme \<Rightarrow> bool" where
  "front_kept w w' \<longleftrightarrow>
     flows w' = flows w \<and> tokens w' = tokens w \<and> sessions w' = sessions w \<and> clock_kept w w'"

definition provider_frame :: "'z auth_world_scheme identity_provider \<Rightarrow> bool" where
  "provider_frame prov \<longleftrightarrow>
     (\<forall>w a b c d. front_kept w (fst (ip_AuthorizationURL prov w a b c d)) \<and>
        front_kept w (fst (ip_Exchange prov w a b c d)) \<and>
        front_kept w (fst (ip_EndSessionURL prov w a b)))"

text \<open>The service over the in-memory stores, as the gateway assembles it without Redis.\<close>

definition memory_service :: "lifecycle \<Rightarrow> 'z auth_world_scheme service \<Rightarrow> bool" where
  "memory_service lc s \<longleftrightarrow>
     sv_Flows s = Some MemoryFlowStore \<and> sv_Tokens s = Some TokenMemory \<and>
     sv_Sessions s = Some (LifecycleStore lc MemoryStore) \<and>
     (\<exists>prov. sv_Provider s = Some prov \<and> provider_frame prov)"

section \<open>Lemmas\<close>

lemmas flow_defs = MemoryFlowStore_def MemoryFlowStore_Put_def MemoryFlowStore_Take_def

lemma front_kept_refl [simp]: "front_kept w w"
  by (simp add: front_kept_def)

lemma front_kept_trans: "front_kept a b \<Longrightarrow> front_kept b c \<Longrightarrow> front_kept a c"
  by (auto simp: front_kept_def intro: clock_kept_trans)

lemma front_kept_Now [simp]: "front_kept w (w\<lparr>ticks := Suc (ticks w)\<rparr>)"
  by (simp add: front_kept_def clock_kept_def)

lemma randomURLSafe_frame:
  assumes "randomURLSafe n w = (w', r)"
  shows "front_kept w w'" "ticks w' = ticks w" "clk w' = clk w"
  using assms
  by (auto simp: randomURLSafe_def rand_Read_def front_kept_def clock_kept_def split: sum.splits)

lemma provider_frameD:
  assumes "provider_frame prov"
  shows "ip_AuthorizationURL prov w a b c d = (w', r) \<Longrightarrow> front_kept w w'"
    and "ip_Exchange prov w a b c d = (w', r') \<Longrightarrow> front_kept w w'"
    and "ip_EndSessionURL prov w a b = (w', r) \<Longrightarrow> front_kept w w'"
  using assms unfolding provider_frame_def by (metis fst_conv)+

lemma memory_session_flows [simp]:
  "flows (fst (MemoryStore_Get w i)) = flows w"
  "flows (fst (MemoryStore_Put w v)) = flows w"
  "flows (fst (MemoryStore_Delete w i)) = flows w"
  by (auto simp: memory_defs Now_eq Let_def split: option.splits)

lemma lifecycle_Put_memory:
  "LifecycleStore_Put lc MemoryStore w v =
     (w\<lparr>ticks := Suc (ticks w),
        sessions := (sessions w)(sess_ID v \<mapsto> lifecycle_normalize lc (cur w) v)\<rparr>, None)"
  by (simp add: LifecycleStore_Put_def memory_defs Now_eq Let_def)

lemma normalize_facts:
  "sess_Subject (lifecycle_normalize lc now v) = sess_Subject v"
  "sess_Issuer (lifecycle_normalize lc now v) = sess_Issuer v"
  "\<not> IsZero (sess_ExpiresAt v) \<Longrightarrow> sess_ExpiresAt (lifecycle_normalize lc now v) \<le> sess_ExpiresAt v"
  by (auto simp: lifecycle_normalize_def Let_def go_time)

text \<open>The stored flow comes back exactly once, and only before it expires.\<close>

lemma Take_cases:
  assumes "MemoryFlowStore_Take w state = (w', r)"
  shows "flows w' = map_delete (flows w) state \<and> tokens w' = tokens w \<and> sessions w' = sessions w \<and>
    clock_kept w w' \<and>
    (case r of Inl e \<Rightarrow> e = ErrFlowNotFound
     | Inr f \<Rightarrow> flows w state = Some f \<and> cur w < fl_ExpiresAt f)"
  using assms
  by (cases "flows w state")
    (auto simp: MemoryFlowStore_Take_def Now_eq cur_def go_time clock_kept_def Let_def fun_upd_idem
      split: if_splits)

lemma establish_session_memory:
  assumes "memory_service lc s" and eq: "establish_session s w returnTo result = (w', r)"
  shows "flows w' = flows w \<and> clock_kept w w' \<and>
    (case r of
       Inl e \<Rightarrow> tokens w' = tokens w \<and> sessions w' = sessions w
     | Inr cb \<Rightarrow>
         sessions w' = (sessions w)(cb_SessionID cb \<mapsto>
           lifecycle_normalize lc (clk w (Suc (ticks w)))
             (login_session (cb_SessionID cb) (er_Identity result) (cur w) (cb_ExpiresAt cb))) \<and>
         tokens w' = (tokens w)(cb_SessionID cb \<mapsto>
           \<lparr>te_Set = login_tokens (er_Tokens result), te_ExpiresAt = cb_ExpiresAt cb\<rparr>) \<and>
         cb_ReturnTo cb = returnTo \<and> cb_Subject cb = id_Subject (er_Identity result) \<and>
         cb_ExpiresAt cb = cur w + session_ttl s)"
proof -
  obtain w1 x where x: "randomURLSafe 32 w = (w1, x)" by fastforce
  note f = randomURLSafe_frame [OF x]
  show ?thesis
  proof (cases x)
    case (Inl e)
    with eq x f show ?thesis by (auto simp: establish_session_def front_kept_def)
  next
    case (Inr sid)
    have "cur w1 = cur w" using f(2,3) by (simp add: cur_def)
    with eq x Inr assms(1) f show ?thesis
      by (auto simp: establish_session_def memory_service_def lifecycle_Put_memory Now_eq Let_def
          TokenMemory_def TokenMemory_Put_def front_kept_def clock_kept_def go_time login_session_def cur_def)
  qed
qed

text \<open>A callback whose flow was found, after the exchange of its code.\<close>

lemma callback_exchanged:
  assumes "sv_Provider s = Some prov" "sv_Flows s = Some MemoryFlowStore" "CompleteCallback s w state code = (w', r)"
    and "state \<noteq> []" "code \<noteq> []" "MemoryFlowStore_Take w state = (w1, Inr f)"
    and "ip_Exchange prov w1 code (fl_CodeVerifier f) (sv_RedirectURI s) (fl_Nonce f) = (w2, y)"
  obtains (accepted) result where "y = Inr result" "id_Subject (er_Identity result) \<noteq> []" "id_Issuer (er_Identity result) \<noteq> []"
      "establish_session s w2 (fl_ReturnTo f) result = (w', r)"
  | (refused) e where "w' = w2" "r = Inl e"
  using assms by (cases y) (auto simp: CompleteCallback_def MemoryFlowStore_def split: if_splits)

lemma callback_cases:
  assumes "memory_service lc s" and eq: "CompleteCallback s w state code = (w', r)"
    and "state \<noteq> []" "code \<noteq> []"
  shows "flows w' = map_delete (flows w) state \<and> clock_kept w w' \<and>
    (case r of
       Inl e \<Rightarrow> tokens w' = tokens w \<and> sessions w' = sessions w
     | Inr cb \<Rightarrow> (\<exists>f w2 result. flows w state = Some f \<and> cur w < fl_ExpiresAt f \<and>
         id_Subject (er_Identity result) \<noteq> [] \<and> id_Issuer (er_Identity result) \<noteq> [] \<and>
         establish_session s w2 (fl_ReturnTo f) result = (w', r) \<and>
         tokens w2 = tokens w \<and> sessions w2 = sessions w))"
proof -
  obtain prov where p: "sv_Provider s = Some prov" "provider_frame prov"
    using assms(1) by (auto simp: memory_service_def)
  have fs: "sv_Flows s = Some MemoryFlowStore" using assms(1) by (simp add: memory_service_def)
  obtain w1 x where x: "MemoryFlowStore_Take w state = (w1, x)" by fastforce
  note t = Take_cases [OF x]
  show ?thesis
  proof (cases x)
    case (Inl e)
    with eq fs x t assms(3,4) show ?thesis by (auto simp: CompleteCallback_def MemoryFlowStore_def)
  next
    case (Inr f)
    obtain w2 y where y: "ip_Exchange prov w1 code (fl_CodeVerifier f) (sv_RedirectURI s) (fl_Nonce f) = (w2, y)"
      by fastforce
    have k: "front_kept w1 w2" using provider_frameD(2) [OF p(2) y] .
    have t': "flows w1 = map_delete (flows w) state" "tokens w1 = tokens w" "sessions w1 = sessions w"
      "clock_kept w w1" "flows w state = Some f" "cur w < fl_ExpiresAt f"
      using t Inr by simp_all
    have w2: "flows w2 = map_delete (flows w) state" "tokens w2 = tokens w" "sessions w2 = sessions w"
      using k t' by (simp_all add: front_kept_def)
    have c2: "clock_kept w w2" using clock_kept_trans [OF t'(4)] k by (simp add: front_kept_def)
    from p(1) fs eq assms(3,4) x [unfolded Inr] y show ?thesis
    proof (cases rule: callback_exchanged)
      case (accepted result)
      note m = establish_session_memory [OF assms(1) accepted(4)]
      have "clock_kept w w'" using m clock_kept_trans [OF c2] by blast
      with m accepted t' w2 show ?thesis by (cases r) auto
    next
      case (refused e)
      with w2 c2 show ?thesis by auto
    qed
  qed
qed

lemma callback_success:
  assumes "memory_service lc s" "CompleteCallback s w state code = (w', Inr cb)"
  shows "\<exists>f. flows w state = Some f \<and> cb_ReturnTo cb = fl_ReturnTo f \<and>
    sessions w' (cb_SessionID cb) \<noteq> None \<and> tokens w' (cb_SessionID cb) \<noteq> None"
proof -
  have "state \<noteq> []" "code \<noteq> []" using assms(2) by (auto simp: CompleteCallback_def split: if_splits)
  with callback_cases [OF assms] obtain f w2 result where "flows w state = Some f"
    "establish_session s w2 (fl_ReturnTo f) result = (w', Inr cb)" by auto
  with establish_session_memory [OF assms(1) this(2)] show ?thesis by auto
qed

lemma logout_tokens_memory:
  assumes "memory_service lc s"
  shows "\<exists>w1 idt. logout_tokens s w sid = (w1, Inr idt) \<and> tokens w1 = map_delete (tokens w) sid \<and>
    sessions w1 = sessions w \<and> flows w1 = flows w"
  using assms
  by (auto simp: memory_service_def logout_tokens_def token_memory_defs Now_eq Let_def
      split: option.splits)

lemma Logout_stores:
  assumes "memory_service lc s" and "sid \<noteq> []" and "Logout s w sid global = (w', r)"
  shows "sessions w' = map_delete (sessions w) sid \<and> tokens w' = map_delete (tokens w) sid"
proof -
  obtain w1 idt where l: "logout_tokens s w sid = (w1, Inr idt)"
    "tokens w1 = map_delete (tokens w) sid" "sessions w1 = sessions w"
    using logout_tokens_memory [OF assms(1)] by blast
  let ?w2 = "w1\<lparr>sessions := map_delete (sessions w1) sid\<rparr>"
  obtain prov where p: "sv_Provider s = Some prov" "provider_frame prov"
    using assms(1) by (auto simp: memory_service_def)
  have "front_kept ?w2 w'"
    using assms l p provider_frameD(3) [OF p(2), of ?w2]
    by (auto simp: Logout_def memory_service_def LifecycleStore_Delete_def memory_defs split: if_splits)
  with l show ?thesis by (simp add: front_kept_def)
qed

section \<open>A concrete service\<close>

definition demo_identity :: identity where
  "demo_identity = \<lparr>id_Subject = ''alice'', id_Issuer = ''https://idp'', id_Username = ''alice'',
     id_DisplayName = ''Alice'', id_Email = ''a@example.com'', id_Roles = [''reader'']\<rparr>"

definition demo_provider :: "'w identity_provider" where
  "demo_provider =
     \<lparr>ip_AuthorizationURL = (\<lambda>w state nonce ch ru. (w, Inr (''https://idp/auth?state='' @ state))),
      ip_Exchange = (\<lambda>w code ver ru nonce. (w, Inr \<lparr>er_Identity = demo_identity,
         er_Tokens = \<lparr>at_AccessToken = ''a1'', at_RefreshToken = ''r1'', at_IDToken = ''i1'',
                      at_Expiry = demo_clock 600\<rparr>\<rparr>)),
      ip_EndSessionURL = (\<lambda>w hint ret. (w, Inl (ExternalError ''no end_session_endpoint'')))\<rparr>"

definition demo_service :: "'z auth_world_scheme service" where
  "demo_service =
     \<lparr>sv_Provider = Some demo_provider, sv_Flows = Some MemoryFlowStore,
      sv_Sessions = Some (LifecycleStore demo_lifecycle MemoryStore), sv_Tokens = Some TokenMemory,
      sv_RedirectURI = ''https://app/auth/callback'', sv_LogoutReturn = ''/'',
      sv_FlowTTL = 0, sv_SessionTTL = 0\<rparr>"

definition demo_flow :: flow where
  "demo_flow = \<lparr>fl_State = ''st'', fl_Nonce = ''n'', fl_CodeVerifier = ''v'', fl_ReturnTo = ''/home'',
     fl_ExpiresAt = demo_clock 300\<rparr>"

definition demo_auth_world :: auth_world where
  "demo_auth_world = token_world.extend (token_world.truncate demo_login) \<lparr>flows = [''st'' \<mapsto> demo_flow]\<rparr>"

lemma demo_service_memory: "memory_service demo_lifecycle demo_service"
  by (simp add: memory_service_def demo_service_def provider_frame_def demo_provider_def)

lemmas demo_auth_eval = demo_auth_world_def token_world.defs demo_flow_def demo_service_def
  demo_provider_def demo_identity_def flow_defs CompleteCallback_def establish_session_def
  randomURLSafe_def rand_Read_def login_session_def login_tokens_def session_ttl_def Logout_def
  logout_tokens_def demo_login_def token_memory_defs

section \<open>Properties\<close>

text \<open>
  C6. A login flow is single-use: after a callback with some state, whether it succeeded or not,
  the flow is gone, and a second callback with the same state is refused before the provider is
  asked and changes neither sessions nor tokens.
\<close>

theorem login_flow_single_use:
  assumes "memory_service lc s" and "state \<noteq> []" and "code \<noteq> []"
    and "CompleteCallback s w state code = (w1, r)"
  shows "flows w1 state = None \<and>
    (\<forall>code'. code' \<noteq> [] \<longrightarrow> CompleteCallback s w1 state code' = (w1, Inl ErrFlowNotFound))"
proof -
  have "flows w1 state = None" using callback_cases [OF assms(1,4,2,3)] by simp
  with assms(1,2) show ?thesis
    by (simp add: CompleteCallback_def memory_service_def MemoryFlowStore_def MemoryFlowStore_Take_def)
qed

theorem login_flow_single_use_witness:
  "is_ok (snd (CompleteCallback demo_service demo_auth_world ''st'' ''c'')) \<and>
   (let w1 = fst (CompleteCallback demo_service demo_auth_world ''st'' ''c'')
    in flows w1 ''st'' = None \<and>
       (\<forall>code'. code' \<noteq> [] \<longrightarrow> CompleteCallback demo_service w1 ''st'' code' = (w1, Inl ErrFlowNotFound)))"
proof
  show "is_ok (snd (CompleteCallback demo_service demo_auth_world ''st'' ''c''))"
    by (simp add: demo_auth_eval demo_eval)
  show "let w1 = fst (CompleteCallback demo_service demo_auth_world ''st'' ''c'')
    in flows w1 ''st'' = None \<and>
       (\<forall>code'. code' \<noteq> [] \<longrightarrow> CompleteCallback demo_service w1 ''st'' code' = (w1, Inl ErrFlowNotFound))"
    unfolding Let_def
    by (rule login_flow_single_use [OF demo_service_memory _ _ prod.collapse [symmetric]]) simp_all
qed



text \<open>
  Logout takes everything away: with a session identifier, a logout over the in-memory stores
  always removes both the session and its tokens and no other, even when a global logout then
  fails because the provider has no end-session address.
\<close>

theorem logout_removes:
  assumes "memory_service lc s" and "sid \<noteq> []" and "Logout s w sid global = (w', r)"
  shows "sessions w' = map_delete (sessions w) sid \<and> tokens w' = map_delete (tokens w) sid"
  using Logout_stores [OF assms] .

theorem logout_removes_witness:
  "let w' = fst (Logout demo_service demo_auth_world ''s1'' True)
   in sessions w' = map_delete (sessions demo_auth_world) ''s1'' \<and>
      tokens w' = map_delete (tokens demo_auth_world) ''s1''"
  unfolding Let_def
  by (rule logout_removes [OF demo_service_memory _ prod.collapse [symmetric]]) simp

end
