(* ===== verification/Observability.thy ===== *)
theory Observability
  imports Auth "HOL-Library.Word"
begin

text \<open>
  Audit events and their sinks (\<^verbatim>\<open>internal/audit\<close>) and the metrics registry
  (\<^verbatim>\<open>internal/observability\<close>). Counters are 64-bit words. A histogram compares durations with its
  bounds in exact nanoseconds, which agrees with the comparison of the float64 seconds for the
  bounds in use (they are multiples of a millisecond); the float sum is kept as exact nanoseconds.
  Their text rendering is in the theory \<open>MetricsText\<close>.
\<close>

section \<open>Definitions\<close>

subsection \<open>Audit events (audit.go)\<close>

record event =
  ev_ID :: string
  ev_OccurredAt :: time
  ev_Actor :: string
  ev_ActorUsername :: string
  ev_ClientIP :: string
  ev_ClientIPSource :: string
  ev_CFRay :: string
  ev_Action :: string
  ev_Target :: string
  ev_ResourceID :: string
  ev_Outcome :: string
  ev_HTTPStatus :: int
  ev_CorrelationID :: string
  ev_TraceID :: string
  ev_Attributes :: "string \<rightharpoonup> string"

type_synonym 'w audit_sink = "'w \<Rightarrow> event \<Rightarrow> 'w \<times> goerr option"

text \<open>The error of \<^verbatim>\<open>rand.Read\<close> is dropped: the identifier is then that of a zero buffer.\<close>

definition NewEvent ::
  "'z world_scheme \<Rightarrow> string \<Rightarrow> string \<Rightarrow> string \<Rightarrow> 'z world_scheme \<times> event" where
  "NewEvent w action target outcome =
     (case rand_Read 12 w of
        (r, w1) \<Rightarrow>
          (let b = (case r of Inl _ \<Rightarrow> replicate 12 0 | Inr bs \<Rightarrow> bs);
               (now, w2) = Now w1
           in (w2, \<lparr>ev_ID = hex_EncodeToString b, ev_OccurredAt = now, ev_Actor = [],
                    ev_ActorUsername = [], ev_ClientIP = [], ev_ClientIPSource = [], ev_CFRay = [],
                    ev_Action = action, ev_Target = target, ev_ResourceID = [], ev_Outcome = outcome,
                    ev_HTTPStatus = 0, ev_CorrelationID = [], ev_TraceID = [],
                    ev_Attributes = Map.empty\<rparr>)))"

subsection \<open>Metrics (metrics.go)\<close>

record histogram =
  hi_Count :: "64 word"
  hi_Sum :: duration
  hi_Buckets :: "64 word list"

text \<open>The bounds of the buckets, in nanoseconds.\<close>

definition defaultBuckets :: "duration list" where
  "defaultBuckets =
     [5 * Millisecond, 10 * Millisecond, 25 * Millisecond, 50 * Millisecond, 100 * Millisecond,
      250 * Millisecond, 500 * Millisecond, Second, 2500 * Millisecond, 5 * Second, 10 * Second]"

record metrics =
  mx_httpRequests :: "string \<times> string \<times> string \<rightharpoonup> 64 word"
  mx_httpDuration :: "string \<times> string \<rightharpoonup> histogram"
  mx_authAttempts :: "string \<rightharpoonup> 64 word"
  mx_decisions :: "string \<times> string \<rightharpoonup> 64 word"
  mx_outRequests :: "string \<times> string \<times> string \<rightharpoonup> 64 word"
  mx_outDuration :: "string \<times> string \<rightharpoonup> histogram"
  mx_rejected :: "string \<rightharpoonup> 64 word"
  mx_outRejected :: "string \<times> string \<rightharpoonup> 64 word"
  mx_inflight :: int

text \<open>Reading a counter that is not there gives zero.\<close>

definition counter :: "('k \<rightharpoonup> 64 word) \<Rightarrow> 'k \<Rightarrow> 64 word" where
  "counter m k = (case m k of None \<Rightarrow> 0 | Some n \<Rightarrow> n)"

definition bump :: "('k \<rightharpoonup> 64 word) \<Rightarrow> 'k \<Rightarrow> ('k \<rightharpoonup> 64 word)" where
  "bump m k = m(k \<mapsto> counter m k + 1)"

definition observe :: "histogram option \<Rightarrow> duration \<Rightarrow> histogram" where
  "observe h0 d =
     (let h = (case h0 of None \<Rightarrow> \<lparr>hi_Count = 0, hi_Sum = 0, hi_Buckets = []\<rparr> | Some h \<Rightarrow> h);
          bs = (if hi_Buckets h = [] then replicate (length defaultBuckets) 0 else hi_Buckets h)
      in \<lparr>hi_Count = hi_Count h + 1, hi_Sum = hi_Sum h + d,
          hi_Buckets = map2 (\<lambda>bound n. if d \<le> bound then n + 1 else n) defaultBuckets bs\<rparr>)"

text \<open>Decimal digits of a number that is not negative.\<close>

fun nat_digits :: "nat \<Rightarrow> string" where
  "nat_digits n =
     (if n < 10 then [char_of (48 + n)] else nat_digits (n div 10) @ [char_of (48 + n mod 10)])"

declare nat_digits.simps [simp del]

definition Itoa :: "int \<Rightarrow> string" where
  "Itoa i = (if i < 0 then CHR ''-'' # nat_digits (nat (- i)) else nat_digits (nat i))"

text \<open>\<^verbatim>\<open>status/100\<close> truncates towards zero.\<close>

definition status_class :: "int \<Rightarrow> string" where
  "status_class status = Itoa (if status < 0 then - ((- status) div 100) else status div 100) @ ''xx''"

text \<open>The recording methods, one constructor for each.\<close>

datatype metric_call =
    RecordHTTPRequest string string int duration
  | RecordAuth string
  | RecordAuthorization string string
  | RecordOutbound string string string duration
  | RecordRejected string
  | RecordOutboundRejected string string
  | AddInflight int

definition or_unknown :: "string \<Rightarrow> string" where
  "or_unknown s = (if s = [] then ''unknown'' else s)"

fun record_metric :: "metric_call \<Rightarrow> metrics \<Rightarrow> metrics" where
  "record_metric (RecordHTTPRequest method route0 status d) m =
     (let route = (if route0 = [] then ''unmatched'' else route0);
          meth = ToUpper method
      in m\<lparr>mx_httpRequests := bump (mx_httpRequests m) (meth, route, status_class status),
           mx_httpDuration := (mx_httpDuration m)((meth, route) \<mapsto>
             observe (mx_httpDuration m (meth, route)) d)\<rparr>)"
| "record_metric (RecordAuth outcome) m = m\<lparr>mx_authAttempts := bump (mx_authAttempts m) outcome\<rparr>"
| "record_metric (RecordAuthorization outcome permission) m =
     m\<lparr>mx_decisions := bump (mx_decisions m) (outcome, permission)\<rparr>"
| "record_metric (RecordOutbound service0 method outcome d) m =
     (let service = or_unknown service0; meth = ToUpper method
      in m\<lparr>mx_outRequests := bump (mx_outRequests m) (service, meth, outcome),
           mx_outDuration := (mx_outDuration m)((service, meth) \<mapsto>
             observe (mx_outDuration m (service, meth)) d)\<rparr>)"
| "record_metric (RecordRejected reason) m = m\<lparr>mx_rejected := bump (mx_rejected m) reason\<rparr>"
| "record_metric (RecordOutboundRejected service reason) m =
     m\<lparr>mx_outRejected := bump (mx_outRejected m) (or_unknown service, reason)\<rparr>"
| "record_metric (AddInflight delta) m =
     m\<lparr>mx_inflight := (let n = wrap64 (mx_inflight m + delta) in if n < 0 then 0 else n)\<rparr>"

definition NewMetrics :: metrics where
  "NewMetrics =
     \<lparr>mx_httpRequests = Map.empty, mx_httpDuration = Map.empty, mx_authAttempts = Map.empty,
      mx_decisions = Map.empty, mx_outRequests = Map.empty, mx_outDuration = Map.empty,
      mx_rejected = Map.empty, mx_outRejected = Map.empty, mx_inflight = 0\<rparr>"

text \<open>
  A component that has a metrics registry calls it through this function on the world; \<open>None\<close> is the
  nil registry, which every component tests for.
\<close>

type_synonym 'w meter = "('w \<Rightarrow> metric_call \<Rightarrow> 'w) option"

definition meter_call :: "'w meter \<Rightarrow> 'w \<Rightarrow> metric_call \<Rightarrow> 'w" where
  "meter_call m w c = (case m of None \<Rightarrow> w | Some f \<Rightarrow> f w c)"

subsection \<open>The sinks (memory.go, noop.go, slog.go) and the registry in the world\<close>

record obs_world = auth_world +
  events :: "event list"
  registry :: metrics

definition MemorySink_Append :: "'z obs_world_scheme audit_sink" where
  "MemorySink_Append w e = (w\<lparr>events := events w @ [e]\<rparr>, None)"

definition MemorySink_Snapshot :: "'z obs_world_scheme \<Rightarrow> event list" where
  "MemorySink_Snapshot w = events w"

definition NoopSink_Append :: "'w audit_sink" where
  "NoopSink_Append w e = (w, None)"

definition registry_meter :: "'z obs_world_scheme meter" where
  "registry_meter = Some (\<lambda>w c. w\<lparr>registry := record_metric c (registry w)\<rparr>)"

text \<open>
  The line that \<^verbatim>\<open>SlogSink.Append\<close> hands to the logger, without the event time; the attributes come
  as the list of the map's entries, in the order in which Go ranges over it.
\<close>

record slog_sink =
  sl_Service :: string
  sl_Role :: string
  sl_Instance :: string

definition slog_line ::
  "slog_sink \<Rightarrow> string result \<Rightarrow> (string \<times> string) list \<Rightarrow> event \<Rightarrow> (string \<times> json) list" where
  "slog_line s hostname attrs e =
     (let actorType = (if ev_Actor e \<noteq> [] then ''user'' else ''anonymous'');
          service = (if sl_Service s \<noteq> [] then sl_Service s else ''rebff'');
          role = (if sl_Role s \<noteq> [] then sl_Role s else ''rebff'');
          inst = (if sl_Instance s \<noteq> [] then sl_Instance s
                  else case hostname of Inr h \<Rightarrow> h | Inl _ \<Rightarrow> []);
          metadata = filter (\<lambda>(k, v). k \<noteq> ''reason'') attrs;
          reason = (case map_of attrs ''reason'' of Some r \<Rightarrow> r | None \<Rightarrow> []);
          outcome = [(''result'', JStr (ev_Outcome e)), (''reason'', JStr reason)] @
            (if 100 \<le> ev_HTTPStatus e \<and> ev_HTTPStatus e \<le> 599
             then [(''http_status'', JNum (ev_HTTPStatus e))] else [])
      in [(''schema_version'', JStr ''1.0''), (''event_id'', JStr (ev_ID e)),
          (''source'', JObj [(''service'', JStr service), (''role'', JStr role), (''instance'', JStr inst)]),
          (''actor'', JObj [(''type'', JStr actorType), (''subject'', JStr (ev_Actor e)),
             (''username'', JStr (ev_ActorUsername e))]),
          (''client'', JObj [(''type'', JStr ''browser''), (''ip'', JStr (ev_ClientIP e)),
             (''ip_source'', JStr (ev_ClientIPSource e))]),
          (''action'', JStr (ev_Action e)),
          (''target'', JObj [(''type'', JStr (ev_Target e)), (''id'', JStr (ev_ResourceID e))]),
          (''outcome'', JObj outcome),
          (''request'', JObj [(''request_id'', JStr (ev_CorrelationID e)),
             (''trace_id'', JStr (ev_TraceID e)), (''cf_ray'', JStr (ev_CFRay e))]),
          (''metadata'', JObj (map (\<lambda>(k, v). (k, JStr v)) metadata))])"

section \<open>Lemmas\<close>

text \<open>A sequence of observations under one key of the registry.\<close>

definition observe_all :: "duration list \<Rightarrow> histogram option" where
  "observe_all ds = fold (\<lambda>d h. Some (observe h d)) ds None"

text \<open>The reference: how many of the durations each bucket should count.\<close>

definition tally :: "duration list \<Rightarrow> histogram" where
  "tally ds =
     \<lparr>hi_Count = of_nat (length ds), hi_Sum = sum_list ds,
      hi_Buckets = map (\<lambda>b. of_nat (length (filter (\<lambda>d. d \<le> b) ds))) defaultBuckets\<rparr>"

lemma map2_map_right: "map2 f xs (map g xs) = map (\<lambda>x. f x (g x)) xs"
  by (induction xs) simp_all

lemma observe_None: "observe None d = observe (Some (tally [])) d"
  by (simp add: observe_def tally_def defaultBuckets_def Let_def)

lemma observe_tally: "observe (Some (tally ds)) d = tally (ds @ [d])"
proof -
  have "hi_Buckets (tally ds) \<noteq> []" by (simp add: tally_def defaultBuckets_def)
  then show ?thesis
    unfolding observe_def tally_def Let_def
    by (simp add: map2_map_right)
qed

lemma observe_all_snoc: "observe_all (ds @ [d]) = Some (observe (observe_all ds) d)"
  by (simp add: observe_all_def)

lemma observe_all_tally: "ds \<noteq> [] \<Longrightarrow> observe_all ds = Some (tally ds)"
proof (induction ds rule: rev_induct)
  case Nil
  then show ?case by simp
next
  case (snoc d ds)
  show ?case
  proof (cases "ds = []")
    case True
    have "observe_all ([] @ [d]) = Some (observe None d)"
      unfolding observe_all_snoc by (simp add: observe_all_def)
    with True show ?thesis using observe_None observe_tally [of "[]" d] by simp
  next
    case False
    with snoc show ?thesis by (simp add: observe_all_snoc observe_tally)
  qed
qed

section \<open>Properties\<close>

text \<open>
  The request histograms are right: after any sequence of recorded requests of one method and
  route, starting from a fresh registry, the stored histogram counts the requests, sums their
  durations, and each bucket holds the number of requests that took no longer than its bound (all
  modulo the 64-bit counters).
\<close>

theorem http_histogram_tally:
  assumes "ds \<noteq> []" and "route \<noteq> []"
  shows "mx_httpDuration
      (fold (\<lambda>d m. record_metric (RecordHTTPRequest meth route status d) m) ds NewMetrics)
      (ToUpper meth, route) = Some (tally ds)"
proof -
  have "mx_httpDuration
      (fold (\<lambda>d m. record_metric (RecordHTTPRequest meth route status d) m) ds NewMetrics)
      (ToUpper meth, route) = observe_all ds"
    by (induction ds rule: rev_induct)
      (simp_all add: NewMetrics_def observe_all_snoc assms(2) Let_def, simp add: observe_all_def)
  then show ?thesis using observe_all_tally [OF assms(1)] by simp
qed

theorem http_histogram_tally_witness:
  "mx_httpDuration
      (fold (\<lambda>d m. record_metric (RecordHTTPRequest ''get'' ''/x'' 200 d) m) [Millisecond, Second] NewMetrics)
      (ToUpper ''get'', ''/x'') = Some (tally [Millisecond, Second])"
  by (rule http_histogram_tally) simp_all

end
