(* ===== verification/GoConv.thy ===== *)
theory GoConv
  imports Complex_Main Observability GoURL
begin

text \<open>
  The conversions of \<^verbatim>\<open>strconv\<close> and \<^verbatim>\<open>time\<close> that the configuration uses, and that reading back what was printed
  gives the value again: integers, Booleans and durations of whole seconds. A floating-point number is an
  exact rational here (the rounding of \<^verbatim>\<open>float64\<close> is not modelled) or one of the special values.
\<close>

section \<open>Definitions\<close>

subsection \<open>Booleans\<close>

definition ParseBool :: "string \<Rightarrow> bool option" where
  "ParseBool s =
     (if s \<in> set [''1'', ''t'', ''T'', ''TRUE'', ''true'', ''True''] then Some True
      else if s \<in> set [''0'', ''f'', ''F'', ''FALSE'', ''false'', ''False''] then Some False
      else None)"

definition FormatBool :: "bool \<Rightarrow> string" where
  "FormatBool b = (if b then ''true'' else ''false'')"

subsection \<open>Floating-point numbers\<close>

datatype go_float = Finite rat | PosInf | NegInf | NaN

text \<open>The comparisons with zero: false for a value that is not a number.\<close>

definition float_negative :: "go_float \<Rightarrow> bool" where
  "float_negative x = (case x of Finite q \<Rightarrow> q < 0 | PosInf \<Rightarrow> False | NegInf \<Rightarrow> True | NaN \<Rightarrow> False)"

definition float_positive :: "go_float \<Rightarrow> bool" where
  "float_positive x = (case x of Finite q \<Rightarrow> 0 < q | PosInf \<Rightarrow> True | NegInf \<Rightarrow> False | NaN \<Rightarrow> False)"

definition is_digit_char :: "char \<Rightarrow> bool" where
  "is_digit_char c \<longleftrightarrow> digit_value c \<noteq> None"

definition base_power :: "rat \<Rightarrow> int \<Rightarrow> rat" where
  "base_power b e = (if e < 0 then 1 / b ^ nat (- e) else b ^ nat e)"

text \<open>\<^verbatim>\<open>underscoreOK\<close>: an underscore stands between digits or after a base prefix. \<open>saw\<close> is the kind of the last byte.\<close>

datatype saw = SawStart | SawDigit | SawUnderscore | SawOther

definition hex_digit :: "char \<Rightarrow> bool" where
  "hex_digit c \<longleftrightarrow> hex_value c \<noteq> None"

fun underscore_loop :: "bool \<Rightarrow> saw \<Rightarrow> string \<Rightarrow> bool" where
  "underscore_loop hex sw [] \<longleftrightarrow> sw \<noteq> SawUnderscore"
| "underscore_loop hex sw (c # s) \<longleftrightarrow>
     (if is_digit_char c \<or> hex \<and> hex_digit c then underscore_loop hex SawDigit s
      else if c = CHR ''_'' then sw = SawDigit \<and> underscore_loop hex SawUnderscore s
      else sw \<noteq> SawUnderscore \<and> underscore_loop hex SawOther s)"

definition hex_prefixed :: "string \<Rightarrow> bool" where
  "hex_prefixed s \<longleftrightarrow> HasPrefix (ToLower s) ''0x''"

definition underscoreOK :: "string \<Rightarrow> bool" where
  "underscoreOK s \<longleftrightarrow>
     (if hex_prefixed s \<or> HasPrefix (ToLower s) ''0b'' \<or> HasPrefix (ToLower s) ''0o''
      then underscore_loop (hex_prefixed s) SawDigit (drop 2 s)
      else underscore_loop False SawStart s)"

fun hex_digits_value :: "int \<Rightarrow> string \<Rightarrow> int" where
  "hex_digits_value acc [] = acc"
| "hex_digits_value acc (c # s) =
     hex_digits_value (16 * acc + (case hex_value c of None \<Rightarrow> 0 | Some d \<Rightarrow> int d)) s"

definition parse_exponent :: "string \<Rightarrow> int option" where
  "parse_exponent ex =
     (if HasPrefix ex ''-'' then map_option uminus (parse_unsigned (drop 1 ex))
      else if HasPrefix ex ''+'' then parse_unsigned (drop 1 ex)
      else parse_unsigned ex)"

text \<open>
  The number after the sign and without its underscores: digits with an optional fraction, and an exponent, of
  ten and optional for a decimal number, of two and required for a hexadecimal one.
\<close>

definition parse_number :: "string \<Rightarrow> rat option" where
  "parse_number s0 =
     (let hex = hex_prefixed s0; s = (if hex then drop 2 s0 else s0);
          dig = (if hex then hex_digit else is_digit_char);
          ip = takeWhile dig s; r1 = dropWhile dig s;
          (fp, r2) = (if HasPrefix r1 ''.'' then (takeWhile dig (drop 1 r1), dropWhile dig (drop 1 r1)) else ('''', r1));
          n = (if hex then Some (hex_digits_value 0 (ip @ fp)) else digits_value 0 (ip @ fp));
          scale = (if hex then base_power 16 else base_power 10) (- int (length fp));
          expo = (if hex then base_power 2 else base_power 10)
      in if ip = '''' \<and> fp = '''' then None
         else case n of
             None \<Rightarrow> None
           | Some n \<Rightarrow>
               if r2 = '''' then (if hex then None else Some (of_int n * scale))
               else if HasPrefix (ToLower r2) (if hex then ''p'' else ''e'')
               then map_option (\<lambda>k. of_int n * scale * expo k) (parse_exponent (drop 1 r2))
               else None)"

text \<open>A value that rounds beyond the largest finite number is an error.\<close>

definition ParseFloat :: "string \<Rightarrow> go_float option" where
  "ParseFloat s =
     (let neg = HasPrefix s ''-''; signed = neg \<or> HasPrefix s ''+''; body = (if signed then drop 1 s else s)
      in if ToLower body \<in> set [''inf'', ''infinity''] then Some (if neg then NegInf else PosInf)
         else if \<not> signed \<and> ToLower body = ''nan'' then Some NaN
         else if CHR ''_'' \<in> set body \<and> \<not> underscoreOK body then None
         else case parse_number (filter (\<lambda>c. c \<noteq> CHR ''_'') body) of
             None \<Rightarrow> None
           | Some q \<Rightarrow> if of_int (2 ^ 1024 - 2 ^ 970) \<le> q then None else Some (Finite (if neg then - q else q)))"

subsection \<open>Durations\<close>

text \<open>\<^verbatim>\<open>leadingInt\<close>: the digits at the front of a string, refused over \<open>2 ^ 63\<close>.\<close>

fun leadingInt :: "int \<Rightarrow> string \<Rightarrow> (int \<times> string) option" where
  "leadingInt x [] = Some (x, [])"
| "leadingInt x (c # s) =
     (case digit_value c of
        None \<Rightarrow> Some (x, c # s)
      | Some d \<Rightarrow>
          if 2 ^ 63 div 10 < x then None
          else if 2 ^ 63 < 10 * x + d then None
          else leadingInt (10 * x + d) s)"

text \<open>\<^verbatim>\<open>leadingFraction\<close>: the digits, their scale, and the rest; digits that would overflow are skipped.\<close>

fun leadingFraction :: "int \<Rightarrow> int \<Rightarrow> bool \<Rightarrow> string \<Rightarrow> int \<times> int \<times> string" where
  "leadingFraction x scale overflow [] = (x, scale, [])"
| "leadingFraction x scale overflow (c # s) =
     (case digit_value c of
        None \<Rightarrow> (x, scale, c # s)
      | Some d \<Rightarrow>
          if overflow \<or> (2 ^ 63 - 1) div 10 < x \<or> 2 ^ 63 < 10 * x + d then leadingFraction x scale True s
          else leadingFraction (10 * x + d) (10 * scale) overflow s)"

definition unit_value :: "string \<Rightarrow> duration option" where
  "unit_value u =
     map_of [(''ns'', Nanosecond), (''us'', 1000), ([CHR 0xC2, CHR 0xB5, CHR ''s''], 1000),
             ([CHR 0xCE, CHR 0xBC, CHR ''s''], 1000), (''ms'', Millisecond), (''s'', Second),
             (''m'', Minute), (''h'', Hour)] u"

definition unit_char :: "char \<Rightarrow> bool" where
  "unit_char c \<longleftrightarrow> c \<noteq> CHR ''.'' \<and> \<not> is_digit_char c"

text \<open>One component (number and unit) of a duration: its value and the rest of the string.\<close>

definition duration_component :: "string \<Rightarrow> (int \<times> string) option" where
  "duration_component s =
     (case leadingInt 0 s of
        None \<Rightarrow> None
      | Some (v, s1) \<Rightarrow>
          (let pre = length s1 \<noteq> length s;
               (f, scale, s2) = (if HasPrefix s1 ''.'' then leadingFraction 0 1 False (drop 1 s1) else (0, 1, s1));
               post = HasPrefix s1 ''.'' \<and> length s2 \<noteq> length (drop 1 s1);
               u = takeWhile unit_char s2; s3 = dropWhile unit_char s2
           in if \<not> pre \<and> \<not> post then None
              else case unit_value u of
                  None \<Rightarrow> None
                | Some un \<Rightarrow>
                    if 2 ^ 63 div un < v then None
                    else let total = v * un + (f * un) div scale
                         in if 2 ^ 63 < total then None else Some (total, s3)))"

text \<open>The loop of \<^verbatim>\<open>ParseDuration\<close>; every component is nonempty, so the length of the string is enough fuel.\<close>

fun duration_loop :: "nat \<Rightarrow> int \<Rightarrow> string \<Rightarrow> int option" where
  "duration_loop fuel d [] = Some d"
| "duration_loop 0 d (c # s) = None"
| "duration_loop (Suc fuel) d (c # s) =
     (case duration_component (c # s) of
        None \<Rightarrow> None
      | Some (v, rest) \<Rightarrow> if 2 ^ 63 < d + v then None else duration_loop fuel (d + v) rest)"

definition ParseDuration :: "string \<Rightarrow> duration option" where
  "ParseDuration s0 =
     (let neg = HasPrefix s0 ''-''; s = (if neg \<or> HasPrefix s0 ''+'' then drop 1 s0 else s0)
      in if s = ''0'' then Some 0
         else if s = '''' then None
         else case duration_loop (length s) 0 s of
             None \<Rightarrow> None
           | Some d \<Rightarrow> if neg then Some (- d) else if 2 ^ 63 - 1 < d then None else Some d)"

text \<open>\<^verbatim>\<open>Duration.String\<close> for durations of whole seconds (those the configuration prints).\<close>

definition Duration_String :: "duration \<Rightarrow> string" where
  "Duration_String d =
     (let u = \<bar>d\<bar> div Second; m = u div 60; h = m div 60
      in (if d < 0 then ''-'' else '''') @
         (if 0 < h then Itoa h @ ''h'' else '''') @
         (if 0 < m then Itoa (m mod 60) @ ''m'' else '''') @
         Itoa (u mod 60) @ ''s'')"

section \<open>Lemmas\<close>

lemma ParseBool_FormatBool [simp]: "ParseBool (FormatBool b) = Some b"
  by (cases b) (simp_all add: ParseBool_def FormatBool_def)

subsection \<open>Evaluating decimal digits\<close>

function int_digits :: "int \<Rightarrow> string" where
  "int_digits n = (if n < 10 then [char_of (48 + n)] else int_digits (n div 10) @ [char_of (48 + n mod 10)])"
  by auto
termination by (relation "measure nat") auto

declare int_digits.simps [simp del]

lemma int_digits_nat: "0 \<le> n \<Longrightarrow> int_digits n = nat_digits (nat n)"
proof (induction n rule: int_digits.induct)
  case (1 n)
  have c: "char_of (48 + m) = (char_of (48 + nat m) :: char)" if "0 \<le> m" for m :: int
    using char_of_nat [of "48 + nat m", where ?'a = int] that by simp
  show ?case
  proof (cases "n < 10")
    case True
    with 1 c show ?thesis by (simp add: int_digits.simps [of n] nat_digits.simps [of "nat n"])
  next
    case False
    with 1 c [of "n mod 10"] show ?thesis
      by (simp add: int_digits.simps [of n] nat_digits.simps [of "nat n"] nat_div_distrib nat_mod_distrib)
  qed
qed

lemma Itoa_code [code]: "Itoa n = (if n < 0 then CHR ''-'' # int_digits (- n) else int_digits n)"
  by (simp add: Itoa_def int_digits_nat)

subsection \<open>Digits\<close>

lemma digit_value_char: "n < 10 \<Longrightarrow> digit_value (char_of (48 + n)) = Some (int n)"
proof -
  assume n: "n < 10"
  have "(of_char (char_of (48 + n)) :: int) = int (of_char (char_of (48 + n) :: char))"
    by (simp only: of_nat_of_char)
  also have "of_char (char_of (48 + n) :: char) = 48 + n"
    using n by simp
  finally show ?thesis
    using n by (simp add: digit_value_def)
qed

lemma digits_value_append:
  "digits_value acc (s @ t) = (case digits_value acc s of None \<Rightarrow> None | Some a \<Rightarrow> digits_value a t)"
  by (induction acc s rule: digits_value.induct) (auto split: option.splits)

lemma digits_value_nat_digits: "digits_value 0 (nat_digits n) = Some (int n)"
proof (induction n rule: nat_digits.induct)
  case (1 n)
  show ?case
  proof (cases "n < 10")
    case True
    then show ?thesis by (simp add: nat_digits.simps [of n] digit_value_char)
  next
    case False
    then have "digits_value 0 (nat_digits n) = Some (10 * int (n div 10) + int (n mod 10))"
      using "1.IH" by (simp add: nat_digits.simps [of n] digits_value_append digit_value_char)
    moreover have "10 * int (n div 10) + int (n mod 10) = int n"
      by (metis int_ops(7) mult.commute of_nat_add of_nat_numeral div_mult_mod_eq)
    ultimately show ?thesis by simp
  qed
qed

lemma nat_digits_all: "c \<in> set (nat_digits n) \<Longrightarrow> is_digit_char c"
proof (induction n rule: nat_digits.induct)
  case (1 n)
  then show ?case
    by (cases "n < 10") (auto simp: nat_digits.simps [of n] is_digit_char_def digit_value_char)
qed

lemma nat_digits_nonempty [simp]: "nat_digits n \<noteq> []"
  by (simp add: nat_digits.simps [of n])

lemma digit_not: "is_digit_char c \<Longrightarrow> c \<noteq> CHR ''-'' \<and> c \<noteq> CHR ''+'' \<and> c \<noteq> CHR ''.''"
  by (auto simp: is_digit_char_def digit_value_def Let_def)

lemma nat_digits_hd: "is_digit_char (hd (nat_digits n))"
  using nat_digits_all [of "hd (nat_digits n)" n] by simp

lemma HasPrefix_single: "HasPrefix s [c] \<longleftrightarrow> s \<noteq> [] \<and> hd s = c"
  by (cases s) (auto simp: HasPrefix_def)

lemma parse_unsigned_nat_digits: "parse_unsigned (nat_digits n) = Some (int n)"
  by (simp add: parse_unsigned_def digits_value_nat_digits)

lemma ParseInt64_Itoa:
  assumes "- (2 ^ 63) \<le> n" "n < 2 ^ 63"
  shows "ParseInt64 (Itoa n) = Some n"
proof (cases "n < 0")
  case True
  with assms show ?thesis
    by (simp add: ParseInt64_def Itoa_def HasPrefix_single parse_unsigned_nat_digits)
next
  case False
  with assms digit_not [OF nat_digits_hd [of "nat n"]] show ?thesis
    by (simp add: ParseInt64_def Itoa_def HasPrefix_single parse_unsigned_nat_digits)
qed

subsection \<open>Trimming what has no surrounding space\<close>

lemma TrimSpace_id:
  assumes "s \<noteq> []" "hd s \<notin> set (map hd space_encodings)" "last s \<notin> set (map last space_encodings)"
  shows "TrimSpace s = s"
proof -
  have "\<not> prefix e s" if "e \<in> set space_encodings" for e
  proof
    assume "prefix e s"
    then have "hd e = hd s"
      using that space_encodings_nonempty by (metis hd_append2 prefix_def)
    then have "hd s \<in> hd ` set space_encodings"
      using that by (metis imageI)
    with assms(2) show False by simp
  qed
  then have "match_len space_encodings s = 0"
    by (simp add: match_len_0_iff)
  moreover have "match_len (map rev space_encodings) (rev s) = 0"
  proof -
    have "[] \<notin> set (map rev space_encodings)" by auto
    moreover have "\<not> prefix (rev e) (rev s)" if "e \<in> set space_encodings" for e
    proof
      assume "prefix (rev e) (rev s)"
      then have "suffix e s" by (simp add: suffix_to_prefix)
      then have "last e = last s"
        using that space_encodings_nonempty by (metis last_appendR suffix_def)
      then have "last s \<in> last ` set space_encodings"
        using that by (metis imageI)
      with assms(3) show False by simp
    qed
    ultimately show ?thesis by (auto simp: match_len_0_iff)
  qed
  ultimately show ?thesis by (simp add: TrimSpace_def trim_by_stop)
qed


lemma digit_not_space:
  assumes "is_digit_char c"
  shows "c \<notin> set (map hd space_encodings)" "c \<notin> set (map last space_encodings)"
proof -
  have "list_all (\<lambda>e. \<not> is_digit_char (hd e) \<and> \<not> is_digit_char (last e)) space_encodings"
    by code_simp
  then have "\<not> is_digit_char (hd e)" "\<not> is_digit_char (last e)" if "e \<in> set space_encodings" for e
    using that by (simp_all add: list_all_iff)
  with assms show "c \<notin> set (map hd space_encodings)" "c \<notin> set (map last space_encodings)"
    by auto
qed

lemma TrimSpace_Itoa [simp]: "TrimSpace (Itoa n) = Itoa n"
proof (rule TrimSpace_id)
  have minus: "CHR ''-'' \<notin> set (map hd space_encodings)"
    by code_simp
  show "Itoa n \<noteq> []"
    by (simp add: Itoa_def)
  show "hd (Itoa n) \<notin> set (map hd space_encodings)"
    using minus digit_not_space(1) [OF nat_digits_hd] by (simp add: Itoa_def del: set_map)
  have "is_digit_char (last (nat_digits k))" for k
    using nat_digits_all [of "last (nat_digits k)" k] by simp
  then show "last (Itoa n) \<notin> set (map last space_encodings)"
    using digit_not_space(2) by (simp add: Itoa_def del: set_map)
qed

lemma TrimSpace_FormatBool [simp]: "TrimSpace (FormatBool b) = FormatBool b"
proof -
  have "TrimSpace ''true'' = ''true''" "TrimSpace ''false'' = ''false''"
    by code_simp+
  then show ?thesis by (simp add: FormatBool_def)
qed

subsection \<open>Printing and parsing durations\<close>

lemma digits_value_mono: "digits_value a s = Some b \<Longrightarrow> 0 \<le> a \<Longrightarrow> a \<le> b"
proof (induction s arbitrary: a)
  case (Cons c s)
  then obtain d where d: "digit_value c = Some d" "digits_value (10 * a + d) s = Some b"
    by (auto split: option.splits)
  then have "0 \<le> d" by (auto simp: digit_value_def Let_def split: if_splits)
  with Cons.IH [OF d(2)] Cons.prems(2) show ?case by simp
qed simp

text \<open>Reading the printed digits of a number that fits stops at the first byte that is not a digit.\<close>

lemma leadingInt_digits:
  assumes "digits_value a s = Some b" "0 \<le> a" "b \<le> 2 ^ 63" "rest = [] \<or> \<not> is_digit_char (hd rest)"
  shows "leadingInt a (s @ rest) = Some (b, rest)"
  using assms(1,2)
proof (induction s arbitrary: a)
  case Nil
  with assms(4) show ?case by (cases rest) (auto simp: is_digit_char_def)
next
  case (Cons c s)
  then obtain d where d: "digit_value c = Some d" "digits_value (10 * a + d) s = Some b"
    by (auto split: option.splits)
  then have "0 \<le> d" by (auto simp: digit_value_def Let_def split: if_splits)
  with digits_value_mono [OF d(2)] Cons.prems(2) assms(3) have "10 * a + d \<le> 2 ^ 63" "a \<le> 2 ^ 63 div 10"
    by auto
  moreover have "leadingInt (10 * a + d) (s @ rest) = Some (b, rest)"
    using Cons.IH [OF d(2)] Cons.prems(2) \<open>0 \<le> d\<close> by simp
  ultimately show ?case using d(1) by simp
qed

lemma leadingInt_Itoa:
  assumes "0 \<le> n" "n \<le> 2 ^ 63" "rest = [] \<or> \<not> is_digit_char (hd rest)"
  shows "leadingInt 0 (Itoa n @ rest) = Some (n, rest)"
  using leadingInt_digits [of 0 "nat_digits (nat n)" n rest] assms digits_value_nat_digits [of "nat n"]
  by (simp add: Itoa_def)

lemma duration_component_Itoa:
  assumes "0 \<le> n" "unit_value [u] = Some un" "0 < un" "n * un \<le> 2 ^ 63" "unit_char u"
    and "rest = [] \<or> is_digit_char (hd rest)"
  shows "duration_component (Itoa n @ u # rest) = Some (n * un, rest)"
proof -
  have "n \<le> n * un" using assms(1,3) by (simp add: mult_le_cancel_left1)
  then have n: "leadingInt 0 (Itoa n @ u # rest) = Some (n, u # rest)"
    using assms(1,4,5) by (intro leadingInt_Itoa) (auto simp: unit_char_def)
  have len: "length (u # rest) \<noteq> length (Itoa n @ u # rest)"
    by (simp add: Itoa_def)
  have dot: "\<not> HasPrefix (u # rest) ''.''"
    using assms(5) by (simp add: HasPrefix_single unit_char_def)
  have unit: "takeWhile unit_char (u # rest) = [u]" "dropWhile unit_char (u # rest) = rest"
    using assms(5,6) by (cases rest; simp add: unit_char_def)+
  have "\<not> 2 ^ 63 div un < n"
    using assms(1,3,4) by (simp add: not_less zdiv_mono1 [of "n * un" "2 ^ 63" un, simplified] order_less_imp_not_less)
  then show ?thesis
    using n len dot unit assms(2,4) by (simp add: duration_component_def)
qed

lemma duration_loop_Itoa:
  assumes "0 \<le> n" "unit_value [u] = Some un" "0 < un" "0 \<le> d" "d + n * un \<le> 2 ^ 63" "unit_char u"
    and "rest = [] \<or> is_digit_char (hd rest)"
  shows "duration_loop (Suc fuel) d (Itoa n @ u # rest) = duration_loop fuel (d + n * un) rest"
proof -
  obtain c s where cs: "Itoa n @ u # rest = c # s"
    by (cases "Itoa n @ u # rest") auto
  have "duration_component (c # s) = Some (n * un, rest)"
    using duration_component_Itoa [OF assms(1-3) _ assms(6,7)] assms(4,5) by (simp add: cs)
  then show ?thesis
    using assms(5) unfolding cs by simp
qed

lemma hd_Itoa: "0 \<le> n \<Longrightarrow> is_digit_char (hd (Itoa n @ rest))"
  using nat_digits_hd [of "nat n"] by (simp add: Itoa_def)

lemma Duration_String_parts:
  assumes "0 \<le> d"
  shows "Duration_String d =
    (let u = d div Second; m = u div 60; h = m div 60
     in if 0 < h then Itoa h @ CHR ''h'' # Itoa (m mod 60) @ CHR ''m'' # Itoa (u mod 60) @ ''s''
        else if 0 < m then Itoa (m mod 60) @ CHR ''m'' # Itoa (u mod 60) @ ''s''
        else Itoa (u mod 60) @ ''s'')"
  using assms by (auto simp: Duration_String_def Let_def)

lemma units: "unit_value ''h'' = Some Hour" "unit_value ''m'' = Some Minute" "unit_value ''s'' = Some Second"
    "unit_char CHR ''h''" "unit_char CHR ''m''" "unit_char CHR ''s''"
  by code_simp+

lemma duration_positive: "0 < Hour" "0 < Minute" "0 < Second"
  by code_simp+

text \<open>The last component, the last two and all three of a printed duration.\<close>

lemma duration_loop_s:
  assumes "0 \<le> s" "0 \<le> x" "x + s * Second \<le> 2 ^ 63"
  shows "duration_loop (Suc k) x (Itoa s @ ''s'') = Some (x + s * Second)"
  using duration_loop_Itoa [OF assms(1) units(3) duration_positive(3) assms(2,3) units(6), of "[]"] by simp

lemma duration_loop_ms:
  assumes "0 \<le> m" "0 \<le> s" "0 \<le> x" "x + m * Minute + s * Second \<le> 2 ^ 63"
  shows "duration_loop (Suc (Suc k)) x (Itoa m @ CHR ''m'' # Itoa s @ ''s'') = Some (x + m * Minute + s * Second)"
proof -
  have "0 \<le> m * Minute" "0 \<le> s * Second" using assms(1,2) duration_positive by simp_all
  then show ?thesis
    using duration_loop_Itoa [OF assms(1) units(2) duration_positive(2) assms(3) _ units(5), of "Itoa s @ ''s''" "Suc k"]
      duration_loop_s [OF assms(2), of "x + m * Minute" k] assms(3,4) hd_Itoa [OF assms(2)] by simp
qed

lemma duration_loop_hms:
  assumes "0 \<le> h" "0 \<le> m" "0 \<le> s" "h * Hour + m * Minute + s * Second \<le> 2 ^ 63"
  shows "duration_loop (Suc (Suc (Suc k))) 0 (Itoa h @ CHR ''h'' # Itoa m @ CHR ''m'' # Itoa s @ ''s'') =
    Some (h * Hour + m * Minute + s * Second)"
proof -
  have "0 \<le> h * Hour" "0 \<le> m * Minute" "0 \<le> s * Second" using assms(1-3) duration_positive by simp_all
  then show ?thesis
    using duration_loop_Itoa [OF assms(1) units(1) duration_positive(1) _ _ units(4),
        of 0 "Itoa m @ CHR ''m'' # Itoa s @ ''s''" "Suc (Suc k)"]
      duration_loop_ms [OF assms(2,3), of "h * Hour" k] assms(4) hd_Itoa [OF assms(2)] by simp
qed

lemma whole_seconds_split:
  assumes "0 \<le> d" "d mod Second = 0"
  defines "u \<equiv> d div Second"
  shows "0 \<le> u" "u div 60 div 60 * Hour + u div 60 mod 60 * Minute + u mod 60 * Second = d"
proof -
  have d: "d = u * Second" and u: "0 \<le> u"
    using assms(1,2) div_mult_mod_eq [of d Second] by (simp_all add: u_def pos_imp_zdiv_nonneg_iff)
  have Hm: "Hour = 3600 * Second" "Minute = 60 * Second"
    by code_simp+
  have sum: "u div 60 div 60 * 3600 + u div 60 mod 60 * 60 + u mod 60 = u"
    by presburger
  show "u div 60 div 60 * Hour + u div 60 mod 60 * Minute + u mod 60 * Second = d"
    unfolding Hm using arg_cong [OF sum, of "\<lambda>x. x * Second"] d by (simp add: algebra_simps)
  show "0 \<le> u" by (rule u)
qed

lemma duration_loop_String:
  assumes "0 \<le> d" "d \<le> 2 ^ 63" "d mod Second = 0" "length (Duration_String d) \<le> fuel"
  shows "duration_loop fuel 0 (Duration_String d) = Some d"
proof -
  define u where "u = d div Second"
  define h where "h = u div 60 div 60"
  define m where "m = u div 60 mod 60"
  define s where "s = u mod 60"
  have u: "0 \<le> u" and total: "h * Hour + m * Minute + s * Second = d"
    using whole_seconds_split [OF assms(1,3)] unfolding u_def h_def m_def s_def by blast+
  have parts: "0 \<le> h" "0 \<le> m" "0 \<le> s"
    using u by (simp_all add: h_def m_def s_def)
  have str: "Duration_String d =
      (if 0 < h then Itoa h @ CHR ''h'' # Itoa m @ CHR ''m'' # Itoa s @ ''s''
       else if 0 < u div 60 then Itoa m @ CHR ''m'' # Itoa s @ ''s'' else Itoa s @ ''s'')"
    by (simp add: Duration_String_parts [OF assms(1)] Let_def u_def [symmetric] h_def m_def s_def)
  have "m = 0" if "\<not> 0 < u div 60"
    using that u by (simp add: m_def)
  then consider "0 < h" | "h = 0" "0 < u div 60" | "h = 0" "m = 0" "\<not> 0 < u div 60"
    using parts(1) by linarith
  then show ?thesis
  proof cases
    case 1
    then have "3 \<le> fuel" using assms(4) str by simp
    then obtain f where f: "fuel = Suc (Suc (Suc f))" using le_Suc_ex [of 3 fuel] by auto
    with duration_loop_hms [OF parts, of f] 1 total assms(2) str show ?thesis by simp
  next
    case 2
    then have "2 \<le> fuel" using assms(4) str by simp
    then obtain f where f: "fuel = Suc (Suc f)" using le_Suc_ex [of 2 fuel] by auto
    with duration_loop_ms [OF parts(2,3), of 0 f] 2 total assms(2) str show ?thesis by simp
  next
    case 3
    then have "1 \<le> fuel" using assms(4) str by simp
    then obtain f where f: "fuel = Suc f" using le_Suc_ex [of 1 fuel] by auto
    with duration_loop_s [OF parts(3), of 0 f] 3 total assms(2) str show ?thesis by simp
  qed
qed

lemma ParseDuration_String:
  assumes "0 \<le> d" "d < 2 ^ 63" "d mod Second = 0"
  shows "ParseDuration (Duration_String d) = Some d"
proof -
  let ?s = "Duration_String d"
  have hd: "is_digit_char (hd ?s)" "?s \<noteq> ''''" and last: "last ?s = CHR ''s''"
    using assms(1) hd_Itoa by (auto simp: Duration_String_parts Let_def pos_imp_zdiv_nonneg_iff)
  have sign: "\<not> HasPrefix ?s ''-''" "\<not> HasPrefix ?s ''+''"
    using digit_not [OF hd(1)] by (simp_all add: HasPrefix_single)
  have zero: "?s \<noteq> ''0''"
    using last by auto
  show ?thesis
    using duration_loop_String [of d "length ?s"] assms sign zero hd(2) by (simp add: ParseDuration_def)
qed

end
