(* ===== verification/Middleware.thy ===== *)
theory Middleware
  imports Complex_Main Observability "HOL-Library.AList"
begin

text \<open>
  The HTTP middleware (\<^verbatim>\<open>internal/httpx/middleware\<close>) that every request passes: request and trace
  identifiers, client identity behind trusted proxies, security headers, CSRF protection, the rate
  and concurrency limits, business auditing, HTTP metrics and the redaction of headers; \<open>AccessLog\<close> has the rest. Each one is a function from
  a handler to a handler, as in the source. IP address syntax and network masks (package \<^verbatim>\<open>net\<close>) are
  an argument, the record \<open>netlib\<close>.
\<close>

section \<open>Definitions\<close>

subsection \<open>Paths of the operational endpoints (operational.go)\<close>

definition operationalPath :: "string \<Rightarrow> bool" where
  "operationalPath p \<longleftrightarrow>
     HasSuffix p ''/health/live'' \<or> HasSuffix p ''/health/ready'' \<or> HasSuffix p ''/metrics''"

subsection \<open>Request identifiers (request\_id.go)\<close>

text \<open>\<^verbatim>\<open>range\<close> over a string decodes runes; a byte beyond ASCII never yields an allowed one.\<close>

definition validRequestID :: "string \<Rightarrow> bool" where
  "validRequestID v \<longleftrightarrow>
     v \<noteq> [] \<and> length v \<le> 128 \<and> list_all (\<lambda>c. c \<in> set ''-_.'' \<or> is_alnum c) v"

definition randomRequestID :: "'z world_scheme \<Rightarrow> 'z world_scheme \<times> string" where
  "randomRequestID w =
     (case rand_Read 16 w of
        (Inl e, w1) \<Rightarrow> (w1, ''request-id-unavailable'')
      | (Inr b, w1) \<Rightarrow> (w1, hex_EncodeToString b))"

definition RequestID :: "'z world_scheme handler \<Rightarrow> 'z world_scheme handler" where
  "RequestID next r w rw =
     (let id0 = TrimSpace (Header_Get (rq_Header r) ''X-Request-ID'');
          (w1, i) = (if validRequestID id0 then (w, id0) else randomRequestID w)
      in next (r\<lparr>cx_RequestID := i\<rparr>) w1 (SetHeader rw ''X-Request-ID'' i))"

subsection \<open>Trace identifiers (trace.go)\<close>

text \<open>\<^verbatim>\<open>hex.DecodeString\<close> succeeds on an even number of hexadecimal digits.\<close>

definition hex_ok :: "string \<Rightarrow> bool" where
  "hex_ok s \<longleftrightarrow> even (length s) \<and> list_all (\<lambda>c. hex_value c \<noteq> None) s"

definition traceIDFromTraceparent :: "string \<Rightarrow> string" where
  "traceIDFromTraceparent v =
     (case Split v (CHR ''-'') of
        [_, p1, _, _] \<Rightarrow>
          if length p1 \<noteq> 32 then []
          else if \<not> hex_ok p1 \<or> p1 = replicate 32 (CHR ''0'') then []
          else ToLower p1
      | _ \<Rightarrow> [])"

definition randomTraceID :: "'z world_scheme \<Rightarrow> 'z world_scheme \<times> string" where
  "randomTraceID w =
     (case rand_Read 16 w of
        (Inl e, w1) \<Rightarrow> (w1, [])
      | (Inr b, w1) \<Rightarrow> (w1, hex_EncodeToString b))"

definition TraceContext :: "'z world_scheme handler \<Rightarrow> 'z world_scheme handler" where
  "TraceContext next r w rw =
     (let t0 = traceIDFromTraceparent (Header_Get (rq_Header r) ''traceparent'');
          (w1, t) = (if t0 = [] then randomTraceID w else (w, t0))
      in next (r\<lparr>cx_TraceID := t\<rparr>) w1 (SetHeader rw ''X-Trace-ID'' t))"

subsection \<open>Client identity (proxy.go, request\_metadata.go)\<close>

text \<open>What the code uses of package \<^verbatim>\<open>net\<close>: addresses \<open>'ip\<close> and networks \<open>'net\<close>.\<close>

record ('ip, 'net) netlib =
  nl_SplitHostPort :: "string \<Rightarrow> string option"
  nl_ParseIP :: "string \<Rightarrow> 'ip option"
  nl_String :: "'ip \<Rightarrow> string"
  nl_ParseCIDR :: "string \<Rightarrow> 'net result"
  nl_Contains :: "'net \<Rightarrow> 'ip \<Rightarrow> bool"

definition isTrusted :: "('ip, 'net) netlib \<Rightarrow> 'ip \<Rightarrow> 'net list \<Rightarrow> bool" where
  "isTrusted nl ip cidrs \<longleftrightarrow> list_ex (\<lambda>n. nl_Contains nl n ip) cidrs"

fun ParseTrustedProxyCIDRs :: "('ip, 'net) netlib \<Rightarrow> string list \<Rightarrow> 'net list result" where
  "ParseTrustedProxyCIDRs nl [] = Inr []"
| "ParseTrustedProxyCIDRs nl (raw # rest) =
     (let v = TrimSpace raw
      in if v = [] then ParseTrustedProxyCIDRs nl rest
         else (case nl_ParseCIDR nl v of
           Inl e \<Rightarrow> Inl e
         | Inr n \<Rightarrow>
             (case ParseTrustedProxyCIDRs nl rest of
                Inl e \<Rightarrow> Inl e
              | Inr ns \<Rightarrow> Inr (n # ns))))"

text \<open>The loop over the forwarded addresses, from the last to the first.\<close>

fun rightmost_untrusted :: "('ip, 'net) netlib \<Rightarrow> 'net list \<Rightarrow> string list \<Rightarrow> string option" where
  "rightmost_untrusted nl cidrs [] = None"
| "rightmost_untrusted nl cidrs (p # ps) =
     (case nl_ParseIP nl (TrimSpace p) of
        None \<Rightarrow> rightmost_untrusted nl cidrs ps
      | Some ip \<Rightarrow>
          if \<not> isTrusted nl ip cidrs then Some (nl_String nl ip)
          else rightmost_untrusted nl cidrs ps)"

definition ClientIdentity ::
  "('ip, 'net) netlib \<Rightarrow> 'net list \<Rightarrow> request \<Rightarrow> string \<times> string" where
  "ClientIdentity nl cidrs r =
     (let host = (case nl_SplitHostPort nl (rq_RemoteAddr r) of
                    None \<Rightarrow> rq_RemoteAddr r | Some h \<Rightarrow> h)
      in case nl_ParseIP nl host of
           None \<Rightarrow> (host, ''remote-address'')
         | Some remoteIP \<Rightarrow>
             if \<not> isTrusted nl remoteIP cidrs then (host, ''remote-address'')
             else
               (let xff = Header_Get (rq_Header r) ''X-Forwarded-For''
                in if xff = [] then (host, ''remote-address'')
                   else (case rightmost_untrusted nl cidrs (rev (Split xff (CHR '',''))) of
                     Some ip \<Rightarrow> (ip, ''x-forwarded-for'')
                   | None \<Rightarrow> (host, ''remote-address''))))"

definition ClientIP :: "('ip, 'net) netlib \<Rightarrow> 'net list \<Rightarrow> request \<Rightarrow> string" where
  "ClientIP nl cidrs r = fst (ClientIdentity nl cidrs r)"

definition RequestMetadata ::
  "('ip, 'net) netlib \<Rightarrow> 'net list \<Rightarrow> 'w handler \<Rightarrow> 'w handler" where
  "RequestMetadata nl cidrs next r w rw =
     (let (ip, source) = ClientIdentity nl cidrs r;
          ray = (if source \<noteq> ''remote-address'' then TrimSpace (Header_Get (rq_Header r) ''CF-Ray'')
                 else [])
      in next (r\<lparr>cx_ClientIP := ip, cx_ClientIPSource := source, cx_CFRay := ray\<rparr>) w rw)"

definition EnrichAuditEvent :: "request \<Rightarrow> event \<Rightarrow> event" where
  "EnrichAuditEvent r e =
     e\<lparr>ev_ClientIP := cx_ClientIP r, ev_ClientIPSource := cx_ClientIPSource r, ev_CFRay := cx_CFRay r,
       ev_CorrelationID := cx_RequestID r, ev_TraceID := cx_TraceID r\<rparr>"

subsection \<open>Security headers (security\_headers.go)\<close>

definition SecurityHeaders :: "'w handler \<Rightarrow> 'w handler" where
  "SecurityHeaders next r w rw =
     (let rw1 = SetHeader rw ''X-Content-Type-Options'' ''nosniff'';
          rw2 = SetHeader rw1 ''X-Frame-Options'' ''DENY'';
          rw3 = SetHeader rw2 ''Referrer-Policy'' ''no-referrer'';
          rw4 = SetHeader rw3 ''Permissions-Policy'' ''camera=(), microphone=(), geolocation=()'';
          rw5 = SetHeader rw4 ''Cross-Origin-Opener-Policy'' ''same-origin'';
          rw6 = SetHeader rw5 ''Cross-Origin-Resource-Policy'' ''same-origin''
      in next r w rw6)"

subsection \<open>CSRF protection (csrf.go)\<close>

definition CSRFCookieName :: string where
  "CSRFCookieName = ''__Host-bff_csrf''"

definition InsecureCSRFCookieName :: string where
  "InsecureCSRFCookieName = ''bff_csrf''"

definition CSRFHeaderName :: string where
  "CSRFHeaderName = ''X-CSRF-Token''"

definition CSRFCookieNameFor :: "bool \<Rightarrow> string" where
  "CSRFCookieNameFor secure = (if secure then CSRFCookieName else InsecureCSRFCookieName)"

record csrf_config =
  csrf_PublicURL :: string
  csrf_Secure :: bool
  csrf_CookieName :: string

definition isUnsafeMethod :: "string \<Rightarrow> bool" where
  "isUnsafeMethod m \<longleftrightarrow> \<not> (m = ''GET'' \<or> m = ''HEAD'' \<or> m = ''OPTIONS'' \<or> m = ''TRACE'')"

definition constantTimeEqual :: "string \<Rightarrow> string \<Rightarrow> bool" where
  "constantTimeEqual a b \<longleftrightarrow>
     (if length a \<noteq> length b \<or> length a = 0 then False else list_all2 (=) a b)"

definition randomToken :: "nat \<Rightarrow> 'z world_scheme \<Rightarrow> 'z world_scheme \<times> string" where
  "randomToken n w =
     (case rand_Read n w of
        (Inl e, w1) \<Rightarrow> (w1, [])
      | (Inr b, w1) \<Rightarrow> (w1, base64_RawURL b))"

definition ensureCSRFCookie ::
  "'z world_scheme \<Rightarrow> response_writer \<Rightarrow> request \<Rightarrow> bool \<Rightarrow> string
   \<Rightarrow> 'z world_scheme \<times> response_writer" where
  "ensureCSRFCookie w rw r secure name =
     (case rq_Cookies r name of
        Some v \<Rightarrow> if v \<noteq> [] then (w, rw)
                  else (let (w1, t) = randomToken 32 w
                        in (w1, SetCookie rw \<lparr>ck_Name = name, ck_Value = t, ck_Path = ''/'',
                              ck_Secure = secure, ck_HttpOnly = False, ck_SameSiteLax = True,
                              ck_Expires = 0, ck_MaxAge = 0\<rparr>))
      | None \<Rightarrow> (let (w1, t) = randomToken 32 w
                 in (w1, SetCookie rw \<lparr>ck_Name = name, ck_Value = t, ck_Path = ''/'',
                       ck_Secure = secure, ck_HttpOnly = False, ck_SameSiteLax = True,
                       ck_Expires = 0, ck_MaxAge = 0\<rparr>)))"

definition sameOriginRequest :: "request \<Rightarrow> url option \<Rightarrow> bool" where
  "sameOriginRequest r expected \<longleftrightarrow>
     (case expected of
        None \<Rightarrow> False
      | Some ex \<Rightarrow>
          (let raw0 = Header_Get (rq_Header r) ''Origin'';
               raw = (if raw0 = [] then Header_Get (rq_Header r) ''Referer'' else raw0)
           in if raw = [] then False
              else (case url_Parse raw of
                None \<Rightarrow> False
              | Some u \<Rightarrow> EqualFold (u_Scheme u) (u_Scheme ex) \<and> EqualFold (u_Host u) (u_Host ex))))"

definition csrf_cookie_name :: "csrf_config \<Rightarrow> string" where
  "csrf_cookie_name cfg = (if csrf_CookieName cfg = [] then CSRFCookieName else csrf_CookieName cfg)"

definition CSRF :: "csrf_config \<Rightarrow> 'z world_scheme handler \<Rightarrow> 'z world_scheme handler" where
  "CSRF cfg next r w rw =
     (let name = csrf_cookie_name cfg;
          (w1, rw1) = ensureCSRFCookie w rw r (csrf_Secure cfg) name
      in if \<not> isUnsafeMethod (rq_Method r) then next r w1 rw1
         else if \<not> sameOriginRequest r (url_Parse (csrf_PublicURL cfg))
         then (w1, http_Error rw1 ''csrf origin rejected'' 403)
         else (case rq_Cookies r name of
           None \<Rightarrow> (w1, http_Error rw1 ''csrf token missing'' 403)
         | Some v \<Rightarrow>
             if v = [] then (w1, http_Error rw1 ''csrf token missing'' 403)
             else if \<not> constantTimeEqual v (Header_Get (rq_Header r) CSRFHeaderName)
             then (w1, http_Error rw1 ''csrf token invalid'' 403)
             else next r w1 rw1))"

subsection \<open>Rate limiting (rate\_limit.go)\<close>

text \<open>
  The token buckets, with float64 numbers as exact rationals. The map of buckets is an association
  list with distinct keys, of which the order does not matter.
\<close>

record rate_bucket =
  bk_tokens :: rat
  bk_last :: time

record rate_limit_config =
  rl_RatePerSecond :: rat
  rl_Burst :: int
  rl_IdleTTL :: duration
  rl_MaxEntries :: int
  rl_PathSuffixes :: "string list"
  rl_RejectReason :: string

record limiter =
  lm_buckets :: "(string \<times> rate_bucket) list"
  lm_lastSweep :: time

definition rate_defaults :: "rate_limit_config \<Rightarrow> rate_limit_config" where
  "rate_defaults cfg =
     cfg\<lparr>rl_IdleTTL := (if rl_IdleTTL cfg \<le> 0 then 10 * Minute else rl_IdleTTL cfg),
         rl_MaxEntries := (if rl_MaxEntries cfg \<le> 0 then 10000 else rl_MaxEntries cfg),
         rl_RejectReason := (if rl_RejectReason cfg = [] then ''rate_limit'' else rl_RejectReason cfg)\<rparr>"

definition Seconds :: "duration \<Rightarrow> rat" where
  "Seconds d = of_int d / of_int Second"

definition overflow_key :: string where
  "overflow_key = ''__overflow__''"

definition rate_key :: "rate_limit_config \<Rightarrow> limiter \<Rightarrow> string \<Rightarrow> string" where
  "rate_key cfg lm ip =
     (if map_of (lm_buckets lm) ip = None \<and> rl_MaxEntries cfg \<le> int (length (lm_buckets lm))
      then overflow_key else ip)"

definition rate_sweep :: "rate_limit_config \<Rightarrow> limiter \<Rightarrow> time \<Rightarrow> limiter" where
  "rate_sweep cfg lm now =
     (if IsZero (lm_lastSweep lm) \<or> rl_IdleTTL cfg \<le> Time_Sub now (lm_lastSweep lm)
      then \<lparr>lm_buckets = filter (\<lambda>(k, b). \<not> rl_IdleTTL cfg \<le> Time_Sub now (bk_last b)) (lm_buckets lm),
            lm_lastSweep = now\<rparr>
      else lm)"

definition rate_refill :: "rate_limit_config \<Rightarrow> rate_bucket option \<Rightarrow> time \<Rightarrow> rate_bucket" where
  "rate_refill cfg b0 now =
     (case b0 of
        None \<Rightarrow> \<lparr>bk_tokens = of_int (rl_Burst cfg), bk_last = now\<rparr>
      | Some b \<Rightarrow>
          if IsZero (bk_last b) then \<lparr>bk_tokens = of_int (rl_Burst cfg), bk_last = now\<rparr>
          else (let t = bk_tokens b + Seconds (Time_Sub now (bk_last b)) * rl_RatePerSecond cfg
                in \<lparr>bk_tokens = (if of_int (rl_Burst cfg) < t then of_int (rl_Burst cfg) else t),
                    bk_last = now\<rparr>))"

text \<open>The critical section: the new state, the bucket used and whether the request is allowed.\<close>

definition rate_take ::
  "rate_limit_config \<Rightarrow> limiter \<Rightarrow> string \<Rightarrow> time \<Rightarrow> limiter \<times> string \<times> bool" where
  "rate_take cfg lm ip now =
     (let key = rate_key cfg lm ip;
          lm1 = rate_sweep cfg lm now;
          b = rate_refill cfg (map_of (lm_buckets lm1) key) now;
          allowed = (1 \<le> bk_tokens b);
          b' = (if allowed then b\<lparr>bk_tokens := bk_tokens b - 1\<rparr> else b)
      in (lm1\<lparr>lm_buckets := AList.update key b' (lm_buckets lm1)\<rparr>, key, allowed))"

definition matchesPathSuffix :: "string \<Rightarrow> string list \<Rightarrow> bool" where
  "matchesPathSuffix p sufs \<longleftrightarrow> list_ex (\<lambda>x. x \<noteq> [] \<and> HasSuffix p x) sufs"

text \<open>
  The middleware. Its private state (the variables that the closure captures) is a part of the
  world that \<open>get\<close> reads and \<open>put\<close> writes.
\<close>

definition RateLimit ::
  "('z world_scheme \<Rightarrow> limiter) \<Rightarrow> (limiter \<Rightarrow> 'z world_scheme \<Rightarrow> 'z world_scheme)
   \<Rightarrow> ('ip, 'net) netlib \<Rightarrow> 'net list \<Rightarrow> 'z world_scheme meter \<Rightarrow> rate_limit_config
   \<Rightarrow> 'z world_scheme handler \<Rightarrow> 'z world_scheme handler" where
  "RateLimit get put nl proxy meter cfg0 next r w rw =
     (if rl_RatePerSecond cfg0 \<le> 0 \<or> rl_Burst cfg0 \<le> 0 then next r w rw
      else
        (let cfg = rate_defaults cfg0
         in if operationalPath (rq_Path r) then next r w rw
            else if rl_PathSuffixes cfg \<noteq> [] \<and> \<not> matchesPathSuffix (rq_Path r) (rl_PathSuffixes cfg)
            then next r w rw
            else
              (let (now, w1) = Now w;
                   (lm, key, allowed) = rate_take cfg (get w1) (ClientIP nl proxy r) now;
                   w2 = put lm w1
               in if \<not> allowed
                  then (meter_call meter w2 (RecordRejected (rl_RejectReason cfg)),
                        http_Error (SetHeader rw ''Retry-After'' ''1'') ''rate limit exceeded'' 429)
                  else next r w2 rw)))"

subsection \<open>Concurrency limit (concurrency.go)\<close>

text \<open>The number of tokens in the semaphore channel is the part of the world that \<open>get\<close> reads.\<close>

definition ConcurrencyLimit ::
  "('w \<Rightarrow> int) \<Rightarrow> (int \<Rightarrow> 'w \<Rightarrow> 'w) \<Rightarrow> int \<Rightarrow> 'w meter \<Rightarrow> 'w handler \<Rightarrow> 'w handler" where
  "ConcurrencyLimit get put limit meter next r w rw =
     (if limit \<le> 0 then next r w rw
      else if operationalPath (rq_Path r) then next r w rw
      else if get w < limit then
        (let w1 = meter_call meter (put (get w + 1) w) (AddInflight 1);
             (w2, rw2) = next r w1 rw
         in (meter_call meter (put (get w2 - 1) w2) (AddInflight (- 1)), rw2))
      else (meter_call meter w (RecordRejected ''concurrency''),
            http_Error (SetHeader rw ''Retry-After'' ''1'') ''server busy'' 503))"

subsection \<open>Response recording (access\_log.go, http\_metrics.go, business\_audit.go)\<close>

text \<open>
  The status that a \<^verbatim>\<open>responseRecorder\<close> around a handler has seen: the one the handler wrote, if it
  was the first to write one (200 when it wrote only a body, or nothing).
\<close>

definition recorded_status :: "response_writer \<Rightarrow> response_writer \<Rightarrow> int" where
  "recorded_status before after =
     (if rw_Status before = 0 \<and> rw_Status after \<noteq> 0 then rw_Status after else 200)"

definition HTTPMetrics ::
  "'z world_scheme meter \<Rightarrow> 'z world_scheme handler \<Rightarrow> 'z world_scheme handler" where
  "HTTPMetrics meter next r w rw =
     (case meter of
        None \<Rightarrow> next r w rw
      | Some f \<Rightarrow>
          (let (start, w1) = Now w;
               (w2, rw2) = next r w1 rw;
               status = recorded_status rw rw2;
               route = (if rq_Pattern r = [] then ''unmatched'' else rq_Pattern r);
               (now, w3) = Now w2
           in (f w3 (RecordHTTPRequest (rq_Method r) route status (Time_Sub now start)), rw2)))"

definition successfulHealthCheck :: "string \<Rightarrow> int \<Rightarrow> bool" where
  "successfulHealthCheck path status \<longleftrightarrow>
     \<not> (status < 200 \<or> 400 \<le> status) \<and>
     (HasSuffix path ''/health/live'' \<or> HasSuffix path ''/health/ready'')"

definition audit_outcome :: "int \<Rightarrow> string" where
  "audit_outcome status =
     (if 500 \<le> status then ''failure'' else if 400 \<le> status then ''deny'' else ''success'')"

definition BusinessAudit ::
  "string \<Rightarrow> string \<Rightarrow> 'z world_scheme audit_sink option \<Rightarrow> 'z world_scheme handler
   \<Rightarrow> 'z world_scheme handler" where
  "BusinessAudit action targetType sink next r w rw =
     (case sink of
        None \<Rightarrow> next r w rw
      | Some snk \<Rightarrow>
          (let (w1, rw1) = next r w rw;
               status = recorded_status rw rw1;
               (w2, e0) = NewEvent w1 action targetType (audit_outcome status);
               e1 = (case cx_Session r of
                       None \<Rightarrow> e0
                     | Some s \<Rightarrow> e0\<lparr>ev_Actor := sess_Subject s, ev_ActorUsername := sess_Username s\<rparr>);
               rid = TrimSpace (rq_PathValue r ''id'');
               e2 = e1\<lparr>ev_ResourceID := (if rid = [] then rq_Path r else rid), ev_HTTPStatus := status,
                      ev_Attributes := (ev_Attributes e1)(''reason'' \<mapsto> StatusText status,
                        ''request_method'' \<mapsto> rq_Method r, ''request_path'' \<mapsto> rq_Path r)\<rparr>
           in (fst (snk w2 (EnrichAuditEvent r e2)), rw1)))"

subsection \<open>Redaction (redact.go)\<close>

definition sensitiveHeaders :: "string list" where
  "sensitiveHeaders = [''authorization'', ''cookie'', ''set-cookie'', ''proxy-authorization'']"

definition is_sensitive_header :: "string \<Rightarrow> bool" where
  "is_sensitive_header k \<longleftrightarrow> ToLower k \<in> set sensitiveHeaders"

text \<open>
  \<^verbatim>\<open>RedactedHeaders\<close>: \<^verbatim>\<open>out.Set(key, ...)\<close> writes the canonical form of the key, so an entry under a
  key that is not canonical is kept and a redacted entry is added beside it.
\<close>

definition RedactedHeaders :: "header \<Rightarrow> header" where
  "RedactedHeaders h =
     (\<lambda>k. if \<exists>k0 \<in> dom h. is_sensitive_header k0 \<and> CanonicalHeaderKey k0 = k
          then Some [''[REDACTED]''] else h k)"

section \<open>Lemmas\<close>

lemma constantTimeEqual_iff: "constantTimeEqual a b \<longleftrightarrow> a = b \<and> a \<noteq> []"
  by (auto simp: constantTimeEqual_def list.rel_eq)

lemma rightmost_untrusted_append:
  "rightmost_untrusted nl cidrs (ps @ qs) =
     (case rightmost_untrusted nl cidrs ps of
        Some ip \<Rightarrow> Some ip | None \<Rightarrow> rightmost_untrusted nl cidrs qs)"
  by (induction ps) (auto split: option.splits)

subsection \<open>Token buckets\<close>

text \<open>
  The level of a bucket at an instant: what a refill would make of it. A missing bucket counts as
  full, as the code treats it.
\<close>

definition level :: "rate_limit_config \<Rightarrow> limiter \<Rightarrow> string \<Rightarrow> time \<Rightarrow> rat" where
  "level cfg lm k now = bk_tokens (rate_refill cfg (map_of (lm_buckets lm) k) now)"

text \<open>The buckets hold at least nothing, were used after the zero time and not in the future.\<close>

definition buckets_ok :: "limiter \<Rightarrow> time \<Rightarrow> bool" where
  "buckets_ok lm now \<longleftrightarrow> distinct (map fst (lm_buckets lm)) \<and>
     (\<forall>k b. map_of (lm_buckets lm) k = Some b \<longrightarrow> 0 \<le> bk_tokens b \<and> 0 < bk_last b \<and> bk_last b \<le> now)"

lemma buckets_okD:
  assumes "buckets_ok lm now" "map_of (lm_buckets lm) k = Some b"
  shows "0 \<le> bk_tokens b" "0 < bk_last b" "bk_last b \<le> now"
  using assms by (auto simp: buckets_ok_def)

lemma Time_Sub_step: "t \<le> t' \<Longrightarrow> Time_Sub t' l \<le> Time_Sub t l + (t' - t)"
  unfolding Time_Sub_def by linarith

lemma Time_Sub_nonneg: "l \<le> t \<Longrightarrow> 0 \<le> Time_Sub t l"
  unfolding Time_Sub_def by linarith

lemma Seconds_add: "Seconds (a + b) = Seconds a + Seconds b"
  by (simp add: Seconds_def add_divide_distrib)

lemma Seconds_mono: "a \<le> b \<Longrightarrow> Seconds a \<le> Seconds b"
  by (simp add: Seconds_def divide_right_mono)

lemma Seconds_nonneg: "0 \<le> a \<Longrightarrow> 0 \<le> Seconds a"
  by (simp add: Seconds_def)

lemma level_le_burst: "level cfg lm k now \<le> of_int (rl_Burst cfg)"
  by (auto simp: level_def rate_refill_def Let_def split: option.splits)

lemma level_nonneg:
  assumes "buckets_ok lm now" "0 \<le> rl_RatePerSecond cfg" "0 \<le> rl_Burst cfg"
  shows "0 \<le> level cfg lm k now"
proof (cases "map_of (lm_buckets lm) k")
  case (Some b)
  note b = buckets_okD [OF assms(1) Some]
  have "0 \<le> Seconds (Time_Sub now (bk_last b)) * rl_RatePerSecond cfg"
    using b assms(2) by (intro mult_nonneg_nonneg Seconds_nonneg Time_Sub_nonneg)
  with Some b assms(3) show ?thesis
    by (simp add: level_def rate_refill_def Let_def)
qed (use assms(3) in \<open>simp add: level_def rate_refill_def\<close>)

text \<open>Between two requests a level grows by at most the rate.\<close>

lemma level_grows:
  assumes "now \<le> now'" "0 \<le> rl_RatePerSecond cfg"
  shows "level cfg lm k now' \<le> level cfg lm k now + Seconds (now' - now) * rl_RatePerSecond cfg"
proof -
  let ?r = "rl_RatePerSecond cfg"
  have g: "0 \<le> Seconds (now' - now) * ?r" using assms by (simp add: Seconds_nonneg)
  have "Seconds (Time_Sub now' l) * ?r \<le> Seconds (Time_Sub now l) * ?r + Seconds (now' - now) * ?r" for l
  proof -
    have "Seconds (Time_Sub now' l) \<le> Seconds (Time_Sub now l) + Seconds (now' - now)"
      unfolding Seconds_add [symmetric] by (rule Seconds_mono) (rule Time_Sub_step [OF assms(1)])
    from mult_right_mono [OF this assms(2)] show ?thesis by (simp add: algebra_simps)
  qed
  note step = this
  show ?thesis
  proof (cases "map_of (lm_buckets lm) k")
    case None
    then show ?thesis using g by (simp add: level_def rate_refill_def)
  next
    case (Some b)
    show ?thesis using g step [of "bk_last b"] Some
      by (auto simp: level_def rate_refill_def Let_def)
  qed
qed

lemma map_of_filter_distinct:
  "distinct (map fst xs) \<Longrightarrow> map_of (filter P xs) k =
     (case map_of xs k of Some v \<Rightarrow> if P (k, v) then Some v else None | None \<Rightarrow> None)"
  by (induction xs) (auto simp: map_of_eq_None_iff split: option.splits)

lemma sweep_lookup:
  assumes "buckets_ok lm now"
  shows "map_of (lm_buckets (rate_sweep cfg lm now)) k = map_of (lm_buckets lm) k \<or>
    (map_of (lm_buckets (rate_sweep cfg lm now)) k = None \<and>
     (\<exists>b. map_of (lm_buckets lm) k = Some b \<and> rl_IdleTTL cfg \<le> Time_Sub now (bk_last b)))"
  using assms
  by (auto simp: rate_sweep_def buckets_ok_def map_of_filter_distinct split: option.splits)

lemma sweep_ok: "buckets_ok lm now \<Longrightarrow> buckets_ok (rate_sweep cfg lm now) now"
  using sweep_lookup [of lm now cfg]
  by (auto simp: buckets_ok_def rate_sweep_def distinct_map_filter map_of_filter_distinct
      split: option.splits if_splits)

text \<open>Sweeping an idle bucket away does not raise its level, when it is full by then.\<close>

lemma sweep_level:
  assumes "buckets_ok lm now" "0 \<le> rl_RatePerSecond cfg"
    and full: "of_int (rl_Burst cfg) \<le> Seconds (rl_IdleTTL cfg) * rl_RatePerSecond cfg"
  shows "level cfg (rate_sweep cfg lm now) k now = level cfg lm k now"
  using sweep_lookup [OF assms(1), of cfg k]
proof
  assume "map_of (lm_buckets (rate_sweep cfg lm now)) k = map_of (lm_buckets lm) k"
  then show ?thesis by (simp add: level_def)
next
  assume "map_of (lm_buckets (rate_sweep cfg lm now)) k = None \<and>
     (\<exists>b. map_of (lm_buckets lm) k = Some b \<and> rl_IdleTTL cfg \<le> Time_Sub now (bk_last b))"
  then obtain b where n: "map_of (lm_buckets (rate_sweep cfg lm now)) k = None"
    and b: "map_of (lm_buckets lm) k = Some b" "rl_IdleTTL cfg \<le> Time_Sub now (bk_last b)" by blast
  have "Seconds (rl_IdleTTL cfg) * rl_RatePerSecond cfg
      \<le> Seconds (Time_Sub now (bk_last b)) * rl_RatePerSecond cfg"
    by (rule mult_right_mono [OF Seconds_mono [OF b(2)] assms(2)])
  then have "of_int (rl_Burst cfg) \<le> bk_tokens b + Seconds (Time_Sub now (bk_last b)) * rl_RatePerSecond cfg"
    using full buckets_okD(1) [OF assms(1) b(1)] by linarith
  with n b(1) show ?thesis by (auto simp: level_def rate_refill_def Let_def)
qed

text \<open>One request takes one unit from one bucket when it is allowed, and nothing otherwise.\<close>

lemma rate_take_level:
  assumes ok: "buckets_ok lm now" and now: "0 < now"
    and pos: "0 \<le> rl_RatePerSecond cfg" "0 \<le> rl_Burst cfg"
    and full: "of_int (rl_Burst cfg) \<le> Seconds (rl_IdleTTL cfg) * rl_RatePerSecond cfg"
    and eq: "rate_take cfg lm ip now = (lm', key, allowed)"
  shows "buckets_ok lm' now"
    and "level cfg lm' k now + (if k = key \<and> allowed then 1 else 0) = level cfg lm k now"
proof -
  let ?lm1 = "rate_sweep cfg lm now"
  let ?b = "rate_refill cfg (map_of (lm_buckets ?lm1) key) now"
  let ?b' = "if allowed then ?b\<lparr>bk_tokens := bk_tokens ?b - 1\<rparr> else ?b"
  have lm': "lm' = ?lm1\<lparr>lm_buckets := AList.update key ?b' (lm_buckets ?lm1)\<rparr>"
    and allowed: "allowed \<longleftrightarrow> 1 \<le> bk_tokens ?b"
    using eq by (auto simp: rate_take_def Let_def)
  note ok1 = sweep_ok [OF ok, of cfg]
  have lv: "bk_tokens ?b = level cfg lm key now"
    using sweep_level [OF ok pos(1) full, of key] by (simp add: level_def)
  have last: "bk_last ?b = now" by (simp add: rate_refill_def Let_def split: option.splits)
  have tok: "0 \<le> bk_tokens ?b'" "bk_tokens ?b' \<le> of_int (rl_Burst cfg)" "bk_last ?b' = now"
    using allowed lv last level_nonneg [OF ok pos] level_le_burst [of cfg lm key now] by auto
  have look: "map_of (lm_buckets lm') j =
      (if j = key then Some ?b' else map_of (lm_buckets ?lm1) j)" for j
    by (simp add: lm' AList.update_conv')
  have "distinct (map fst (lm_buckets lm'))"
    using ok1 by (simp add: lm' buckets_ok_def AList.distinct_update)
  then show "buckets_ok lm' now"
    using ok1 tok now look by (auto simp: buckets_ok_def)
  show "level cfg lm' k now + (if k = key \<and> allowed then 1 else 0) = level cfg lm k now"
  proof (cases "k = key")
    case True
    have "level cfg lm' key now = bk_tokens ?b'"
      using tok now by (simp add: level_def look rate_refill_def go_time Time_Sub_def Seconds_def Let_def)
    with True lv show ?thesis by simp
  next
    case False
    then show ?thesis
      using sweep_level [OF ok pos(1) full, of k] by (simp add: level_def look)
  qed
qed

text \<open>A run of requests: who asked when, and for each the bucket charged and the verdict.\<close>

fun rate_run ::
  "rate_limit_config \<Rightarrow> limiter \<Rightarrow> (string \<times> time) list \<Rightarrow> limiter \<times> (string \<times> bool) list" where
  "rate_run cfg lm [] = (lm, [])"
| "rate_run cfg lm ((ip, t) # rs) =
     (let (lm1, key, allowed) = rate_take cfg lm ip t;
          (lm2, lg) = rate_run cfg lm1 rs
      in (lm2, (key, allowed) # lg))"

definition admitted :: "string \<Rightarrow> (string \<times> bool) list \<Rightarrow> nat" where
  "admitted k lg = length (filter (\<lambda>x. x = (k, True)) lg)"

lemma admitted_simps [simp]:
  "admitted k [] = 0" "admitted k (x # lg) = (if x = (k, True) then 1 else 0) + admitted k lg"
  by (simp_all add: admitted_def)

lemma buckets_ok_later: "buckets_ok lm now \<Longrightarrow> now \<le> now' \<Longrightarrow> buckets_ok lm now'"
  by (fastforce simp: buckets_ok_def)

lemma rate_run_level:
  assumes pos: "0 \<le> rl_RatePerSecond cfg" "0 \<le> rl_Burst cfg"
    and full: "of_int (rl_Burst cfg) \<le> Seconds (rl_IdleTTL cfg) * rl_RatePerSecond cfg"
  shows "buckets_ok lm t \<Longrightarrow> 0 < t \<Longrightarrow> sorted (t # map snd rs) \<Longrightarrow> rate_run cfg lm rs = (lm', lg) \<Longrightarrow>
    rat_of_nat (admitted k lg)
      \<le> level cfg lm k t + Seconds (last (t # map snd rs) - t) * rl_RatePerSecond cfg"
proof (induction rs arbitrary: lm t lg)
  case Nil
  then show ?case using level_nonneg [OF Nil.prems(1) pos, of k] by (simp add: Seconds_def)
next
  case (Cons x rs)
  obtain ip t1 where x: "x = (ip, t1)" by fastforce
  obtain lm1 key allowed where tk: "rate_take cfg lm ip t1 = (lm1, key, allowed)" using prod_cases3 by blast
  obtain lg1 where run: "rate_run cfg lm1 rs = (lm', lg1)" and lg: "lg = (key, allowed) # lg1"
    using Cons.prems(4) x tk by (auto split: prod.splits)
  have t: "t \<le> t1" "sorted (t1 # map snd rs)" "0 < t1" using Cons.prems(2,3) x by auto
  note ok = buckets_ok_later [OF Cons.prems(1) t(1)]
  note tl = rate_take_level [OF ok t(3) pos full tk]
  have "rat_of_nat (admitted k lg1)
      \<le> level cfg lm1 k t1 + Seconds (last (t1 # map snd rs) - t1) * rl_RatePerSecond cfg"
    using Cons.IH [OF tl(1) t(3,2) run] .
  moreover have "level cfg lm k t1 \<le> level cfg lm k t + Seconds (t1 - t) * rl_RatePerSecond cfg"
    by (rule level_grows [OF t(1) pos(1)])
  moreover have "Seconds (last (t1 # map snd rs) - t) =
      Seconds (last (t1 # map snd rs) - t1) + Seconds (t1 - t)"
    by (simp add: Seconds_add [symmetric])
  ultimately show ?case
    using tl(2) [of k] lg by (auto simp: x algebra_simps)
qed

subsection \<open>Identifiers and headers\<close>

lemma hex_alphabet_alnum: "n < 16 \<Longrightarrow> is_alnum (hex_alphabet ! n)"
proof -
  assume "n < 16"
  moreover have "length hex_alphabet = 16" by (simp add: hex_alphabet_def)
  ultimately have "hex_alphabet ! n \<in> set hex_alphabet" by simp
  moreover have "list_all is_alnum hex_alphabet"
    by (simp add: hex_alphabet_def is_alnum_def is_alpha_def is_digit_def byte_of_def)
  ultimately show ?thesis by (simp add: list_all_iff)
qed

lemma hex_valid_id:
  assumes "bs \<noteq> []" "length bs \<le> 64"
  shows "validRequestID (hex_EncodeToString bs)"
proof -
  have "length (hex_EncodeToString bs) = 2 * length bs"
    by (induction bs) (simp_all add: hex_EncodeToString_def)
  moreover have "list_all is_alnum (hex_EncodeToString bs)"
    by (induction bs) (simp_all add: hex_EncodeToString_def hex_alphabet_alnum)
  ultimately show ?thesis
    using assms by (auto simp: validRequestID_def list_all_iff)
qed

lemma ensureCSRFCookie_status [simp]:
  "rw_Status (snd (ensureCSRFCookie w rw r secure name)) = rw_Status rw"
  by (auto simp: ensureCSRFCookie_def Let_def split: option.splits prod.splits)

section \<open>Concrete requests\<close>

definition demo_request :: request where
  "demo_request =
     \<lparr>rq_Method = ''POST'', rq_URL = empty_url\<lparr>u_Path := ''/app''\<rparr>, rq_Header = [''Origin'' \<mapsto> [''https://evil.example''], ''X-Forwarded-For'' \<mapsto> [''c,p'']],
      rq_Body = None, rq_Cookies = [''__Host-bff_csrf'' \<mapsto> ''t''], rq_RemoteAddr = ''p'', rq_PathValue = (\<lambda>_. []),
      rq_Pattern = [], cx_RequestID = [], cx_TraceID = [], cx_ClientIP = [], cx_ClientIPSource = [],
      cx_CFRay = [], cx_Session = None\<rparr>"

text \<open>An address library whose addresses are strings of one letter and whose networks are lists.\<close>

definition demo_net :: "(string, string list) netlib" where
  "demo_net =
     \<lparr>nl_SplitHostPort = (\<lambda>a. None), nl_ParseIP = (\<lambda>s. if length s = 1 then Some s else None),
      nl_String = (\<lambda>ip. ip), nl_ParseCIDR = (\<lambda>s. Inr [s]), nl_Contains = (\<lambda>n ip. ip \<in> set n)\<rparr>"

definition demo_rate :: rate_limit_config where
  "demo_rate = \<lparr>rl_RatePerSecond = 1, rl_Burst = 2, rl_IdleTTL = Minute, rl_MaxEntries = 100,
     rl_PathSuffixes = [], rl_RejectReason = ''rate_limit''\<rparr>"

definition new_limiter :: limiter where
  "new_limiter = \<lparr>lm_buckets = [], lm_lastSweep = 0\<rparr>"

lemmas header_eval = CanonicalHeaderKey_def isTokenChar_def is_alnum_def is_alpha_def is_digit_def
  byte_of_def upper_char_def lower_char_def Header_Get_def Header_Set_def

lemma CSRF_answers:
  assumes "isUnsafeMethod (rq_Method r)"
    and "\<not> (sameOriginRequest r (url_Parse (csrf_PublicURL cfg)) \<and>
       (\<exists>v. rq_Cookies r (csrf_cookie_name cfg) = Some v \<and> v \<noteq> [] \<and>
            Header_Get (rq_Header r) CSRFHeaderName = v))"
    and "rw_Status rw = 0"
  shows "\<exists>w' rw'. rw_Status rw' = 403 \<and> (\<forall>next. CSRF cfg next r w rw = (w', rw'))"
proof -
  obtain w1 rw1 where e: "ensureCSRFCookie w rw r (csrf_Secure cfg) (csrf_cookie_name cfg) = (w1, rw1)"
    by fastforce
  then have "rw_Status rw1 = 0"
    using ensureCSRFCookie_status [of w rw r "csrf_Secure cfg" "csrf_cookie_name cfg"] assms(3) by simp
  moreover have "\<exists>msg. \<forall>next. CSRF cfg next r w rw = (w1, http_Error rw1 msg 403)"
    using assms(1,2) e
    by (cases "rq_Cookies r (csrf_cookie_name cfg)") (auto simp: CSRF_def Let_def constantTimeEqual_iff)
  ultimately show ?thesis by force
qed

section \<open>Properties\<close>

text \<open>
  C15. The rate limit holds: from a fresh limiter, over any sequence of requests from any clients at
  times that never decrease, the number of admitted requests charged to one bucket is at most the
  burst plus the rate times the time elapsed, sweeps of idle buckets included, provided a bucket that
  has been idle for the sweep time is full again (rate times idle time at least the burst).
\<close>

theorem rate_limit_bound:
  assumes "0 \<le> rl_RatePerSecond cfg" and "0 \<le> rl_Burst cfg"
    and "of_int (rl_Burst cfg) \<le> Seconds (rl_IdleTTL cfg) * rl_RatePerSecond cfg"
    and "0 < t" and "sorted (t # map snd rs)" and "rate_run cfg new_limiter rs = (lm, lg)"
  shows "rat_of_nat (admitted k lg)
      \<le> of_int (rl_Burst cfg) + Seconds (last (t # map snd rs) - t) * rl_RatePerSecond cfg"
proof -
  have "buckets_ok new_limiter t" by (simp add: buckets_ok_def new_limiter_def)
  from rate_run_level [OF assms(1-3) this assms(4-6), of k] show ?thesis
    using level_le_burst [of cfg new_limiter k t] by linarith
qed

theorem rate_limit_bound_witness:
  "rate_run demo_rate new_limiter [(''c'', Hour), (''c'', Hour), (''c'', Hour), (''c'', Hour + Second)] =
     (fst (rate_run demo_rate new_limiter [(''c'', Hour), (''c'', Hour), (''c'', Hour), (''c'', Hour + Second)]),
      [(''c'', True), (''c'', True), (''c'', False), (''c'', True)]) \<and>
   rat_of_nat (admitted ''c'' [(''c'', True), (''c'', True), (''c'', False), (''c'', True)])
     \<le> of_int (rl_Burst demo_rate) + Seconds (last (Hour # [Hour, Hour, Hour, Hour + Second]) - Hour) *
         rl_RatePerSecond demo_rate"
proof -
  let ?rs = "[(''c'', Hour), (''c'', Hour), (''c'', Hour), (''c'', Hour + Second)]"
  have run: "rate_run demo_rate new_limiter ?rs = (fst (rate_run demo_rate new_limiter ?rs),
      [(''c'', True), (''c'', True), (''c'', False), (''c'', True)])"
    unfolding prod_eq_iff fst_conv snd_conv by (rule conjI, rule refl) code_simp
  have "rat_of_nat (admitted ''c'' [(''c'', True), (''c'', True), (''c'', False), (''c'', True)])
     \<le> of_int (rl_Burst demo_rate) + Seconds (last (Hour # map snd ?rs) - Hour) * rl_RatePerSecond demo_rate"
    by (rule rate_limit_bound [OF _ _ _ _ _ run]) (simp_all add: demo_rate_def Seconds_def)
  with run show ?thesis by simp
qed

text \<open>
  A forged request does not get through: a state-changing request whose \<^verbatim>\<open>Origin\<close> (or \<^verbatim>\<open>Referer\<close>)
  is not that of the public URL, or whose CSRF header does not repeat a non-empty CSRF cookie, is
  answered with 403, whatever the handler behind is: the handler is not run.
\<close>

theorem csrf_blocks_forgery:
  assumes "isUnsafeMethod (rq_Method r)"
    and "\<not> (sameOriginRequest r (url_Parse (csrf_PublicURL cfg)) \<and>
       (\<exists>v. rq_Cookies r (csrf_cookie_name cfg) = Some v \<and> v \<noteq> [] \<and>
            Header_Get (rq_Header r) CSRFHeaderName = v))"
    and "rw_Status rw = 0"
  shows "\<exists>w' rw'. rw_Status rw' = 403 \<and> (\<forall>next. CSRF cfg next r w rw = (w', rw'))"
  by (rule CSRF_answers [OF assms])

theorem csrf_blocks_forgery_witness:
  "\<exists>w' rw'. rw_Status rw' = 403 \<and> (\<forall>next. CSRF \<lparr>csrf_PublicURL = ''https://app.example'',
     csrf_Secure = True, csrf_CookieName = []\<rparr> next demo_request demo_world new_response = (w', rw'))"
proof (rule csrf_blocks_forgery)
  show "isUnsafeMethod (rq_Method demo_request)" by (simp add: demo_request_def isUnsafeMethod_def)
  have "\<not> sameOriginRequest demo_request (url_Parse ''https://app.example'')"
    by code_simp
  then show "\<not> (sameOriginRequest demo_request (url_Parse (csrf_PublicURL \<lparr>csrf_PublicURL = ''https://app.example'',
      csrf_Secure = True, csrf_CookieName = []\<rparr>)) \<and>
       (\<exists>v. rq_Cookies demo_request (csrf_cookie_name \<lparr>csrf_PublicURL = ''https://app.example'',
      csrf_Secure = True, csrf_CookieName = []\<rparr>) = Some v \<and> v \<noteq> [] \<and>
            Header_Get (rq_Header demo_request) CSRFHeaderName = v))" by simp
  show "rw_Status new_response = 0" by (simp add: new_response_def)
qed



text \<open>
  The request identifier that reaches the response header, the logs and the audit trail is
  always well formed (1 to 128 characters, letters, digits, dash, underscore and dot), whatever the
  client sent and also when the random source fails: it cannot carry line breaks or markup.
\<close>

theorem request_id_well_formed:
  assumes "\<And>i bs. rand_src w i 16 = Inr bs \<Longrightarrow> length bs = 16"
  shows "\<exists>i w1. validRequestID i \<and>
    (\<forall>next. RequestID next r w rw = next (r\<lparr>cx_RequestID := i\<rparr>) w1 (SetHeader rw ''X-Request-ID'' i))"
proof (cases "validRequestID (TrimSpace (Header_Get (rq_Header r) ''X-Request-ID''))")
  case True
  then show ?thesis by (auto simp: RequestID_def Let_def)
next
  case False
  obtain w1 i where r: "randomRequestID w = (w1, i)" by fastforce
  have "validRequestID i"
  proof (cases "rand_src w (rands w) 16")
    case (Inl e)
    with r show ?thesis
      by (auto simp: randomRequestID_def rand_Read_def validRequestID_def is_alnum_def is_alpha_def
          is_digit_def byte_of_def)
  next
    case (Inr bs)
    then have "length bs = 16" using assms by blast
    then have "validRequestID (hex_EncodeToString bs)" by (intro hex_valid_id) auto
    with r Inr show ?thesis by (auto simp: randomRequestID_def rand_Read_def)
  qed
  with False r show ?thesis by (auto simp: RequestID_def Let_def)
qed

theorem request_id_well_formed_witness:
  "\<exists>i w1. validRequestID i \<and> (\<forall>next. RequestID next demo_request demo_world new_response =
     next (demo_request\<lparr>cx_RequestID := i\<rparr>) w1 (SetHeader new_response ''X-Request-ID'' i))"
  by (rule request_id_well_formed) (simp add: demo_world_def)

text \<open>
  Redaction of headers is complete exactly for canonical keys: every sensitive header stored
  under its canonical key is replaced; a sensitive header under another spelling (which the header
  map can hold when it is not filled through \<^verbatim>\<open>Set\<close>) keeps its value.
\<close>

theorem redaction_of_headers:
  assumes "h k = Some vs" and "is_sensitive_header k"
  shows "(CanonicalHeaderKey k = k \<longrightarrow> RedactedHeaders h k = Some [''[REDACTED]'']) \<and>
    ((\<forall>k0. CanonicalHeaderKey k0 \<noteq> k) \<longrightarrow> RedactedHeaders h k = Some vs)"
  using assms by (auto simp: RedactedHeaders_def)

theorem redaction_of_headers_witness:
  "RedactedHeaders [''Cookie'' \<mapsto> [''s'']] ''Cookie'' = Some [''[REDACTED]'']"
proof -
  have "is_sensitive_header ''Cookie''"
    by code_simp
  moreover have "CanonicalHeaderKey ''Cookie'' = ''Cookie''" by (simp add: header_eval)
  ultimately show ?thesis
    using redaction_of_headers [of "[''Cookie'' \<mapsto> [''s'']]" "''Cookie''" "[''s'']"] by simp
qed

end
