(* ===== verification/UserContext.thy ===== *)
theory UserContext
  imports Middleware "HOL-Library.List_Lexorder" "HOL-Library.Char_ord"
begin

text \<open>
  Who a session's user is and what they may do: the static role policy (\<^verbatim>\<open>internal/policy\<close>), the cache
  (\<^verbatim>\<open>internal/cache\<close>), the resolvers of the user context (\<^verbatim>\<open>internal/usercontext\<close>) and the middleware
  that demands a permission (\<^verbatim>\<open>authorization.go\<close>).
\<close>

section \<open>Definitions\<close>

subsection \<open>The static policy (policy.go, static.go)\<close>

record subject =
  sj_ID :: string
  sj_Roles :: "string list"

record decision =
  dc_Permissions :: "string list"
  dc_Capabilities :: "string list"
  dc_AuthLevel :: string

record 'w evaluator =
  pe_Evaluate :: "'w \<Rightarrow> subject \<Rightarrow> 'w \<times> decision result"
  pe_Allowed :: "'w \<Rightarrow> subject \<Rightarrow> string \<Rightarrow> 'w \<times> bool result"

record static_policy =
  sp_RolePermissions :: "string \<rightharpoonup> string list"
  sp_RoleCapabilities :: "string \<rightharpoonup> string list"

definition role_values :: "(string \<rightharpoonup> string list) \<Rightarrow> string \<Rightarrow> string list" where
  "role_values m role = (case m role of None \<Rightarrow> [] | Some vs \<Rightarrow> vs)"

text \<open>The loop that collects the values of all roles into a set.\<close>

definition collect_seen :: "(string \<rightharpoonup> string list) \<Rightarrow> string list \<Rightarrow> string list" where
  "collect_seen m roles =
     fold (\<lambda>role seen. fold List.insert (role_values m role) seen) roles []"

text \<open>\<^verbatim>\<open>keysSorted\<close>: the members of the set in byte-wise order.\<close>

definition keysSorted :: "string list \<Rightarrow> string list" where
  "keysSorted seen = sort seen"

definition Static_Evaluate :: "static_policy \<Rightarrow> subject \<Rightarrow> decision result" where
  "Static_Evaluate p s =
     Inr \<lparr>dc_Permissions = keysSorted (collect_seen (sp_RolePermissions p) (sj_Roles s)),
          dc_Capabilities = keysSorted (collect_seen (sp_RoleCapabilities p) (sj_Roles s)),
          dc_AuthLevel = ''authenticated''\<rparr>"

definition Static_Allowed :: "static_policy \<Rightarrow> subject \<Rightarrow> string \<Rightarrow> bool result" where
  "Static_Allowed p s permission =
     (case Static_Evaluate p s of
        Inl e \<Rightarrow> Inl e
      | Inr d \<Rightarrow> Inr (list_ex (\<lambda>v. v = permission) (dc_Permissions d)))"

definition Static :: "static_policy \<Rightarrow> 'w evaluator" where
  "Static p =
     \<lparr>pe_Evaluate = (\<lambda>w s. (w, Static_Evaluate p s)),
      pe_Allowed = (\<lambda>w s perm. (w, Static_Allowed p s perm))\<rparr>"

subsection \<open>The user context and its cache (user\_context.go, cache/memory.go)\<close>

record user_context =
  uc_Subject :: string
  uc_Username :: string
  uc_DisplayName :: string
  uc_Email :: string
  uc_Roles :: "string list"
  uc_Permissions :: "string list"
  uc_TenantID :: string
  uc_ProjectID :: string
  uc_AuthLevel :: string
  uc_Capabilities :: "string list"

text \<open>
  A cache. The values are stored as JSON; a user context marshals without error and unmarshals to
  itself, so entries are kept as values of type \<open>'v\<close>.
\<close>

record ('w, 'v) cache =
  ca_Get :: "'w \<Rightarrow> string \<Rightarrow> 'w \<times> ('v option) result"
  ca_Set :: "'w \<Rightarrow> string \<Rightarrow> 'v \<Rightarrow> duration \<Rightarrow> 'w \<times> goerr option"
  ca_Delete :: "'w \<Rightarrow> string \<Rightarrow> 'w \<times> goerr option"

record cache_entry =
  ce_Data :: user_context
  ce_ExpiresAt :: time

record front_world = obs_world +
  cached :: "string \<rightharpoonup> cache_entry"

definition CacheMemory_Delete ::
  "'z front_world_scheme \<Rightarrow> string \<Rightarrow> 'z front_world_scheme \<times> goerr option" where
  "CacheMemory_Delete w key = (w\<lparr>cached := map_delete (cached w) key\<rparr>, None)"

definition CacheMemory_Get ::
  "'z front_world_scheme \<Rightarrow> string \<Rightarrow> 'z front_world_scheme \<times> (user_context option) result" where
  "CacheMemory_Get w key =
     (case cached w key of
        None \<Rightarrow> (w, Inr None)
      | Some en \<Rightarrow>
          if IsZero (ce_ExpiresAt en) then (w, Inr (Some (ce_Data en)))
          else (let (now, w1) = Now w
                in if \<not> After (ce_ExpiresAt en) now
                   then (fst (CacheMemory_Delete w1 key), Inr None)
                   else (w1, Inr (Some (ce_Data en)))))"

definition CacheMemory_Set ::
  "'z front_world_scheme \<Rightarrow> string \<Rightarrow> user_context \<Rightarrow> duration \<Rightarrow> 'z front_world_scheme \<times> goerr option" where
  "CacheMemory_Set w key v ttl =
     (let (now, w1) = Now w
      in (w1\<lparr>cached := (cached w1)(key \<mapsto> \<lparr>ce_Data = v, ce_ExpiresAt = Time_Add now ttl\<rparr>)\<rparr>, None))"

definition CacheMemory :: "('z front_world_scheme, user_context) cache" where
  "CacheMemory = \<lparr>ca_Get = CacheMemory_Get, ca_Set = CacheMemory_Set, ca_Delete = CacheMemory_Delete\<rparr>"

subsection \<open>Resolvers (resolver.go, user\_context.go)\<close>

type_synonym 'w resolver = "'w \<Rightarrow> string \<Rightarrow> 'w \<times> user_context result"

definition session_subject :: "session \<Rightarrow> subject" where
  "session_subject s = \<lparr>sj_ID = sess_Subject s, sj_Roles = sess_Roles s\<rparr>"

definition context_of :: "session \<Rightarrow> string list \<Rightarrow> string list \<Rightarrow> string \<Rightarrow> user_context" where
  "context_of s permissions capabilities authLevel =
     \<lparr>uc_Subject = sess_Subject s, uc_Username = sess_Username s, uc_DisplayName = sess_DisplayName s,
      uc_Email = sess_Email s, uc_Roles = sess_Roles s, uc_Permissions = permissions,
      uc_TenantID = [], uc_ProjectID = [], uc_AuthLevel = authLevel, uc_Capabilities = capabilities\<rparr>"

definition SessionResolver_Resolve ::
  "'w session_store \<Rightarrow> 'w evaluator option \<Rightarrow> 'w resolver" where
  "SessionResolver_Resolve sessions0 policy w sid =
     (case ss_Get sessions0 w sid of
        (w1, Inl e) \<Rightarrow> (w1, Inl e)
      | (w1, Inr s) \<Rightarrow>
          (case policy of
             None \<Rightarrow> (w1, Inr (context_of s [] [] ''authenticated''))
           | Some ev \<Rightarrow>
               (case pe_Evaluate ev w1 (session_subject s) of
                  (w2, Inl e) \<Rightarrow> (w2, Inl e)
                | (w2, Inr d) \<Rightarrow>
                    (w2, Inr (context_of s (dc_Permissions d) (dc_Capabilities d)
                       (if dc_AuthLevel d \<noteq> [] then dc_AuthLevel d else ''authenticated''))))))"

definition CacheKey :: "string \<Rightarrow> string" where
  "CacheKey sid = ''userctx:'' @ sid"

definition cache_ttl :: "duration \<Rightarrow> duration" where
  "cache_ttl ttl = (if ttl \<le> 0 then 60 * Second else ttl)"

definition CachedResolver_Resolve ::
  "'w resolver \<Rightarrow> ('w, user_context) cache option \<Rightarrow> duration \<Rightarrow> 'w resolver" where
  "CachedResolver_Resolve next ca ttl w sid =
     (case ca of
        None \<Rightarrow> next w sid
      | Some c \<Rightarrow>
          (let key = CacheKey sid;
               (w1, got) = ca_Get c w key
           in case got of
                Inr (Some out) \<Rightarrow> (w1, Inr out)
              | _ \<Rightarrow>
                  (case next w1 sid of
                     (w2, Inl e) \<Rightarrow> (w2, Inl e)
                   | (w2, Inr out) \<Rightarrow> (fst (ca_Set c w2 key out (cache_ttl ttl)), Inr out))))"

subsection \<open>Demanding a permission (authorization.go)\<close>

definition emitDecision ::
  "request \<Rightarrow> 'z world_scheme audit_sink option \<Rightarrow> 'z world_scheme meter \<Rightarrow> 'z world_scheme
   \<Rightarrow> string \<Rightarrow> string \<Rightarrow> string \<Rightarrow> string \<Rightarrow> string \<Rightarrow> int \<Rightarrow> 'z world_scheme" where
  "emitDecision r sink meter w actor username permission outcome reason status =
     (let w1 = meter_call meter w (RecordAuthorization
                 (if outcome = ''deny'' then ''denied'' else outcome) permission)
      in case sink of
           None \<Rightarrow> w1
         | Some snk \<Rightarrow>
             (let (w2, e0) = NewEvent w1 (''authorization.'' @ outcome) permission outcome;
                  e1 = EnrichAuditEvent r
                    (e0\<lparr>ev_Actor := actor, ev_ActorUsername := username, ev_HTTPStatus := status\<rparr>);
                  e2 = e1\<lparr>ev_Attributes := (ev_Attributes e1)(''reason'' \<mapsto> reason,
                         ''request_method'' \<mapsto> rq_Method r, ''request_path'' \<mapsto> rq_Path r)\<rparr>
              in fst (snk w2 e2)))"

definition RequirePermissionWithAuditCookie ::
  "string \<Rightarrow> string \<Rightarrow> 'z world_scheme session_store \<Rightarrow> 'z world_scheme evaluator option
   \<Rightarrow> 'z world_scheme audit_sink option \<Rightarrow> 'z world_scheme meter
   \<Rightarrow> 'z world_scheme handler \<Rightarrow> 'z world_scheme handler" where
  "RequirePermissionWithAuditCookie permission cookieName sessions0 evaluator0 sink meter next r w rw =
     (case rq_Cookies r cookieName of
        None \<Rightarrow>
          (emitDecision r sink meter w [] [] permission ''deny'' ''unauthenticated'' 401,
           http_Error rw ''unauthorized'' 401)
      | Some v \<Rightarrow>
          if v = [] then
            (emitDecision r sink meter w [] [] permission ''deny'' ''unauthenticated'' 401,
             http_Error rw ''unauthorized'' 401)
          else
          (case ss_Get sessions0 w v of
             (w1, Inl e) \<Rightarrow>
               if errors_Is e ErrSessionNotFound then
                 (emitDecision r sink meter w1 [] [] permission ''deny'' ''invalid_session'' 401,
                  http_Error rw ''unauthorized'' 401)
               else
                 (emitDecision r sink meter w1 [] [] permission ''error'' ''session_store_error'' 503,
                  http_Error rw ''session store unavailable'' 503)
           | (w1, Inr s) \<Rightarrow>
               (case evaluator0 of
                  None \<Rightarrow>
                    (emitDecision r sink meter w1 (sess_Subject s) (sess_Username s) permission
                       ''deny'' ''policy_unconfigured'' 403,
                     http_Error rw ''forbidden'' 403)
                | Some ev \<Rightarrow>
                    (case pe_Allowed ev w1 (session_subject s) permission of
                       (w2, Inl e) \<Rightarrow>
                         (emitDecision r sink meter w2 (sess_Subject s) (sess_Username s) permission
                            ''error'' ''policy_error'' 503,
                          http_Error rw ''authorization unavailable'' 503)
                     | (w2, Inr allowed) \<Rightarrow>
                         if \<not> allowed then
                           (emitDecision r sink meter w2 (sess_Subject s) (sess_Username s) permission
                              ''deny'' ''permission_denied'' 403,
                            http_Error rw ''forbidden'' 403)
                         else
                           (let w3 = meter_call meter w2 (RecordAuthorization ''allowed'' permission);
                                w4 = emitDecision r sink None w3 (sess_Subject s) (sess_Username s)
                                       permission ''allow'' ''authorized'' 0
                            in next (r\<lparr>cx_Session := Some s\<rparr>) w4 rw)))))"

definition RequirePermission ::
  "string \<Rightarrow> 'z world_scheme session_store \<Rightarrow> 'z world_scheme evaluator option
   \<Rightarrow> 'z world_scheme handler \<Rightarrow> 'z world_scheme handler" where
  "RequirePermission permission sessions0 evaluator0 =
     RequirePermissionWithAuditCookie permission ''__Host-bff_session'' sessions0 evaluator0 None None"

section \<open>Lemmas\<close>

lemma fold_insert_set: "set (fold List.insert xs seen) = set xs \<union> set seen"
  by (induction xs arbitrary: seen) auto

lemma fold_insert_distinct: "distinct seen \<Longrightarrow> distinct (fold List.insert xs seen)"
  by (induction xs arbitrary: seen) auto

lemma collect_seen_from:
  "set (fold (\<lambda>role seen. fold List.insert (role_values m role) seen) roles seen0) =
     (\<Union>role \<in> set roles. set (role_values m role)) \<union> set seen0"
  by (induction roles arbitrary: seen0) (auto simp: fold_insert_set)

lemma collect_seen_set: "set (collect_seen m roles) = (\<Union>role \<in> set roles. set (role_values m role))"
  by (simp add: collect_seen_def collect_seen_from)

lemma collect_seen_distinct: "distinct (collect_seen m roles)"
proof -
  have "distinct seen0 \<Longrightarrow>
      distinct (fold (\<lambda>role seen. fold List.insert (role_values m role) seen) roles seen0)" for seen0
    by (induction roles arbitrary: seen0) (auto simp: fold_insert_distinct)
  then show ?thesis by (simp add: collect_seen_def)
qed

lemma Static_Allowed_iff:
  "Static_Allowed p s perm = Inr (\<exists>role \<in> set (sj_Roles s). perm \<in> set (role_values (sp_RolePermissions p) role))"
  by (auto simp: Static_Allowed_def Static_Evaluate_def keysSorted_def list_ex_iff collect_seen_set)

lemma CacheMemory_Get_found:
  assumes "CacheMemory_Get w key = (w1, Inr (Some v))"
  shows "\<exists>en. cached w key = Some en \<and> ce_Data en = v \<and> (IsZero (ce_ExpiresAt en) \<or> cur w < ce_ExpiresAt en)"
  using assms by (auto simp: CacheMemory_Get_def Now_eq go_time Let_def split: option.splits if_splits)

text \<open>
  What lets a request through: the cookie names a session of the store and the evaluator allows the permission. Without
  all of that the middleware answers by itself, the same for every handler behind it.
\<close>

definition authorized_as ::
  "'w session_store \<Rightarrow> 'w evaluator option \<Rightarrow> string \<Rightarrow> string \<Rightarrow> request \<Rightarrow> 'w \<Rightarrow> string \<Rightarrow> session \<Rightarrow> bool" where
  "authorized_as sessions0 evaluator0 perm name r w v s \<longleftrightarrow>
     rq_Cookies r name = Some v \<and> v \<noteq> [] \<and> snd (ss_Get sessions0 w v) = Inr s \<and>
     (case evaluator0 of
        None \<Rightarrow> False
      | Some ev \<Rightarrow> snd (pe_Allowed ev (fst (ss_Get sessions0 w v)) (session_subject s) perm) = Inr True)"

lemma permission_gate:
  assumes "rw_Status rw = 0" "\<not> (\<exists>v s. authorized_as sessions0 evaluator0 perm name r w v s)"
  shows "\<exists>w' rw'. rw_Status rw' \<in> {401, 403, 503} \<and>
    (\<forall>next. RequirePermissionWithAuditCookie perm name sessions0 evaluator0 sink meter next r w rw = (w', rw'))"
proof (cases "\<exists>v. rq_Cookies r name = Some v \<and> v \<noteq> []")
  case False
  then show ?thesis
    using assms(1)
    by (cases "rq_Cookies r name") (auto simp: RequirePermissionWithAuditCookie_def)
next
  case True
  then obtain v where v: "rq_Cookies r name = Some v" "v \<noteq> []" by blast
  obtain w1 g where g: "ss_Get sessions0 w v = (w1, g)" by fastforce
  show ?thesis
  proof (cases g)
    case (Inl e)
    with v g assms(1) show ?thesis by (auto simp: RequirePermissionWithAuditCookie_def)
  next
    case (Inr s)
    show ?thesis
    proof (cases evaluator0)
      case None
      with v g Inr assms(1) show ?thesis by (auto simp: RequirePermissionWithAuditCookie_def)
    next
      case (Some ev)
      obtain w2 a where a: "pe_Allowed ev w1 (session_subject s) perm = (w2, a)" by fastforce
      with v g Inr Some assms(2) have "a \<noteq> Inr True" by (auto simp: authorized_as_def)
      with v g Inr Some a assms(1) show ?thesis
        by (cases a) (auto simp: RequirePermissionWithAuditCookie_def)
    qed
  qed
qed

text \<open>A request that is let through reaches the handler with the session, and otherwise as it was.\<close>

lemma permission_passes:
  assumes "authorized_as sessions0 evaluator0 perm name r w v s"
  shows "\<exists>w4. \<forall>next. RequirePermissionWithAuditCookie perm name sessions0 evaluator0 sink meter next r w rw =
    next (r\<lparr>cx_Session := Some s\<rparr>) w4 rw"
proof -
  obtain w1 g where g: "ss_Get sessions0 w v = (w1, g)" by fastforce
  from assms g obtain ev where ev: "evaluator0 = Some ev" by (auto simp: authorized_as_def split: option.splits)
  obtain w2 a where a: "pe_Allowed ev w1 (session_subject s) perm = (w2, a)" by fastforce
  from assms g ev a show ?thesis by (auto simp: authorized_as_def RequirePermissionWithAuditCookie_def Let_def)
qed

section \<open>Concrete data\<close>

definition demo_policy :: static_policy where
  "demo_policy = \<lparr>sp_RolePermissions = [''reader'' \<mapsto> [''doc.read'', ''doc.list'']],
     sp_RoleCapabilities = Map.empty\<rparr>"

definition demo_front :: front_world where
  "demo_front =
     \<lparr>clk = demo_clock, ticks = 5, rand_src = (\<lambda>i n. Inr (replicate n i)), rands = 0,
      sessions = [''s1'' \<mapsto> lifecycle_normalize demo_lifecycle (demo_clock 0) demo_session],
      tokens = tokens demo_login, locks = Map.empty, flows = [''st'' \<mapsto> demo_flow],
      events = [], registry = NewMetrics, cached = Map.empty\<rparr>"

definition demo_user_request :: request where
  "demo_user_request = demo_request\<lparr>rq_Cookies := [''__Host-bff_session'' \<mapsto> ''s1'']\<rparr>"

lemmas demo_front_eval = demo_front_def demo_user_request_def demo_request_def demo_policy_def
  demo_login_def demo_flow_def

section \<open>Properties\<close>

text \<open>
  The static policy means the union of the roles: a permission is allowed exactly when one of the
  subject's roles lists it, and the permissions of the decision are exactly those values, sorted and
  without duplicates.
\<close>

theorem static_policy_union:
  "\<exists>d. Static_Evaluate p s = Inr d \<and> sorted (dc_Permissions d) \<and> distinct (dc_Permissions d) \<and>
     set (dc_Permissions d) = (\<Union>role \<in> set (sj_Roles s). set (role_values (sp_RolePermissions p) role)) \<and>
     (\<forall>perm. Static_Allowed p s perm = Inr (perm \<in> set (dc_Permissions d)))"
  by (simp add: Static_Evaluate_def keysSorted_def collect_seen_set collect_seen_distinct Static_Allowed_iff)

text \<open>
  No protected handler runs for the wrong user: unless the request carries a session cookie, the
  store has that session live, and one of the session's roles has the permission under the static
  policy, the middleware answers 401, 403 or 503 itself, the same for every handler behind it.
\<close>

theorem permission_required:
  assumes "rw_Status rw = 0"
    and "\<not> (\<exists>v s role. rq_Cookies r name = Some v \<and> v \<noteq> [] \<and>
          snd (LifecycleStore_Get lc MemoryStore w v) = Inr s \<and>
          role \<in> set (sess_Roles s) \<and> perm \<in> set (role_values (sp_RolePermissions p) role))"
  shows "\<exists>w' rw'. rw_Status rw' \<in> {401, 403, 503} \<and>
    (\<forall>next. RequirePermissionWithAuditCookie perm name (LifecycleStore lc MemoryStore)
       (Some (Static p)) sink meter next r w rw = (w', rw'))"
proof (rule permission_gate [OF assms(1)])
  show "\<not> (\<exists>v s. authorized_as (LifecycleStore lc MemoryStore) (Some (Static p)) perm name r w v s)"
    using assms(2) by (auto simp: authorized_as_def Static_def Static_Allowed_iff session_subject_def)
qed

theorem permission_required_witness:
  "\<exists>w' rw'. rw_Status rw' \<in> {401, 403, 503} \<and>
    (\<forall>next. RequirePermissionWithAuditCookie ''doc.write'' ''__Host-bff_session''
       (LifecycleStore demo_lifecycle MemoryStore) (Some (Static demo_policy)) (Some MemorySink_Append)
       registry_meter next demo_user_request demo_front new_response = (w', rw'))"
proof (rule permission_required)
  show "rw_Status new_response = 0" by (simp add: new_response_def)
  have "\<And>role. ''doc.write'' \<notin> set (role_values (sp_RolePermissions demo_policy) role)"
    by (simp add: role_values_def demo_policy_def)
  then show "\<not> (\<exists>v s role. rq_Cookies demo_user_request ''__Host-bff_session'' = Some v \<and> v \<noteq> [] \<and>
          snd (LifecycleStore_Get demo_lifecycle MemoryStore demo_front v) = Inr s \<and>
          role \<in> set (sess_Roles s) \<and>
          ''doc.write'' \<in> set (role_values (sp_RolePermissions demo_policy) role))" by blast
qed

text \<open>
  C27. The cached user context is never stale beyond its lifetime: a context that the caching resolver
  returns was either just produced by the resolver behind it, or was in the cache with an expiry that
  had not passed; and what it stores expires the configured time (60 seconds by default) after the
  clock reading of the store, under the key that logout deletes.
\<close>

theorem cached_context_fresh:
  assumes "CachedResolver_Resolve next (Some CacheMemory) ttl w sid = (w', Inr out)"
  shows "(\<exists>en. cached w (CacheKey sid) = Some en \<and> ce_Data en = out \<and>
            (IsZero (ce_ExpiresAt en) \<or> cur w < ce_ExpiresAt en)) \<or>
    (\<exists>w1 w2. next w1 sid = (w2, Inr out) \<and>
       cached w' (CacheKey sid) = Some \<lparr>ce_Data = out, ce_ExpiresAt = cur w2 + cache_ttl ttl\<rparr>)"
proof -
  obtain w1 got where g: "CacheMemory_Get w (CacheKey sid) = (w1, got)" by fastforce
  show ?thesis
  proof (cases "\<exists>v. got = Inr (Some v)")
    case True
    with g assms have "CacheMemory_Get w (CacheKey sid) = (w1, Inr (Some out))"
      by (auto simp: CachedResolver_Resolve_def CacheMemory_def)
    from CacheMemory_Get_found [OF this] show ?thesis by blast
  next
    case False
    then have "(case next w1 sid of (w2, Inl e) \<Rightarrow> (w2, Inl e)
        | (w2, Inr out) \<Rightarrow> (fst (CacheMemory_Set w2 (CacheKey sid) out (cache_ttl ttl)), Inr out)) = (w', Inr out)"
      using g assms
      by (auto simp: CachedResolver_Resolve_def CacheMemory_def Let_def split: sum.splits option.splits)
    then obtain w2 where "next w1 sid = (w2, Inr out)"
      "w' = fst (CacheMemory_Set w2 (CacheKey sid) out (cache_ttl ttl))"
      by (auto split: prod.splits sum.splits)
    then show ?thesis
      by (intro disjI2 exI [of _ w1] exI [of _ w2]) (simp add: CacheMemory_Set_def Now_eq go_time Let_def)
  qed
qed

theorem cached_context_fresh_witness:
  "let res = SessionResolver_Resolve (LifecycleStore demo_lifecycle MemoryStore) (Some (Static demo_policy));
       c = CachedResolver_Resolve res (Some CacheMemory) 0 demo_front ''s1''
   in \<exists>out. snd c = Inr out \<and>
     ((\<exists>en. cached demo_front (CacheKey ''s1'') = Some en \<and> ce_Data en = out \<and>
            (IsZero (ce_ExpiresAt en) \<or> cur demo_front < ce_ExpiresAt en)) \<or>
      (\<exists>w1 w2. res w1 ''s1'' = (w2, Inr out) \<and>
         cached (fst c) (CacheKey ''s1'') = Some \<lparr>ce_Data = out, ce_ExpiresAt = cur w2 + cache_ttl 0\<rparr>))"
proof -
  let ?res = "SessionResolver_Resolve (LifecycleStore demo_lifecycle MemoryStore) (Some (Static demo_policy))"
  have "\<exists>out. snd (CachedResolver_Resolve ?res (Some CacheMemory) 0 demo_front ''s1'') = Inr out"
    by (simp add: CachedResolver_Resolve_def CacheMemory_def CacheMemory_Get_def SessionResolver_Resolve_def
        Static_def Static_Evaluate_def demo_front_def demo_eval)
  then obtain out w' where "CachedResolver_Resolve ?res (Some CacheMemory) 0 demo_front ''s1'' = (w', Inr out)"
    by (metis prod.collapse)
  from cached_context_fresh [OF this] this show ?thesis by (simp add: Let_def)
qed

end
