(* ===== verification/Outbound.thy ===== *)
theory Outbound
  imports UserContext
begin

text \<open>
  Calls to upstream services (\<^verbatim>\<open>internal/outbound\<close>): the error kinds, the JSON client with its bounded
  retries, the observing client, and \<^verbatim>\<open>ProtectedClient\<close> with its bulkhead and circuit breaker, both as a
  sequential function and as a step relation of concurrent calls. The network (\<^verbatim>\<open>http.Client.Do\<close>), the
  state of the request's context and the JSON decoder of the caller's type are arguments.
\<close>

section \<open>Definitions\<close>

subsection \<open>Error kinds (errors.go)\<close>

definition IsKind :: "goerr \<Rightarrow> error_kind \<Rightarrow> bool" where
  "IsKind err kind \<longleftrightarrow>
     (case errors_As_outbound err of None \<Rightarrow> False | Some (k, _, _) \<Rightarrow> k = kind)"

definition normalizeStatus :: "int \<Rightarrow> error_kind" where
  "normalizeStatus status =
     (if status = 400 then ErrBadRequest
      else if status = 401 then ErrUnauthorized
      else if status = 403 then ErrForbidden
      else if status = 404 then ErrNotFound
      else if status = 409 then ErrConflict
      else if status = 429 then ErrRateLimited
      else if status = 502 \<or> status = 503 \<or> status = 504 then ErrUnavailable
      else ErrUpstream)"

subsection \<open>The client (client.go)\<close>

record out_request =
  oq_Method :: string
  oq_Path :: string
  oq_Header :: header
  oq_Body :: string

text \<open>A response: the status and the bytes of the body, or the error of reading it.\<close>

record out_response =
  op_StatusCode :: int
  op_Body :: "string result"

text \<open>The values that the caller's context carries, and its error at a given moment.\<close>

record 'w call_context =
  cc_RequestID :: string
  cc_TraceID :: string
  cc_Err :: "'w \<Rightarrow> goerr option"

record 'w client =
  cl_BasePath :: string
  cl_Do :: "'w \<Rightarrow> out_request \<Rightarrow> 'w \<times> out_response result"
  cl_Tokens :: "('w \<Rightarrow> string \<Rightarrow> 'w \<times> string result) option"
  cl_MaxRetries :: int
  cl_RetryBackoff :: duration
  cl_MaxBodyBytes :: int

definition isIdempotent :: "string \<Rightarrow> bool" where
  "isIdempotent method \<longleftrightarrow> method = ''GET'' \<or> method = ''HEAD'' \<or> method = ''OPTIONS''"

definition retryableResponse :: "int \<Rightarrow> bool" where
  "retryableResponse status \<longleftrightarrow> status = 502 \<or> status = 503 \<or> status = 504"

text \<open>
  \<^verbatim>\<open>waitBackoff\<close> waits for the timer or the context: \<open>wait\<close> is how the world looks afterwards (time has
  passed), and a context that is done then is the error.
\<close>

definition waitBackoff ::
  "('w \<Rightarrow> duration \<Rightarrow> 'w) \<Rightarrow> 'w call_context \<Rightarrow> 'w \<Rightarrow> duration \<Rightarrow> 'w \<times> goerr option" where
  "waitBackoff wait ctx w d = (let w1 = (if d \<le> 0 then w else wait w d) in (w1, cc_Err ctx w1))"

definition out_path :: "string \<Rightarrow> string \<Rightarrow> string" where
  "out_path base route = TrimRight base (CHR ''/'') @ ''/'' @ TrimLeft route (CHR ''/'')"

definition out_headers :: "'w call_context \<Rightarrow> string \<Rightarrow> header" where
  "out_headers ctx body =
     (let h1 = Header_Set Map.empty ''Accept'' ''application/json'';
          h2 = (if body \<noteq> [] then Header_Set h1 ''Content-Type'' ''application/json'' else h1);
          h3 = (if cc_RequestID ctx \<noteq> [] then Header_Set h2 ''X-Request-ID'' (cc_RequestID ctx) else h2)
      in if cc_TraceID ctx \<noteq> [] then Header_Set h3 ''X-Trace-ID'' (cc_TraceID ctx) else h3)"

text \<open>\<^verbatim>\<open>http.NewRequestWithContext\<close> refuses a method that is not a token.\<close>

definition newRequest ::
  "'w client \<Rightarrow> 'w call_context \<Rightarrow> 'w \<Rightarrow> string \<Rightarrow> string \<Rightarrow> string \<Rightarrow> string \<Rightarrow> 'w \<times> out_request result" where
  "newRequest c ctx w sid method route body =
     (if \<not> list_all isTokenChar method then (w, Inl (ErrorString ''net/http: invalid method''))
      else
        (let req = \<lparr>oq_Method = (if method = [] then ''GET'' else method),
                    oq_Path = out_path (cl_BasePath c) route, oq_Header = out_headers ctx body,
                    oq_Body = body\<rparr>
         in case (if sid = [] then None else cl_Tokens c) of
              None \<Rightarrow> (w, Inr req)
            | Some tokens0 \<Rightarrow>
                (case tokens0 w sid of
                   (w1, Inl e) \<Rightarrow> (w1, Inl e)
                 | (w1, Inr t) \<Rightarrow>
                     (w1, Inr (req\<lparr>oq_Header := Header_Set (oq_Header req) ''Authorization''
                        (''Bearer '' @ t)\<rparr>)))))"

definition body_limit :: "'w client \<Rightarrow> int" where
  "body_limit c = (if cl_MaxBodyBytes c \<le> 0 then 1048576 else cl_MaxBodyBytes c)"

text \<open>
  The result of a call: an error, or the decoded value (\<open>None\<close> when there was nothing to decode).
  \<open>decode\<close> is \<open>None\<close> for a nil \<^verbatim>\<open>out\<close>.
\<close>

definition handleResponse ::
  "'w client \<Rightarrow> (string \<Rightarrow> 'v result) option \<Rightarrow> out_response \<Rightarrow> ('v option) result" where
  "handleResponse c decode resp =
     (case op_Body resp of
        Inl e \<Rightarrow> Inl e
      | Inr body \<Rightarrow>
          if body_limit c < int (length body)
          then Inl (ErrorString (''outbound response exceeds '' @ Itoa (body_limit c) @ '' bytes''))
          else if op_StatusCode resp < 200 \<or> 300 \<le> op_StatusCode resp
          then Inl (OutboundError (normalizeStatus (op_StatusCode resp)) (op_StatusCode resp)
                 (StatusText (op_StatusCode resp)))
          else (case decode of
            None \<Rightarrow> Inr None
          | Some f \<Rightarrow>
              if body = [] then Inr None
              else (case f body of
                Inl e \<Rightarrow> Inl (ErrWrapped ''decode outbound response'' e)
              | Inr v \<Rightarrow> Inr (Some v))))"

definition attempts :: "'w client \<Rightarrow> string \<Rightarrow> nat" where
  "attempts c method =
     (if isIdempotent method \<and> 0 < cl_MaxRetries c then Suc (nat (cl_MaxRetries c)) else 1)"

text \<open>The retry loop; the argument is the number of attempts that are left.\<close>

fun DoJSON_loop ::
  "('w \<Rightarrow> duration \<Rightarrow> 'w) \<Rightarrow> 'w client \<Rightarrow> 'w call_context \<Rightarrow> string \<Rightarrow> string \<Rightarrow> string \<Rightarrow> string
   \<Rightarrow> (string \<Rightarrow> 'v result) option \<Rightarrow> nat \<Rightarrow> goerr \<Rightarrow> 'w \<Rightarrow> 'w \<times> ('v option) result" where
  "DoJSON_loop wait c ctx sid method path body decode 0 lastErr w = (w, Inl lastErr)"
| "DoJSON_loop wait c ctx sid method path body decode (Suc n) lastErr w =
     (case newRequest c ctx w sid method path body of
        (w1, Inl e) \<Rightarrow> (w1, Inl e)
      | (w1, Inr req) \<Rightarrow>
          (case cl_Do c w1 req of
             (w2, Inl e) \<Rightarrow>
               (case cc_Err ctx w2 of
                  Some ce \<Rightarrow> (w2, Inl (ErrWrapped ''outbound request'' ce))
                | None \<Rightarrow>
                    if 0 < n then
                      (case waitBackoff wait ctx w2 (cl_RetryBackoff c) of
                         (w3, Some be) \<Rightarrow> (w3, Inl (ErrWrapped ''outbound request'' be))
                       | (w3, None) \<Rightarrow> DoJSON_loop wait c ctx sid method path body decode n e w3)
                    else (w2, Inl (ErrWrapped ''outbound request'' e)))
           | (w2, Inr resp) \<Rightarrow>
               (case handleResponse c decode resp of
                  Inr v \<Rightarrow> (w2, Inr v)
                | Inl e \<Rightarrow>
                    if n = 0 \<or> \<not> retryableResponse (op_StatusCode resp) then (w2, Inl e)
                    else
                      (case waitBackoff wait ctx w2 (cl_RetryBackoff c) of
                         (w3, Some be) \<Rightarrow> (w3, Inl be)
                       | (w3, None) \<Rightarrow> DoJSON_loop wait c ctx sid method path body decode n e w3))))"

text \<open>\<open>body\<close> is the outcome of marshalling the input (no bytes for a nil one).\<close>

definition DoJSON ::
  "('w \<Rightarrow> duration \<Rightarrow> 'w) \<Rightarrow> 'w client \<Rightarrow> 'w call_context \<Rightarrow> string \<Rightarrow> string \<Rightarrow> string \<Rightarrow> string result
   \<Rightarrow> (string \<Rightarrow> 'v result) option \<Rightarrow> 'w \<Rightarrow> 'w \<times> ('v option) result" where
  "DoJSON wait c ctx sid method path body decode w =
     (case body of
        Inl e \<Rightarrow> (w, Inl e)
      | Inr b \<Rightarrow>
          DoJSON_loop wait c ctx sid method path b decode (attempts c method) NilDereference w)"

subsection \<open>The observing client (observed.go)\<close>

definition outboundMetricOutcome :: "goerr option \<Rightarrow> string" where
  "outboundMetricOutcome err =
     (case err of
        None \<Rightarrow> ''success''
      | Some e \<Rightarrow>
          if IsKind e ErrRateLimited then ''rate_limited''
          else if IsKind e ErrUnavailable then ''unavailable''
          else if IsKind e ErrUnauthorized then ''unauthorized''
          else if IsKind e ErrForbidden then ''forbidden''
          else ''error'')"

type_synonym ('w, 'v) doer = "'w \<Rightarrow> 'w \<times> ('v option) result"

definition result_error :: "'a result \<Rightarrow> goerr option" where
  "result_error r = (case r of Inl e \<Rightarrow> Some e | Inr _ \<Rightarrow> None)"

definition ObservedClient_DoJSON ::
  "'z world_scheme meter \<Rightarrow> string \<Rightarrow> string \<Rightarrow> ('z world_scheme, 'v) doer \<Rightarrow> ('z world_scheme, 'v) doer" where
  "ObservedClient_DoJSON meter service method next w =
     (let (start, w1) = Now w;
          (w2, r) = next w1
      in case meter of
           None \<Rightarrow> (w2, r)
         | Some f \<Rightarrow>
             (let (now, w3) = Now w2
              in (f w3 (RecordOutbound service method (outboundMetricOutcome (result_error r))
                     (Time_Sub now start)), r)))"

subsection \<open>The protected client (protected.go)\<close>

record protect_config =
  pc_MaxConcurrent :: int
  pc_FailureThreshold :: int
  pc_OpenFor :: duration
  pc_ServiceName :: string

record breaker =
  br_failures :: int
  br_openedAt :: time
  br_halfOpen :: bool

text \<open>What \<^verbatim>\<open>init\<close> makes of the configuration.\<close>

definition protect_init :: "protect_config \<Rightarrow> protect_config" where
  "protect_init c =
     c\<lparr>pc_FailureThreshold := (if pc_FailureThreshold c \<le> 0 then 5 else pc_FailureThreshold c),
       pc_OpenFor := (if pc_OpenFor c \<le> 0 then 15 * Second else pc_OpenFor c)\<rparr>"

definition new_breaker :: breaker where
  "new_breaker = \<lparr>br_failures = 0, br_openedAt = 0, br_halfOpen = False\<rparr>"

definition isCircuitFailure :: "goerr option \<Rightarrow> bool" where
  "isCircuitFailure err \<longleftrightarrow>
     (case err of
        None \<Rightarrow> False
      | Some e \<Rightarrow>
          if errors_Is e ContextCanceled then False
          else if IsKind e ErrUnavailable then True
          else if errors_As_outbound e \<noteq> None then False
          else True)"

definition beforeRequest :: "protect_config \<Rightarrow> breaker \<Rightarrow> time \<Rightarrow> breaker \<times> goerr option" where
  "beforeRequest c b now =
     (if IsZero (br_openedAt b) then (b, None)
      else if Time_Sub now (br_openedAt b) < pc_OpenFor c
      then (b, Some (OutboundError ErrUnavailable 503 ''circuit open''))
      else if br_halfOpen b then (b, Some (OutboundError ErrUnavailable 503 ''circuit half-open''))
      else (b\<lparr>br_halfOpen := True\<rparr>, None))"

definition afterResult :: "protect_config \<Rightarrow> breaker \<Rightarrow> time \<Rightarrow> goerr option \<Rightarrow> breaker" where
  "afterResult c b now err =
     (if \<not> isCircuitFailure err then \<lparr>br_failures = 0, br_openedAt = 0, br_halfOpen = False\<rparr>
      else if br_halfOpen b
      then \<lparr>br_failures = pc_FailureThreshold c, br_openedAt = now, br_halfOpen = False\<rparr>
      else (let n = br_failures b + 1
            in if pc_FailureThreshold c \<le> n then b\<lparr>br_failures := n, br_openedAt := now\<rparr>
               else b\<lparr>br_failures := n\<rparr>))"

text \<open>Where \<^verbatim>\<open>afterResult\<close> reads the clock.\<close>

definition afterResult_reads :: "protect_config \<Rightarrow> breaker \<Rightarrow> goerr option \<Rightarrow> bool" where
  "afterResult_reads c b err \<longleftrightarrow>
     isCircuitFailure err \<and> (br_halfOpen b \<or> pc_FailureThreshold c \<le> br_failures b + 1)"

text \<open>
  The state of a protected client: the breaker and the number of tokens in the bulkhead channel,
  kept in the part of the world that \<open>get\<close> reads and \<open>put\<close> writes. In a run of one call after
  another the bulkhead always has room; the step relation below has the concurrent case.
\<close>

record guard_state =
  gu_breaker :: breaker
  gu_inuse :: int

definition bulkhead_full :: "protect_config \<Rightarrow> guard_state \<Rightarrow> bool" where
  "bulkhead_full c g \<longleftrightarrow> 0 < pc_MaxConcurrent c \<and> pc_MaxConcurrent c \<le> gu_inuse g"

definition bulkhead_acquire :: "protect_config \<Rightarrow> guard_state \<Rightarrow> guard_state" where
  "bulkhead_acquire c g = (if 0 < pc_MaxConcurrent c then g\<lparr>gu_inuse := gu_inuse g + 1\<rparr> else g)"

definition bulkhead_release :: "protect_config \<Rightarrow> guard_state \<Rightarrow> guard_state" where
  "bulkhead_release c g = (if 0 < pc_MaxConcurrent c then g\<lparr>gu_inuse := gu_inuse g - 1\<rparr> else g)"

definition ProtectedClient_DoJSON ::
  "('z world_scheme \<Rightarrow> guard_state) \<Rightarrow> (guard_state \<Rightarrow> 'z world_scheme \<Rightarrow> 'z world_scheme)
   \<Rightarrow> protect_config \<Rightarrow> 'z world_scheme meter \<Rightarrow> ('z world_scheme, 'v) doer option
   \<Rightarrow> ('z world_scheme, 'v) doer" where
  "ProtectedClient_DoJSON get put cfg0 meter next w =
     (case next of
        None \<Rightarrow> (w, Inl (OutboundError ErrUnavailable 503 ''outbound client unavailable''))
      | Some f \<Rightarrow>
          (let c = protect_init cfg0
           in if bulkhead_full c (get w)
              then (meter_call meter w (RecordOutboundRejected (pc_ServiceName c) ''bulkhead''),
                    Inl (OutboundError ErrUnavailable 503 ''bulkhead full''))
              else
                (let w1 = put (bulkhead_acquire c (get w)) w;
                     (now, w2) = (if IsZero (br_openedAt (gu_breaker (get w1))) then (0, w1) else Now w1);
                     (b, rejected) = beforeRequest c (gu_breaker (get w2)) now;
                     w3 = put ((get w2)\<lparr>gu_breaker := b\<rparr>) w2
                 in case rejected of
                      Some e \<Rightarrow>
                        (let w4 = meter_call meter w3 (RecordOutboundRejected (pc_ServiceName c) ''circuit'')
                         in (put (bulkhead_release c (get w4)) w4, Inl e))
                    | None \<Rightarrow>
                        (let (w4, r) = f w3;
                             (now2, w5) = (if afterResult_reads c (gu_breaker (get w4)) (result_error r)
                                           then Now w4 else (0, w4));
                             w6 = put ((get w5)\<lparr>gu_breaker :=
                                    afterResult c (gu_breaker (get w5)) now2 (result_error r)\<rparr>) w5
                         in (put (bulkhead_release c (get w6)) w6, r)))))"

subsection \<open>Concurrent calls\<close>

text \<open>
  Where a call stands: before the bulkhead, holding a slot, running (and whether it was let through
  an open circuit, as a probe), about to give the slot back, done. The mutex of the breaker makes
  \<^verbatim>\<open>beforeRequest\<close> and \<^verbatim>\<open>afterResult\<close> atomic; anything may happen between them.
\<close>

datatype call_stage = CIdle | CAcquired | CRunning bool | CReleasing | CDone

record calls =
  cs_guard :: guard_state
  cs_now :: time
  cs_stage :: "nat \<Rightarrow> call_stage"

inductive protect_step :: "protect_config \<Rightarrow> calls \<Rightarrow> calls \<Rightarrow> bool" for c :: protect_config where
  acquire: "cs_stage S i = CIdle \<Longrightarrow> \<not> bulkhead_full c (cs_guard S) \<Longrightarrow>
     protect_step c S (S\<lparr>cs_guard := bulkhead_acquire c (cs_guard S),
                        cs_stage := (cs_stage S)(i := CAcquired)\<rparr>)"
| full: "cs_stage S i = CIdle \<Longrightarrow> bulkhead_full c (cs_guard S) \<Longrightarrow>
     protect_step c S (S\<lparr>cs_stage := (cs_stage S)(i := CDone)\<rparr>)"
| admit: "cs_stage S i = CAcquired \<Longrightarrow> beforeRequest c (gu_breaker (cs_guard S)) (cs_now S) = (b, None) \<Longrightarrow>
     protect_step c S (S\<lparr>cs_guard := (cs_guard S)\<lparr>gu_breaker := b\<rparr>,
       cs_stage := (cs_stage S)(i := CRunning (\<not> IsZero (br_openedAt (gu_breaker (cs_guard S)))))\<rparr>)"
| reject: "cs_stage S i = CAcquired \<Longrightarrow> beforeRequest c (gu_breaker (cs_guard S)) (cs_now S) = (b, Some e) \<Longrightarrow>
     protect_step c S (S\<lparr>cs_guard := (cs_guard S)\<lparr>gu_breaker := b\<rparr>,
       cs_stage := (cs_stage S)(i := CReleasing)\<rparr>)"
| finish: "cs_stage S i = CRunning p \<Longrightarrow>
     protect_step c S (S\<lparr>cs_guard := (cs_guard S)\<lparr>gu_breaker :=
         afterResult c (gu_breaker (cs_guard S)) (cs_now S) err\<rparr>,
       cs_stage := (cs_stage S)(i := CReleasing)\<rparr>)"
| release: "cs_stage S i = CReleasing \<Longrightarrow>
     protect_step c S (S\<lparr>cs_guard := bulkhead_release c (cs_guard S),
       cs_stage := (cs_stage S)(i := CDone)\<rparr>)"
| tick: "0 \<le> d \<Longrightarrow> protect_step c S (S\<lparr>cs_now := cs_now S + d\<rparr>)"

definition calls_init :: "time \<Rightarrow> calls" where
  "calls_init now =
     \<lparr>cs_guard = \<lparr>gu_breaker = new_breaker, gu_inuse = 0\<rparr>, cs_now = now, cs_stage = (\<lambda>_. CIdle)\<rparr>"

fun holds_slot :: "call_stage \<Rightarrow> bool" where
  "holds_slot CAcquired = True"
| "holds_slot (CRunning _) = True"
| "holds_slot CReleasing = True"
| "holds_slot _ = False"

definition running :: "calls \<Rightarrow> nat set" where
  "running S = {i. \<exists>p. cs_stage S i = CRunning p}"

section \<open>Lemmas\<close>

subsection \<open>Retries\<close>

text \<open>A world that remembers what was put on the wire.\<close>

record wire_world = world +
  sent :: "out_request list"

definition wire_logged ::
  "('z wire_world_scheme \<Rightarrow> duration \<Rightarrow> 'z wire_world_scheme) \<Rightarrow> 'z wire_world_scheme client \<Rightarrow> bool" where
  "wire_logged wait c \<longleftrightarrow>
     (\<forall>w req. sent (fst (cl_Do c w req)) = sent w @ [req]) \<and> (\<forall>w d. sent (wait w d) = sent w) \<and>
     (\<forall>f w sid. cl_Tokens c = Some f \<longrightarrow> sent (fst (f w sid)) = sent w)"

lemma wire_loggedD:
  assumes "wire_logged wait c"
  shows "cl_Do c w req = (w', r) \<Longrightarrow> sent w' = sent w @ [req]"
    and "waitBackoff wait ctx w d = (w', be) \<Longrightarrow> sent w' = sent w"
proof -
  show "cl_Do c w req = (w', r) \<Longrightarrow> sent w' = sent w @ [req]"
    using assms unfolding wire_logged_def by (metis fst_conv)
  show "waitBackoff wait ctx w d = (w', be) \<Longrightarrow> sent w' = sent w"
    using assms by (auto simp: waitBackoff_def wire_logged_def Let_def split: if_splits)
qed

lemma newRequest_sent:
  assumes "wire_logged wait c" "newRequest c ctx w sid method route body = (w1, r)"
  shows "sent w1 = sent w"
    and "r = Inr req \<Longrightarrow> oq_Body req = body \<and> oq_Path req = out_path (cl_BasePath c) route \<and>
      oq_Method req = (if method = [] then ''GET'' else method)"
proof -
  have t: "sent w' = sent w" if "cl_Tokens c = Some f" "f w sid = (w', x)" for f w' x
    using assms(1) that unfolding wire_logged_def by (metis fst_conv)
  show "sent w1 = sent w"
    using assms(2) by (auto simp: newRequest_def Let_def split: if_splits option.splits prod.splits sum.splits
        dest: t)
  show "r = Inr req \<Longrightarrow> oq_Body req = body \<and> oq_Path req = out_path (cl_BasePath c) route \<and>
      oq_Method req = (if method = [] then ''GET'' else method)"
    using assms(2) by (auto simp: newRequest_def Let_def split: if_splits option.splits prod.splits sum.splits)
qed

text \<open>The requests of one call, all alike but for the headers.\<close>

definition same_request :: "'w client \<Rightarrow> string \<Rightarrow> string \<Rightarrow> string \<Rightarrow> out_request \<Rightarrow> bool" where
  "same_request c method path body req \<longleftrightarrow>
     oq_Body req = body \<and> oq_Path req = out_path (cl_BasePath c) path \<and>
     oq_Method req = (if method = [] then ''GET'' else method)"

lemma DoJSON_loop_sent:
  assumes log: "wire_logged wait c"
  shows "DoJSON_loop wait c ctx sid method path body decode n le w = (w', r) \<Longrightarrow>
    \<exists>reqs. sent w' = sent w @ reqs \<and> length reqs \<le> n \<and> list_all (same_request c method path body) reqs"
proof (induction n arbitrary: le w)
  case 0
  then show ?case by simp
next
  case (Suc n)
  obtain w1 x where x: "newRequest c ctx w sid method path body = (w1, x)" by fastforce
  note s1 = newRequest_sent [OF log x]
  show ?case
  proof (cases x)
    case (Inl e)
    with Suc.prems x s1(1) show ?thesis by (intro exI [of _ "[]"]) auto
  next
    case (Inr req)
    obtain w2 y where y: "cl_Do c w1 req = (w2, y)" by fastforce
    have s2: "sent w2 = sent w @ [req]" using wire_loggedD(1) [OF log y] s1(1) by simp
    have sr: "same_request c method path body req" using s1(2) Inr by (simp add: same_request_def)
    have one: ?thesis if "sent w' = sent w2"
      using that s2 sr by (intro exI [of _ "[req]"]) simp
    have more: ?thesis
      if wb: "waitBackoff wait ctx w2 (cl_RetryBackoff c) = (w3, z)"
        and lp: "DoJSON_loop wait c ctx sid method path body decode n le' w3 = (w', r)" for w3 z le'
    proof -
      obtain reqs where "sent w' = sent w3 @ reqs" "length reqs \<le> n"
        "list_all (same_request c method path body) reqs"
        using Suc.IH [OF lp] by blast
      then show ?thesis
        using wire_loggedD(2) [OF log wb] s2 sr by (intro exI [of _ "req # reqs"]) simp
    qed
    obtain w3 z where z: "waitBackoff wait ctx w2 (cl_RetryBackoff c) = (w3, z)" by fastforce
    note s3 = wire_loggedD(2) [OF log z]
    have "sent w' = sent w2 \<or> (\<exists>le'. DoJSON_loop wait c ctx sid method path body decode n le' w3 = (w', r))"
      using Suc.prems x Inr y z s3
      by (auto split: sum.splits option.splits if_splits)
    then show ?thesis using one more [OF z] by blast
  qed
qed

subsection \<open>Calls one after another\<close>

text \<open>
  A sequence of calls, each with the clock before and after it and its outcome, had it been let
  through; the log says which were.
\<close>

fun breaker_run ::
  "protect_config \<Rightarrow> breaker \<Rightarrow> (time \<times> time \<times> goerr option) list \<Rightarrow> breaker \<times> bool list" where
  "breaker_run c b [] = (b, [])"
| "breaker_run c b ((t1, t2, err) # xs) =
     (case beforeRequest c b t1 of
        (b1, Some e) \<Rightarrow> (let (b2, lg) = breaker_run c b1 xs in (b2, False # lg))
      | (b1, None) \<Rightarrow> (let (b2, lg) = breaker_run c (afterResult c b1 t2 err) xs in (b2, True # lg)))"

lemma breaker_run_append:
  "breaker_run c b (xs @ ys) =
     (let (b1, l1) = breaker_run c b xs; (b2, l2) = breaker_run c b1 ys in (b2, l1 @ l2))"
  by (induction c b xs rule: breaker_run.induct)
    (auto simp: Let_def split: prod.splits option.splits)

text \<open>While the circuit is closed every call gets through and the failures add up.\<close>

lemma breaker_run_failures:
  "br_openedAt b = 0 \<Longrightarrow> \<not> br_halfOpen b \<Longrightarrow>
   br_failures b + int (length xs) < pc_FailureThreshold c \<Longrightarrow>
   list_all (\<lambda>(t1, t2, err). isCircuitFailure err) xs \<Longrightarrow>
   breaker_run c b xs = (b\<lparr>br_failures := br_failures b + int (length xs)\<rparr>, replicate (length xs) True)"
proof (induction xs arbitrary: b)
  case (Cons x xs)
  obtain t1 t2 err where x: "x = (t1, t2, err)" using prod_cases3 by blast
  have "afterResult c b t2 err = b\<lparr>br_failures := br_failures b + 1\<rparr>"
    using Cons.prems x by (simp add: afterResult_def Let_def)
  then show ?case
    using Cons.prems x Cons.IH [of "b\<lparr>br_failures := br_failures b + 1\<rparr>"]
    by (simp add: beforeRequest_def IsZero_def algebra_simps)
qed simp

text \<open>While it is open no call gets through and nothing changes.\<close>

lemma breaker_run_open:
  "br_openedAt b \<noteq> 0 \<Longrightarrow> list_all (\<lambda>(t1, t2, err). Time_Sub t1 (br_openedAt b) < pc_OpenFor c) xs \<Longrightarrow>
   breaker_run c b xs = (b, replicate (length xs) False)"
  by (induction xs) (auto simp: beforeRequest_def IsZero_def)

subsection \<open>Concurrent calls\<close>

definition slots :: "calls \<Rightarrow> nat set" where
  "slots S = {i. holds_slot (cs_stage S i)}"

definition bulkhead_inv :: "protect_config \<Rightarrow> calls \<Rightarrow> bool" where
  "bulkhead_inv c S \<longleftrightarrow> finite (slots S) \<and>
     (0 < pc_MaxConcurrent c \<longrightarrow>
        gu_inuse (cs_guard S) = int (card (slots S)) \<and> gu_inuse (cs_guard S) \<le> pc_MaxConcurrent c)"

lemma slots_upd:
  "slots (S\<lparr>cs_guard := g, cs_stage := (cs_stage S)(i := st)\<rparr>) =
     (if holds_slot st then insert i (slots S) else slots S - {i})"
  "slots (S\<lparr>cs_stage := (cs_stage S)(i := st)\<rparr>) =
     (if holds_slot st then insert i (slots S) else slots S - {i})"
  "slots (S\<lparr>cs_now := t\<rparr>) = slots S"
  by (auto simp: slots_def)

lemma slots_iff: "i \<in> slots S \<longleftrightarrow> holds_slot (cs_stage S i)"
  by (simp add: slots_def)

lemma bulkhead_step:
  assumes "protect_step c S S'" "bulkhead_inv c S"
  shows "bulkhead_inv c S'"
  using assms
proof (cases rule: protect_step.cases)
  case (acquire i)
  then have "i \<notin> slots S" by (simp add: slots_iff)
  with acquire assms(2) show ?thesis
    by (auto simp: bulkhead_inv_def slots_upd bulkhead_acquire_def bulkhead_full_def)
next
  case (full i)
  then have "slots S' = slots S" "cs_guard S' = cs_guard S" by (auto simp: slots_def)
  with assms(2) show ?thesis by (auto simp: bulkhead_inv_def)
next
  case (admit i b)
  then have "slots S' = slots S" "gu_inuse (cs_guard S') = gu_inuse (cs_guard S)"
    by (auto simp: slots_def)
  with assms(2) show ?thesis by (auto simp: bulkhead_inv_def)
next
  case (reject i b e)
  then have "slots S' = slots S" "gu_inuse (cs_guard S') = gu_inuse (cs_guard S)"
    by (auto simp: slots_def)
  with assms(2) show ?thesis by (auto simp: bulkhead_inv_def)
next
  case (finish i p err)
  then have "slots S' = slots S" "gu_inuse (cs_guard S') = gu_inuse (cs_guard S)"
    by (auto simp: slots_def)
  with assms(2) show ?thesis by (auto simp: bulkhead_inv_def)
next
  case (release i)
  then have i: "i \<in> slots S" by (simp add: slots_iff)
  have "0 < card (slots S)" if "finite (slots S)" using i that by (auto simp: card_gt_0_iff)
  with release i assms(2) show ?thesis
    by (auto simp: bulkhead_inv_def slots_upd bulkhead_release_def card_Diff_singleton)
next
  case (tick d)
  with assms(2) show ?thesis by (auto simp: bulkhead_inv_def slots_upd)
qed

lemma bulkhead_reach:
  assumes "(protect_step c)\<^sup>*\<^sup>* S S'" "bulkhead_inv c S"
  shows "bulkhead_inv c S'"
  using assms by (induction rule: rtranclp_induct) (auto intro: bulkhead_step)

lemma running_slots: "running S \<subseteq> slots S"
  by (auto simp: running_def slots_def)

lemma running_keep:
  assumes "\<nexists>p. cs_stage S j = CRunning p" "\<nexists>p. st = CRunning p"
    "cs_stage S' = (cs_stage S)(j := st)"
  shows "running S' = running S"
  using assms by (auto simp: running_def)

text \<open>A lone probe: the circuit is half-open and nothing else is running.\<close>

definition lone_probe :: "nat \<Rightarrow> calls \<Rightarrow> bool" where
  "lone_probe i S \<longleftrightarrow> running S = {i} \<and> br_halfOpen (gu_breaker (cs_guard S)) \<and>
     br_openedAt (gu_breaker (cs_guard S)) \<noteq> 0"

lemma lone_probe_step:
  assumes "protect_step c S S'" "lone_probe i S" "i \<in> running S'"
  shows "lone_probe i S'"
  using assms
proof (cases rule: protect_step.cases)
  case (admit j b)
  with assms(2) show ?thesis
    by (auto simp: lone_probe_def beforeRequest_def IsZero_def split: if_splits)
next
  case (reject j b e)
  have "running S' = running S" by (rule running_keep [of S j CReleasing]) (use reject in auto)
  with reject assms(2) show ?thesis
    by (auto simp: lone_probe_def beforeRequest_def IsZero_def split: if_splits)
next
  case (finish j p err)
  then have "j = i" using assms(2) by (auto simp: lone_probe_def running_def)
  with finish assms(3) show ?thesis by (auto simp: running_def)
next
  case (acquire j)
  have "running S' = running S" by (rule running_keep [of S j CAcquired]) (use acquire in auto)
  with acquire assms(2) show ?thesis
    by (auto simp: lone_probe_def bulkhead_acquire_def)
next
  case (full j)
  have "running S' = running S" by (rule running_keep [of S j CDone]) (use full in auto)
  with full assms(2) show ?thesis by (auto simp: lone_probe_def)
next
  case (release j)
  have "running S' = running S" by (rule running_keep [of S j CDone]) (use release in auto)
  with release assms(2) show ?thesis
    by (auto simp: lone_probe_def bulkhead_release_def)
next
  case (tick d)
  with assms(2) show ?thesis by (auto simp: lone_probe_def running_def)
qed

section \<open>Concrete data\<close>

definition demo_protect :: protect_config where
  "demo_protect = \<lparr>pc_MaxConcurrent = 0, pc_FailureThreshold = 1, pc_OpenFor = 15 * Second,
     pc_ServiceName = ''svc''\<rparr>"

definition demo_down :: "goerr option" where
  "demo_down = Some (ExternalError ''connection refused'')"

definition demo_calls :: "time \<Rightarrow> breaker \<Rightarrow> (nat \<Rightarrow> call_stage) \<Rightarrow> calls" where
  "demo_calls now b st = \<lparr>cs_guard = \<lparr>gu_breaker = b, gu_inuse = 0\<rparr>, cs_now = now, cs_stage = st\<rparr>"

definition demo_open :: "time \<Rightarrow> bool \<Rightarrow> breaker" where
  "demo_open t half = \<lparr>br_failures = 1, br_openedAt = t, br_halfOpen = half\<rparr>"

definition demo_client :: "wire_world client" where
  "demo_client =
     \<lparr>cl_BasePath = ''/api'',
      cl_Do = (\<lambda>w req. (w\<lparr>sent := sent w @ [req]\<rparr>, Inr \<lparr>op_StatusCode = 503, op_Body = Inr []\<rparr>)),
      cl_Tokens = None, cl_MaxRetries = 2, cl_RetryBackoff = 0, cl_MaxBodyBytes = 0\<rparr>"

definition demo_context :: "'w call_context" where
  "demo_context = \<lparr>cc_RequestID = ''r'', cc_TraceID = [], cc_Err = (\<lambda>_. None)\<rparr>"

definition demo_wire :: wire_world where
  "demo_wire = \<lparr>clk = demo_clock, ticks = 0, rand_src = (\<lambda>i n. Inr (replicate n i)), rands = 0,
     sent = []\<rparr>"

text \<open>Steps of concrete calls without a bulkhead.\<close>

lemma demo_admit:
  assumes "st i = CIdle" "beforeRequest demo_protect b now = (b', None)"
  shows "(protect_step demo_protect)\<^sup>*\<^sup>* (demo_calls now b st)
    (demo_calls now b' (st(i := CRunning (br_openedAt b \<noteq> 0))))"
proof -
  have "protect_step demo_protect (demo_calls now b st) (demo_calls now b (st(i := CAcquired)))"
    using protect_step.acquire [of "demo_calls now b st" i demo_protect] assms(1)
    by (simp add: demo_calls_def bulkhead_full_def bulkhead_acquire_def demo_protect_def)
  moreover have "protect_step demo_protect (demo_calls now b (st(i := CAcquired)))
      (demo_calls now b' (st(i := CRunning (br_openedAt b \<noteq> 0))))"
    using protect_step.admit [of "demo_calls now b (st(i := CAcquired))" i demo_protect b'] assms(2)
    by (simp add: demo_calls_def IsZero_def)
  ultimately show ?thesis by (meson converse_rtranclp_into_rtranclp r_into_rtranclp)
qed

lemma demo_finish:
  assumes "st i = CRunning p" "afterResult demo_protect b now err = b'"
  shows "(protect_step demo_protect)\<^sup>*\<^sup>* (demo_calls now b st) (demo_calls now b' (st(i := CReleasing)))"
  using protect_step.finish [of "demo_calls now b st" i p demo_protect err] assms
  by (intro r_into_rtranclp) (simp add: demo_calls_def)

lemma demo_tick:
  assumes "now \<le> now'"
  shows "(protect_step demo_protect)\<^sup>*\<^sup>* (demo_calls now b st) (demo_calls now' b st)"
  using protect_step.tick [of "now' - now" demo_protect "demo_calls now b st"] assms
  by (intro r_into_rtranclp) (simp add: demo_calls_def)

lemmas breaker_eval = beforeRequest_def afterResult_def demo_protect_def demo_open_def new_breaker_def
  isCircuitFailure_def IsKind_def demo_down_def IsZero_def Time_Sub_def Let_def

text \<open>What one call of \<^verbatim>\<open>DoJSON\<close> puts on the wire.\<close>

lemma DoJSON_sent:
  assumes "wire_logged wait c" and "DoJSON wait c ctx sid method path body decode w = (w', r)"
  shows "\<exists>reqs b. sent w' = sent w @ reqs \<and> list_all (same_request c method path b) reqs \<and>
    length reqs \<le> Suc (nat (cl_MaxRetries c)) \<and> (\<not> isIdempotent method \<longrightarrow> length reqs \<le> 1)"
proof (cases body)
  case (Inl e)
  with assms(2) show ?thesis by (intro exI [of _ "[]"]) (auto simp: DoJSON_def)
next
  case (Inr b)
  then have "DoJSON_loop wait c ctx sid method path b decode (attempts c method) NilDereference w = (w', r)"
    using assms(2) by (simp add: DoJSON_def)
  from DoJSON_loop_sent [OF assms(1) this] obtain reqs where "sent w' = sent w @ reqs"
    "length reqs \<le> attempts c method" "list_all (same_request c method path b) reqs" by blast
  then show ?thesis
    by (intro exI [of _ reqs] exI [of _ b]) (auto simp: attempts_def split: if_splits)
qed

section \<open>Properties\<close>

text \<open>
  C28. Retries are bounded and never repeat a state-changing call: one call of \<^verbatim>\<open>DoJSON\<close> puts at most
  one request more than \<^verbatim>\<open>MaxRetries\<close> on the wire, at most one for a method other than GET, HEAD and
  OPTIONS, and all of them have the same method, path and body.
\<close>

theorem retries_bounded:
  assumes "wire_logged wait c" and "DoJSON wait c ctx sid method path body decode w = (w', r)"
  shows "\<exists>reqs b. sent w' = sent w @ reqs \<and> list_all (same_request c method path b) reqs \<and>
    length reqs \<le> Suc (nat (cl_MaxRetries c)) \<and> (\<not> isIdempotent method \<longrightarrow> length reqs \<le> 1)"
  using assms by (rule DoJSON_sent)

theorem retries_bounded_witness:
  "length (sent (fst (DoJSON (\<lambda>w d. w) demo_client demo_context [] ''GET'' ''/x'' (Inr [])
      (None :: (string \<Rightarrow> unit result) option) demo_wire))) = 3 \<and>
   (\<exists>reqs b. sent (fst (DoJSON (\<lambda>w d. w) demo_client demo_context [] ''POST'' ''/x'' (Inr ''{}'')
        (None :: (string \<Rightarrow> unit result) option) demo_wire)) = sent demo_wire @ reqs \<and>
      list_all (same_request demo_client ''POST'' ''/x'' b) reqs \<and>
      length reqs \<le> Suc (nat (cl_MaxRetries demo_client)) \<and>
      (\<not> isIdempotent ''POST'' \<longrightarrow> length reqs \<le> 1))"
proof
  show "length (sent (fst (DoJSON (\<lambda>w d. w) demo_client demo_context [] ''GET'' ''/x'' (Inr [])
      (None :: (string \<Rightarrow> unit result) option) demo_wire))) = 3"
    by code_simp
  have "wire_logged (\<lambda>w d. w) demo_client" by (simp add: wire_logged_def demo_client_def)
  then show "\<exists>reqs b. sent (fst (DoJSON (\<lambda>w d. w) demo_client demo_context [] ''POST'' ''/x'' (Inr ''{}'')
        (None :: (string \<Rightarrow> unit result) option) demo_wire)) = sent demo_wire @ reqs \<and>
      list_all (same_request demo_client ''POST'' ''/x'' b) reqs \<and>
      length reqs \<le> Suc (nat (cl_MaxRetries demo_client)) \<and>
      (\<not> isIdempotent ''POST'' \<longrightarrow> length reqs \<le> 1)"
    by (rule retries_bounded [OF _ prod.collapse [symmetric]])
qed

text \<open>
  The circuit breaker's cycle, for calls one after another: as many failures in a row as the
  threshold open the circuit; while the open interval lasts every further call is rejected without
  reaching the upstream; then one call is let through, whose success closes the circuit for good
  and whose failure opens it anew.
\<close>

theorem circuit_breaker_cycle:
  assumes "pc_FailureThreshold c = int (Suc (length xs))"
    and "list_all (\<lambda>(t1, t2, err). isCircuitFailure err) (xs @ [(u1, u2, err1)])" and "u2 \<noteq> 0"
    and "list_all (\<lambda>(t1, t2, err). Time_Sub t1 u2 < pc_OpenFor c) ys"
    and "\<not> Time_Sub v1 u2 < pc_OpenFor c"
  shows "\<exists>b. breaker_run c new_breaker (xs @ [(u1, u2, err1)] @ ys @ [(v1, v2, err2)]) =
      (b, replicate (Suc (length xs)) True @ replicate (length ys) False @ [True]) \<and>
    (\<not> isCircuitFailure err2 \<longrightarrow> b = new_breaker) \<and>
    (isCircuitFailure err2 \<longrightarrow> br_openedAt b = v2 \<and> \<not> br_halfOpen b)"
proof -
  have 1: "breaker_run c new_breaker xs = (new_breaker\<lparr>br_failures := int (length xs)\<rparr>,
      replicate (length xs) True)"
    using breaker_run_failures [of new_breaker xs c] assms(1,2) by (simp add: new_breaker_def)
  let ?b = "\<lparr>br_failures = int (Suc (length xs)), br_openedAt = u2, br_halfOpen = False\<rparr>"
  have 2: "breaker_run c (new_breaker\<lparr>br_failures := int (length xs)\<rparr>) [(u1, u2, err1)] = (?b, [True])"
    using assms(1,2) by (simp add: new_breaker_def beforeRequest_def afterResult_def IsZero_def)
  have 3: "breaker_run c ?b ys = (?b, replicate (length ys) False)"
    using breaker_run_open [of ?b c ys] assms(3,4) by simp
  have 4: "breaker_run c ?b [(v1, v2, err2)] =
      (afterResult c (?b\<lparr>br_halfOpen := True\<rparr>) v2 err2, [True])"
    using assms(3,5) by (simp add: beforeRequest_def IsZero_def)
  let ?b' = "afterResult c (?b\<lparr>br_halfOpen := True\<rparr>) v2 err2"
  have "breaker_run c new_breaker (xs @ [(u1, u2, err1)] @ ys @ [(v1, v2, err2)]) =
      (?b', replicate (length xs) True @ [True] @ replicate (length ys) False @ [True])"
    by (simp only: breaker_run_append 1 2 3 4 Let_def prod.case)
  moreover have "\<not> isCircuitFailure err2 \<longrightarrow> ?b' = new_breaker"
    "isCircuitFailure err2 \<longrightarrow> br_openedAt ?b' = v2 \<and> \<not> br_halfOpen ?b'"
    by (simp_all add: afterResult_def new_breaker_def)
  ultimately show ?thesis
    by (intro exI [of _ ?b']) (simp add: replicate_append_same)
qed

theorem circuit_breaker_cycle_witness:
  "\<exists>b. breaker_run demo_protect new_breaker ([] @ [(Hour, Hour, demo_down)] @
        [(Hour + Second, Hour + Second, demo_down)] @ [(Hour + Minute, Hour + Minute, None)]) =
      (b, replicate (Suc 0) True @ replicate 1 False @ [True]) \<and> b = new_breaker"
proof -
  have "pc_FailureThreshold demo_protect = int (Suc (length []))"
    "list_all (\<lambda>(t1, t2, err). isCircuitFailure err) ([] @ [(Hour, Hour, demo_down)])" "Hour \<noteq> (0 :: int)"
    "list_all (\<lambda>(t1, t2, err). Time_Sub t1 Hour < pc_OpenFor demo_protect)
       [(Hour + Second, Hour + Second, demo_down)]"
    "\<not> Time_Sub (Hour + Minute) Hour < pc_OpenFor demo_protect" "\<not> isCircuitFailure None"
    by (simp_all add: demo_protect_def demo_down_def isCircuitFailure_def IsKind_def Time_Sub_def)
  with circuit_breaker_cycle [of demo_protect "[]" Hour Hour demo_down
      "[(Hour + Second, Hour + Second, demo_down)]" "Hour + Minute" "Hour + Minute" None]
  show ?thesis by auto
qed

text \<open>
  C29. The bulkhead holds under concurrency: over every interleaving of calls, no more than
  \<^verbatim>\<open>MaxConcurrent\<close> calls run at once.
\<close>

theorem bulkhead_bound:
  assumes "0 < pc_MaxConcurrent c" and "(protect_step c)\<^sup>*\<^sup>* (calls_init now) S"
  shows "finite (running S) \<and> int (card (running S)) \<le> pc_MaxConcurrent c"
proof -
  have "bulkhead_inv c (calls_init now)"
    using assms(1) by (simp add: bulkhead_inv_def slots_def calls_init_def)
  from bulkhead_reach [OF assms(2) this] have "finite (slots S)" "int (card (slots S)) \<le> pc_MaxConcurrent c"
    using assms(1) by (simp_all add: bulkhead_inv_def)
  then show ?thesis
    using running_slots [of S] card_mono [of "slots S" "running S"] by (auto intro: finite_subset)
qed

theorem bulkhead_bound_witness:
  "let c = demo_protect\<lparr>pc_MaxConcurrent := 1\<rparr>;
       S = (calls_init Hour)\<lparr>cs_guard := bulkhead_acquire c (cs_guard (calls_init Hour)),
             cs_stage := (cs_stage (calls_init Hour))(0 := CAcquired)\<rparr>
   in finite (running S) \<and> int (card (running S)) \<le> pc_MaxConcurrent c"
  unfolding Let_def
proof (rule bulkhead_bound)
  show "0 < pc_MaxConcurrent (demo_protect\<lparr>pc_MaxConcurrent := 1\<rparr>)" by simp
  show "(protect_step (demo_protect\<lparr>pc_MaxConcurrent := 1\<rparr>))\<^sup>*\<^sup>* (calls_init Hour) ((calls_init Hour)
      \<lparr>cs_guard := bulkhead_acquire (demo_protect\<lparr>pc_MaxConcurrent := 1\<rparr>) (cs_guard (calls_init Hour)),
       cs_stage := (cs_stage (calls_init Hour))(0 := CAcquired)\<rparr>)"
    by (rule r_into_rtranclp, rule protect_step.acquire)
      (simp_all add: calls_init_def bulkhead_full_def)
qed

text \<open>
  A half-open circuit admits a single probe, as long as no earlier call is still under way: when
  the probe is the only call running, then through any steps of other calls and of the clock that
  do not end it, it stays the only one.
\<close>

theorem half_open_single_probe:
  assumes "lone_probe i S" and "(\<lambda>S S'. protect_step c S S' \<and> i \<in> running S')\<^sup>*\<^sup>* S S'"
  shows "running S' = {i}"
proof -
  have "lone_probe i S'"
    using assms(2,1) by (induction rule: rtranclp_induct) (auto intro: lone_probe_step)
  then show ?thesis by (simp add: lone_probe_def)
qed

theorem half_open_single_probe_witness:
  "running ((demo_calls (2 * Hour) (demo_open Hour True) ((\<lambda>_. CIdle)(2 := CRunning True)))
     \<lparr>cs_now := 3 * Hour\<rparr>) = {2}"
proof (rule half_open_single_probe)
  show "lone_probe 2 (demo_calls (2 * Hour) (demo_open Hour True) ((\<lambda>_. CIdle)(2 := CRunning True)))"
    by (auto simp: lone_probe_def demo_calls_def demo_open_def running_def)
  show "(\<lambda>S S'. protect_step demo_protect S S' \<and> 2 \<in> running S')\<^sup>*\<^sup>*
      (demo_calls (2 * Hour) (demo_open Hour True) ((\<lambda>_. CIdle)(2 := CRunning True)))
      ((demo_calls (2 * Hour) (demo_open Hour True) ((\<lambda>_. CIdle)(2 := CRunning True)))\<lparr>cs_now := 3 * Hour\<rparr>)"
    using protect_step.tick [of Hour demo_protect
        "demo_calls (2 * Hour) (demo_open Hour True) ((\<lambda>_. CIdle)(2 := CRunning True))"]
    by (intro r_into_rtranclp) (auto simp: demo_calls_def running_def)
qed

text \<open>
  With an earlier call still under way, two probes can run at once: a call that started before the
  circuit opened and fails while a probe is running resets the half-open mark, so that after the next
  open interval a second probe is admitted beside the first.
\<close>

theorem half_open_two_probes:
  "\<exists>S. (protect_step demo_protect)\<^sup>*\<^sup>* (calls_init Hour) S \<and>
     cs_stage S 2 = CRunning True \<and> cs_stage S 3 = CRunning True"
proof -
  let ?s0 = "\<lambda>_ :: nat. CIdle"
  let ?s1 = "?s0(0 := CRunning False)"
  let ?s2 = "?s1(1 := CRunning False)"
  let ?s3 = "?s2(1 := CReleasing)"
  let ?s4 = "?s3(2 := CRunning True)"
  let ?s5 = "?s4(0 := CReleasing)"
  let ?s6 = "?s5(3 := CRunning True)"
  note tr [trans] = rtranclp_trans [of "protect_step demo_protect"]
  have "calls_init Hour = demo_calls Hour new_breaker ?s0"
    by (simp add: calls_init_def demo_calls_def)
  also have "(protect_step demo_protect)\<^sup>*\<^sup>* \<dots> (demo_calls Hour new_breaker ?s1)"
    using demo_admit [of ?s0 0 new_breaker Hour new_breaker] by (simp add: breaker_eval)
  also have "(protect_step demo_protect)\<^sup>*\<^sup>* \<dots> (demo_calls Hour new_breaker ?s2)"
    using demo_admit [of ?s1 1 new_breaker Hour new_breaker] by (simp add: breaker_eval)
  also have "(protect_step demo_protect)\<^sup>*\<^sup>* \<dots> (demo_calls Hour (demo_open Hour False) ?s3)"
    by (rule demo_finish [of ?s2 1 False _ _ demo_down]) (simp_all add: breaker_eval)
  also have "(protect_step demo_protect)\<^sup>*\<^sup>* \<dots> (demo_calls (2 * Hour) (demo_open Hour False) ?s3)"
    by (rule demo_tick) simp
  also have "(protect_step demo_protect)\<^sup>*\<^sup>* \<dots> (demo_calls (2 * Hour) (demo_open Hour True) ?s4)"
    using demo_admit [of ?s3 2 "demo_open Hour False" "2 * Hour" "demo_open Hour True"]
    by (simp add: breaker_eval)
  also have "(protect_step demo_protect)\<^sup>*\<^sup>* \<dots> (demo_calls (2 * Hour) (demo_open (2 * Hour) False) ?s5)"
    by (rule demo_finish [of ?s4 0 False _ _ demo_down]) (simp_all add: breaker_eval)
  also have "(protect_step demo_protect)\<^sup>*\<^sup>* \<dots> (demo_calls (3 * Hour) (demo_open (2 * Hour) False) ?s5)"
    by (rule demo_tick) simp
  also have "(protect_step demo_protect)\<^sup>*\<^sup>* \<dots> (demo_calls (3 * Hour) (demo_open (2 * Hour) True) ?s6)"
    using demo_admit [of ?s5 3 "demo_open (2 * Hour) False" "3 * Hour" "demo_open (2 * Hour) True"]
    by (simp add: breaker_eval)
  finally show ?thesis by (intro exI conjI, assumption) (simp_all add: demo_calls_def)
qed

end
