(* ===== verification/RuntimeCfg.thy ===== *)
theory RuntimeCfg
  imports GoStrings
begin

text \<open>
  The selection of the roles a process plays and of their capabilities
  (\<^verbatim>\<open>internal/runtimecfg/runtime.go\<close>): parsing of the two settings, validation of the result. Go's map of
  capabilities is a finite partial map from role names; what the code does for every key of it in map order
  gives the same answer in every order, up to which of several offending roles an error names: the model
  names the first in a given enumeration.
\<close>

section \<open>Definitions\<close>

subsection \<open>Roles and capabilities\<close>

type_synonym role = string

abbreviation RoleREBFF :: role where "RoleREBFF \<equiv> ''rebff''"
abbreviation RoleStorage :: role where "RoleStorage \<equiv> ''storage''"
abbreviation RoleStreaming :: role where "RoleStreaming \<equiv> ''streaming''"
abbreviation RoleWebSocket :: role where "RoleWebSocket \<equiv> ''websocket''"

definition default_capabilities :: "(role \<times> string list) list" where
  "default_capabilities =
     [(RoleREBFF, [''oidc'', ''session'', ''token-refresh'', ''csrf'', ''user-context'', ''api-proxy'',
                   ''coarse-authz'', ''audit'', ''trace-propagation'']),
      (RoleStorage, [''upload'', ''download'', ''multipart'', ''presign'', ''metadata'', ''audit'']),
      (RoleStreaming, [''playback'', ''manifest'', ''token'', ''origin-select'', ''audit'']),
      (RoleWebSocket, [''connect'', ''publish'', ''subscribe'', ''presence'', ''heartbeat'', ''audit''])]"

text \<open>\<^verbatim>\<open>defaults[role]\<close>: the nil slice for an unknown role.\<close>

definition defaults :: "role \<Rightarrow> string list" where
  "defaults r = (case map_of default_capabilities r of None \<Rightarrow> [] | Some cs \<Rightarrow> cs)"

text \<open>\<^verbatim>\<open>allowed\<close>: the capabilities of each role as sets, given here by the lists of their members.\<close>

definition allowed_capabilities :: "(role \<times> string list) list" where
  "allowed_capabilities =
     [(RoleREBFF, [''oidc'', ''session'', ''token-refresh'', ''csrf'', ''user-context'', ''api-proxy'',
                   ''coarse-authz'', ''audit'', ''trace-propagation'']),
      (RoleStorage, [''upload'', ''download'', ''multipart'', ''presign'', ''metadata'', ''audit'']),
      (RoleStreaming, [''playback'', ''manifest'', ''token'', ''origin-select'', ''audit'']),
      (RoleWebSocket, [''connect'', ''publish'', ''subscribe'', ''presence'', ''heartbeat'', ''audit''])]"

definition allowed_role :: "role \<Rightarrow> bool" where
  "allowed_role r \<longleftrightarrow> map_of allowed_capabilities r \<noteq> None"

definition allowed_list :: "role \<Rightarrow> string list" where
  "allowed_list r = (case map_of allowed_capabilities r of None \<Rightarrow> [] | Some cs \<Rightarrow> cs)"

definition allowed_cap :: "role \<Rightarrow> string \<Rightarrow> bool" where
  "allowed_cap r c \<longleftrightarrow> c \<in> set (allowed_list r)"

record selection =
  Roles :: "role list"
  Capabilities :: "role \<rightharpoonup> string list"

text \<open>Reading a Go map of slices: a missing key gives the nil slice.\<close>

definition caps_of :: "(role \<rightharpoonup> string list) \<Rightarrow> role \<Rightarrow> string list" where
  "caps_of m r = (case m r of None \<Rightarrow> [] | Some cs \<Rightarrow> cs)"

subsection \<open>Error messages\<close>

definition err_role :: "role \<Rightarrow> goerr" where
  "err_role r = ErrorString (''unsupported runtime role '' @ Quote r)"

definition err_no_role :: goerr where
  "err_no_role = ErrorString ''at least one runtime role is required''"

definition err_duplicate :: "role \<Rightarrow> goerr" where
  "err_duplicate r = ErrorString (''duplicate runtime role '' @ Quote r)"

definition err_no_cap :: "role \<Rightarrow> goerr" where
  "err_no_cap r = ErrorString (''role '' @ Quote r @ '' requires at least one capability'')"

definition err_cap :: "string \<Rightarrow> role \<Rightarrow> goerr" where
  "err_cap c r = ErrorString (''unsupported capability '' @ Quote c @ '' for role '' @ Quote r)"

definition err_unselected :: "role \<Rightarrow> goerr" where
  "err_unselected r = ErrorString (''capabilities configured for unselected role '' @ Quote r)"

definition err_syntax :: goerr where
  "err_syntax =
     ErrorString ''multi-role capabilities must use role:capability|capability syntax''"

subsection \<open>Parsing\<close>

text \<open>
  The loop of \<^verbatim>\<open>ParseRoles\<close>: \<open>acc\<close> is the slice \<^verbatim>\<open>out\<close>, whose members are the keys of \<^verbatim>\<open>seen\<close>.
\<close>

fun roles_loop :: "role list \<Rightarrow> string list \<Rightarrow> role list result" where
  "roles_loop acc [] = (if acc = [] then Inl err_no_role else Inr acc)"
| "roles_loop acc (part # parts) =
     (let role = ToLower (TrimSpace part) in
      if \<not> allowed_role role then Inl (err_role role)
      else roles_loop (if role \<in> set acc then acc else acc @ [role]) parts)"

definition ParseRoles :: "string \<Rightarrow> role list result" where
  "ParseRoles raw =
     (if TrimSpace raw = '''' then Inr [RoleREBFF] else roles_loop [] (Split raw (CHR '','')))"

fun caps_loop :: "role \<Rightarrow> string list \<Rightarrow> string list \<Rightarrow> string list result" where
  "caps_loop role acc [] = (if acc = [] then Inl (err_no_cap role) else Inr acc)"
| "caps_loop role acc (part # parts) =
     (let c = ToLower (TrimSpace part) in
      if c = '''' then caps_loop role acc parts
      else if \<not> allowed_cap role c then Inl (err_cap c role)
      else caps_loop role (if c \<in> set acc then acc else acc @ [c]) parts)"

definition parseCapList :: "role \<Rightarrow> string \<Rightarrow> string list result" where
  "parseCapList role raw = caps_loop role [] (Split raw (CHR '',''))"

text \<open>The loop over the groups of the multi-role syntax.\<close>

fun groups_loop ::
  "role list \<Rightarrow> (role \<rightharpoonup> string list) \<Rightarrow> string list \<Rightarrow> (role \<rightharpoonup> string list) result" where
  "groups_loop roles out [] = Inr out"
| "groups_loop roles out (g # gs) =
     (let group = TrimSpace g in
      if group = '''' then groups_loop roles out gs
      else case Cut group (CHR '':'') of (left, right, found) \<Rightarrow>
        if \<not> found then Inl err_syntax
        else let role = ToLower (TrimSpace left) in
          if role \<notin> set roles then Inl (err_unselected role)
          else case parseCapList role (ReplaceAll right (CHR ''|'') (CHR '','')) of
              Inl e \<Rightarrow> Inl e
            | Inr caps \<Rightarrow> groups_loop roles (out(role \<mapsto> caps)) gs)"

text \<open>The last loop: roles without capabilities get their defaults.\<close>

fun fill_defaults :: "role list \<Rightarrow> (role \<rightharpoonup> string list) \<Rightarrow> (role \<rightharpoonup> string list)" where
  "fill_defaults [] out = out"
| "fill_defaults (r # rs) out =
     fill_defaults rs (if caps_of out r = [] then out(r \<mapsto> defaults r) else out)"

fun set_defaults :: "role list \<Rightarrow> (role \<rightharpoonup> string list) \<Rightarrow> (role \<rightharpoonup> string list)" where
  "set_defaults [] out = out"
| "set_defaults (r # rs) out = set_defaults rs (out(r \<mapsto> defaults r))"

definition ParseCapabilities :: "role list \<Rightarrow> string \<Rightarrow> (role \<rightharpoonup> string list) result" where
  "ParseCapabilities roles raw =
     (if TrimSpace raw = '''' then Inr (set_defaults roles Map.empty)
      else if length roles = 1 \<and> \<not> Contains raw '':'' then
        (case parseCapList (hd roles) (ReplaceAll raw (CHR ''|'') (CHR '','')) of
           Inl e \<Rightarrow> Inl e
         | Inr caps \<Rightarrow> Inr [hd roles \<mapsto> caps])
      else case groups_loop roles Map.empty (Split raw (CHR '';'')) of
          Inl e \<Rightarrow> Inl e
        | Inr out \<Rightarrow> Inr (fill_defaults roles out))"

subsection \<open>Validation\<close>

fun validate_roles :: "(role \<rightharpoonup> string list) \<Rightarrow> role list \<Rightarrow> role list \<Rightarrow> role list result" where
  "validate_roles caps seen [] = Inr seen"
| "validate_roles caps seen (r # rs) =
     (if \<not> allowed_role r then Inl (err_role r)
      else if r \<in> set seen then Inl (err_duplicate r)
      else if caps_of caps r = [] then Inl (err_no_cap r)
      else case find (\<lambda>c. \<not> allowed_cap r c) (caps_of caps r) of
          Some c \<Rightarrow> Inl (err_cap c r)
        | None \<Rightarrow> validate_roles caps (r # seen) rs)"

text \<open>\<open>keys\<close> enumerates the keys of the capability map in the order Go happens to range over them.\<close>

definition Validate :: "role list \<Rightarrow> selection \<Rightarrow> goerr option" where
  "Validate keys sel =
     (if Roles sel = [] then Some err_no_role
      else case validate_roles (Capabilities sel) [] (Roles sel) of
          Inl e \<Rightarrow> Some e
        | Inr seen \<Rightarrow>
            (case find (\<lambda>r. r \<notin> set seen) keys of
               Some r \<Rightarrow> Some (err_unselected r)
             | None \<Rightarrow> None))"

definition HasRole :: "selection \<Rightarrow> role \<Rightarrow> bool" where
  "HasRole s r \<longleftrightarrow> list_ex (\<lambda>x. x = r) (Roles s)"

definition RoleNames :: "selection \<Rightarrow> string list" where
  "RoleNames s = Roles s"

text \<open>Go compares strings byte by byte.\<close>

fun string_le :: "string \<Rightarrow> string \<Rightarrow> bool" where
  "string_le [] t \<longleftrightarrow> True"
| "string_le (a # s) [] \<longleftrightarrow> False"
| "string_le (a # s) (b # t) \<longleftrightarrow>
     (let x = of_char a :: nat; y = of_char b in x < y \<or> (x = y \<and> string_le s t))"

fun insert_string :: "string \<Rightarrow> string list \<Rightarrow> string list" where
  "insert_string x [] = [x]"
| "insert_string x (y # ys) = (if string_le x y then x # y # ys else y # insert_string x ys)"

definition sort_Strings :: "string list \<Rightarrow> string list" where
  "sort_Strings xs = foldr insert_string xs []"

definition SupportedCapabilities :: "role \<Rightarrow> string list" where
  "SupportedCapabilities r = sort_Strings (allowed_list r)"

text \<open>
  The specification of a valid selection: at least one role, no role twice, every role known, and the keys of
  the capability map exactly the roles, each with a nonempty list of capabilities of that role.
\<close>

definition selection_ok :: "selection \<Rightarrow> bool" where
  "selection_ok sel \<longleftrightarrow>
     Roles sel \<noteq> [] \<and> distinct (Roles sel) \<and> (\<forall>r \<in> set (Roles sel). allowed_role r) \<and>
     dom (Capabilities sel) = set (Roles sel) \<and>
     (\<forall>r \<in> set (Roles sel). caps_of (Capabilities sel) r \<noteq> [] \<and>
        (\<forall>c \<in> set (caps_of (Capabilities sel) r). allowed_cap r c))"

section \<open>Lemmas\<close>

lemma allowed_role_iff: "allowed_role r \<longleftrightarrow> r \<in> set (map fst allowed_capabilities)"
  unfolding allowed_role_def by (simp add: map_of_eq_None_iff) 

text \<open>The two tables of the source agree.\<close>

lemma defaults_allowed: "defaults r = allowed_list r"
  by (simp only: defaults_def allowed_list_def default_capabilities_def allowed_capabilities_def)

lemma allowed_list_nonempty:
  assumes "allowed_role r"
  shows "allowed_list r \<noteq> []"
proof -
  have "list_all (\<lambda>p. snd p \<noteq> []) allowed_capabilities"
    by code_simp
  with assms show ?thesis
    by (fastforce simp: allowed_role_def allowed_list_def list_all_iff dest: map_of_SomeD)
qed

lemma defaults_ok:
  assumes "allowed_role r"
  shows "defaults r \<noteq> []" "c \<in> set (defaults r) \<Longrightarrow> allowed_cap r c"
  using allowed_list_nonempty [OF assms] by (simp_all add: defaults_allowed allowed_cap_def)

lemma roles_loop_ok:
  assumes "roles_loop acc parts = Inr out" "distinct acc" "\<forall>r \<in> set acc. allowed_role r"
  shows "out \<noteq> [] \<and> distinct out \<and> (\<forall>r \<in> set out. allowed_role r)"
  using assms
proof (induction parts arbitrary: acc)
  case Nil
  then show ?case by (simp split: if_splits)
next
  case (Cons part parts)
  define role where "role = ToLower (TrimSpace part)"
  define acc' where "acc' = (if role \<in> set acc then acc else acc @ [role])"
  have "allowed_role role" and run: "roles_loop acc' parts = Inr out"
    using Cons.prems(1) by (simp_all add: role_def acc'_def Let_def split: if_split_asm)
  then have "distinct acc'" "\<forall>r \<in> set acc'. allowed_role r"
    using Cons.prems(2,3) by (auto simp: acc'_def)
  with run show ?case by (rule Cons.IH)
qed

lemma ParseRoles_ok:
  assumes "ParseRoles raw = Inr out"
  shows "out \<noteq> [] \<and> distinct out \<and> (\<forall>r \<in> set out. allowed_role r)"
proof (cases "TrimSpace raw = ''''")
  case True
  with assms have "out = [RoleREBFF]"
    by (simp add: ParseRoles_def)
  moreover have "allowed_role RoleREBFF"
    by code_simp
  ultimately show ?thesis
    by simp
next
  case False
  with assms show ?thesis
    by (intro roles_loop_ok [of "[]" "Split raw (CHR '','')"]) (simp_all add: ParseRoles_def)
qed

lemma caps_loop_ok:
  assumes "caps_loop role acc parts = Inr out" "distinct acc" "\<forall>c \<in> set acc. allowed_cap role c"
  shows "out \<noteq> [] \<and> distinct out \<and> (\<forall>c \<in> set out. allowed_cap role c)"
  using assms
proof (induction parts arbitrary: acc)
  case Nil
  then show ?case by (simp split: if_splits)
next
  case (Cons part parts)
  define c where "c = ToLower (TrimSpace part)"
  show ?case
  proof (cases "c = ''''")
    case True
    with Cons.prems Cons.IH [of acc] show ?thesis by (simp add: c_def Let_def)
  next
    case False
    define acc' where "acc' = (if c \<in> set acc then acc else acc @ [c])"
    from False have "allowed_cap role c" and run: "caps_loop role acc' parts = Inr out"
      using Cons.prems(1) by (simp_all add: c_def acc'_def Let_def split: if_split_asm)
    then have "distinct acc'" "\<forall>c \<in> set acc'. allowed_cap role c"
      using Cons.prems(2,3) by (auto simp: acc'_def)
    with run show ?thesis by (rule Cons.IH)
  qed
qed

lemma parseCapList_ok:
  assumes "parseCapList role raw = Inr out"
  shows "out \<noteq> [] \<and> distinct out \<and> (\<forall>c \<in> set out. allowed_cap role c)"
  using caps_loop_ok [of role "[]" _ out] assms by (simp add: parseCapList_def)

text \<open>What the capability map holds while it is built: entries of selected roles, each well formed.\<close>

definition caps_ok :: "role list \<Rightarrow> (role \<rightharpoonup> string list) \<Rightarrow> bool" where
  "caps_ok roles m \<longleftrightarrow>
     dom m \<subseteq> set roles \<and>
     (\<forall>r cs. m r = Some cs \<longrightarrow> cs \<noteq> [] \<and> distinct cs \<and> (\<forall>c \<in> set cs. allowed_cap r c))"

lemma caps_ok_empty [simp]: "caps_ok roles Map.empty"
  by (simp add: caps_ok_def)

lemma caps_ok_upd:
  assumes "caps_ok roles m" "r \<in> set roles" "cs \<noteq> []" "distinct cs" "\<forall>c \<in> set cs. allowed_cap r c"
  shows "caps_ok roles (m(r \<mapsto> cs))"
  using assms by (auto simp: caps_ok_def)

lemma distinct_defaults: "distinct (defaults r)"
proof -
  have "list_all (\<lambda>p. distinct (snd p)) default_capabilities"
    by code_simp
  then show ?thesis
    by (fastforce simp: defaults_def list_all_iff split: option.split dest: map_of_SomeD)
qed

lemma caps_ok_default:
  assumes "caps_ok roles m" "r \<in> set roles" "allowed_role r"
  shows "caps_ok roles (m(r \<mapsto> defaults r))"
  using assms defaults_ok [OF assms(3)] distinct_defaults by (intro caps_ok_upd) auto

lemma groups_loop_ok:
  assumes "groups_loop roles out gs = Inr m" "caps_ok roles out"
  shows "caps_ok roles m"
  using assms
proof (induction gs arbitrary: out)
  case Nil
  then show ?case by simp
next
  case (Cons g gs)
  obtain left right found where cut: "Cut (TrimSpace g) (CHR '':'') = (left, right, found)"
    using prod_cases3 by blast
  show ?case
  proof (cases "TrimSpace g = ''''")
    case True
    with Cons.prems show ?thesis by (intro Cons.IH [of out]) (simp_all add: Let_def)
  next
    case False
    define role where "role = ToLower (TrimSpace left)"
    from False Cons.prems(1) cut obtain caps where
      sel: "role \<in> set roles" and
      caps: "parseCapList role (ReplaceAll right (CHR ''|'') (CHR '','')) = Inr caps" and
      rest: "groups_loop roles (out(role \<mapsto> caps)) gs = Inr m"
      unfolding role_def by (auto simp: Let_def split: if_splits sum.splits)
    have "caps_ok roles (out(role \<mapsto> caps))"
      using parseCapList_ok [OF caps] Cons.prems(2) sel by (intro caps_ok_upd) auto
    with rest show ?thesis by (rule Cons.IH)
  qed
qed

lemma fill_defaults_ok:
  assumes "caps_ok roles out" "set rs \<subseteq> set roles" "\<forall>r \<in> set rs. allowed_role r"
  shows "caps_ok roles (fill_defaults rs out) \<and> set rs \<union> dom out \<subseteq> dom (fill_defaults rs out)"
  using assms
proof (induction rs arbitrary: out)
  case Nil
  then show ?case by simp
next
  case (Cons r rs)
  define out' where "out' = (if caps_of out r = [] then out(r \<mapsto> defaults r) else out)"
  have "caps_ok roles out'"
    using Cons.prems by (auto simp: out'_def intro: caps_ok_default)
  with Cons.prems Cons.IH [of out'] have
    "caps_ok roles (fill_defaults rs out')" "set rs \<union> dom out' \<subseteq> dom (fill_defaults rs out')"
    by simp_all
  moreover have "insert r (dom out) \<subseteq> dom out'"
    by (auto simp: out'_def caps_of_def split: option.splits)
  moreover have "fill_defaults (r # rs) out = fill_defaults rs out'"
    by (simp add: out'_def)
  ultimately show ?case by (simp del: fill_defaults.simps) blast
qed

lemma set_defaults_ok:
  assumes "caps_ok roles out" "set rs \<subseteq> set roles" "\<forall>r \<in> set rs. allowed_role r"
  shows "caps_ok roles (set_defaults rs out) \<and> set rs \<union> dom out \<subseteq> dom (set_defaults rs out)"
  using assms
proof (induction rs arbitrary: out)
  case Nil
  then show ?case by simp
next
  case (Cons r rs)
  have "caps_ok roles (out(r \<mapsto> defaults r))"
    using Cons.prems by (auto intro: caps_ok_default simp del: fun_upd_apply)
  with Cons.prems Cons.IH [of "out(r \<mapsto> defaults r)"] show ?case
    by (simp del: fun_upd_apply)
qed

lemma ParseCapabilities_ok:
  assumes roles: "roles \<noteq> []" "\<forall>r \<in> set roles. allowed_role r"
    and parse: "ParseCapabilities roles raw = Inr m"
  shows "caps_ok roles m \<and> dom m = set roles"
proof -
  have sub: "dom m \<subseteq> set roles" if "caps_ok roles m" for m
    using that by (simp add: caps_ok_def)
  consider (blank) "TrimSpace raw = ''''"
    | (single) "TrimSpace raw \<noteq> ''''" "length roles = 1 \<and> \<not> Contains raw '':''"
    | (groups) "TrimSpace raw \<noteq> ''''" "\<not> (length roles = 1 \<and> \<not> Contains raw '':'')"
    by blast
  then show ?thesis
  proof cases
    case blank
    with parse have "m = set_defaults roles Map.empty"
      by (simp add: ParseCapabilities_def)
    with set_defaults_ok [of roles Map.empty roles] roles sub [of m] show ?thesis by auto
  next
    case single
    then obtain r where r: "roles = [r]"
      by (auto simp: length_Suc_conv)
    from single parse r obtain caps where
      "parseCapList r (ReplaceAll raw (CHR ''|'') (CHR '','')) = Inr caps" "m = [r \<mapsto> caps]"
      by (auto simp: ParseCapabilities_def split: sum.splits)
    with parseCapList_ok [of r _ caps] r show ?thesis
      by (auto simp: caps_ok_def split: if_splits)
  next
    case groups
    with parse obtain out where
      out: "groups_loop roles Map.empty (Split raw (CHR '';'')) = Inr out" "m = fill_defaults roles out"
      by (auto simp: ParseCapabilities_def split: sum.splits if_splits)
    with groups_loop_ok [OF out(1)] fill_defaults_ok [of roles out roles] roles sub [of m]
    show ?thesis by auto
  qed
qed

lemma validate_roles_iff:
  "(\<exists>seen'. validate_roles caps seen rs = Inr seen') \<longleftrightarrow>
     distinct rs \<and> set rs \<inter> set seen = {} \<and>
     (\<forall>r \<in> set rs. allowed_role r \<and> caps_of caps r \<noteq> [] \<and> (\<forall>c \<in> set (caps_of caps r). allowed_cap r c))"
  by (induction caps seen rs rule: validate_roles.induct)
    (auto simp: find_None_iff find_Some_iff split: option.splits)

lemma validate_roles_seen:
  "validate_roles caps seen rs = Inr seen' \<Longrightarrow> set seen' = set seen \<union> set rs"
  by (induction caps seen rs rule: validate_roles.induct) (auto split: if_splits option.splits)

text \<open>
  \<^verbatim>\<open>Validate\<close> accepts exactly the valid selections, whatever the order in which Go ranges over the map:
  the result is nil if and only if there is at least one role, no role occurs twice, every role is supported,
  the keys of the capability map are exactly the selected roles, and each has a nonempty list of capabilities
  that the role supports.
\<close>

theorem Validate_iff:
  assumes "set keys = dom (Capabilities sel)"
  shows "Validate keys sel = None \<longleftrightarrow> selection_ok sel"
proof (cases "validate_roles (Capabilities sel) [] (Roles sel)")
  case (Inl e)
  then have "\<not> (\<exists>s. validate_roles (Capabilities sel) [] (Roles sel) = Inr s)" by simp
  then have "\<not> selection_ok sel"
    unfolding validate_roles_iff selection_ok_def by auto
  with Inl show ?thesis by (simp add: Validate_def)
next
  case (Inr seen)
  then have "\<exists>s. validate_roles (Capabilities sel) [] (Roles sel) = Inr s" by simp
  then have ok: "distinct (Roles sel)"
    "\<forall>r \<in> set (Roles sel). allowed_role r \<and> caps_of (Capabilities sel) r \<noteq> [] \<and>
       (\<forall>c \<in> set (caps_of (Capabilities sel) r). allowed_cap r c)"
    unfolding validate_roles_iff by auto
  have "set (Roles sel) \<subseteq> dom (Capabilities sel)"
    using ok(2) by (force simp: caps_of_def split: option.splits)
  moreover have "set seen = set (Roles sel)"
    using validate_roles_seen [OF Inr] by simp
  moreover have "find (\<lambda>r. r \<notin> set seen) keys = None \<longleftrightarrow> set keys \<subseteq> set seen"
    by (auto simp: find_None_iff)
  ultimately show ?thesis
    using Inr ok assms by (auto simp: Validate_def selection_ok_def split: option.splits)
qed

text \<open>A configuration that parses satisfies the specification of a valid selection.\<close>

lemma parsed_selection_ok:
  assumes "ParseRoles raw_roles = Inr roles" "ParseCapabilities roles raw_caps = Inr caps"
  shows "selection_ok \<lparr>Roles = roles, Capabilities = caps\<rparr> \<and>
         (\<forall>r \<in> set roles. distinct (caps_of caps r))"
proof -
  have roles: "roles \<noteq> []" "distinct roles" "\<forall>r \<in> set roles. allowed_role r"
    using ParseRoles_ok [OF assms(1)] by auto
  have caps: "caps_ok roles caps" "dom caps = set roles"
    using ParseCapabilities_ok [OF roles(1) roles(3) assms(2)] by auto
  have "caps_of caps r \<noteq> [] \<and> distinct (caps_of caps r) \<and> (\<forall>c \<in> set (caps_of caps r). allowed_cap r c)"
    if "r \<in> set roles" for r
  proof -
    from that caps(2) obtain cs where "caps r = Some cs" by auto
    with caps(1) show ?thesis by (auto simp: caps_ok_def caps_of_def)
  qed
  with roles caps(2) show ?thesis by (auto simp: selection_ok_def)
qed

text \<open>
  C32. A configuration that parses is valid: whatever the two settings, if \<^verbatim>\<open>ParseRoles\<close> and
  \<^verbatim>\<open>ParseCapabilities\<close> both succeed then the selection they build satisfies the specification of a valid
  selection, and no capability of a role is listed twice.
\<close>

theorem parsed_selection_valid:
  assumes "ParseRoles raw_roles = Inr roles" "ParseCapabilities roles raw_caps = Inr caps"
  shows "selection_ok \<lparr>Roles = roles, Capabilities = caps\<rparr> \<and>
         (\<forall>r \<in> set roles. distinct (caps_of caps r))"
  using assms by (rule parsed_selection_ok)

theorem parsed_selection_valid_witness:
  "\<exists>caps. selection_ok \<lparr>Roles = [''storage'', ''rebff''], Capabilities = caps\<rparr> \<and>
     caps_of caps ''storage'' = [''upload'', ''presign'']"
proof -
  have roles: "ParseRoles '' Storage,rebff,storage'' = Inr [''storage'', ''rebff'']"
    by code_simp
  obtain caps where caps: "ParseCapabilities [''storage'', ''rebff''] ''storage:upload| Presign '' = Inr caps"
    "caps_of caps ''storage'' = [''upload'', ''presign'']"
  proof -
    have "(case ParseCapabilities [''storage'', ''rebff''] ''storage:upload| Presign '' of
        Inl e \<Rightarrow> [] | Inr m \<Rightarrow> caps_of m ''storage'') = [''upload'', ''presign'']"
      by code_simp
    then show thesis using that by (auto split: sum.splits)
  qed
  show ?thesis
    using parsed_selection_valid [OF roles caps(1)] caps(2) by blast
qed

theorem Validate_iff_witness:
  "Validate [''storage''] \<lparr>Roles = [''storage''], Capabilities = [''storage'' \<mapsto> [''upload'']]\<rparr> = None \<longleftrightarrow>
   selection_ok \<lparr>Roles = [''storage''], Capabilities = [''storage'' \<mapsto> [''upload'']]\<rparr>"
  by (rule Validate_iff) simp

text \<open>
  A role given twice in the capability setting: the later group replaces the earlier one without an error.
\<close>

lemma repeated_group_overrides:
  "(case ParseCapabilities [''storage''] ''storage:upload;storage:audit'' of
      Inl e \<Rightarrow> [] | Inr m \<Rightarrow> caps_of m ''storage'') = [''audit'']"
  by code_simp

end
