(* ===== verification/Storage.thy ===== *)
theory Storage
  imports Outbound RuntimeCfg "HOL-Library.AList"
begin

text \<open>
  What the storage role is built from: the requests and results of the signer interfaces
  (\<^verbatim>\<open>internal/capability\<close>), the registries of capabilities, storage targets and providers
  (\<^verbatim>\<open>internal/capability/registry.go\<close>, \<^verbatim>\<open>internal/storagetarget\<close>, \<^verbatim>\<open>internal/storageprovider\<close>), the
  intents, references and upload verification of \<^verbatim>\<open>internal/storagecontract\<close>, and the remote signer
  (\<^verbatim>\<open>internal/storage\<close>). A Go map is an association list with distinct keys, whose order is the one in
  which Go happens to range over it. A signer is a record of its methods; the optional interfaces that
  the code finds by a type assertion are options. Where the JSON encoder tells a nil map from an empty one, the
  nil map is \<open>None\<close>.
\<close>

section \<open>Definitions\<close>

subsection \<open>Signers (capability/storage.go)\<close>

type_synonym string_map = "(string \<times> string) list"

record presigned_request =
  pr_Bucket :: string
  pr_ObjectKey :: string
  pr_ContentType :: string
  pr_ExpiresIn :: duration

record presigned_operation =
  po_URL :: string
  po_Method :: string
  po_ExpiresAt :: time
  po_Headers :: "string_map option"

record multipart_initiate =
  mi_Bucket :: string
  mi_ObjectKey :: string
  mi_ContentType :: string
  mi_ExpiresIn :: duration

record multipart_upload =
  mu_UploadID :: string
  mu_Bucket :: string
  mu_ObjectKey :: string
  mu_ExpiresAt :: time

record multipart_part =
  mp_Bucket :: string
  mp_ObjectKey :: string
  mp_UploadID :: string
  mp_PartNumber :: int
  mp_ExpiresIn :: duration

record completed_part =
  pt_PartNumber :: int
  pt_ETag :: string

record multipart_complete =
  mc_Bucket :: string
  mc_ObjectKey :: string
  mc_UploadID :: string
  mc_Parts :: "completed_part list"

record complete_result =
  cr_ETag :: string
  cr_VersionID :: string
  cr_Location :: string

record multipart_abort =
  ma_Bucket :: string
  ma_ObjectKey :: string
  ma_UploadID :: string

record metadata_request =
  mq_Bucket :: string
  mq_ObjectKey :: string

record storage_metadata =
  md_Exists :: bool
  md_Bucket :: string
  md_ObjectKey :: string
  md_Size :: int
  md_ContentType :: string
  md_ETag :: string
  md_VersionID :: string
  md_LastModified :: time
  md_Checksums :: string_map
  md_Metadata :: string_map

type_synonym ('w, 'q, 'a) service_call = "'w call_context \<Rightarrow> 'w \<Rightarrow> 'q \<Rightarrow> 'w \<times> 'a result"

record 'w multipart_signer =
  ms_Initiate :: "('w, multipart_initiate, multipart_upload) service_call"
  ms_Part :: "('w, multipart_part, presigned_operation) service_call"
  ms_Complete :: "('w, multipart_complete, complete_result) service_call"
  ms_Abort :: "('w, multipart_abort, unit) service_call"

text \<open>
  \<open>sg_Multipart\<close> and \<open>sg_Metadata\<close> are what the type assertions to \<^verbatim>\<open>MultipartStorageSigner\<close> and
  \<^verbatim>\<open>StorageMetadataProvider\<close> give.
\<close>

record 'w storage_signer =
  sg_PresignPut :: "('w, presigned_request, presigned_operation) service_call"
  sg_PresignGet :: "('w, presigned_request, presigned_operation) service_call"
  sg_Multipart :: "'w multipart_signer option"
  sg_Metadata :: "('w, metadata_request, storage_metadata) service_call option"

subsection \<open>The capability registry (capability/registry.go)\<close>

text \<open>\<open>None\<close> as a provider is the nil interface.\<close>

definition Registry_Register ::
  "(string \<times> 'p) list \<Rightarrow> string \<Rightarrow> 'p option \<Rightarrow> (string \<times> 'p) list \<times> goerr option" where
  "Registry_Register r name p =
     (if name = '''' \<or> p = None
      then (r, Some (ErrorString ''capability: invalid provider registration''))
      else if map_of r name \<noteq> None
      then (r, Some (ErrorString (''capability '' @ Quote name @ '' already registered'')))
      else (AList.update name (the p) r, None))"

definition Registry_Get :: "(string \<times> 'p) list \<Rightarrow> string \<Rightarrow> 'p option" where
  "Registry_Get r name = map_of r name"

definition Registry_Require :: "(string \<times> 'p) list \<Rightarrow> string list \<Rightarrow> goerr option" where
  "Registry_Require r names =
     (case find (\<lambda>n. map_of r n = None) names of
        None \<Rightarrow> None
      | Some n \<Rightarrow> Some (ErrorString (''required capability '' @ Quote n @ '' is not configured'')))"

subsection \<open>Storage targets (storagetarget/registry.go)\<close>

record target =
  tg_Provider :: string
  tg_Bucket :: string
  tg_ReadOnly :: bool

type_synonym target_registry = "(string \<times> target) list"

definition trim_target :: "target \<Rightarrow> target" where
  "trim_target t =
     (let p = TrimSpace (tg_Provider t)
      in t\<lparr>tg_Bucket := TrimSpace (tg_Bucket t), tg_Provider := (if p = '''' then ''default'' else p)\<rparr>)"

text \<open>
  The loop over the decoded map: it reads the current entry of each key, and writes the normalised
  entry under the trimmed name. A key that is added while the loop runs may or may not be visited; the visit
  changes nothing, for the entry is already normalised.
\<close>

fun targets_loop :: "target_registry \<Rightarrow> string list \<Rightarrow> target_registry result" where
  "targets_loop out [] = Inr out"
| "targets_loop out (key # keys) =
     (case map_of out key of
        None \<Rightarrow> targets_loop out keys
      | Some t \<Rightarrow>
          (let name = TrimSpace key
           in if name = '''' \<or> TrimSpace (tg_Bucket t) = ''''
              then Inl (ErrorString ''storage target name and bucket are required'')
              else targets_loop (AList.update name (trim_target t) out) keys))"

text \<open>\<open>unmarshal\<close> is \<^verbatim>\<open>json.Unmarshal\<close> into the map type, with the keys in range order.\<close>

definition storagetarget_Parse ::
  "(string \<Rightarrow> target_registry result) \<Rightarrow> string \<Rightarrow> target_registry result" where
  "storagetarget_Parse unmarshal raw0 =
     (let raw = TrimSpace raw0
      in if raw = '''' then Inr []
         else case unmarshal raw of
             Inl e \<Rightarrow> Inl (ErrWrapped ''parse storage targets'' e)
           | Inr out \<Rightarrow> targets_loop out (map fst out))"

definition target_Resolve :: "target_registry \<Rightarrow> string \<Rightarrow> target option" where
  "target_Resolve r name = map_of r (TrimSpace name)"

subsection \<open>Storage providers (storageprovider/registry.go)\<close>

text \<open>A provider holds a signer, which may be nil.\<close>

type_synonym 'w provider_registry = "(string \<times> 'w storage_signer option) list"

definition provider_Resolve :: "'w provider_registry \<Rightarrow> string \<Rightarrow> 'w storage_signer option option" where
  "provider_Resolve r name = map_of r (TrimSpace name)"

fun ValidateRequired :: "'w provider_registry \<Rightarrow> string list \<Rightarrow> goerr option" where
  "ValidateRequired r [] = None"
| "ValidateRequired r (n # names) =
     (let name = (if TrimSpace n = '''' then ''default'' else TrimSpace n)
      in case provider_Resolve r name of
           None \<Rightarrow> Some (ErrorString (''storage provider '' @ Quote name @ '' is not configured''))
         | Some None \<Rightarrow>
             Some (ErrorString (''storage provider '' @ Quote name @ '' signer is not configured''))
         | Some (Some s) \<Rightarrow> ValidateRequired r names)"

subsection \<open>Intents, references, verification (storagecontract/contracts.go)\<close>

record upload_intent =
  ui_Target :: string
  ui_ObjectKey :: string
  ui_ContentType :: string
  ui_ExpiresIn :: duration

record download_intent =
  di_Target :: string
  di_ObjectKey :: string
  di_ExpiresIn :: duration

record storage_reference =
  sr_Target :: string
  sr_ObjectKey :: string
  sr_VersionID :: string
  sr_ETag :: string
  sr_Size :: int
  sr_ContentType :: string
  sr_Checksums :: string_map

record verification_intent =
  vi_Target :: string
  vi_ObjectKey :: string
  vi_ExpectedSize :: "int option"
  vi_ExpectedContentType :: string
  vi_ExpectedChecksums :: string_map

record mismatch =
  mm_Field :: string
  mm_Expected :: string
  mm_Actual :: string

record verification_result =
  vr_Verified :: bool
  vr_Reference :: storage_reference
  vr_Mismatches :: "mismatch list"

record storage_grant =
  gr_URL :: string
  gr_Method :: string
  gr_ExpiresAt :: time
  gr_Headers :: "string_map option"

text \<open>
  The third test looks for two backslashes in a row: the Go literal is a string of two.
\<close>

definition validateObjectKey :: "string \<Rightarrow> goerr option" where
  "validateObjectKey v =
     (let key = TrimSpace v
      in if key = '''' then Some (ErrorString ''object_key is required'')
         else if HasPrefix key ''/'' \<or> Contains key ''..'' \<or> Contains key [CHR 0x5C, CHR 0x5C]
         then Some (ErrorString ''object_key is invalid'')
         else None)"

definition UploadIntent_Validate :: "upload_intent \<Rightarrow> goerr option" where
  "UploadIntent_Validate i =
     (if TrimSpace (ui_Target i) = '''' then Some (ErrorString ''target is required'')
      else case validateObjectKey (ui_ObjectKey i) of
          Some e \<Rightarrow> Some e
        | None \<Rightarrow>
            if ui_ExpiresIn i < 0 then Some (ErrorString ''expires_in must not be negative'') else None)"

definition DownloadIntent_Validate :: "download_intent \<Rightarrow> goerr option" where
  "DownloadIntent_Validate i =
     (if TrimSpace (di_Target i) = '''' then Some (ErrorString ''target is required'')
      else case validateObjectKey (di_ObjectKey i) of
          Some e \<Rightarrow> Some e
        | None \<Rightarrow>
            if di_ExpiresIn i < 0 then Some (ErrorString ''expires_in must not be negative'') else None)"

definition StorageReference_Validate :: "storage_reference \<Rightarrow> goerr option" where
  "StorageReference_Validate r =
     (if TrimSpace (sr_Target r) = '''' then Some (ErrorString ''target is required'')
      else case validateObjectKey (sr_ObjectKey r) of
          Some e \<Rightarrow> Some e
        | None \<Rightarrow> if sr_Size r < 0 then Some (ErrorString ''size must not be negative'') else None)"

definition VerificationIntent_Validate :: "verification_intent \<Rightarrow> goerr option" where
  "VerificationIntent_Validate i =
     (if TrimSpace (vi_Target i) = '''' then Some (ErrorString ''target is required'')
      else case validateObjectKey (vi_ObjectKey i) of
          Some e \<Rightarrow> Some e
        | None \<Rightarrow>
            if (case vi_ExpectedSize i of None \<Rightarrow> False | Some n \<Rightarrow> n < 0)
            then Some (ErrorString ''expected_size must not be negative'')
            else if list_ex (\<lambda>(a, v). TrimSpace a = '''' \<or> TrimSpace v = '''') (vi_ExpectedChecksums i)
            then Some (ErrorString ''expected checksum algorithm and value are required'')
            else None)"

definition ReferenceFromMetadata :: "string \<Rightarrow> storage_metadata \<Rightarrow> storage_reference" where
  "ReferenceFromMetadata tgt m =
     \<lparr>sr_Target = TrimSpace tgt, sr_ObjectKey = md_ObjectKey m, sr_VersionID = md_VersionID m,
      sr_ETag = md_ETag m, sr_Size = md_Size m, sr_ContentType = md_ContentType m,
      sr_Checksums = md_Checksums m\<rparr>"

definition checksum_key :: "string \<Rightarrow> string" where
  "checksum_key a = ToLower (TrimSpace a)"

text \<open>The inner loop of \<^verbatim>\<open>VerifyUpload\<close>: the first entry of the metadata with that algorithm.\<close>

definition actual_checksum :: "string_map \<Rightarrow> string \<Rightarrow> string" where
  "actual_checksum cs key =
     (case find (\<lambda>(a, v). checksum_key a = key) cs of
        None \<Rightarrow> '''' | Some (a, v) \<Rightarrow> TrimSpace v)"

definition size_mismatch :: "verification_intent \<Rightarrow> storage_metadata \<Rightarrow> mismatch list" where
  "size_mismatch i m =
     (case vi_ExpectedSize i of
        None \<Rightarrow> []
      | Some n \<Rightarrow>
          if md_Size m \<noteq> n
          then [\<lparr>mm_Field = ''size'', mm_Expected = Itoa n, mm_Actual = Itoa (md_Size m)\<rparr>] else [])"

definition content_type_mismatch :: "verification_intent \<Rightarrow> storage_metadata \<Rightarrow> mismatch list" where
  "content_type_mismatch i m =
     (let expected = TrimSpace (vi_ExpectedContentType i); actual = TrimSpace (md_ContentType m)
      in if expected \<noteq> '''' \<and> \<not> EqualFold expected actual
         then [\<lparr>mm_Field = ''content_type'', mm_Expected = expected, mm_Actual = actual\<rparr>] else [])"

definition checksum_mismatches :: "verification_intent \<Rightarrow> storage_metadata \<Rightarrow> mismatch list" where
  "checksum_mismatches i m =
     concat (map (\<lambda>(a, expected).
       (let actual = actual_checksum (md_Checksums m) (checksum_key a)
        in if TrimSpace expected \<noteq> actual
           then [\<lparr>mm_Field = ''checksum.'' @ checksum_key a, mm_Expected = TrimSpace expected,
                  mm_Actual = actual\<rparr>] else [])) (vi_ExpectedChecksums i))"

definition VerifyUpload ::
  "verification_intent \<Rightarrow> storage_metadata \<Rightarrow> verification_result result" where
  "VerifyUpload i m =
     (case VerificationIntent_Validate i of
        Some e \<Rightarrow> Inl e
      | None \<Rightarrow>
          (let ref = ReferenceFromMetadata (vi_Target i) m
           in if \<not> md_Exists m
              then Inr \<lparr>vr_Verified = False, vr_Reference = ref, vr_Mismatches =
                     [\<lparr>mm_Field = ''object'', mm_Expected = ''exists'', mm_Actual = ''not_found''\<rparr>]\<rparr>
              else
                (let ms = size_mismatch i m @ content_type_mismatch i m @ checksum_mismatches i m
                 in Inr \<lparr>vr_Verified = (length ms = 0), vr_Reference = ref, vr_Mismatches = ms\<rparr>)))"

definition UploadGrantFromOperation :: "presigned_operation \<Rightarrow> storage_grant" where
  "UploadGrantFromOperation op0 =
     \<lparr>gr_URL = po_URL op0, gr_Method = po_Method op0, gr_ExpiresAt = po_ExpiresAt op0,
      gr_Headers = po_Headers op0\<rparr>"

definition DownloadGrantFromOperation :: "presigned_operation \<Rightarrow> storage_grant" where
  "DownloadGrantFromOperation op0 =
     \<lparr>gr_URL = po_URL op0, gr_Method = po_Method op0, gr_ExpiresAt = po_ExpiresAt op0,
      gr_Headers = po_Headers op0\<rparr>"

subsection \<open>JSON of maps\<close>

text \<open>The JSON encoder writes the entries of a map in the order of their keys.\<close>

definition map_json :: "string_map \<Rightarrow> json" where
  "map_json m =
     JObj (map (\<lambda>k. (k, case map_of m k of None \<Rightarrow> JNull | Some v \<Rightarrow> JStr v)) (sort_Strings (map fst m)))"

definition map_field :: "string \<Rightarrow> string_map \<Rightarrow> (string \<times> json) list" where
  "map_field name m = (if m = [] then [] else [(name, map_json m)])"

subsection \<open>The remote signer (storage/remote_signer.go)\<close>

text \<open>
  The JSON codec of the payloads and responses: \<^verbatim>\<open>json.Marshal\<close> of a payload, and \<^verbatim>\<open>json.Unmarshal\<close> into the
  response types, whose fields are those of the results.
\<close>

record signer_codec =
  sc_marshal :: "json \<Rightarrow> string result"
  sc_presign :: "string \<Rightarrow> presigned_operation result"
  sc_initiate :: "string \<Rightarrow> multipart_upload result"
  sc_complete :: "string \<Rightarrow> complete_result result"
  sc_metadata :: "string \<Rightarrow> storage_metadata result"

record 'w remote_signer =
  rs_HTTP :: "'w client option"
  rs_SessionID :: "('w call_context \<Rightarrow> string) option"

text \<open>Go's division truncates towards zero.\<close>

definition whole_seconds :: "duration \<Rightarrow> int" where
  "whole_seconds d = (if d < 0 then - ((- d) div Second) else d div Second)"

definition omit_empty :: "string \<Rightarrow> string \<Rightarrow> (string \<times> json) list" where
  "omit_empty name v = (if v = '''' then [] else [(name, JStr v)])"

definition presignPayload :: "presigned_request \<Rightarrow> json" where
  "presignPayload q =
     JObj ([(''bucket'', JStr (pr_Bucket q)), (''object_key'', JStr (pr_ObjectKey q))] @
       omit_empty ''content_type'' (pr_ContentType q) @
       [(''expires_in_seconds'', JNum (whole_seconds (pr_ExpiresIn q)))])"

definition multipartInitiatePayload :: "multipart_initiate \<Rightarrow> json" where
  "multipartInitiatePayload q =
     JObj ([(''bucket'', JStr (mi_Bucket q)), (''object_key'', JStr (mi_ObjectKey q))] @
       omit_empty ''content_type'' (mi_ContentType q) @
       [(''expires_in_seconds'', JNum (whole_seconds (mi_ExpiresIn q)))])"

definition multipartPartPayload :: "multipart_part \<Rightarrow> json" where
  "multipartPartPayload q =
     JObj [(''bucket'', JStr (mp_Bucket q)), (''object_key'', JStr (mp_ObjectKey q)),
       (''upload_id'', JStr (mp_UploadID q)), (''part_number'', JNum (mp_PartNumber q)),
       (''expires_in_seconds'', JNum (whole_seconds (mp_ExpiresIn q)))]"

definition part_json :: "completed_part \<Rightarrow> json" where
  "part_json p = JObj [(''part_number'', JNum (pt_PartNumber p)), (''etag'', JStr (pt_ETag p))]"

definition multipartCompletePayload :: "multipart_complete \<Rightarrow> json" where
  "multipartCompletePayload q =
     JObj [(''bucket'', JStr (mc_Bucket q)), (''object_key'', JStr (mc_ObjectKey q)),
       (''upload_id'', JStr (mc_UploadID q)), (''parts'', JArr (map part_json (mc_Parts q)))]"

definition multipartAbortPayload :: "multipart_abort \<Rightarrow> json" where
  "multipartAbortPayload q =
     JObj [(''bucket'', JStr (ma_Bucket q)), (''object_key'', JStr (ma_ObjectKey q)),
       (''upload_id'', JStr (ma_UploadID q))]"

definition metadataPayload :: "metadata_request \<Rightarrow> json" where
  "metadataPayload q = JObj [(''bucket'', JStr (mq_Bucket q)), (''object_key'', JStr (mq_ObjectKey q))]"

definition zero_operation :: presigned_operation where
  "zero_operation = \<lparr>po_URL = '''', po_Method = '''', po_ExpiresAt = 0, po_Headers = None\<rparr>"

definition zero_upload :: multipart_upload where
  "zero_upload = \<lparr>mu_UploadID = '''', mu_Bucket = '''', mu_ObjectKey = '''', mu_ExpiresAt = 0\<rparr>"

definition zero_complete :: complete_result where
  "zero_complete = \<lparr>cr_ETag = '''', cr_VersionID = '''', cr_Location = ''''\<rparr>"

definition zero_metadata :: storage_metadata where
  "zero_metadata = \<lparr>md_Exists = False, md_Bucket = '''', md_ObjectKey = '''', md_Size = 0,
     md_ContentType = '''', md_ETag = '''', md_VersionID = '''', md_LastModified = 0,
     md_Checksums = [], md_Metadata = []\<rparr>"

definition signer_sessionID :: "'w remote_signer \<Rightarrow> 'w call_context \<Rightarrow> string" where
  "signer_sessionID s ctx = (case rs_SessionID s of None \<Rightarrow> '''' | Some f \<Rightarrow> f ctx)"

text \<open>
  The common shape of the methods: a nil client is an error, else one POST of the payload, whose decoded
  response (the zero value for an empty body) is the result.
\<close>

definition remote_call ::
  "('w \<Rightarrow> duration \<Rightarrow> 'w) \<Rightarrow> 'w remote_signer \<Rightarrow> 'w call_context \<Rightarrow> string \<Rightarrow> string result
   \<Rightarrow> (string \<Rightarrow> 'v result) option \<Rightarrow> 'v \<Rightarrow> 'w \<Rightarrow> 'w \<times> 'v result" where
  "remote_call wait s ctx route payload decode zero w =
     (case rs_HTTP s of
        None \<Rightarrow> (w, Inl (ErrorString ''remote signer client is not configured''))
      | Some c \<Rightarrow>
          (case DoJSON wait c ctx (signer_sessionID s ctx) ''POST'' route payload decode w of
             (w1, Inl e) \<Rightarrow> (w1, Inl e)
           | (w1, Inr None) \<Rightarrow> (w1, Inr zero)
           | (w1, Inr (Some v)) \<Rightarrow> (w1, Inr v)))"

definition RemoteSigner_presign ::
  "('w \<Rightarrow> duration \<Rightarrow> 'w) \<Rightarrow> signer_codec \<Rightarrow> 'w remote_signer \<Rightarrow> string
   \<Rightarrow> ('w, presigned_request, presigned_operation) service_call" where
  "RemoteSigner_presign wait k s route ctx w q =
     remote_call wait s ctx route (sc_marshal k (presignPayload q)) (Some (sc_presign k)) zero_operation w"

definition RemoteSigner_PresignPut ::
  "('w \<Rightarrow> duration \<Rightarrow> 'w) \<Rightarrow> signer_codec \<Rightarrow> 'w remote_signer
   \<Rightarrow> ('w, presigned_request, presigned_operation) service_call" where
  "RemoteSigner_PresignPut wait k s = RemoteSigner_presign wait k s ''/api/storage/presign/put''"

definition RemoteSigner_PresignGet ::
  "('w \<Rightarrow> duration \<Rightarrow> 'w) \<Rightarrow> signer_codec \<Rightarrow> 'w remote_signer
   \<Rightarrow> ('w, presigned_request, presigned_operation) service_call" where
  "RemoteSigner_PresignGet wait k s = RemoteSigner_presign wait k s ''/api/storage/presign/get''"

definition RemoteSigner_InitiateMultipart ::
  "('w \<Rightarrow> duration \<Rightarrow> 'w) \<Rightarrow> signer_codec \<Rightarrow> 'w remote_signer
   \<Rightarrow> ('w, multipart_initiate, multipart_upload) service_call" where
  "RemoteSigner_InitiateMultipart wait k s ctx w q =
     remote_call wait s ctx ''/api/storage/multipart/initiate''
       (sc_marshal k (multipartInitiatePayload q)) (Some (sc_initiate k)) zero_upload w"

definition RemoteSigner_PresignMultipartPart ::
  "('w \<Rightarrow> duration \<Rightarrow> 'w) \<Rightarrow> signer_codec \<Rightarrow> 'w remote_signer
   \<Rightarrow> ('w, multipart_part, presigned_operation) service_call" where
  "RemoteSigner_PresignMultipartPart wait k s ctx w q =
     remote_call wait s ctx ''/api/storage/multipart/part''
       (sc_marshal k (multipartPartPayload q)) (Some (sc_presign k)) zero_operation w"

definition RemoteSigner_CompleteMultipart ::
  "('w \<Rightarrow> duration \<Rightarrow> 'w) \<Rightarrow> signer_codec \<Rightarrow> 'w remote_signer
   \<Rightarrow> ('w, multipart_complete, complete_result) service_call" where
  "RemoteSigner_CompleteMultipart wait k s ctx w q =
     remote_call wait s ctx ''/api/storage/multipart/complete''
       (sc_marshal k (multipartCompletePayload q)) (Some (sc_complete k)) zero_complete w"

definition RemoteSigner_AbortMultipart ::
  "('w \<Rightarrow> duration \<Rightarrow> 'w) \<Rightarrow> signer_codec \<Rightarrow> 'w remote_signer \<Rightarrow> ('w, multipart_abort, unit) service_call" where
  "RemoteSigner_AbortMultipart wait k s ctx w q =
     remote_call wait s ctx ''/api/storage/multipart/abort''
       (sc_marshal k (multipartAbortPayload q)) None () w"

definition RemoteSigner_GetMetadata ::
  "('w \<Rightarrow> duration \<Rightarrow> 'w) \<Rightarrow> signer_codec \<Rightarrow> 'w remote_signer
   \<Rightarrow> ('w, metadata_request, storage_metadata) service_call" where
  "RemoteSigner_GetMetadata wait k s ctx w q =
     remote_call wait s ctx ''/api/storage/metadata''
       (sc_marshal k (metadataPayload q)) (Some (sc_metadata k)) zero_metadata w"

text \<open>The remote signer as a value of the signer interfaces: it implements all of them.\<close>

definition RemoteSigner ::
  "('w \<Rightarrow> duration \<Rightarrow> 'w) \<Rightarrow> signer_codec \<Rightarrow> 'w remote_signer \<Rightarrow> 'w storage_signer" where
  "RemoteSigner wait k s =
     \<lparr>sg_PresignPut = RemoteSigner_PresignPut wait k s,
      sg_PresignGet = RemoteSigner_PresignGet wait k s,
      sg_Multipart = Some
        \<lparr>ms_Initiate = RemoteSigner_InitiateMultipart wait k s,
         ms_Part = RemoteSigner_PresignMultipartPart wait k s,
         ms_Complete = RemoteSigner_CompleteMultipart wait k s,
         ms_Abort = RemoteSigner_AbortMultipart wait k s\<rparr>,
      sg_Metadata = Some (RemoteSigner_GetMetadata wait k s)\<rparr>"

section \<open>Lemmas\<close>

subsection \<open>Targets\<close>

lemma trim_target_idem [simp]: "trim_target (trim_target t) = trim_target t"
proof -
  have "TrimSpace ''default'' = ''default''"
    by code_simp
  then show ?thesis
    by (simp add: trim_target_def Let_def)
qed

definition target_ok :: "target \<Rightarrow> bool" where
  "target_ok t \<longleftrightarrow> tg_Bucket t \<noteq> '''' \<and> TrimSpace (tg_Bucket t) = tg_Bucket t \<and>
     tg_Provider t \<noteq> '''' \<and> TrimSpace (tg_Provider t) = tg_Provider t"

lemma trim_target_ok: "TrimSpace (tg_Bucket t) \<noteq> '''' \<Longrightarrow> target_ok (trim_target t)"
proof -
  have "TrimSpace ''default'' = ''default''"
    by code_simp
  then show "TrimSpace (tg_Bucket t) \<noteq> '''' \<Longrightarrow> target_ok (trim_target t)"
    by (simp add: trim_target_def target_ok_def Let_def)
qed

text \<open>
  While the loop runs, the trimmed keys that are not waiting for their visit hold normalised entries.
\<close>

lemma targets_loop_ok:
  assumes "targets_loop out keys = Inr reg"
    and "\<forall>k t. map_of out k = Some t \<longrightarrow> TrimSpace k = k \<longrightarrow> k \<notin> set keys \<longrightarrow> target_ok t \<and> k \<noteq> ''''"
  shows "\<forall>k t. map_of reg k = Some t \<longrightarrow> TrimSpace k = k \<longrightarrow> target_ok t \<and> k \<noteq> ''''"
  using assms
proof (induction keys arbitrary: out)
  case Nil
  then show ?case by simp
next
  case (Cons key keys)
  show ?case
  proof (cases "map_of out key")
    case None
    with Cons.prems(1) have run: "targets_loop out keys = Inr reg"
      by simp
    have "\<forall>k t. map_of out k = Some t \<longrightarrow> TrimSpace k = k \<longrightarrow> k \<notin> set keys \<longrightarrow> target_ok t \<and> k \<noteq> ''''"
      using Cons.prems(2) None by (metis option.discI set_ConsD)
    with run show ?thesis
      by (rule Cons.IH)
  next
    case (Some t)
    define out' where "out' = AList.update (TrimSpace key) (trim_target t) out"
    have ok: "TrimSpace key \<noteq> ''''" "TrimSpace (tg_Bucket t) \<noteq> ''''"
      and run: "targets_loop out' keys = Inr reg"
      using Cons.prems(1) Some by (simp_all add: Let_def out'_def split: if_splits)
    have "target_ok u \<and> k \<noteq> ''''" if u: "map_of out' k = Some u" "TrimSpace k = k" "k \<notin> set keys" for k u
    proof (cases "k = TrimSpace key")
      case True
      with u(1) ok trim_target_ok [OF ok(2)] show ?thesis
        by (simp add: out'_def update_conv')
    next
      case False
      then have "map_of out k = Some u" "k \<noteq> key"
        using u by (auto simp: out'_def update_conv')
      with Cons.prems(2) u(2,3) show ?thesis
        by auto
    qed
    then have "\<forall>k t. map_of out' k = Some t \<longrightarrow> TrimSpace k = k \<longrightarrow> k \<notin> set keys \<longrightarrow> target_ok t \<and> k \<noteq> ''''"
      by blast
    with run show ?thesis
      by (rule Cons.IH)
  qed
qed

lemma storagetarget_Parse_ok:
  assumes "storagetarget_Parse unmarshal raw = Inr reg" "target_Resolve reg name = Some t"
  shows "target_ok t \<and> TrimSpace name \<noteq> ''''"
proof (cases "TrimSpace raw = ''''")
  case True
  with assms show ?thesis
    by (simp add: storagetarget_Parse_def target_Resolve_def)
next
  case False
  with assms(1) obtain out where out: "targets_loop out (map fst out) = Inr reg"
    by (auto simp: storagetarget_Parse_def split: sum.splits)
  have "\<forall>k t. map_of out k = Some t \<longrightarrow> TrimSpace k = k \<longrightarrow> k \<notin> set (map fst out) \<longrightarrow> target_ok t \<and> k \<noteq> ''''"
    by (metis map_of_eq_None_iff option.discI list.set_map)
  from targets_loop_ok [OF out this] assms(2) show ?thesis
    by (simp add: target_Resolve_def)
qed


subsection \<open>Verification\<close>

lemma list_ex_checksums:
  "VerificationIntent_Validate i = None \<Longrightarrow> (a, e) \<in> set (vi_ExpectedChecksums i) \<Longrightarrow> TrimSpace e \<noteq> ''''"
  by (auto simp: VerificationIntent_Validate_def list_ex_iff split: if_splits option.splits)

text \<open>
  With the algorithms of the metadata distinct up to case and surrounding space, the inner loop finds a
  nonempty value exactly when the metadata has it.
\<close>

lemma actual_checksum_iff:
  assumes "distinct (map (\<lambda>(a, v). checksum_key a) cs)" "x \<noteq> ''''"
  shows "actual_checksum cs k = x \<longleftrightarrow> (\<exists>(a, v) \<in> set cs. checksum_key a = k \<and> TrimSpace v = x)"
  using assms(1)
proof (induction cs)
  case Nil
  with assms(2) show ?case by (simp add: actual_checksum_def)
next
  case (Cons p cs)
  obtain a v where p: "p = (a, v)" by (cases p)
  show ?case
  proof (cases "checksum_key a = k")
    case True
    with Cons.prems p have "\<forall>(b, u) \<in> set cs. checksum_key b \<noteq> k" by force
    with True p show ?thesis by (auto simp: actual_checksum_def)
  next
    case False
    with Cons p show ?thesis by (auto simp: actual_checksum_def)
  qed
qed

lemma checksum_mismatches_Nil:
  "checksum_mismatches i m = [] \<longleftrightarrow>
     (\<forall>(a, e) \<in> set (vi_ExpectedChecksums i). actual_checksum (md_Checksums m) (checksum_key a) = TrimSpace e)"
  by (auto simp: checksum_mismatches_def Let_def split: if_splits)

lemma checksums_matched:
  assumes "VerificationIntent_Validate i = None" "distinct (map (\<lambda>(a, v). checksum_key a) (md_Checksums m))"
  shows "checksum_mismatches i m = [] \<longleftrightarrow>
    (\<forall>(a, e) \<in> set (vi_ExpectedChecksums i). \<exists>(b, v) \<in> set (md_Checksums m).
       checksum_key b = checksum_key a \<and> TrimSpace v = TrimSpace e)"
  unfolding checksum_mismatches_Nil
proof (rule ball_cong [OF refl], clarify)
  fix a e
  assume "(a, e) \<in> set (vi_ExpectedChecksums i)"
  then have "TrimSpace e \<noteq> []" by (rule list_ex_checksums [OF assms(1)])
  then show "actual_checksum (md_Checksums m) (checksum_key a) = TrimSpace e \<longleftrightarrow>
      (\<exists>(b, v) \<in> set (md_Checksums m). checksum_key b = checksum_key a \<and> TrimSpace v = TrimSpace e)"
    by (rule actual_checksum_iff [OF assms(2)])
qed

subsection \<open>The remote signer\<close>

text \<open>A method of the remote signer puts at most one request on the wire.\<close>

lemma remote_call_once:
  assumes "\<And>c. rs_HTTP s = Some c \<Longrightarrow> wire_logged wait c"
    and "remote_call wait s ctx route payload decode zero w = (w', r)"
  shows "\<exists>reqs b. sent w' = sent w @ reqs \<and> length reqs \<le> 1 \<and>
    list_all (\<lambda>q. \<exists>c. rs_HTTP s = Some c \<and> same_request c ''POST'' route b q) reqs"
proof (cases "rs_HTTP s")
  case None
  with assms(2) show ?thesis by (simp add: remote_call_def)
next
  case (Some c)
  obtain w1 r1 where do: "DoJSON wait c ctx (signer_sessionID s ctx) ''POST'' route payload decode w = (w1, r1)"
    by fastforce
  from DoJSON_sent [OF assms(1) [OF Some] do] obtain reqs b where
    "sent w1 = sent w @ reqs" "list_all (same_request c ''POST'' route b) reqs" "length reqs \<le> 1"
    by (auto simp: isIdempotent_def)
  moreover have "w' = w1"
    using assms(2) Some do by (auto simp: remote_call_def split: sum.splits option.splits)
  ultimately show ?thesis
    using Some by (intro exI [of _ reqs] exI [of _ b]) simp
qed

section \<open>Properties\<close>

text \<open>
  Whatever the configuration text, a target that a parsed registry resolves is well formed: its name is
  not blank, its bucket is nonempty and without surrounding space, and so is its provider (the default one
  where none was given).
\<close>

theorem parsed_targets_normalised:
  assumes "storagetarget_Parse unmarshal raw = Inr reg" "target_Resolve reg name = Some t"
  shows "TrimSpace name \<noteq> '''' \<and> tg_Bucket t \<noteq> '''' \<and> TrimSpace (tg_Bucket t) = tg_Bucket t \<and>
    tg_Provider t \<noteq> '''' \<and> TrimSpace (tg_Provider t) = tg_Provider t"
  using storagetarget_Parse_ok [OF assms] by (simp add: target_ok_def)

definition demo_targets :: target_registry where
  "demo_targets =
     [('' media '', \<lparr>tg_Provider = '''', tg_Bucket = '' m-1 '', tg_ReadOnly = False\<rparr>),
      (''docs'', \<lparr>tg_Provider = ''b'', tg_Bucket = ''d-1'', tg_ReadOnly = True\<rparr>)]"

theorem parsed_targets_normalised_witness:
  "target_Resolve (case storagetarget_Parse (\<lambda>_. Inr demo_targets) ''{}'' of Inl _ \<Rightarrow> [] | Inr r \<Rightarrow> r) ''media'' =
     Some \<lparr>tg_Provider = ''default'', tg_Bucket = ''m-1'', tg_ReadOnly = False\<rparr> \<and>
   TrimSpace ''media'' \<noteq> ''''"
proof -
  let ?r = "case storagetarget_Parse (\<lambda>_. Inr demo_targets) ''{}'' of Inl _ \<Rightarrow> [] | Inr r \<Rightarrow> r"
  have 1: "storagetarget_Parse (\<lambda>_. Inr demo_targets) ''{}'' = Inr ?r"
    by code_simp
  have 2: "target_Resolve ?r ''media'' = Some \<lparr>tg_Provider = ''default'', tg_Bucket = ''m-1'', tg_ReadOnly = False\<rparr>"
    by code_simp
  from parsed_targets_normalised [OF 1 2] 2 show ?thesis by simp
qed

text \<open>
  The entry under the name as it was written stays in the registry beside the normalised one: with a
  surrounding space in the name, a provider that was left out stays empty there.
\<close>

lemma untrimmed_entry_stays:
  "(case storagetarget_Parse (\<lambda>_. Inr demo_targets) ''{}'' of
      Inl _ \<Rightarrow> None | Inr r \<Rightarrow> map_of r '' media '') =
   Some \<lparr>tg_Provider = '''', tg_Bucket = '' m-1 '', tg_ReadOnly = False\<rparr>"
  by code_simp

text \<open>
  C33. An upload is reported as verified exactly when the stored object meets every expectation: it exists,
  its size is the expected one, its content type agrees up to case, and for each expected checksum the
  metadata has that algorithm with that value (the algorithms of the metadata being distinct up to case and
  surrounding space). The list of mismatches is empty exactly then.
\<close>

theorem verified_iff:
  assumes "VerifyUpload i m = Inr res"
    and "distinct (map (\<lambda>(a, v). checksum_key a) (md_Checksums m))"
  shows "(vr_Verified res \<longleftrightarrow>
      md_Exists m \<and> (\<forall>n. vi_ExpectedSize i = Some n \<longrightarrow> md_Size m = n) \<and>
      (TrimSpace (vi_ExpectedContentType i) \<noteq> '''' \<longrightarrow>
         EqualFold (TrimSpace (vi_ExpectedContentType i)) (TrimSpace (md_ContentType m))) \<and>
      (\<forall>(a, e) \<in> set (vi_ExpectedChecksums i). \<exists>(b, v) \<in> set (md_Checksums m).
         checksum_key b = checksum_key a \<and> TrimSpace v = TrimSpace e)) \<and>
    (vr_Verified res \<longleftrightarrow> vr_Mismatches res = [])"
proof -
  have valid: "VerificationIntent_Validate i = None"
    using assms(1) by (auto simp: VerifyUpload_def split: option.splits)
  note sums = checksums_matched [OF valid assms(2)]
  have size: "size_mismatch i m = [] \<longleftrightarrow> (\<forall>n. vi_ExpectedSize i = Some n \<longrightarrow> md_Size m = n)"
    by (simp add: size_mismatch_def split: option.splits)
  have type: "content_type_mismatch i m = [] \<longleftrightarrow> (TrimSpace (vi_ExpectedContentType i) \<noteq> '''' \<longrightarrow>
      EqualFold (TrimSpace (vi_ExpectedContentType i)) (TrimSpace (md_ContentType m)))"
    by (auto simp: content_type_mismatch_def Let_def)
  show ?thesis
  proof (cases "md_Exists m")
    case True
    with assms(1) valid have "vr_Mismatches res = size_mismatch i m @ content_type_mismatch i m @ checksum_mismatches i m"
      "vr_Verified res \<longleftrightarrow> vr_Mismatches res = []"
      by (auto simp: VerifyUpload_def Let_def)
    with True show ?thesis by (simp only: append_is_Nil_conv size type sums simp_thms)
  next
    case False
    with assms(1) valid show ?thesis by (auto simp: VerifyUpload_def Let_def)
  qed
qed

definition demo_intent :: verification_intent where
  "demo_intent = \<lparr>vi_Target = ''media'', vi_ObjectKey = ''a/b.png'', vi_ExpectedSize = Some 7,
     vi_ExpectedContentType = ''image/PNG'', vi_ExpectedChecksums = [(''SHA256'', ''x1'')]\<rparr>"

definition demo_metadata :: storage_metadata where
  "demo_metadata = \<lparr>md_Exists = True, md_Bucket = ''m-1'', md_ObjectKey = ''a/b.png'', md_Size = 7,
     md_ContentType = ''image/png'', md_ETag = ''e'', md_VersionID = '''', md_LastModified = 0,
     md_Checksums = [(''md5'', ''y''), (''sha256 '', ''x1'')], md_Metadata = []\<rparr>"

theorem verified_iff_witness:
  "\<exists>res. VerifyUpload demo_intent demo_metadata = Inr res \<and> vr_Verified res \<and> vr_Mismatches res = []"
proof -
  have "(case VerifyUpload demo_intent demo_metadata of Inl _ \<Rightarrow> False | Inr res \<Rightarrow> vr_Verified res)"
    by code_simp
  then obtain res where res: "VerifyUpload demo_intent demo_metadata = Inr res" "vr_Verified res"
    by (auto split: sum.splits)
  have "distinct (map (\<lambda>(a, v). checksum_key a) (md_Checksums demo_metadata))"
    by code_simp
  from verified_iff [OF res(1) this] res show ?thesis by blast
qed

text \<open>
  Without that distinctness the verdict depends on the order in which Go ranges over the checksums of the
  metadata: the loop stops at the first algorithm that matches.
\<close>

lemma verdict_depends_on_map_order:
  "map_option vr_Verified (case VerifyUpload (demo_intent\<lparr>vi_ExpectedChecksums := [(''md5'', ''y'')]\<rparr>)
       (demo_metadata\<lparr>md_Checksums := [(''md5'', ''y''), (''MD5'', ''z'')]\<rparr>) of Inl _ \<Rightarrow> None | Inr r \<Rightarrow> Some r) = Some True \<and>
   map_option vr_Verified (case VerifyUpload (demo_intent\<lparr>vi_ExpectedChecksums := [(''md5'', ''y'')]\<rparr>)
       (demo_metadata\<lparr>md_Checksums := [(''MD5'', ''z''), (''md5'', ''y'')]\<rparr>) of Inl _ \<Rightarrow> None | Inr r \<Rightarrow> Some r) = Some False"
proof
  show "map_option vr_Verified (case VerifyUpload (demo_intent\<lparr>vi_ExpectedChecksums := [(''md5'', ''y'')]\<rparr>)
       (demo_metadata\<lparr>md_Checksums := [(''md5'', ''y''), (''MD5'', ''z'')]\<rparr>) of Inl _ \<Rightarrow> None | Inr r \<Rightarrow> Some r) = Some True"
    by code_simp
  show "map_option vr_Verified (case VerifyUpload (demo_intent\<lparr>vi_ExpectedChecksums := [(''md5'', ''y'')]\<rparr>)
       (demo_metadata\<lparr>md_Checksums := [(''MD5'', ''z''), (''md5'', ''y'')]\<rparr>) of Inl _ \<Rightarrow> None | Inr r \<Rightarrow> Some r) = Some False"
    by code_simp
qed

end
