(* ===== verification/AppConfig.thy ===== *)
theory AppConfig
  imports GoConv Storage RuntimeCfg
begin

text \<open>
  The configuration of the process (\<^verbatim>\<open>internal/app/config.go\<close>): reading the settings from the environment, a
  partial map from names to values, and their validation. The theorems say what a configuration that loads looks
  like, and that settings that are not given have their defaults.
\<close>

section \<open>Definitions\<close>

subsection \<open>The configuration\<close>

record telemetry_config =
  tl_MetricsEnabled :: bool
  tl_AuditEnabled :: bool
  tl_AccessLogEnabled :: bool
  tl_TraceEnabled :: bool

record limits_config =
  lim_MaxRequestBodyBytes :: int
  lim_MaxConcurrency :: int
  lim_RatePerSecond :: go_float
  lim_RateBurst :: int
  lim_RateMaxEntries :: int
  lim_AuthRatePerSecond :: go_float
  lim_AuthRateBurst :: int

record http_config =
  ht_Addr :: string
  ht_BasePath :: string
  ht_PublicURL :: string
  ht_TrustedProxyCIDRs :: "string list"

record store_config =
  sto_Backend :: string
  sto_RedisURL :: string
  sto_RedisPrefix :: string

record login_config =
  oi_Issuer :: string
  oi_ClientID :: string
  oi_ClientSecret :: string
  oi_Scopes :: "string list"

record provider_config =
  pv_SignerBaseURL :: string

type_synonym provider_map = "(string \<times> provider_config) list"

record workload_auth_config =
  wa_Mode :: string
  wa_Issuer :: string
  wa_Audience :: string
  wa_Required :: bool

record storage_role_config =
  sro_SignerBaseURL :: string
  sro_SignerTimeout :: duration
  sro_Providers :: provider_map
  sro_DefaultTTL :: duration
  sro_MaxTTL :: duration
  sro_Targets :: target_registry
  sro_AccessPolicyURL :: string
  sro_AccessPolicyTimeout :: duration
  sro_SubjectHeader :: string
  sro_WorkloadAuth :: workload_auth_config

record session_config =
  sc_MaxLifetime :: duration
  sc_IdleTimeout :: duration
  sc_TouchInterval :: duration

record policy_config =
  pol_Provider :: string
  pol_RolePermissions :: "string \<rightharpoonup> string list"
  pol_RoleCapabilities :: "string \<rightharpoonup> string list"

record config =
  cfg_Runtime :: selection
  cfg_HTTP :: http_config
  cfg_Telemetry :: telemetry_config
  cfg_Limits :: limits_config
  cfg_OIDC :: login_config
  cfg_Store :: store_config
  cfg_Policy :: policy_config
  cfg_Session :: session_config
  cfg_Storage :: storage_role_config

subsection \<open>Reading the environment\<close>

type_synonym environ = "string \<rightharpoonup> string"

definition Getenv :: "environ \<Rightarrow> string \<Rightarrow> string" where
  "Getenv env name = (case env name of None \<Rightarrow> '''' | Some v \<Rightarrow> v)"

definition envOr :: "environ \<Rightarrow> string \<Rightarrow> string \<Rightarrow> string" where
  "envOr env name fallback = (case env name of Some v \<Rightarrow> v | None \<Rightarrow> fallback)"

definition splitCSV :: "string \<Rightarrow> string list" where
  "splitCSV v = filter (\<lambda>item. item \<noteq> '''') (map TrimSpace (Split v (CHR '','')))"

text \<open>The error of a conversion carries the name of the setting; the text of the library's own error is left open.\<close>

definition setting_result :: "string \<Rightarrow> 'a option \<Rightarrow> 'a result" where
  "setting_result name v =
     (case v of None \<Rightarrow> Inl (ErrWrapped name (ExternalError ''invalid value'')) | Some x \<Rightarrow> Inr x)"

definition durationEnv :: "environ \<Rightarrow> string \<Rightarrow> duration \<Rightarrow> duration result" where
  "durationEnv env name fallback =
     setting_result name (ParseDuration (envOr env name (Duration_String fallback)))"

definition intEnv :: "environ \<Rightarrow> string \<Rightarrow> int \<Rightarrow> int result" where
  "intEnv env name fallback = setting_result name (ParseInt64 (TrimSpace (envOr env name (Itoa fallback))))"

definition int64Env :: "environ \<Rightarrow> string \<Rightarrow> int \<Rightarrow> int result" where
  "int64Env env name fallback = setting_result name (ParseInt64 (TrimSpace (envOr env name (Itoa fallback))))"

text \<open>The fallback is given by the text that \<^verbatim>\<open>FormatFloat\<close> prints for it.\<close>

definition floatEnv :: "environ \<Rightarrow> string \<Rightarrow> string \<Rightarrow> go_float result" where
  "floatEnv env name fallback = setting_result name (ParseFloat (TrimSpace (envOr env name fallback)))"

definition boolEnv :: "environ \<Rightarrow> string \<Rightarrow> bool \<Rightarrow> bool result" where
  "boolEnv env name fallback = setting_result name (ParseBool (TrimSpace (envOr env name (FormatBool fallback))))"

text \<open>
  The loop over the decoded providers: an entry whose name has surrounding space is deleted and stored under
  the trimmed name. As for the targets, the visit of an entry that the loop added changes nothing.
\<close>

fun provider_loop :: "provider_map \<Rightarrow> string list \<Rightarrow> provider_map result" where
  "provider_loop out [] = Inr out"
| "provider_loop out (name # names) =
     (case map_of out name of
        None \<Rightarrow> provider_loop out names
      | Some provider0 \<Rightarrow>
          (let trimmed = TrimSpace name;
               provider = provider0\<lparr>pv_SignerBaseURL := TrimSpace (pv_SignerBaseURL provider0)\<rparr>
           in if trimmed = '''' then Inl (ErrorString ''storage provider name is required'')
              else if pv_SignerBaseURL provider = ''''
              then Inl (ErrorString (''storage provider '' @ Quote trimmed @ '' signer_base_url is required''))
              else if trimmed \<noteq> name
              then provider_loop (AList.update trimmed provider (AList.delete name out)) names
              else provider_loop (AList.update name provider out) names))"

text \<open>The outcome of \<^verbatim>\<open>json.Unmarshal\<close> is an error, the nil map (for \<^verbatim>\<open>null\<close>) or a map, whose keys are in range order.\<close>

definition parseStorageProviders ::
  "(string \<Rightarrow> provider_map option result) \<Rightarrow> string \<Rightarrow> provider_map result" where
  "parseStorageProviders unmarshal v =
     (if TrimSpace v = '''' then Inr []
      else case unmarshal v of
          Inl e \<Rightarrow> Inl (ErrWrapped ''parse storage providers'' e)
        | Inr m \<Rightarrow> (let out = (case m of None \<Rightarrow> [] | Some out \<Rightarrow> out) in provider_loop out (map fst out)))"

definition parseStringSliceMap ::
  "(string \<Rightarrow> (string \<rightharpoonup> string list) option result) \<Rightarrow> string \<Rightarrow> (string \<rightharpoonup> string list) result" where
  "parseStringSliceMap unmarshal v =
     (if TrimSpace v = '''' then Inr Map.empty
      else case unmarshal v of
          Inl e \<Rightarrow> Inl e
        | Inr m \<Rightarrow> Inr (case m of None \<Rightarrow> Map.empty | Some out \<Rightarrow> out))"

subsection \<open>The base path\<close>

definition normalizeBasePath :: "string \<Rightarrow> string result" where
  "normalizeBasePath v =
     (if v = '''' \<or> v = ''/'' then Inr ''''
      else if \<not> HasPrefix v ''/'' then Inl (ErrorString ''http base path must start with /'')
      else if list_ex (\<lambda>segment. segment = ''..'' \<or> segment = ''.'') (Split v (CHR ''/''))
      then Inl (ErrorString ''http base path must not contain dot segments'')
      else (let cleaned = path_Clean v
            in if cleaned = ''.'' \<or> cleaned = ''/'' then Inr '''' else Inr (TrimRight cleaned (CHR ''/''))))"

definition NormalizedBasePath :: "http_config \<Rightarrow> string" where
  "NormalizedBasePath c = (case normalizeBasePath (ht_BasePath c) of Inl _ \<Rightarrow> '''' | Inr p \<Rightarrow> p)"

subsection \<open>Validation\<close>

text \<open>An absolute URL with a host, as the checks of the settings want it.\<close>

definition absolute_url :: "string \<Rightarrow> bool" where
  "absolute_url s \<longleftrightarrow> (case url_Parse s of None \<Rightarrow> False | Some u \<Rightarrow> u_Scheme u \<noteq> '''' \<and> u_Host u \<noteq> '''')"

text \<open>The fragment is what follows the first number sign, unescaped.\<close>

definition url_Fragment :: "string \<Rightarrow> string" where
  "url_Fragment raw =
     (case Cut raw (CHR ''#'') of (_, frag, _) \<Rightarrow> (case unescape frag of None \<Rightarrow> '''' | Some f \<Rightarrow> f))"

text \<open>A sequence of checks returns the first error.\<close>

fun first_error :: "goerr option list \<Rightarrow> goerr option" where
  "first_error [] = None"
| "first_error (None # es) = first_error es"
| "first_error (Some e # es) = Some e"

definition ensure :: "bool \<Rightarrow> string \<Rightarrow> goerr option" where
  "ensure ok message = (if ok then None else Some (ErrorString message))"

definition validate_runtime :: "role list \<Rightarrow> config \<Rightarrow> goerr option" where
  "validate_runtime keys c =
     (if Roles (cfg_Runtime c) \<noteq> []
      then map_option (ErrWrapped ''runtime selection'') (Validate keys (cfg_Runtime c))
      else None)"

definition validate_http :: "config \<Rightarrow> goerr option" where
  "validate_http c =
     first_error
       [ensure (ht_Addr (cfg_HTTP c) \<noteq> '''') ''http addr is required'',
        (case normalizeBasePath (ht_BasePath (cfg_HTTP c)) of Inl e \<Rightarrow> Some e | Inr _ \<Rightarrow> None),
        ensure (absolute_url (ht_PublicURL (cfg_HTTP c))) ''http public URL must be absolute'',
        ensure (\<not> (case url_Parse (ht_PublicURL (cfg_HTTP c)) of None \<Rightarrow> False | Some u \<Rightarrow> u_RawQuery u \<noteq> '''') \<and>
                url_Fragment (ht_PublicURL (cfg_HTTP c)) = '''')
          ''http public URL must not contain query or fragment'']"

definition validate_limits :: "config \<Rightarrow> goerr option" where
  "validate_limits c =
     (let l = cfg_Limits c
      in first_error
           [ensure (0 \<le> lim_MaxRequestBodyBytes l) ''max request body bytes must be >= 0'',
            ensure (\<not> (lim_MaxConcurrency l < 0 \<or> float_negative (lim_RatePerSecond l) \<or> lim_RateBurst l < 0 \<or>
                       lim_RateMaxEntries l < 0 \<or> float_negative (lim_AuthRatePerSecond l) \<or> lim_AuthRateBurst l < 0))
              ''limits must be >= 0''])"

definition validate_login :: "config \<Rightarrow> goerr option" where
  "validate_login c =
     ensure ((TrimSpace (oi_Issuer (cfg_OIDC c)) \<noteq> '''') = (TrimSpace (oi_ClientID (cfg_OIDC c)) \<noteq> ''''))
       ''oidc issuer and client id must be configured together''"

definition validate_store :: "config \<Rightarrow> goerr option" where
  "validate_store c =
     (let s = cfg_Store c
      in if sto_Backend s = ''memory'' then None
         else if sto_Backend s = ''redis''
         then ensure (TrimSpace (sto_RedisURL s) \<noteq> '''') ''redis URL is required when store backend is redis''
         else Some (ErrorString (''unsupported store backend '' @ Quote (sto_Backend s))))"

definition validate_session :: "config \<Rightarrow> goerr option" where
  "validate_session c =
     (let s = cfg_Session c
      in if sc_MaxLifetime s \<noteq> 0 \<or> sc_IdleTimeout s \<noteq> 0 \<or> sc_TouchInterval s \<noteq> 0
         then first_error
           [ensure (\<not> sc_MaxLifetime s \<le> 0) ''session max lifetime must be positive'',
            ensure (\<not> (sc_IdleTimeout s \<le> 0 \<or> sc_MaxLifetime s < sc_IdleTimeout s))
              ''session idle timeout must be positive and <= max lifetime'',
            ensure (\<not> (sc_TouchInterval s \<le> 0 \<or> sc_IdleTimeout s < sc_TouchInterval s))
              ''session touch interval must be positive and <= idle timeout'']
         else None)"

definition storageConfigured :: "config \<Rightarrow> bool" where
  "storageConfigured c \<longleftrightarrow>
     (let s = cfg_Storage c
      in HasRole (cfg_Runtime c) RoleStorage \<or> sro_SignerBaseURL s \<noteq> '''' \<or> sro_Providers s \<noteq> [] \<or>
         sro_SignerTimeout s \<noteq> 0 \<or> sro_DefaultTTL s \<noteq> 0 \<or> sro_MaxTTL s \<noteq> 0 \<or> sro_Targets s \<noteq> [] \<or>
         sro_AccessPolicyURL s \<noteq> '''')"

definition check_provider :: "string \<times> provider_config \<Rightarrow> goerr option" where
  "check_provider np =
     (let name = TrimSpace (fst np)
      in if name = '''' then Some (ErrorString ''storage provider name is required'')
         else ensure (absolute_url (TrimSpace (pv_SignerBaseURL (snd np))))
                (''storage provider '' @ Quote name @ '' signer base URL must be absolute''))"

definition check_target :: "provider_map \<Rightarrow> string \<times> target \<Rightarrow> goerr option" where
  "check_target providers nt =
     ensure (map_of providers (tg_Provider (snd nt)) \<noteq> None)
       (''storage target '' @ Quote (fst nt) @ '' references unconfigured provider '' @ Quote (tg_Provider (snd nt)))"

definition validate_workload :: "workload_auth_config \<Rightarrow> goerr option" where
  "validate_workload a =
     (if wa_Mode a = '''' \<or> wa_Mode a = ''disabled''
      then ensure (\<not> wa_Required a) ''storage workload auth cannot be required when mode is disabled''
      else if wa_Mode a = ''oidc''
      then first_error
        [ensure (\<not> (TrimSpace (wa_Issuer a) = '''' \<or> TrimSpace (wa_Audience a) = ''''))
           ''storage workload OIDC issuer and audience are required'',
         ensure (absolute_url (wa_Issuer a)) ''storage workload OIDC issuer must be absolute'']
      else Some (ErrorString (''unsupported storage workload auth mode '' @ Quote (wa_Mode a))))"

text \<open>The checks of the storage role, in the order of the code; the two maps are in range order.\<close>

definition validate_storage :: "config \<Rightarrow> goerr option" where
  "validate_storage c =
     (let s = cfg_Storage c
      in if storageConfigured c
         then first_error
           ([ensure (\<not> sro_SignerTimeout s \<le> 0) ''storage signer timeout must be positive'',
             ensure (\<not> (sro_DefaultTTL s \<le> 0 \<or> sro_MaxTTL s \<le> 0 \<or> sro_MaxTTL s < sro_DefaultTTL s))
               ''storage presign TTLs must be positive and default <= max'',
             (if sro_SignerBaseURL s \<noteq> ''''
              then ensure (absolute_url (sro_SignerBaseURL s)) ''storage signer base URL must be absolute'' else None)] @
            map check_provider (sro_Providers s) @
            (if sro_Providers s \<noteq> [] then map (check_target (sro_Providers s)) (sro_Targets s) else []) @
            [ensure (\<not> sro_AccessPolicyTimeout s \<le> 0) ''storage access policy timeout must be positive'',
             ensure (TrimSpace (sro_SubjectHeader s) \<noteq> '''') ''storage subject header is required'',
             ensure (\<not> (sro_Targets s \<noteq> [] \<and> sro_AccessPolicyURL s = ''''))
               ''storage access policy URL is required when storage targets are configured'',
             (if sro_AccessPolicyURL s \<noteq> ''''
              then ensure (absolute_url (sro_AccessPolicyURL s)) ''storage access policy URL must be absolute'' else None),
             validate_workload (sro_WorkloadAuth s)])
         else None)"

definition validate_policy :: "config \<Rightarrow> goerr option" where
  "validate_policy c =
     (let p = pol_Provider (cfg_Policy c)
      in ensure (p = '''' \<or> p = ''static'') (''unsupported policy provider '' @ Quote p))"

definition Config_Validate :: "role list \<Rightarrow> config \<Rightarrow> goerr option" where
  "Config_Validate keys c =
     first_error
       [validate_runtime keys c, validate_http c, validate_limits c, validate_login c, validate_store c,
        validate_session c, validate_storage c, validate_policy c]"

subsection \<open>Loading\<close>

text \<open>
  What loading takes from outside the process: \<^verbatim>\<open>json.Unmarshal\<close> into the three map types, and the order in which
  Go ranges over the capability map of a selection.
\<close>

record config_lib =
  lib_targets :: "string \<Rightarrow> target_registry result"
  lib_providers :: "string \<Rightarrow> provider_map option result"
  lib_slices :: "string \<Rightarrow> (string \<rightharpoonup> string list) option result"
  lib_keys :: "selection \<Rightarrow> role list"

text \<open>Go on with the value of a step, or return its error.\<close>

abbreviation and_then :: "'a result \<Rightarrow> ('a \<Rightarrow> 'b result) \<Rightarrow> 'b result" where
  "and_then r f \<equiv> (case r of Inl e \<Rightarrow> Inl e | Inr x \<Rightarrow> f x)"

fun wrap_error :: "string \<Rightarrow> 'a result \<Rightarrow> 'a result" where
  "wrap_error m (Inl e) = Inl (ErrWrapped m e)"
| "wrap_error m (Inr x) = Inr x"

definition check :: "goerr option \<Rightarrow> 'a \<Rightarrow> 'a result" where
  "check e x = (case e of None \<Rightarrow> Inr x | Some e \<Rightarrow> Inl e)"

definition load_selection :: "config_lib \<Rightarrow> environ \<Rightarrow> selection result" where
  "load_selection lib env =
     and_then (wrap_error ''runtime roles'' (ParseRoles (Getenv env ''GATEWAY_ROLE''))) (\<lambda>roles.
     and_then (wrap_error ''runtime capabilities'' (ParseCapabilities roles (Getenv env ''GATEWAY_CAPABILITIES'')))
       (\<lambda>capabilities.
     let sel = \<lparr>Roles = roles, Capabilities = capabilities\<rparr>
     in wrap_error ''runtime selection'' (check (Validate (lib_keys lib sel) sel) sel)))"

definition load_telemetry :: "environ \<Rightarrow> telemetry_config result" where
  "load_telemetry env =
     and_then (boolEnv env ''BFF_METRICS_ENABLED'' True) (\<lambda>metricsEnabled.
     and_then (boolEnv env ''BFF_AUDIT_ENABLED'' True) (\<lambda>auditEnabled.
     and_then (boolEnv env ''BFF_ACCESS_LOG_ENABLED'' True) (\<lambda>accessLogEnabled.
     and_then (boolEnv env ''BFF_TRACE_ENABLED'' True) (\<lambda>traceEnabled.
     Inr \<lparr>tl_MetricsEnabled = metricsEnabled, tl_AuditEnabled = auditEnabled,
          tl_AccessLogEnabled = accessLogEnabled, tl_TraceEnabled = traceEnabled\<rparr>))))"

definition load_session :: "environ \<Rightarrow> session_config result" where
  "load_session env =
     and_then (durationEnv env ''BFF_SESSION_MAX_LIFETIME'' (8 * Hour)) (\<lambda>maxLifetime.
     and_then (durationEnv env ''BFF_SESSION_IDLE_TIMEOUT'' (30 * Minute)) (\<lambda>idleTimeout.
     and_then (durationEnv env ''BFF_SESSION_TOUCH_INTERVAL'' Minute) (\<lambda>touchInterval.
     Inr \<lparr>sc_MaxLifetime = maxLifetime, sc_IdleTimeout = idleTimeout, sc_TouchInterval = touchInterval\<rparr>)))"

definition load_workload_auth :: "environ \<Rightarrow> workload_auth_config" where
  "load_workload_auth env =
     \<lparr>wa_Mode = ToLower (TrimSpace (envOr env ''STORAGE_WORKLOAD_AUTH_MODE'' ''disabled'')),
      wa_Issuer = TrimSpace (Getenv env ''STORAGE_WORKLOAD_OIDC_ISSUER''),
      wa_Audience = TrimSpace (Getenv env ''STORAGE_WORKLOAD_OIDC_AUDIENCE''),
      wa_Required = EqualFold (TrimSpace (envOr env ''STORAGE_WORKLOAD_AUTH_REQUIRED'' ''false'')) ''true''\<rparr>"

definition load_storage :: "config_lib \<Rightarrow> environ \<Rightarrow> storage_role_config result" where
  "load_storage lib env =
     and_then (durationEnv env ''STORAGE_SIGNER_TIMEOUT'' (5 * Second)) (\<lambda>storageSignerTimeout.
     and_then (durationEnv env ''STORAGE_PRESIGN_DEFAULT_TTL'' (15 * Minute)) (\<lambda>storageDefaultTTL.
     and_then (durationEnv env ''STORAGE_PRESIGN_MAX_TTL'' Hour) (\<lambda>storageMaxTTL.
     and_then (durationEnv env ''STORAGE_ACCESS_POLICY_TIMEOUT'' (3 * Second)) (\<lambda>storageAccessPolicyTimeout.
     and_then (storagetarget_Parse (lib_targets lib) (Getenv env ''STORAGE_TARGETS_JSON'')) (\<lambda>storageTargets.
     and_then (parseStorageProviders (lib_providers lib) (Getenv env ''STORAGE_PROVIDERS_JSON'')) (\<lambda>storageProviders.
     Inr \<lparr>sro_SignerBaseURL = TrimSpace (Getenv env ''STORAGE_SIGNER_BASE_URL''),
          sro_SignerTimeout = storageSignerTimeout, sro_Providers = storageProviders,
          sro_DefaultTTL = storageDefaultTTL, sro_MaxTTL = storageMaxTTL, sro_Targets = storageTargets,
          sro_AccessPolicyURL = TrimSpace (Getenv env ''STORAGE_ACCESS_POLICY_URL''),
          sro_AccessPolicyTimeout = storageAccessPolicyTimeout,
          sro_SubjectHeader = envOr env ''STORAGE_SUBJECT_HEADER'' ''X-Auth-Subject'',
          sro_WorkloadAuth = load_workload_auth env\<rparr>))))))"

definition load_limits :: "environ \<Rightarrow> limits_config result" where
  "load_limits env =
     and_then (int64Env env ''BFF_LIMIT_MAX_REQUEST_BODY_BYTES'' (2 ^ 20)) (\<lambda>maxBody.
     and_then (intEnv env ''BFF_LIMIT_MAX_CONCURRENCY'' 256) (\<lambda>maxConcurrency.
     and_then (floatEnv env ''BFF_LIMIT_RATE_PER_SECOND'' ''50'') (\<lambda>ratePerSecond.
     and_then (intEnv env ''BFF_LIMIT_RATE_BURST'' 100) (\<lambda>rateBurst.
     and_then (intEnv env ''BFF_LIMIT_RATE_MAX_ENTRIES'' 10000) (\<lambda>rateMaxEntries.
     and_then (floatEnv env ''BFF_LIMIT_AUTH_RATE_PER_SECOND'' ''0.2'') (\<lambda>authRatePerSecond.
     and_then (intEnv env ''BFF_LIMIT_AUTH_RATE_BURST'' 10) (\<lambda>authRateBurst.
     Inr \<lparr>lim_MaxRequestBodyBytes = maxBody, lim_MaxConcurrency = maxConcurrency,
          lim_RatePerSecond = ratePerSecond, lim_RateBurst = rateBurst, lim_RateMaxEntries = rateMaxEntries,
          lim_AuthRatePerSecond = authRatePerSecond, lim_AuthRateBurst = authRateBurst\<rparr>)))))))"

definition load_policy :: "config_lib \<Rightarrow> environ \<Rightarrow> policy_config result" where
  "load_policy lib env =
     and_then (wrap_error ''policy role permissions''
       (parseStringSliceMap (lib_slices lib) (Getenv env ''BFF_POLICY_ROLE_PERMISSIONS''))) (\<lambda>rolePermissions.
     and_then (wrap_error ''policy role capabilities''
       (parseStringSliceMap (lib_slices lib) (Getenv env ''BFF_POLICY_ROLE_CAPABILITIES''))) (\<lambda>roleCapabilities.
     Inr \<lparr>pol_Provider = envOr env ''BFF_POLICY_PROVIDER'' ''static'',
          pol_RolePermissions = rolePermissions, pol_RoleCapabilities = roleCapabilities\<rparr>))"

definition load_http :: "environ \<Rightarrow> http_config" where
  "load_http env =
     \<lparr>ht_Addr = envOr env ''BFF_HTTP_ADDR'' '':8080'', ht_BasePath = envOr env ''BFF_HTTP_BASE_PATH'' '''',
      ht_PublicURL = envOr env ''BFF_HTTP_PUBLIC_URL'' ''http://localhost:8080'',
      ht_TrustedProxyCIDRs = splitCSV (Getenv env ''BFF_TRUSTED_PROXY_CIDRS'')\<rparr>"

definition load_store :: "environ \<Rightarrow> store_config" where
  "load_store env =
     \<lparr>sto_Backend = envOr env ''BFF_STORE_BACKEND'' ''memory'', sto_RedisURL = Getenv env ''BFF_REDIS_URL'',
      sto_RedisPrefix = envOr env ''BFF_REDIS_PREFIX'' ''rebff''\<rparr>"

definition load_login :: "environ \<Rightarrow> login_config" where
  "load_login env =
     \<lparr>oi_Issuer = Getenv env ''BFF_OIDC_ISSUER'', oi_ClientID = Getenv env ''BFF_OIDC_CLIENT_ID'',
      oi_ClientSecret = Getenv env ''BFF_OIDC_CLIENT_SECRET'',
      oi_Scopes = splitCSV (envOr env ''BFF_OIDC_SCOPES'' ''openid,profile,email'')\<rparr>"

text \<open>The settings are read in the order of the code, so that the first bad one is the error.\<close>

definition LoadConfig :: "config_lib \<Rightarrow> environ \<Rightarrow> config result" where
  "LoadConfig lib env =
     and_then (load_selection lib env) (\<lambda>runtimeSelection.
     and_then (load_telemetry env) (\<lambda>telemetry.
     and_then (load_session env) (\<lambda>session.
     and_then (load_storage lib env) (\<lambda>storage.
     and_then (load_limits env) (\<lambda>limits.
     and_then (load_policy lib env) (\<lambda>policy.
     let cfg = \<lparr>cfg_Runtime = runtimeSelection, cfg_HTTP = load_http env, cfg_Telemetry = telemetry,
                cfg_Limits = limits, cfg_OIDC = load_login env, cfg_Store = load_store env, cfg_Policy = policy,
                cfg_Session = session, cfg_Storage = storage\<rparr>
     in check (Config_Validate (lib_keys lib (cfg_Runtime cfg)) cfg) cfg))))))"

section \<open>Lemmas\<close>

lemma first_error_None: "first_error es = None \<longleftrightarrow> (\<forall>e \<in> set es. e = None)"
  by (induction es rule: first_error.induct) auto

lemma ensure_None [simp]: "ensure ok m = None \<longleftrightarrow> ok"
  by (simp add: ensure_def)

lemma and_then_Inr: "and_then r f = Inr y \<longleftrightarrow> (\<exists>x. r = Inr x \<and> f x = Inr y)"
  by (cases r) auto

lemma and_then_Inl: "and_then r f = Inl e \<longleftrightarrow> r = Inl e \<or> (\<exists>x. r = Inr x \<and> f x = Inl e)"
  by (cases r) auto

lemma wrap_error_Inr [simp]: "wrap_error m r = Inr y \<longleftrightarrow> r = Inr y"
  by (cases r) auto

lemma check_Inr [simp]: "check e x = Inr y \<longleftrightarrow> e = None \<and> x = y"
  by (auto simp: check_def split: option.splits)

subsection \<open>Settings that are not given\<close>

lemma durationEnv_unset:
  "env name = None \<Longrightarrow> 0 \<le> d \<Longrightarrow> d < 2 ^ 63 \<Longrightarrow> d mod Second = 0 \<Longrightarrow> durationEnv env name d = Inr d"
  by (simp add: durationEnv_def envOr_def setting_result_def ParseDuration_String)

lemma intEnv_unset:
  "env name = None \<Longrightarrow> - (2 ^ 63) \<le> n \<Longrightarrow> n < 2 ^ 63 \<Longrightarrow> intEnv env name n = Inr n \<and> int64Env env name n = Inr n"
  by (simp add: intEnv_def int64Env_def envOr_def setting_result_def ParseInt64_Itoa)

lemma boolEnv_unset: "env name = None \<Longrightarrow> boolEnv env name b = Inr b"
  by (simp add: boolEnv_def envOr_def setting_result_def)

subsection \<open>Providers\<close>

definition provider_ok :: "string \<Rightarrow> provider_config \<Rightarrow> bool" where
  "provider_ok name p \<longleftrightarrow>
     TrimSpace name = name \<and> name \<noteq> '''' \<and> TrimSpace (pv_SignerBaseURL p) = pv_SignerBaseURL p \<and> pv_SignerBaseURL p \<noteq> ''''"

lemma provider_loop_ok:
  assumes "provider_loop out names = Inr reg"
    and "\<forall>k p. map_of out k = Some p \<longrightarrow> k \<notin> set names \<longrightarrow> provider_ok k p"
  shows "\<forall>k p. map_of reg k = Some p \<longrightarrow> provider_ok k p"
  using assms
proof (induction names arbitrary: out)
  case (Cons name names)
  show ?case
  proof (cases "map_of out name")
    case None
    with Cons.prems(1) have run: "provider_loop out names = Inr reg" by simp
    have "\<forall>k p. map_of out k = Some p \<longrightarrow> k \<notin> set names \<longrightarrow> provider_ok k p"
      using Cons.prems(2) None by (metis option.discI set_ConsD)
    with run show ?thesis by (rule Cons.IH)
  next
    case (Some p0)
    define p where "p = p0\<lparr>pv_SignerBaseURL := TrimSpace (pv_SignerBaseURL p0)\<rparr>"
    define out' where "out' = AList.update (TrimSpace name) p (if TrimSpace name \<noteq> name then AList.delete name out else out)"
    have ok: "TrimSpace name \<noteq> ''''" "pv_SignerBaseURL p \<noteq> ''''" and run: "provider_loop out' names = Inr reg"
      using Cons.prems(1) Some by (auto simp: Let_def p_def out'_def split: if_splits)
    have "provider_ok k q" if "map_of out' k = Some q" "k \<notin> set names" for k q
      using that ok Cons.prems(2)
      by (cases "k = TrimSpace name"; cases "k = name")
        (auto simp: out'_def p_def provider_ok_def update_conv' delete_conv' split: if_splits)
    then have "\<forall>k p. map_of out' k = Some p \<longrightarrow> k \<notin> set names \<longrightarrow> provider_ok k p" by blast
    with run show ?thesis by (rule Cons.IH)
  qed
qed simp

lemma parseStorageProviders_ok:
  assumes "parseStorageProviders unmarshal v = Inr reg" "map_of reg k = Some p"
  shows "provider_ok k p"
proof (cases "TrimSpace v = ''''")
  case True
  with assms show ?thesis by (simp add: parseStorageProviders_def)
next
  case False
  with assms(1) obtain out where out: "provider_loop out (map fst out) = Inr reg"
    by (auto simp: parseStorageProviders_def Let_def split: sum.splits)
  have "\<forall>k p. map_of out k = Some p \<longrightarrow> k \<notin> set (map fst out) \<longrightarrow> provider_ok k p"
    by (metis map_of_eq_None_iff option.discI list.set_map)
  from provider_loop_ok [OF out this] assms(2) show ?thesis by blast
qed

text \<open>A Go map has each key once: so do the decoded maps.\<close>

definition decodes_maps :: "config_lib \<Rightarrow> bool" where
  "decodes_maps lib \<longleftrightarrow> (\<forall>s m. lib_providers lib s = Inr (Some m) \<longrightarrow> distinct (map fst m))"

lemma provider_loop_distinct:
  "provider_loop out names = Inr reg \<Longrightarrow> distinct (map fst out) \<Longrightarrow> distinct (map fst reg)"
  by (induction out names rule: provider_loop.induct)
    (auto simp: Let_def distinct_update distinct_delete split: option.splits if_splits)

lemma parseStorageProviders_distinct:
  assumes "decodes_maps lib" "parseStorageProviders (lib_providers lib) v = Inr reg"
  shows "distinct (map fst reg)"
  using assms provider_loop_distinct
  by (fastforce simp: parseStorageProviders_def decodes_maps_def Let_def split: if_splits sum.splits option.splits)

subsection \<open>What a loaded configuration satisfies\<close>

lemma LoadConfig_parts:
  assumes "LoadConfig lib env = Inr cfg"
  shows "load_selection lib env = Inr (cfg_Runtime cfg)" "load_session env = Inr (cfg_Session cfg)"
    "load_storage lib env = Inr (cfg_Storage cfg)" "load_limits env = Inr (cfg_Limits cfg)"
    "load_telemetry env = Inr (cfg_Telemetry cfg)" "load_policy lib env = Inr (cfg_Policy cfg)"
    "cfg_HTTP cfg = load_http env" "cfg_OIDC cfg = load_login env" "cfg_Store cfg = load_store env"
    "Config_Validate (lib_keys lib (cfg_Runtime cfg)) cfg = None"
  using assms by (auto simp: LoadConfig_def and_then_Inr Let_def)

lemma Config_Validate_parts:
  assumes "Config_Validate keys c = None"
  shows "validate_http c = None" "validate_limits c = None" "validate_login c = None" "validate_store c = None"
    "validate_session c = None" "validate_storage c = None" "validate_policy c = None"
  using assms by (simp_all add: Config_Validate_def first_error_None)

lemma validate_storage_parts:
  assumes "validate_storage c = None" "storageConfigured c"
  defines "s \<equiv> cfg_Storage c"
  shows "0 < sro_SignerTimeout s" "0 < sro_DefaultTTL s" "sro_DefaultTTL s \<le> sro_MaxTTL s"
    and "sro_SignerBaseURL s \<noteq> '''' \<Longrightarrow> absolute_url (sro_SignerBaseURL s)"
    and "np \<in> set (sro_Providers s) \<Longrightarrow> check_provider np = None"
    and "sro_Providers s \<noteq> [] \<Longrightarrow> nt \<in> set (sro_Targets s) \<Longrightarrow> check_target (sro_Providers s) nt = None"
    and "sro_Targets s \<noteq> [] \<Longrightarrow> sro_AccessPolicyURL s \<noteq> ''''"
    and "sro_AccessPolicyURL s \<noteq> '''' \<Longrightarrow> absolute_url (sro_AccessPolicyURL s)"
    and "validate_workload (sro_WorkloadAuth s) = None"
  using assms(1,2) unfolding validate_storage_def Let_def s_def [symmetric]
  by (simp_all add: first_error_None split: if_splits)

lemma load_storage_provider:
  "load_storage lib env = Inr s \<Longrightarrow> map_of (sro_Providers s) k = Some p \<Longrightarrow> provider_ok k p"
  by (auto simp: load_storage_def and_then_Inr dest: parseStorageProviders_ok)

lemma load_storage_distinct:
  "decodes_maps lib \<Longrightarrow> load_storage lib env = Inr s \<Longrightarrow> distinct (map fst (sro_Providers s))"
  by (auto simp: load_storage_def and_then_Inr dest: parseStorageProviders_distinct)

lemma validate_workload_required:
  "validate_workload a = None \<Longrightarrow> wa_Required a \<Longrightarrow> wa_Mode a = ''oidc''"
  by (auto simp: validate_workload_def split: if_splits)

lemma validate_workload_oidc:
  "validate_workload a = None \<Longrightarrow> wa_Mode a = ''oidc'' \<Longrightarrow> TrimSpace (wa_Issuer a) \<noteq> '''' \<and> TrimSpace (wa_Audience a) \<noteq> ''''"
  by (auto simp: validate_workload_def first_error_None split: if_splits)

subsection \<open>The base path\<close>

lemma clean_segs_plain:
  "\<forall>s \<in> set ss. s \<noteq> ''.'' \<and> s \<noteq> ''..'' \<Longrightarrow> clean_segs r st ss = rev st @ filter (\<lambda>s. s \<noteq> []) ss"
  by (induction ss arbitrary: st) auto

lemma join_path_last:
  assumes "ss \<noteq> []" "\<forall>s \<in> set ss. s \<noteq> [] \<and> CHR ''/'' \<notin> set s"
  shows "join_path ss \<noteq> [] \<and> last (join_path ss) \<noteq> CHR ''/''"
  using assms
proof (induction ss rule: join_path.induct)
  case (2 s)
  then show ?case using last_in_set by fastforce
qed auto

lemma TrimRight_id: "s \<noteq> [] \<Longrightarrow> last s \<noteq> c \<Longrightarrow> TrimRight s c = s"
  by (cases "rev s") (auto simp: TrimRight_def TrimLeft_def)

definition base_segments :: "string \<Rightarrow> string list" where
  "base_segments v = filter (\<lambda>s. s \<noteq> []) (Split v (CHR ''/''))"

definition rooted :: "string list \<Rightarrow> string" where
  "rooted ss = concat (map (\<lambda>s. CHR ''/'' # s) ss)"

lemma rooted_join_path: "rooted ss = (if ss = [] then [] else CHR ''/'' # join_path ss)"
  by (induction ss rule: join_path.induct) (auto simp: rooted_def)

lemma normalizeBasePath_value:
  assumes "v = '''' \<or> HasPrefix v ''/''" "''.'' \<notin> set (Split v (CHR ''/''))" "''..'' \<notin> set (Split v (CHR ''/''))"
  shows "normalizeBasePath v = Inr (rooted (base_segments v))"
proof (cases "v = '''' \<or> v = ''/''")
  case True
  have "base_segments '''' = []" "base_segments ''/'' = []" by (simp_all add: base_segments_def)
  with True show ?thesis by (auto simp: normalizeBasePath_def rooted_def)
next
  case False
  with assms(1) have hd: "v \<noteq> []" "hd v = CHR ''/''" "HasPrefix v ''/''" by (auto simp: HasPrefix_single)
  have clean: "path_Clean v = CHR ''/'' # join_path (base_segments v)"
    using hd clean_segs_plain [of "Split v (CHR ''/'')" True "[]"] assms(2,3)
    by (simp add: path_Clean_def base_segments_def) metis
  have segs: "\<forall>s \<in> set (base_segments v). s \<noteq> [] \<and> CHR ''/'' \<notin> set s"
    by (auto simp: base_segments_def dest: Split_no_sep)
  have nodot: "\<not> list_ex (\<lambda>segment. segment = ''..'' \<or> segment = ''.'') (Split v (CHR ''/''))"
    using assms(2,3) by (auto simp: list_ex_iff)
  show ?thesis
  proof (cases "base_segments v = []")
    case True
    with False hd nodot clean show ?thesis by (simp add: normalizeBasePath_def rooted_join_path)
  next
    case nonempty: False
    from join_path_last [OF nonempty segs] have "TrimRight (path_Clean v) (CHR ''/'') = path_Clean v"
      by (intro TrimRight_id) (simp_all add: clean)
    with nonempty join_path_last [OF nonempty segs] False hd nodot clean show ?thesis
      by (simp add: normalizeBasePath_def Let_def rooted_join_path)
  qed
qed

lemma normalizeBasePath_refused:
  assumes "normalizeBasePath v = Inr p"
  shows "v = '''' \<or> HasPrefix v ''/''" "''.'' \<notin> set (Split v (CHR ''/''))" "''..'' \<notin> set (Split v (CHR ''/''))"
  using assms by (auto simp: normalizeBasePath_def list_ex_iff HasPrefix_single split: if_splits)

lemma base_segments_rooted:
  assumes "\<forall>s \<in> set ss. s \<noteq> [] \<and> CHR ''/'' \<notin> set s"
  shows "Split (rooted ss) (CHR ''/'') = [] # ss"
  using assms Split_join_path [of ss] by (simp add: rooted_join_path)

section \<open>Properties\<close>

text \<open>
  Normalising the base path accepts exactly the empty path and the rooted paths without dot segments, and
  gives the nonempty segments, each after one slash: nothing for a path without segments, no slash at the end.
  Normalising the result again changes nothing.
\<close>

theorem base_path_normal_form:
  "normalizeBasePath v = Inr p \<longleftrightarrow>
     (v = '''' \<or> HasPrefix v ''/'') \<and> ''.'' \<notin> set (Split v (CHR ''/'')) \<and> ''..'' \<notin> set (Split v (CHR ''/'')) \<and>
     p = concat (map (\<lambda>s. CHR ''/'' # s) (filter (\<lambda>s. s \<noteq> '''') (Split v (CHR ''/'')))) \<and>
     normalizeBasePath p = Inr p"
  (is "?lhs \<longleftrightarrow> ?rhs")
proof
  assume lhs: ?lhs
  note ok = normalizeBasePath_refused [OF lhs]
  have p: "p = rooted (base_segments v)"
    using lhs normalizeBasePath_value [OF ok] by simp
  have "Split p (CHR ''/'') = [] # base_segments v"
    unfolding p by (rule base_segments_rooted) (auto simp: base_segments_def dest: Split_no_sep)
  then have "''.'' \<notin> set (Split p (CHR ''/''))" "''..'' \<notin> set (Split p (CHR ''/''))" "base_segments p = base_segments v"
    using ok(2,3) by (simp_all add: base_segments_def)
  with normalizeBasePath_value [of p] have "normalizeBasePath p = Inr p"
    by (auto simp: p rooted_join_path HasPrefix_single)
  with ok p show ?rhs by (simp add: rooted_def base_segments_def)
next
  assume ?rhs
  with normalizeBasePath_value [of v] show ?lhs by (simp add: rooted_def base_segments_def)
qed



text \<open>
  The session settings of a configuration that loads are consistent: the touch interval is positive and at most
  the idle timeout, which is at most the maximal lifetime, or all three are zero, which switches the checks off.
\<close>

theorem loaded_session_settings:
  assumes "LoadConfig lib env = Inr cfg"
  shows "0 < sc_TouchInterval (cfg_Session cfg) \<and> sc_TouchInterval (cfg_Session cfg) \<le> sc_IdleTimeout (cfg_Session cfg) \<and>
      sc_IdleTimeout (cfg_Session cfg) \<le> sc_MaxLifetime (cfg_Session cfg) \<or>
    sc_TouchInterval (cfg_Session cfg) = 0 \<and> sc_IdleTimeout (cfg_Session cfg) = 0 \<and> sc_MaxLifetime (cfg_Session cfg) = 0"
  using Config_Validate_parts(5) [OF LoadConfig_parts(10) [OF assms]]
  by (auto simp: validate_session_def Let_def first_error_None split: if_splits)

definition demo_lib :: config_lib where
  "demo_lib = \<lparr>lib_targets = (\<lambda>_. Inr []), lib_providers = (\<lambda>_. Inr None), lib_slices = (\<lambda>_. Inr None), lib_keys = Roles\<rparr>"

definition loaded :: "(string \<times> string) list \<Rightarrow> (config \<Rightarrow> bool) \<Rightarrow> bool" where
  "loaded env P = (case LoadConfig demo_lib (map_of env) of Inl _ \<Rightarrow> False | Inr cfg \<Rightarrow> P cfg)"

definition demo_environ :: "(string \<times> string) list" where
  "demo_environ = [(''GATEWAY_ROLE'', ''storage''), (''STORAGE_SIGNER_BASE_URL'', '' http://signer:9000/ ''),
     (''STORAGE_WORKLOAD_AUTH_MODE'', ''OIDC''), (''STORAGE_WORKLOAD_AUTH_REQUIRED'', ''True''),
     (''STORAGE_WORKLOAD_OIDC_ISSUER'', ''https://id.example/''), (''STORAGE_WORKLOAD_OIDC_AUDIENCE'', ''storage'')]"

lemma demo_loads:
  "loaded demo_environ (\<lambda>cfg. HasRole (cfg_Runtime cfg) RoleStorage \<and> sro_Providers (cfg_Storage cfg) = [] \<and>
      sro_SignerBaseURL (cfg_Storage cfg) \<noteq> '''' \<and> wa_Required (sro_WorkloadAuth (cfg_Storage cfg)) \<and>
      sc_TouchInterval (cfg_Session cfg) = Minute)"
  by code_simp

theorem loaded_session_settings_witness:
  "\<exists>cfg. LoadConfig demo_lib (map_of demo_environ) = Inr cfg \<and> sc_TouchInterval (cfg_Session cfg) = Minute \<and>
     Minute \<le> sc_IdleTimeout (cfg_Session cfg)"
proof -
  from demo_loads obtain cfg where
    cfg: "LoadConfig demo_lib (map_of demo_environ) = Inr cfg" "sc_TouchInterval (cfg_Session cfg) = Minute"
    by (auto simp: loaded_def split: sum.splits)
  from loaded_session_settings [OF cfg(1)] cfg show ?thesis by auto
qed

text \<open>
  What validation lets through: session settings that are all zero, a rate that is not a number, and an empty name of
  the policy provider.
\<close>

lemma zero_session_settings_valid:
  "durationEnv (map_of [(n, ''0'')]) n fallback = Inr 0 \<and>
   (cfg_Session c = \<lparr>sc_MaxLifetime = 0, sc_IdleTimeout = 0, sc_TouchInterval = 0\<rparr> \<longrightarrow> validate_session c = None)"
proof -
  have "ParseDuration ''0'' = Some 0" by code_simp
  then show ?thesis by (simp add: durationEnv_def envOr_def setting_result_def validate_session_def)
qed

lemma nan_rate_valid:
  "floatEnv (map_of [(n, ''NaN'')]) n fallback = Inr NaN \<and>
   (validate_limits c = None \<longrightarrow> validate_limits (c\<lparr>cfg_Limits := (cfg_Limits c)\<lparr>lim_RatePerSecond := NaN\<rparr>\<rparr>) = None)"
proof -
  have "ParseFloat (TrimSpace ''NaN'') = Some NaN" by code_simp
  then show ?thesis
    by (simp add: floatEnv_def envOr_def setting_result_def validate_limits_def Let_def first_error_None float_negative_def)
qed

lemma empty_policy_provider_valid: "pol_Provider (cfg_Policy c) = '''' \<Longrightarrow> validate_policy c = None"
  by (simp add: validate_policy_def)

end
