(* ===== verification/AccessControl.thy ===== *)
theory AccessControl
  imports Storage
begin

text \<open>
  Who asks, and whether they may: the identity of a request (\<^verbatim>\<open>internal/requestidentity\<close>), the verification
  of the calling workload's token (\<^verbatim>\<open>internal/workloadauth\<close>) and the remote access policy
  (\<^verbatim>\<open>internal/accesspolicy\<close>). The verifier of the library \<^verbatim>\<open>go-oidc\<close> is an argument.
\<close>

section \<open>Definitions\<close>

subsection \<open>Request identity (requestidentity/context.go)\<close>

record request_identity =
  id_Actor :: string
  id_Service :: string
  id_TenantID :: string
  id_ProjectID :: string
  id_RequestID :: string
  id_TraceID :: string

record identity_headers =
  ih_Actor :: string
  ih_Service :: string
  ih_Legacy :: string

definition header_or :: "string \<Rightarrow> string \<Rightarrow> string" where
  "header_or name dflt = (if TrimSpace name = '''' then dflt else TrimSpace name)"

definition Extract :: "request \<Rightarrow> identity_headers \<Rightarrow> request_identity" where
  "Extract r hs =
     (let actorHeader = header_or (ih_Actor hs) ''X-Actor-Subject'';
          serviceHeader = header_or (ih_Service hs) ''X-Service-Identity'';
          legacyHeader = header_or (ih_Legacy hs) ''X-Auth-Subject'';
          get = (\<lambda>h. TrimSpace (Header_Get (rq_Header r) h));
          actor = (if get actorHeader = '''' then get legacyHeader else get actorHeader);
          traceID = (if get ''X-Trace-ID'' = '''' then get ''traceparent'' else get ''X-Trace-ID'')
      in \<lparr>id_Actor = actor, id_Service = get serviceHeader, id_TenantID = get ''X-Tenant-ID'',
          id_ProjectID = get ''X-Project-ID'', id_RequestID = get ''X-Request-ID'', id_TraceID = traceID\<rparr>)"

definition ValidateActor :: "request_identity \<Rightarrow> goerr option" where
  "ValidateActor i = (if TrimSpace (id_Actor i) = '''' then Some (ErrorString ''actor required'') else None)"

definition context_entry :: "string \<Rightarrow> string \<Rightarrow> string_map" where
  "context_entry name v = (if v = '''' then [] else [(name, v)])"

definition PolicyContext :: "request_identity \<Rightarrow> string_map" where
  "PolicyContext i =
     context_entry ''service_id'' (id_Service i) @ context_entry ''tenant_id'' (id_TenantID i) @
     context_entry ''project_id'' (id_ProjectID i) @ context_entry ''request_id'' (id_RequestID i) @
     context_entry ''trace_id'' (id_TraceID i)"

subsection \<open>Workload tokens (workloadauth/verifier.go)\<close>

record principal =
  pn_Service :: string
  pn_Subject :: string
  pn_Issuer :: string

record oidc_config =
  wc_Issuer :: string
  wc_Audience :: string

record workload_claims =
  wl_Subject :: string
  wl_Issuer :: string
  wl_ClientID :: string
  wl_AZP :: string

type_synonym 'w workload_verifier = "('w, string, principal) service_call"

text \<open>
  The verifier of the library: an error, or the verified token, given by the outcome of decoding its claims.
\<close>

type_synonym 'w token_verifier = "('w, string, workload_claims result) service_call"

record 'w oidc_verifier =
  ov_verifier :: "'w token_verifier"
  ov_issuer :: string

text \<open>
  \<open>newProvider\<close> is the library's discovery; the provider it gives is represented by its method
  \<^verbatim>\<open>Verifier\<close>, a function of the audience.
\<close>

definition NewOIDC ::
  "('w \<Rightarrow> string \<Rightarrow> 'w \<times> (string \<Rightarrow> 'w token_verifier) result) \<Rightarrow> 'w \<Rightarrow> oidc_config
   \<Rightarrow> 'w \<times> 'w oidc_verifier result" where
  "NewOIDC newProvider w cfg =
     (let issuer = TrimSpace (wc_Issuer cfg); audience = TrimSpace (wc_Audience cfg)
      in if issuer = '''' \<or> audience = ''''
         then (w, Inl (ErrorString ''workload oidc issuer and audience are required''))
         else (case newProvider w (TrimRight issuer (CHR ''/'')) of
             (w1, Inl e) \<Rightarrow> (w1, Inl (ErrWrapped ''workload oidc discovery'' e))
           | (w1, Inr provider) \<Rightarrow>
               (w1, Inr \<lparr>ov_verifier = provider audience, ov_issuer = TrimRight issuer (CHR ''/'')\<rparr>)))"

definition claims_service :: "workload_claims \<Rightarrow> string" where
  "claims_service c =
     (if TrimSpace (wl_ClientID c) \<noteq> '''' then TrimSpace (wl_ClientID c)
      else if TrimSpace (wl_AZP c) \<noteq> '''' then TrimSpace (wl_AZP c)
      else TrimSpace (wl_Subject c))"

definition OIDCVerifier_Verify :: "'w oidc_verifier \<Rightarrow> 'w workload_verifier" where
  "OIDCVerifier_Verify v ctx w raw0 =
     (let raw = TrimSpace raw0
      in if raw = '''' then (w, Inl (ErrorString ''workload token is required''))
         else (case ov_verifier v ctx w raw of
             (w1, Inl e) \<Rightarrow> (w1, Inl (ErrWrapped ''verify workload token'' e))
           | (w1, Inr (Inl e)) \<Rightarrow> (w1, Inl (ErrWrapped ''decode workload claims'' e))
           | (w1, Inr (Inr c)) \<Rightarrow>
               if claims_service c = ''''
               then (w1, Inl (ErrorString ''workload token missing service identity''))
               else (w1, Inr \<lparr>pn_Service = claims_service c, pn_Subject = TrimSpace (wl_Subject c),
                              pn_Issuer = TrimSpace (wl_Issuer c)\<rparr>)))"

definition BearerToken :: "request \<Rightarrow> string result" where
  "BearerToken r =
     (let value = TrimSpace (Header_Get (rq_Header r) ''Authorization'')
      in if value = '''' then Inl (ErrorString ''authorization header required'')
         else (case Cut value (CHR '' '') of (scheme, token, ok) \<Rightarrow>
             if \<not> ok \<or> \<not> EqualFold (TrimSpace scheme) ''Bearer'' \<or> TrimSpace token = ''''
             then Inl (ErrorString ''bearer token required'')
             else Inr (TrimSpace token)))"

subsection \<open>The access policy (accesspolicy/accesspolicy.go)\<close>

record access_request =
  ar_Subject :: string
  ar_Action :: string
  ar_Target :: string
  ar_Context :: string_map

record access_decision =
  dc_Allow :: bool
  dc_Reason :: string

type_synonym 'w access_evaluator = "('w, access_request, access_decision) service_call"

record policy_codec =
  ac_marshal :: "json \<Rightarrow> string result"
  ac_decision :: "string \<Rightarrow> access_decision result"

definition access_json :: "access_request \<Rightarrow> json" where
  "access_json q =
     JObj ([(''subject'', JStr (ar_Subject q)), (''action'', JStr (ar_Action q)), (''target'', JStr (ar_Target q))] @
       map_field ''context'' (ar_Context q))"

definition zero_decision :: access_decision where
  "zero_decision = \<lparr>dc_Allow = False, dc_Reason = ''''\<rparr>"

definition Remote_Authorize ::
  "('w \<Rightarrow> duration \<Rightarrow> 'w) \<Rightarrow> policy_codec \<Rightarrow> 'w client option \<Rightarrow> 'w access_evaluator" where
  "Remote_Authorize wait k http ctx w q0 =
     (case http of
        None \<Rightarrow> (w, Inl (ErrorString ''access policy client is not configured''))
      | Some c \<Rightarrow>
          (let q = q0\<lparr>ar_Subject := TrimSpace (ar_Subject q0), ar_Action := TrimSpace (ar_Action q0),
                      ar_Target := TrimSpace (ar_Target q0)\<rparr>
           in if ar_Subject q = '''' \<or> ar_Action q = '''' \<or> ar_Target q = ''''
              then (w, Inl (ErrorString ''subject, action and target are required''))
              else (case DoJSON wait c ctx '''' ''POST'' ''/v1/authorize'' (ac_marshal k (access_json q))
                      (Some (ac_decision k)) w of
                  (w1, Inl e) \<Rightarrow> (w1, Inl e)
                | (w1, Inr None) \<Rightarrow> (w1, Inr zero_decision)
                | (w1, Inr (Some d)) \<Rightarrow> (w1, Inr d))))"

section \<open>Lemmas\<close>

lemma Extract_trimmed [simp]:
  "TrimSpace (id_Actor (Extract r hs)) = id_Actor (Extract r hs)"
  "TrimSpace (id_Service (Extract r hs)) = id_Service (Extract r hs)"
  by (simp_all add: Extract_def Let_def)

lemma ValidateActor_None: "ValidateActor i = None \<longleftrightarrow> TrimSpace (id_Actor i) \<noteq> ''''"
  by (simp add: ValidateActor_def)

lemma PolicyContext_service:
  "map_of (PolicyContext i) ''service_id'' = (if id_Service i = '''' then None else Some (id_Service i))"
  by (simp add: PolicyContext_def context_entry_def)

lemma BearerToken_nonempty: "BearerToken r = Inr t \<Longrightarrow> t \<noteq> '''' \<and> TrimSpace t = t"
  by (auto simp: BearerToken_def Let_def split: if_splits prod.splits)

lemma OIDCVerifier_service:
  "OIDCVerifier_Verify v ctx w raw = (w', Inr p) \<Longrightarrow> pn_Service p \<noteq> ''''"
  by (auto simp: OIDCVerifier_Verify_def Let_def split: if_splits prod.splits sum.splits)

end
