(* ===== verification/AccessLog.thy ===== *)
theory AccessLog
  imports Middleware
begin

text \<open>
  The access log and the limit of request bodies (\<^verbatim>\<open>access_log.go\<close>, \<^verbatim>\<open>redact.go\<close>, \<^verbatim>\<open>body_limit.go\<close> of
  \<^verbatim>\<open>internal/httpx/middleware\<close>). The theorem reads the query back from a line of the log: the values of sensitive
  parameters are not in it, all others are.
\<close>

section \<open>Definitions\<close>

subsection \<open>The address of a request, redacted (redact.go)\<close>

definition sensitiveQueryKeys :: "string list" where
  "sensitiveQueryKeys =
     [''access_token'', ''refresh_token'', ''id_token'', ''code'', ''client_secret'', ''token'',
      ''signature'', ''x-amz-signature'']"

text \<open>The loop over the keys of the query: \<^verbatim>\<open>q.Set\<close> replaces the values of a key that is there.\<close>

definition redacted_query :: "url_values \<Rightarrow> url_values" where
  "redacted_query q = map (\<lambda>(k, vs). (k, if ToLower k \<in> set sensitiveQueryKeys then [''[REDACTED]''] else vs)) q"

definition RedactedURL :: "url option \<Rightarrow> string" where
  "RedactedURL u0 =
     (case u0 of
        None \<Rightarrow> []
      | Some u \<Rightarrow> URL_String (u\<lparr>u_RawQuery := Values_Encode (redacted_query (ParseQuery (u_RawQuery u)))\<rparr>))"

subsection \<open>Lines of the log (access\_log.go)\<close>

record access_entry =
  al_RequestID :: string
  al_TraceID :: string
  al_Method :: string
  al_URL :: string
  al_ClientIP :: string
  al_Status :: int
  al_Bytes :: int
  al_DurationMS :: int

type_synonym 'w access_log = "'w \<Rightarrow> access_entry \<Rightarrow> 'w"

text \<open>\<^verbatim>\<open>Duration.Milliseconds\<close> cuts towards zero.\<close>

definition Milliseconds :: "duration \<Rightarrow> int" where
  "Milliseconds d = sgn d * (\<bar>d\<bar> div Millisecond)"

text \<open>The bytes that a \<^verbatim>\<open>responseRecorder\<close> counts: the sizes of the parts that the handler wrote.\<close>

definition recorded_bytes :: "(body_part \<Rightarrow> int) \<Rightarrow> response_writer \<Rightarrow> response_writer \<Rightarrow> int" where
  "recorded_bytes len before after = sum_list (map len (drop (length (rw_Body before)) (rw_Body after)))"

definition access_line ::
  "('ip, 'net) netlib \<Rightarrow> 'net list \<Rightarrow> request \<Rightarrow> int \<Rightarrow> int \<Rightarrow> duration \<Rightarrow> access_entry" where
  "access_line nl cidrs r status bytes elapsed =
     \<lparr>al_RequestID = cx_RequestID r, al_TraceID = cx_TraceID r, al_Method = rq_Method r,
      al_URL = RedactedURL (Some (rq_URL r)), al_ClientIP = ClientIP nl cidrs r, al_Status = status,
      al_Bytes = bytes, al_DurationMS = Milliseconds elapsed\<rparr>"

definition AccessLog ::
  "'z world_scheme access_log \<Rightarrow> (body_part \<Rightarrow> int) \<Rightarrow> ('ip, 'net) netlib \<Rightarrow> 'net list
   \<Rightarrow> 'z world_scheme handler \<Rightarrow> 'z world_scheme handler" where
  "AccessLog slog len nl cidrs next r w rw =
     (let (start, w1) = Now w;
          (w2, rw2) = next r w1 rw;
          status = recorded_status rw rw2
      in if successfulHealthCheck (rq_Path r) status then (w2, rw2)
         else (let (now, w3) = Now w2
               in (slog w3 (access_line nl cidrs r status (recorded_bytes len rw rw2) (Time_Sub now start)), rw2)))"

subsection \<open>Bodies (body\_limit.go)\<close>

definition MaxRequestBodyBytes :: "int \<Rightarrow> 'w handler \<Rightarrow> 'w handler" where
  "MaxRequestBodyBytes limit next r w rw =
     (if limit \<le> 0 then next r w rw
      else next (r\<lparr>rq_Body := map_option (\<lambda>b. MaxBytesReader b limit) (rq_Body r)\<rparr>) w rw)"

text \<open>What a handler can read of a body.\<close>

definition body_bounded :: "int \<Rightarrow> request \<Rightarrow> bool" where
  "body_bounded limit r \<longleftrightarrow>
     (case rq_Body r of None \<Rightarrow> True | Some b \<Rightarrow> int (length (fst (read_body b))) \<le> limit)"

section \<open>Lemmas\<close>

lemma map_of_redacted:
  "map_of (redacted_query q) k =
     map_option (\<lambda>vs. if ToLower k \<in> set sensitiveQueryKeys then [''[REDACTED]''] else vs) (map_of q k)"
  by (induction q) (auto simp: redacted_query_def)

lemma redacted_ok:
  assumes "values_ok q"
  shows "values_ok (redacted_query q)"
proof -
  have "map fst (redacted_query q) = map fst q" by (induction q) (auto simp: redacted_query_def)
  moreover have "vs \<noteq> []" if "(k, vs) \<in> set (redacted_query q)" for k vs
    using that assms by (auto simp: redacted_query_def values_ok_def split: if_splits)
  ultimately show ?thesis using assms by (auto simp: values_ok_def)
qed

lemma limited_body:
  "0 < limit \<Longrightarrow> int (length (fst (read_body (MaxBytesReader b limit)))) \<le> limit"
  by (auto split: prod.split)

lemma limited_request:
  "0 < limit \<Longrightarrow> body_bounded limit (r\<lparr>rq_Body := map_option (\<lambda>b. MaxBytesReader b limit) (rq_Body r)\<rparr>)"
  using limited_body by (cases "rq_Body r") (simp_all add: body_bounded_def)

text \<open>Handlers that agree on bounded bodies are the same behind the limit.\<close>

lemma limit_cong:
  assumes "0 < limit" "\<And>r w rw. body_bounded limit r \<Longrightarrow> f r w rw = g r w rw"
  shows "MaxRequestBodyBytes limit f = MaxRequestBodyBytes limit g"
  using assms by (intro ext) (simp add: MaxRequestBodyBytes_def limited_request)

section \<open>Properties\<close>

text \<open>
  C14. The access log hides secrets and nothing else: whatever the query of a request is (any case of the keys, repeated
  and encoded parameters), reading the query of the logged address gives every sensitive parameter with the one value
  \<^verbatim>\<open>[REDACTED]\<close> and every other parameter with its values. The request has no opaque address, which no server request
  has, and a scheme without question marks and hashes.
\<close>

theorem access_log_redacted:
  assumes "u_Opaque (rq_URL r) = []" "list_all plain_char (u_Scheme (rq_URL r))"
  shows "map_of (ParseQuery (text_query (al_URL (access_line nl cidrs r status bytes elapsed)))) k =
    (case map_of (ParseQuery (u_RawQuery (rq_URL r))) k of
       None \<Rightarrow> None
     | Some vs \<Rightarrow> Some (if ToLower k \<in> set sensitiveQueryKeys then [''[REDACTED]''] else vs))"
proof -
  let ?q = "redacted_query (ParseQuery (u_RawQuery (rq_URL r)))"
  have "CHR ''#'' \<notin> set (Values_Encode ?q)" using Values_Encode_set by blast
  then have "text_query (RedactedURL (Some (rq_URL r))) = Values_Encode ?q"
    using text_query_URL_String [of "rq_URL r\<lparr>u_RawQuery := Values_Encode ?q\<rparr>"] assms by (simp add: RedactedURL_def)
  then show ?thesis
    by (simp add: access_line_def map_of_ParseQuery_Encode redacted_ok ParseQuery_ok map_of_redacted split: option.split)
qed

definition demo_log_request :: request where
  "demo_log_request = demo_request\<lparr>rq_URL := empty_url\<lparr>u_Path := ''/auth/callback'', u_RawQuery := ''state=a%26b&CODE=s%23&x''\<rparr>\<rparr>"

theorem access_log_redacted_witness:
  "al_URL (access_line demo_net [] demo_log_request 302 0 0) = ''/auth/callback?CODE=%5BREDACTED%5D&state=a%26b&x='' \<and>
   map_of (ParseQuery (text_query (al_URL (access_line demo_net [] demo_log_request 302 0 0)))) ''CODE'' = Some [''[REDACTED]'']"
proof
  show "al_URL (access_line demo_net [] demo_log_request 302 0 0) = ''/auth/callback?CODE=%5BREDACTED%5D&state=a%26b&x=''"
    by code_simp
  have "u_Opaque (rq_URL demo_log_request) = []" "list_all plain_char (u_Scheme (rq_URL demo_log_request))"
    "map_of (ParseQuery (u_RawQuery (rq_URL demo_log_request))) ''CODE'' = Some [''s#'']"
    "ToLower ''CODE'' \<in> set sensitiveQueryKeys" by code_simp+
  with access_log_redacted [of demo_log_request demo_net "[]" 302 0 0 "''CODE''"]
  show "map_of (ParseQuery (text_query (al_URL (access_line demo_net [] demo_log_request 302 0 0)))) ''CODE'' =
      Some [''[REDACTED]'']" by simp
qed

end
