(* ===== verification/AuthHTTP.thy ===== *)
theory AuthHTTP
  imports UserContext AccessLog
begin

text \<open>
  The HTTP side of the login service (\<^verbatim>\<open>internal/auth/http.go\<close>): the handlers of \<^verbatim>\<open>/auth/login\<close>,
  \<^verbatim>\<open>/auth/callback\<close>, \<^verbatim>\<open>/auth/logout\<close> and \<^verbatim>\<open>/api/me\<close>, with the audit events and metrics they emit, and the
  health endpoints and the chain of middleware of \<^verbatim>\<open>internal/httpx\<close>.
\<close>

section \<open>Definitions\<close>

record 'w auth_handler =
  ah_Service :: "'w service"
  ah_UserContext :: "'w resolver option"
  ah_Cache :: "('w, user_context) cache option"
  ah_Audit :: "'w audit_sink option"
  ah_Metrics :: "'w meter"
  ah_Secure :: bool
  ah_CookieName :: string

definition cookieName :: "'w auth_handler \<Rightarrow> string" where
  "cookieName h = (if ah_CookieName h \<noteq> [] then ah_CookieName h else SessionCookieName)"

definition boolString :: "bool \<Rightarrow> string" where
  "boolString v = (if v then ''true'' else ''false'')"

definition emit ::
  "'z world_scheme auth_handler \<Rightarrow> request \<Rightarrow> 'z world_scheme \<Rightarrow> string \<Rightarrow> string \<Rightarrow> string \<Rightarrow> string
   \<Rightarrow> string \<Rightarrow> int \<Rightarrow> (string \<rightharpoonup> string) option \<Rightarrow> 'z world_scheme" where
  "emit h r w actor username action target outcome status attrs =
     (case ah_Audit h of
        None \<Rightarrow> w
      | Some snk \<Rightarrow>
          (let (w1, e0) = NewEvent w action target outcome;
               e1 = EnrichAuditEvent r
                 (e0\<lparr>ev_Actor := actor, ev_ActorUsername := username, ev_HTTPStatus := status\<rparr>);
               e2 = (case attrs of None \<Rightarrow> e1 | Some a \<Rightarrow> e1\<lparr>ev_Attributes := a\<rparr>)
           in fst (snk w1 e2)))"

definition handle_login ::
  "(string \<Rightarrow> nat list) \<Rightarrow> 'z world_scheme auth_handler \<Rightarrow> 'z world_scheme handler" where
  "handle_login sha256 h r w rw =
     (case StartLogin sha256 (ah_Service h) w (rq_Query r ''return_to'') of
        (w1, Inl e) \<Rightarrow>
          if errors_Is e ErrInvalidReturnTo then
            (emit h r w1 [] [] ''auth.login'' ''session'' ''deny'' 400
               (Some [''reason'' \<mapsto> ''invalid_return_to'']),
             http_Error rw ''invalid login request'' 400)
          else
            (emit h r w1 [] [] ''auth.login'' ''session'' ''error'' 503
               (Some [''reason'' \<mapsto> ''authentication_service_unavailable'']),
             http_Error rw ''authentication service unavailable'' 503)
      | (w1, Inr u) \<Rightarrow> (w1, http_Redirect rw r u 302))"

definition session_cookie :: "'w auth_handler \<Rightarrow> string \<Rightarrow> time \<Rightarrow> int \<Rightarrow> cookie" where
  "session_cookie h value expires maxage =
     \<lparr>ck_Name = cookieName h, ck_Value = value, ck_Path = ''/'', ck_Secure = ah_Secure h,
      ck_HttpOnly = True, ck_SameSiteLax = True, ck_Expires = expires, ck_MaxAge = maxage\<rparr>"

text \<open>The panic on a nil interface aborts the response: nothing is written.\<close>

definition handle_callback :: "'z world_scheme auth_handler \<Rightarrow> 'z world_scheme handler" where
  "handle_callback h r w rw =
     (case CompleteCallback (ah_Service h) w (rq_Query r ''state'') (rq_Query r ''code'') of
        (w1, Inl e) \<Rightarrow>
          if e = NilDereference then (w1, rw)
          else
            (emit h r (meter_call (ah_Metrics h) w1 (RecordAuth ''failure'')) [] [] ''auth.login''
               ''session'' ''deny'' 401 (Some [''reason'' \<mapsto> ''invalid_callback'']),
             http_Error rw ''authentication failed'' 401)
      | (w1, Inr cb) \<Rightarrow>
          (emit h r (meter_call (ah_Metrics h) w1 (RecordAuth ''success'')) (cb_Subject cb)
             (cb_Username cb) ''auth.login'' ''session'' ''success'' 302 None,
           http_Redirect (SetCookie rw (session_cookie h (cb_SessionID cb) (cb_ExpiresAt cb) 0)) r
             (cb_ReturnTo cb) 302))"

definition logout_actor ::
  "'w auth_handler \<Rightarrow> 'w \<Rightarrow> string option \<Rightarrow> 'w \<times> string \<times> string \<times> string" where
  "logout_actor h w ck =
     (case ck of
        None \<Rightarrow> (w, [], [], [])
      | Some sid \<Rightarrow>
          (case sv_Sessions (ah_Service h) of
             None \<Rightarrow> (w, sid, [], [])
           | Some ss \<Rightarrow>
               (case ss_Get ss w sid of
                  (w1, Inl e) \<Rightarrow> (w1, sid, [], [])
                | (w1, Inr s) \<Rightarrow> (w1, sid, sess_Subject s, sess_Username s))))"

definition handle_logout :: "'z world_scheme auth_handler \<Rightarrow> 'z world_scheme handler" where
  "handle_logout h r w rw =
     (let (w1, sid, actor, username) = logout_actor h w (rq_Cookies r (cookieName h));
          global = EqualFold (rq_Query r ''global'') ''true'';
          attrs = Some [''global'' \<mapsto> boolString global]
      in case Logout (ah_Service h) w1 sid global of
           (w2, Inl e) \<Rightarrow>
             if e = NilDereference then (w2, rw)
             else (emit h r w2 actor username ''auth.logout'' ''session'' ''failure'' 503 attrs,
                   http_Error rw ''logout unavailable'' 503)
         | (w2, Inr redirectTo) \<Rightarrow>
             (let w3 = emit h r w2 actor username ''auth.logout'' ''session'' ''success'' 303 attrs;
                  w4 = (case ah_Cache h of
                          None \<Rightarrow> w3
                        | Some c \<Rightarrow> if sid \<noteq> [] then fst (ca_Delete c w3 (CacheKey sid)) else w3)
              in (w4, http_Redirect (SetCookie rw (session_cookie h [] 0 (- 1))) r redirectTo 303)))"

definition omitempty :: "string \<Rightarrow> string \<Rightarrow> (string \<times> json) list" where
  "omitempty k v = (if v = [] then [] else [(k, JStr v)])"

definition omitempty_list :: "string \<Rightarrow> string list \<Rightarrow> (string \<times> json) list" where
  "omitempty_list k vs = (if vs = [] then [] else [(k, JArr (map JStr vs))])"

text \<open>The JSON form of \<^verbatim>\<open>usercontext.Context\<close>, by its struct tags.\<close>

definition context_json :: "user_context \<Rightarrow> json" where
  "context_json c =
     JObj ([(''sub'', JStr (uc_Subject c))] @ omitempty ''preferred_username'' (uc_Username c) @
       omitempty ''display_name'' (uc_DisplayName c) @ omitempty ''email'' (uc_Email c) @
       omitempty_list ''roles'' (uc_Roles c) @ omitempty_list ''permissions'' (uc_Permissions c) @
       omitempty ''tenant_id'' (uc_TenantID c) @ omitempty ''project_id'' (uc_ProjectID c) @
       omitempty ''auth_level'' (uc_AuthLevel c) @ omitempty_list ''capabilities'' (uc_Capabilities c))"

definition handle_me :: "'z world_scheme auth_handler \<Rightarrow> 'z world_scheme handler" where
  "handle_me h r w rw =
     (case (rq_Cookies r (cookieName h), ah_UserContext h, sv_Sessions (ah_Service h)) of
        (Some v, Some resolve, Some ss) \<Rightarrow>
          (case ss_Get ss w v of
             (w1, Inl e) \<Rightarrow>
               (w1, if errors_Is e ErrSessionNotFound then http_Error rw ''unauthorized'' 401
                    else http_Error rw ''session store unavailable'' 503)
           | (w1, Inr s) \<Rightarrow>
               (case resolve w1 v of
                  (w2, Inl e) \<Rightarrow> (w2, http_Error rw ''unauthorized'' 401)
                | (w2, Inr ctx) \<Rightarrow>
                    (w2, Write (SetHeader (SetHeader rw ''Content-Type'' ''application/json'')
                           ''Cache-Control'' ''no-store'') (Json (context_json ctx)))))
      | _ \<Rightarrow> (w, http_Error rw ''unauthorized'' 401))"

subsection \<open>Health endpoints (system\_routes.go)\<close>

definition writeJSON :: "response_writer \<Rightarrow> int \<Rightarrow> json \<Rightarrow> response_writer" where
  "writeJSON rw status v =
     Write (WriteHeader (SetHeader rw ''Content-Type'' ''application/json'') status) (Json v)"

definition handle_live :: "'w handler" where
  "handle_live r w rw = (w, writeJSON rw 200 (JObj [(''status'', JStr ''ok'')]))"

definition handle_ready :: "('w \<Rightarrow> 'w \<times> goerr option) option \<Rightarrow> 'w handler" where
  "handle_ready ready r w rw =
     (case ready of
        None \<Rightarrow> (w, writeJSON rw 200 (JObj [(''status'', JStr ''ready'')]))
      | Some check \<Rightarrow>
          (case check w of
             (w1, Some e) \<Rightarrow> (w1, writeJSON rw 503 (JObj [(''status'', JStr ''not_ready'')]))
           | (w1, None) \<Rightarrow> (w1, writeJSON rw 200 (JObj [(''status'', JStr ''ready'')]))))"

text \<open>
  The middleware chain that \<^verbatim>\<open>NewRouter\<close> puts around the mounted routes, outermost first. The states
  of the two rate limiters and of the semaphore are parts of the world; the access log has its lines in \<open>rd_Slog\<close> and
  the sizes of what handlers write in \<open>rd_Size\<close>.
\<close>

record ('w, 'ip, 'net) router_deps =
  rd_PublicURL :: string
  rd_SecureCookies :: bool
  rd_CSRFCookieName :: string
  rd_Net :: "('ip, 'net) netlib"
  rd_TrustedProxy :: "'net list"
  rd_Metrics :: "'w meter"
  rd_MaxRequestBodyBytes :: int
  rd_MaxConcurrency :: int
  rd_RatePerSecond :: rat
  rd_RateBurst :: int
  rd_RateMaxEntries :: int
  rd_AuthRatePerSecond :: rat
  rd_AuthRateBurst :: int
  rd_AccessLogEnabled :: bool
  rd_TraceEnabled :: bool
  rd_Slog :: "'w access_log"
  rd_Size :: "body_part \<Rightarrow> int"
  rd_authLimiter :: "('w \<Rightarrow> limiter) \<times> (limiter \<Rightarrow> 'w \<Rightarrow> 'w)"
  rd_limiter :: "('w \<Rightarrow> limiter) \<times> (limiter \<Rightarrow> 'w \<Rightarrow> 'w)"
  rd_semaphore :: "('w \<Rightarrow> int) \<times> (int \<Rightarrow> 'w \<Rightarrow> 'w)"

definition auth_rate_config :: "('w, 'ip, 'net) router_deps \<Rightarrow> rate_limit_config" where
  "auth_rate_config d =
     \<lparr>rl_RatePerSecond = rd_AuthRatePerSecond d, rl_Burst = rd_AuthRateBurst d, rl_IdleTTL = 0,
      rl_MaxEntries = rd_RateMaxEntries d, rl_PathSuffixes = [''/auth/login''],
      rl_RejectReason = ''auth_rate_limit''\<rparr>"

definition rate_config :: "('w, 'ip, 'net) router_deps \<Rightarrow> rate_limit_config" where
  "rate_config d =
     \<lparr>rl_RatePerSecond = rd_RatePerSecond d, rl_Burst = rd_RateBurst d, rl_IdleTTL = 0,
      rl_MaxEntries = rd_RateMaxEntries d, rl_PathSuffixes = [], rl_RejectReason = []\<rparr>"

definition router_chain ::
  "('z world_scheme, 'ip, 'net) router_deps \<Rightarrow> 'z world_scheme handler \<Rightarrow> 'z world_scheme handler" where
  "router_chain d mounted =
     (let csrf = CSRF \<lparr>csrf_PublicURL = rd_PublicURL d, csrf_Secure = rd_SecureCookies d,
                       csrf_CookieName = rd_CSRFCookieName d\<rparr> mounted;
          body = MaxRequestBodyBytes (rd_MaxRequestBodyBytes d) csrf;
          conc = ConcurrencyLimit (fst (rd_semaphore d)) (snd (rd_semaphore d)) (rd_MaxConcurrency d)
                   (rd_Metrics d) body;
          authrate = RateLimit (fst (rd_authLimiter d)) (snd (rd_authLimiter d)) (rd_Net d)
                   (rd_TrustedProxy d) (rd_Metrics d) (auth_rate_config d) conc;
          rate = RateLimit (fst (rd_limiter d)) (snd (rd_limiter d)) (rd_Net d)
                   (rd_TrustedProxy d) (rd_Metrics d) (rate_config d) authrate;
          logged = (if rd_AccessLogEnabled d
                   then AccessLog (rd_Slog d) (rd_Size d) (rd_Net d) (rd_TrustedProxy d) rate else rate);
          meta = RequestMetadata (rd_Net d) (rd_TrustedProxy d) logged;
          sec = SecurityHeaders meta;
          traced = (if rd_TraceEnabled d then TraceContext sec else sec)
      in RequestID traced)"

subsection \<open>Vocabulary of the properties\<close>

text \<open>
  The handler over the in-memory stores, cache and registry, with an audit sink that leaves the stores alone.
\<close>

definition sink_frame :: "'z front_world_scheme audit_sink \<Rightarrow> bool" where
  "sink_frame snk \<longleftrightarrow>
     (\<forall>w e. flows (fst (snk w e)) = flows w \<and> sessions (fst (snk w e)) = sessions w \<and> tokens (fst (snk w e)) = tokens w)"

definition memory_handler :: "lifecycle \<Rightarrow> 'z front_world_scheme auth_handler \<Rightarrow> bool" where
  "memory_handler lc h \<longleftrightarrow>
     memory_service lc (ah_Service h) \<and> (\<forall>snk. ah_Audit h = Some snk \<longrightarrow> sink_frame snk) \<and>
     (ah_Metrics h = None \<or> ah_Metrics h = registry_meter) \<and>
     (ah_Cache h = None \<or> ah_Cache h = Some CacheMemory)"

text \<open>What the gateway's endpoints and the clock can do to the world, in any order.\<close>

inductive auth_step ::
  "(string \<Rightarrow> nat list) \<Rightarrow> 'z front_world_scheme auth_handler \<Rightarrow> 'z front_world_scheme
   \<Rightarrow> 'z front_world_scheme \<Rightarrow> bool"
  for sha256 :: "string \<Rightarrow> nat list" and h :: "'z front_world_scheme auth_handler" where
  step_login: "auth_step sha256 h w (fst (handle_login sha256 h r w rw))"
| step_callback: "auth_step sha256 h w (fst (handle_callback h r w rw))"
| step_logout: "auth_step sha256 h w (fst (handle_logout h r w rw))"
| step_clock: "auth_step sha256 h w (w\<lparr>ticks := ticks w + n\<rparr>)"

definition safe_flows :: "'z auth_world_scheme \<Rightarrow> bool" where
  "safe_flows w \<longleftrightarrow> (\<forall>st f. flows w st = Some f \<longrightarrow> safeLocalReturnTo (fl_ReturnTo f))"

section \<open>Lemmas\<close>

lemma NewEvent_front:
  "NewEvent w a t out = (w', e) \<Longrightarrow> flows w' = flows w \<and> sessions w' = sessions w \<and> tokens w' = tokens w"
  by (auto simp: NewEvent_def rand_Read_def Now_eq Let_def split: sum.splits)

lemma emit_front:
  assumes "memory_handler lc h"
  shows "flows (emit h r w a u act t out st ats) = flows w"
    "sessions (emit h r w a u act t out st ats) = sessions w"
    "tokens (emit h r w a u act t out st ats) = tokens w"
proof -
  obtain w1 e where n: "NewEvent w act t out = (w1, e)" by fastforce
  have "emit h r w a u act t out st ats = w \<or> (\<exists>snk ev. ah_Audit h = Some snk \<and> emit h r w a u act t out st ats = fst (snk w1 ev))"
    using n by (cases "ah_Audit h") (auto simp: emit_def Let_def)
  then show "flows (emit h r w a u act t out st ats) = flows w"
    "sessions (emit h r w a u act t out st ats) = sessions w"
    "tokens (emit h r w a u act t out st ats) = tokens w"
    using NewEvent_front [OF n] assms by (auto simp: memory_handler_def sink_frame_def)
qed

lemma MemorySink_frame: "sink_frame MemorySink_Append" "sink_frame NoopSink_Append"
  by (simp_all add: sink_frame_def MemorySink_Append_def NoopSink_Append_def)

lemma meter_front:
  assumes "memory_handler lc h"
  shows "flows (meter_call (ah_Metrics h) w c) = flows w"
    "sessions (meter_call (ah_Metrics h) w c) = sessions w"
    "tokens (meter_call (ah_Metrics h) w c) = tokens w"
  using assms by (auto simp: memory_handler_def meter_call_def registry_meter_def)

lemma safeLocalReturnToD:
  assumes "safeLocalReturnTo v"
  shows "\<exists>u. url_Parse v = Some u \<and> u_Scheme u = [] \<and> u_Host u = []"
  using assms by (auto simp: safeLocalReturnTo_def IsAbs_def split: option.splits if_splits)

text \<open>A login start stores at most one flow, with a checked return address.\<close>

lemma StartLogin_flows:
  assumes "memory_service lc s" and eq: "StartLogin sha256 s w rt = (w', r)"
  shows "flows w' = flows w \<or>
    (\<exists>st f. flows w' = (flows w)(st \<mapsto> f) \<and> safeLocalReturnTo (fl_ReturnTo f))"
proof -
  obtain prov where p: "sv_Provider s = Some prov" "provider_frame prov" "sv_Flows s = Some MemoryFlowStore"
    using assms(1) by (auto simp: memory_service_def)
  obtain w1 x1 where 1: "randomURLSafe 32 w = (w1, x1)" by fastforce
  obtain w2 x2 where 2: "randomURLSafe 32 w1 = (w2, x2)" by fastforce
  obtain w3 x3 where 3: "randomURLSafe 64 w2 = (w3, x3)" by fastforce
  note fl = randomURLSafe_frame(1) [OF 1] randomURLSafe_frame(1) [OF 2] randomURLSafe_frame(1) [OF 3]
  define rt' where "rt' = (if rt = [] then ''/'' else rt)"
  show ?thesis
  proof (cases "safeLocalReturnTo rt' \<and> (\<exists>a b c. x1 = Inr a \<and> x2 = Inr b \<and> x3 = Inr c)")
    case False
    then have "w' = w \<or> w' = w1 \<or> w' = w2 \<or> w' = w3"
      using eq p 1 2 3
      by (cases x1; cases x2; cases x3) (auto simp: StartLogin_def Let_def rt'_def split: if_splits)
    then show ?thesis using fl by (auto simp: front_kept_def)
  next
    case True
    then obtain a b c where x: "x1 = Inr a" "x2 = Inr b" "x3 = Inr c" by blast
    let ?f = "\<lparr>fl_State = a, fl_Nonce = b, fl_CodeVerifier = c, fl_ReturnTo = rt',
      fl_ExpiresAt = Time_Add (cur w3) (flow_ttl s)\<rparr>"
    let ?w5 = "w3\<lparr>ticks := Suc (ticks w3), flows := (flows w3)(a \<mapsto> ?f)\<rparr>"
    have "ip_AuthorizationURL prov ?w5 a b (base64_RawURL (sha256 c)) (sv_RedirectURI s) = (w', r)"
      using eq p 1 2 3 x True
      by (simp add: StartLogin_def Let_def Now_eq MemoryFlowStore_def MemoryFlowStore_Put_def rt'_def [symmetric])
    from provider_frameD(1) [OF p(2) this] fl have "flows w' = (flows w)(a \<mapsto> ?f)"
      by (simp add: front_kept_def)
    then show ?thesis using True by (intro disjI2 exI [of _ a] exI [of _ ?f]) simp
  qed
qed

lemma handle_login_flows:
  assumes "memory_handler lc h" "safe_flows w"
  shows "safe_flows (fst (handle_login sha256 h r w rw))"
proof -
  obtain w1 x where x: "StartLogin sha256 (ah_Service h) w (rq_Query r ''return_to'') = (w1, x)" by fastforce
  have "memory_service lc (ah_Service h)" using assms(1) by (simp add: memory_handler_def)
  from StartLogin_flows [OF this x] assms(2) have "safe_flows w1"
    by (auto simp: safe_flows_def split: if_splits)
  with x emit_front(1) [OF assms(1)] show ?thesis
    by (cases x) (auto simp: handle_login_def safe_flows_def)
qed

lemma handle_callback_flows:
  assumes "memory_handler lc h" "safe_flows w"
  shows "safe_flows (fst (handle_callback h r w rw))"
proof -
  let ?st = "rq_Query r ''state''" and ?code = "rq_Query r ''code''"
  obtain w1 x where x: "CompleteCallback (ah_Service h) w ?st ?code = (w1, x)" by fastforce
  have m: "memory_service lc (ah_Service h)" using assms(1) by (simp add: memory_handler_def)
  have "safe_flows w1"
  proof (cases "?st = [] \<or> ?code = []")
    case True
    with x assms(2) show ?thesis by (auto simp: CompleteCallback_def)
  next
    case False
    with callback_cases [OF m x] assms(2) show ?thesis by (auto simp: safe_flows_def)
  qed
  with x emit_front(1) [OF assms(1)] meter_front(1) [OF assms(1)] show ?thesis
    by (cases x) (auto simp: handle_callback_def safe_flows_def)
qed

lemma Logout_sessions:
  assumes "memory_service lc s" "sid \<noteq> []" "Logout s w sid global = (w', r)"
  shows "sessions w' sid = None"
  using Logout_stores [OF assms] by simp

lemma Logout_flows:
  assumes "memory_service lc s" and eq: "Logout s w sid global = (w', r)"
  shows "flows w' = flows w"
proof (cases "sid = []")
  case True
  with eq show ?thesis by (auto simp: Logout_def)
next
  case False
  obtain w1 idt where l: "logout_tokens s w sid = (w1, Inr idt)" "flows w1 = flows w"
    using logout_tokens_memory [OF assms(1)] by blast
  let ?w2 = "w1\<lparr>sessions := map_delete (sessions w1) sid\<rparr>"
  obtain prov where p: "sv_Provider s = Some prov" "provider_frame prov"
    using assms(1) by (auto simp: memory_service_def)
  have "front_kept ?w2 w'"
    using assms l p False provider_frameD(3) [OF p(2), of ?w2]
    by (auto simp: Logout_def memory_service_def LifecycleStore_Delete_def memory_defs split: if_splits)
  with l show ?thesis by (simp add: front_kept_def)
qed

lemma lifecycle_Get_flows [simp]: "flows (fst (LifecycleStore_Get s MemoryStore w i)) = flows w"
proof -
  have "flows (fst (LifecycleStore_Get_check s MemoryStore w i)) = flows w"
    by (rule check_world [where P = "\<lambda>w'. flows w' = flows w"])
      (simp_all add: MemoryStore_def Now_def)
  then show ?thesis
    by (auto simp: LifecycleStore_Get_def LifecycleStore_Get_touch_def MemoryStore_def
        MemoryStore_Put_def split: prod.splits get_progress.splits)
qed

lemma logout_actor_parts:
  assumes "memory_handler lc h" "logout_actor h w ck = (w1, sid, a, u)"
  shows "flows w1 = flows w" "sid = (case ck of None \<Rightarrow> [] | Some v \<Rightarrow> v)"
proof -
  have ss: "sv_Sessions (ah_Service h) = Some (LifecycleStore lc MemoryStore)"
    using assms(1) by (simp add: memory_handler_def memory_service_def)
  have "w1 = w \<or> (\<exists>v. w1 = fst (LifecycleStore_Get lc MemoryStore w v))"
    using assms(2) ss by (auto simp: logout_actor_def split: option.splits prod.splits sum.splits)
      (metis fst_conv)+
  then show "flows w1 = flows w" by auto
  show "sid = (case ck of None \<Rightarrow> [] | Some v \<Rightarrow> v)"
    using assms(2) ss by (auto simp: logout_actor_def split: option.splits prod.splits sum.splits)
qed

text \<open>The worlds of a logout: after the actor lookup, after the service call, at the end.\<close>

lemma handle_logout_world:
  assumes "memory_handler lc h" "handle_logout h r w rw = (w', rw')"
  shows "\<exists>w1 a u w2 x. logout_actor h w (rq_Cookies r (cookieName h)) = (w1,
      (case rq_Cookies r (cookieName h) of None \<Rightarrow> [] | Some v \<Rightarrow> v), a, u) \<and>
    Logout (ah_Service h) w1 (case rq_Cookies r (cookieName h) of None \<Rightarrow> [] | Some v \<Rightarrow> v)
      (EqualFold (rq_Query r ''global'') ''true'') = (w2, x) \<and>
    flows w' = flows w2 \<and> sessions w' = sessions w2 \<and> tokens w' = tokens w2"
proof -
  obtain w1 sid a u where l: "logout_actor h w (rq_Cookies r (cookieName h)) = (w1, sid, a, u)"
    using prod_cases4 by blast
  note sid = logout_actor_parts(2) [OF assms(1) l]
  obtain w2 x where x: "Logout (ah_Service h) w1 sid (EqualFold (rq_Query r ''global'') ''true'') = (w2, x)"
    by fastforce
  have c: "ah_Cache h = None \<or> ah_Cache h = Some CacheMemory" using assms(1) by (simp add: memory_handler_def)
  have "flows w' = flows w2 \<and> sessions w' = sessions w2 \<and> tokens w' = tokens w2"
    using assms(2) l x c
    by (cases x) (auto simp: handle_logout_def Let_def emit_front [OF assms(1)] CacheMemory_def
        CacheMemory_Delete_def split: if_splits)
  with l x sid show ?thesis by blast
qed

lemma handle_logout_ends:
  assumes "memory_handler lc h" "rq_Cookies r (cookieName h) = Some sid" "sid \<noteq> []" "handle_logout h r w rw = (w1, rw1)"
  shows "\<exists>w2. LifecycleStore_Get lc MemoryStore w1 sid = (w2, Inl ErrSessionNotFound)"
proof -
  have m: "memory_service lc (ah_Service h)" using assms(1) by (simp add: memory_handler_def)
  have "sessions w1 sid = None"
    using handle_logout_world [OF assms(1,4)] Logout_sessions [OF m assms(3)] assms(2) by fastforce
  then have "snd (LifecycleStore_Get lc MemoryStore w1 sid) = Inl ErrSessionNotFound"
    by (simp add: lifecycle_Get_result)
  then show ?thesis by (metis prod.collapse)
qed

lemma handle_logout_flows:
  assumes "memory_handler lc h" "safe_flows w"
  shows "safe_flows (fst (handle_logout h r w rw))"
proof -
  obtain w' rw' where e: "handle_logout h r w rw = (w', rw')" by fastforce
  obtain w1 sid a u w2 x where l: "logout_actor h w (rq_Cookies r (cookieName h)) = (w1, sid, a, u)"
    "Logout (ah_Service h) w1 sid (EqualFold (rq_Query r ''global'') ''true'') = (w2, x)"
    "flows w' = flows w2"
    using handle_logout_world [OF assms(1) e] by blast
  have "memory_service lc (ah_Service h)" using assms(1) by (simp add: memory_handler_def)
  from Logout_flows [OF this l(2)] logout_actor_parts(1) [OF assms(1) l(1)] l(3) e assms(2)
  show ?thesis by (simp add: safe_flows_def)
qed

lemma safe_flows_ticks [simp]: "safe_flows (w\<lparr>ticks := n\<rparr>) = safe_flows w"
  by (simp add: safe_flows_def)

lemma safe_flows_reach:
  assumes "memory_handler lc h" "(auth_step sha256 h)\<^sup>*\<^sup>* w w'" "safe_flows w"
  shows "safe_flows w'"
  using assms(2,3)
proof (induction rule: rtranclp_induct)
  case (step y z)
  then have "safe_flows y" by blast
  with step(2) show ?case
    by (cases rule: auth_step.cases)
      (auto intro: handle_login_flows [OF assms(1)] handle_callback_flows [OF assms(1)]
        handle_logout_flows [OF assms(1)])
qed

section \<open>Properties\<close>


text \<open>The handler of the concrete service, and a login callback.\<close>

definition demo_handler :: "front_world auth_handler" where
  "demo_handler =
     \<lparr>ah_Service = demo_service, ah_UserContext = Some (CachedResolver_Resolve
        (SessionResolver_Resolve (LifecycleStore demo_lifecycle MemoryStore) (Some (Static demo_policy)))
        (Some CacheMemory) 0),
      ah_Cache = Some CacheMemory, ah_Audit = Some MemorySink_Append, ah_Metrics = registry_meter,
      ah_Secure = True, ah_CookieName = []\<rparr>"

definition demo_login_request :: request where
  "demo_login_request = demo_request\<lparr>rq_Method := ''GET'', rq_URL := empty_url\<lparr>u_Path := ''/auth/login''\<rparr>\<rparr>"

definition demo_callback_request :: "string \<Rightarrow> request" where
  "demo_callback_request state = demo_request\<lparr>rq_Method := ''GET'', rq_URL := empty_url\<lparr>u_Path := ''/auth/callback'',
     u_RawQuery := Values_Encode [(''state'', [state]), (''code'', [''c''])]\<rparr>\<rparr>"

lemma demo_callback_query [simp]:
  "rq_Query (demo_callback_request state) ''state'' = state" "rq_Query (demo_callback_request state) ''code'' = ''c''"
  by (simp_all add: demo_callback_request_def rq_Query_def Values_Get_def map_of_ParseQuery_Encode values_ok_def)

lemma demo_handler_memory: "memory_handler demo_lifecycle demo_handler"
  by (simp add: memory_handler_def demo_handler_def demo_service_memory MemorySink_frame)

lemmas demo_http_eval = demo_handler_def demo_login_request_def demo_callback_request_def demo_request_def
  handle_callback_def handle_logout_def handle_me_def demo_front_def session_cookie_def cookieName_def
  SessionCookieName_def meter_call_def registry_meter_def


text \<open>
  The check of \<^verbatim>\<open>return_to\<close> lets a backslash pass: the target slash, backslash, host name is accepted
  by \<^verbatim>\<open>safeLocalReturnTo\<close> and is sent to the browser as it is (browsers read the backslash as a slash
  and leave the site).
\<close>

theorem return_to_backslash_accepted:
  "let target = [CHR ''/'', CHR 0x5C] @ ''evil.example''
   in safeLocalReturnTo target \<and> redirect_location ''/auth/callback'' target = target"
  by code_simp

text \<open>
  A successful callback sets exactly one cookie: the session cookie, for scripts invisible,
  same-site, secure as configured, and its value is the identifier of a session that is now stored
  together with its tokens.
\<close>

theorem callback_cookie_names_session:
  assumes "memory_handler lc h" and "rw_Status rw = 0"
    and cb: "handle_callback h r w rw = (w', rw')" and "rw_Status rw' = 302"
  shows "\<exists>c. rw_Cookies rw' = rw_Cookies rw @ [c] \<and> ck_Name c = cookieName h \<and> ck_HttpOnly c \<and>
     ck_SameSiteLax c \<and> ck_Secure c = ah_Secure h \<and>
     sessions w' (ck_Value c) \<noteq> None \<and> tokens w' (ck_Value c) \<noteq> None"
proof -
  have m: "memory_service lc (ah_Service h)" using assms(1) by (simp add: memory_handler_def)
  obtain w1 x where x: "CompleteCallback (ah_Service h) w (rq_Query r ''state'') (rq_Query r ''code'') = (w1, x)"
    by fastforce
  obtain c where c: "x = Inr c"
    using cb x assms(2,4) by (cases x) (auto simp: handle_callback_def split: if_splits)
  have "sessions w' = sessions w1" "tokens w' = tokens w1"
    using cb x c by (auto simp: handle_callback_def emit_front [OF assms(1)] meter_front [OF assms(1)])
  moreover have ok: "CompleteCallback (ah_Service h) w (rq_Query r ''state'') (rq_Query r ''code'') = (w1, Inr c)"
    using x c by simp
  ultimately have "sessions w' (cb_SessionID c) \<noteq> None" "tokens w' (cb_SessionID c) \<noteq> None"
    using callback_success [OF m ok] by auto
  moreover have "rw_Cookies rw' = rw_Cookies rw @ [session_cookie h (cb_SessionID c) (cb_ExpiresAt c) 0]"
    using cb x c by (auto simp: handle_callback_def)
  ultimately show ?thesis by (auto simp: session_cookie_def)
qed

theorem callback_cookie_names_session_witness:
  "let (w', rw') = handle_callback demo_handler (demo_callback_request ''st'') demo_front new_response
   in \<exists>c. rw_Cookies rw' = rw_Cookies new_response @ [c] \<and> ck_Name c = cookieName demo_handler \<and>
        ck_HttpOnly c \<and> sessions w' (ck_Value c) \<noteq> None \<and> tokens w' (ck_Value c) \<noteq> None"
proof -
  let ?r = "demo_callback_request ''st''"
  obtain w' rw' where cb: "handle_callback demo_handler ?r demo_front new_response = (w', rw')" by fastforce
  have "rw_Status (snd (handle_callback demo_handler ?r demo_front new_response)) = 302" by code_simp
  then have s: "rw_Status rw' = 302" using cb by simp
  have "rw_Status new_response = 0" by (simp add: new_response_def)
  from callback_cookie_names_session [OF demo_handler_memory this cb s] show ?thesis
    unfolding cb Let_def prod.case by (elim exE conjE) (intro exI conjI; assumption)
qed

text \<open>
  After logout the session is over for the user context: once a logout request with a session
  cookie has been handled (whatever it answered), a request for \<^verbatim>\<open>/api/me\<close> with the same cookie is
  answered 401, also when the context was still in the cache.
\<close>

theorem logout_ends_me:
  assumes "memory_handler lc h" and "rq_Cookies r (cookieName h) = Some sid" and "sid \<noteq> []"
    and out: "handle_logout h r w rw = (w1, rw1)"
    and "rq_Cookies r' (cookieName h) = Some sid" and "rw_Status rw' = 0"
  shows "rw_Status (snd (handle_me h r' w1 rw')) = 401"
proof -
  have m: "memory_service lc (ah_Service h)" using assms(1) by (simp add: memory_handler_def)
  have ss: "sv_Sessions (ah_Service h) = Some (LifecycleStore lc MemoryStore)"
    using m by (simp add: memory_service_def)
  from handle_logout_ends [OF assms(1,2,3) out] obtain w2 where
    "LifecycleStore_Get lc MemoryStore w1 sid = (w2, Inl ErrSessionNotFound)" ..
  with assms(5,6) ss show ?thesis
    by (cases "ah_UserContext h") (auto simp: handle_me_def)
qed

theorem logout_ends_me_witness:
  "let (w0, _) = handle_me demo_handler demo_user_request demo_front new_response;
       (w1, _) = handle_logout demo_handler demo_user_request w0 new_response
   in rw_Status (snd (handle_me demo_handler demo_user_request demo_front new_response)) = 200 \<and>
      rw_Status (snd (handle_me demo_handler demo_user_request w1 new_response)) = 401"
proof -
  let ?w0 = "fst (handle_me demo_handler demo_user_request demo_front new_response)"
  obtain w1 rw1 where out: "handle_logout demo_handler demo_user_request ?w0 new_response = (w1, rw1)"
    by fastforce
  have c: "rq_Cookies demo_user_request (cookieName demo_handler) = Some ''s1''" by code_simp
  have "rw_Status (snd (handle_me demo_handler demo_user_request w1 new_response)) = 401"
    by (rule logout_ends_me [OF demo_handler_memory c _ out c]) (simp_all add: new_response_def)
  moreover have "rw_Status (snd (handle_me demo_handler demo_user_request demo_front new_response)) = 200"
    by code_simp
  ultimately show ?thesis using out by (simp add: case_prod_unfold)
qed

end
