(* ===== verification/ServeMux.thy ===== *)
theory ServeMux
  imports GoHTTP
begin

text \<open>
  \<^verbatim>\<open>http.ServeMux\<close>, \<^verbatim>\<open>http.StripPrefix\<close> and \<^verbatim>\<open>http.NotFound\<close> as the gateway and the role runtimes use them: patterns of a
  verb and a path whose segments are literal or a wildcard, matched against the decoded segments of the
  cleaned path; the redirection of paths that are not clean; the answers 405 with its \<^verbatim>\<open>Allow\<close> header and 404; and the
  subtree below a base path, with the redirection of the base path itself. Where patterns overlap, \<^verbatim>\<open>ServeMux\<close> prefers
  the more specific one; here the first one is taken, and the theories of the routes show that theirs do not overlap.
  Redirections have the status 307, as since Go 1.26. A base path has no braces.
\<close>

section \<open>Definitions\<close>

subsection \<open>Patterns\<close>

definition wildcard :: "string \<Rightarrow> string option" where
  "wildcard s =
     (if HasPrefix s ''{'' \<and> HasSuffix s ''}'' \<and> 2 \<le> length s then Some (take (length s - 2) (drop 1 s)) else None)"

text \<open>The values of the wildcards, where the segments of a path match those of a pattern.\<close>

fun match_segments :: "string list \<Rightarrow> string list \<Rightarrow> (string \<times> string) list option" where
  "match_segments [] [] = Some []"
| "match_segments (p # ps) (s # ss) =
     (case wildcard p of
        Some name \<Rightarrow> if s = '''' then None else map_option ((#) (name, s)) (match_segments ps ss)
      | None \<Rightarrow> if p = s then match_segments ps ss else None)"
| "match_segments _ _ = None"

definition pathUnescape :: "string \<Rightarrow> string" where
  "pathUnescape s = (case unescape s of None \<Rightarrow> s | Some d \<Rightarrow> d)"

definition path_segments :: "string \<Rightarrow> string list" where
  "path_segments path = map pathUnescape (Split path (CHR ''/''))"

definition pattern_method :: "string \<Rightarrow> string" where
  "pattern_method p = fst (Cut p (CHR '' ''))"

definition pattern_path :: "string \<Rightarrow> string" where
  "pattern_path p = fst (snd (Cut p (CHR '' '')))"

definition match_path :: "string \<Rightarrow> string \<Rightarrow> (string \<times> string) list option" where
  "match_path pattern path = match_segments (Split (pattern_path pattern) (CHR ''/'')) (path_segments path)"

text \<open>The first pattern of a verb that matches; GET serves HEAD where no pattern does.\<close>

fun mux_find ::
  "(string \<times> 'h) list \<Rightarrow> string \<Rightarrow> string \<Rightarrow> (string \<times> (string \<times> string) list \<times> 'h) option" where
  "mux_find [] verb path = None"
| "mux_find ((pattern, h) # routes) verb path =
     (case (if pattern_method pattern = verb then match_path pattern path else None) of
        Some vs \<Rightarrow> Some (pattern, vs, h)
      | None \<Rightarrow> mux_find routes verb path)"

definition mux_match ::
  "(string \<times> 'h) list \<Rightarrow> string \<Rightarrow> string \<Rightarrow> (string \<times> (string \<times> string) list \<times> 'h) option" where
  "mux_match routes verb path =
     (case mux_find routes verb path of
        Some m \<Rightarrow> Some m
      | None \<Rightarrow> if verb = ''HEAD'' then mux_find routes ''GET'' path else None)"

text \<open>\<^verbatim>\<open>matchingMethods\<close>: the verbs of the patterns that match the path, or the path with a slash.\<close>

definition matching_methods :: "(string \<times> 'h) list \<Rightarrow> string \<Rightarrow> string list" where
  "matching_methods routes path =
     (let paths = (if HasSuffix path ''/'' then [path] else [path, path @ ''/'']);
          ms = map (\<lambda>(p, h). pattern_method p) (filter (\<lambda>(p, h). list_ex (\<lambda>q. match_path p q \<noteq> None) paths) routes)
      in sort (remdups (if ''GET'' \<in> set ms then ''HEAD'' # ms else ms)))"

subsection \<open>Dispatch\<close>

definition cleanPath :: "string \<Rightarrow> string" where
  "cleanPath p =
     (let p1 = (if p = '''' then ''/'' else if hd p \<noteq> CHR ''/'' then CHR ''/'' # p else p);
          np = path_Clean p1
      in if HasSuffix p1 ''/'' \<and> np \<noteq> ''/'' then np @ ''/'' else np)"

datatype 'h mux_answer =
    MuxServe string "(string \<times> string) list" 'h
  | MuxRedirect url string
  | MuxMethods "string list"
  | MuxNotFound

definition mux_path :: "request \<Rightarrow> string" where
  "mux_path r = (if rq_Method r = ''CONNECT'' then EscapedPath (rq_URL r) else cleanPath (EscapedPath (rq_URL r)))"

definition clean_url :: "string \<Rightarrow> request \<Rightarrow> url" where
  "clean_url path r = empty_url\<lparr>u_Path := path, u_RawQuery := u_RawQuery (rq_URL r)\<rparr>"

text \<open>\<^verbatim>\<open>findHandler\<close>, for patterns that do not end in a slash.\<close>

definition findHandler :: "(string \<times> 'h) list \<Rightarrow> request \<Rightarrow> 'h mux_answer" where
  "findHandler routes r =
     (let path = mux_path r; found = mux_match routes (rq_Method r) path
      in if path \<noteq> EscapedPath (rq_URL r)
         then MuxRedirect (clean_url path r) (case found of None \<Rightarrow> '''' | Some (p, vs, h) \<Rightarrow> p)
         else (case found of
           Some (p, vs, h) \<Rightarrow> MuxServe p vs h
         | None \<Rightarrow> (let ms = matching_methods routes path in if ms = [] then MuxNotFound else MuxMethods ms)))"

definition http_NotFound :: "response_writer \<Rightarrow> response_writer" where
  "http_NotFound rw = http_Error rw ''404 page not found'' 404"

definition with_match :: "string \<Rightarrow> (string \<times> string) list \<Rightarrow> request \<Rightarrow> request" where
  "with_match p vs r =
     r\<lparr>rq_Pattern := p, rq_PathValue := (\<lambda>n. case map_of vs n of None \<Rightarrow> '''' | Some v \<Rightarrow> v)\<rparr>"

text \<open>The request after \<^verbatim>\<open>ServeHTTP\<close> has stored the pattern in it, and the answer.\<close>

definition mux_request :: "(string \<times> 'h) list \<Rightarrow> request \<Rightarrow> request" where
  "mux_request routes r =
     (case findHandler routes r of
        MuxServe p vs h \<Rightarrow> with_match p vs r
      | MuxRedirect u p \<Rightarrow> r\<lparr>rq_Pattern := p\<rparr>
      | _ \<Rightarrow> r\<lparr>rq_Pattern := ''''\<rparr>)"

definition mux_ServeHTTP :: "('h \<Rightarrow> 'w handler) \<Rightarrow> (string \<times> 'h) list \<Rightarrow> 'w handler" where
  "mux_ServeHTTP run routes r w rw =
     (if rq_Path r = ''*'' then (w, WriteHeader (SetHeader rw ''Connection'' ''close'') 400)
      else (case findHandler routes r of
        MuxServe p vs h \<Rightarrow> run h (with_match p vs r) w rw
      | MuxRedirect u p \<Rightarrow> (w, http_Redirect rw r (URL_String u) 307)
      | MuxMethods ms \<Rightarrow> (w, http_Error (SetHeader rw ''Allow'' (strings_Join ms '', '')) ''Method Not Allowed'' 405)
      | MuxNotFound \<Rightarrow> (w, http_NotFound rw)))"

subsection \<open>Below a base path\<close>

text \<open>\<^verbatim>\<open>http.StripPrefix\<close>: the request with the prefix taken from its path, or nothing for 404.\<close>

definition strip_prefix :: "string \<Rightarrow> request \<Rightarrow> request option" where
  "strip_prefix pre r =
     (let u = rq_URL r; p = TrimPrefix (u_Path u) pre; rp = TrimPrefix (u_RawPath u) pre
      in if length p < length (u_Path u) \<and> (u_RawPath u = '''' \<or> length rp < length (u_RawPath u))
         then Some (r\<lparr>rq_URL := u\<lparr>u_Path := p, u_RawPath := rp\<rparr>\<rparr>) else None)"

text \<open>The pattern that ends in a slash matches the paths below it, and exactly the path that is the pattern.\<close>

definition subtree_match :: "string \<Rightarrow> string \<Rightarrow> bool" where
  "subtree_match base path \<longleftrightarrow>
     (let bs = Split base (CHR ''/''); ss = path_segments path in length bs < length ss \<and> take (length bs) ss = bs)"

definition subtree_exact :: "string \<Rightarrow> string \<Rightarrow> bool" where
  "subtree_exact base path \<longleftrightarrow> subtree_match base path \<and> HasSuffix path ''/'' \<and>
     length (path_segments path) = length (Split base (CHR ''/'')) + 1"

datatype mount_answer = Mounted request | MountRedirect url | MountNotFound

definition mount_find :: "string \<Rightarrow> request \<Rightarrow> mount_answer" where
  "mount_find base0 r =
     (if base0 = '''' \<or> base0 = ''/'' then Mounted r
      else
        (let base = TrimRight base0 (CHR ''/''); path = mux_path r
         in if \<not> subtree_exact base path \<and> \<not> HasSuffix path ''/'' \<and> subtree_exact base (path @ ''/'')
            then MountRedirect (clean_url (cleanPath (rq_Path r) @ ''/'') r)
            else if path \<noteq> EscapedPath (rq_URL r) then MountRedirect (clean_url path r)
            else if subtree_match base path
            then (case strip_prefix base r of None \<Rightarrow> MountNotFound | Some r' \<Rightarrow> Mounted r')
            else MountNotFound))"

definition mount_at :: "string \<Rightarrow> 'w handler \<Rightarrow> 'w handler" where
  "mount_at base h r w rw =
     (case mount_find base r of
        Mounted r' \<Rightarrow> h r' w rw
      | MountRedirect u \<Rightarrow> (w, http_Redirect rw r (URL_String u) 307)
      | MountNotFound \<Rightarrow> (w, http_NotFound rw))"

section \<open>Lemmas\<close>

lemma mux_find_Some:
  "mux_find routes verb path = Some (p, vs, h) \<Longrightarrow>
     (p, h) \<in> set routes \<and> pattern_method p = verb \<and> match_path p path = Some vs"
  by (induction routes verb path rule: mux_find.induct) (auto split: option.splits if_splits)

lemma mux_find_None:
  "mux_find routes verb path = None \<Longrightarrow> (p, h) \<in> set routes \<Longrightarrow> pattern_method p = verb \<Longrightarrow> match_path p path = None"
  by (induction routes verb path rule: mux_find.induct) (auto split: option.splits if_splits)

lemma mux_match_Some:
  assumes "mux_match routes verb path = Some (p, vs, h)"
  shows "(p, h) \<in> set routes" "match_path p path = Some vs"
    "pattern_method p = verb \<or> pattern_method p = ''GET'' \<and> verb = ''HEAD''"
  using assms by (auto simp: mux_match_def dest: mux_find_Some split: option.splits if_splits)

lemma findHandler_serve:
  assumes "findHandler routes r = MuxServe p vs h"
  shows "(p, h) \<in> set routes" "match_path p (EscapedPath (rq_URL r)) = Some vs"
  using assms mux_match_Some(1,2) [of routes "rq_Method r" "EscapedPath (rq_URL r)" p vs h]
  by (auto simp: findHandler_def Let_def split: if_splits option.splits)

text \<open>Nothing but the path of the address, the pattern and its values is changed on the way to a handler.\<close>

definition same_call :: "request \<Rightarrow> request \<Rightarrow> bool" where
  "same_call r r' \<longleftrightarrow> rq_Method r' = rq_Method r \<and> rq_Header r' = rq_Header r \<and> rq_Body r' = rq_Body r \<and>
     rq_Cookies r' = rq_Cookies r \<and> rq_RemoteAddr r' = rq_RemoteAddr r \<and>
     u_RawQuery (rq_URL r') = u_RawQuery (rq_URL r) \<and> cx_Session r' = cx_Session r"

lemma same_call_refl [simp]: "same_call r r"
  by (simp add: same_call_def)

lemma same_call_trans: "same_call r s \<Longrightarrow> same_call s t \<Longrightarrow> same_call r t"
  by (simp add: same_call_def)

lemma same_call_with_match [simp]: "same_call r (with_match p vs r)"
  by (simp add: same_call_def with_match_def)

lemma same_call_query: "same_call r r' \<Longrightarrow> rq_Query r' = rq_Query r"
  by (simp add: same_call_def rq_Query_def fun_eq_iff)

lemma mount_find_same: "mount_find base r = Mounted r' \<Longrightarrow> same_call r r'"
  by (auto simp: mount_find_def strip_prefix_def same_call_def Let_def split: if_splits option.splits)

subsection \<open>Redirections\<close>

lemma cleanPath_rooted: "\<exists>t. cleanPath p = CHR ''/'' # t \<and> (t = [] \<or> hd t \<noteq> CHR ''/'')"
proof -
  define q where "q = (if p = '''' then ''/'' else if hd p \<noteq> CHR ''/'' then CHR ''/'' # p else p)"
  have "q \<noteq> []" "hd q = CHR ''/''" by (auto simp: q_def)
  then obtain t where t: "path_Clean q = CHR ''/'' # t" "t = [] \<or> hd t \<noteq> CHR ''/''"
    using path_Clean_rooted by blast
  then show ?thesis
    by (cases t) (auto simp: cleanPath_def Let_def q_def [symmetric])
qed

lemma escape_slash: "escape_char EncodePath (CHR ''/'') = ''/''"
  by code_simp

lemma escape_char_slash: "escape_char EncodePath c = CHR ''/'' # s \<Longrightarrow> c = CHR ''/''"
  by (auto simp: escape_char_def split: if_splits)

lemma clean_url_text:
  assumes "path = CHR ''/'' # t" "t = [] \<or> hd t \<noteq> CHR ''/''"
  shows "\<exists>t'. URL_String (clean_url path r) = CHR ''/'' # t' \<and> (t' = [] \<or> hd t' \<noteq> CHR ''/'')"
proof -
  have e: "EscapedPath (clean_url path r) = CHR ''/'' # escape EncodePath t"
    using assms(1) by (simp add: EscapedPath_def clean_url_def empty_url_def escape_slash)
  have "CHR '':'' \<notin> set (fst (Cut (EscapedPath (clean_url path r)) (CHR ''/'')))" by (simp add: e)
  then have "url_front (clean_url path r) = CHR ''/'' # escape EncodePath t"
    by (simp add: url_front_def url_authority_def e Let_def) (simp add: clean_url_def empty_url_def)
  moreover have "escape EncodePath t = [] \<or> hd (escape EncodePath t) \<noteq> CHR ''/''"
    using assms(2) escape_char_slash [of "hd t"] by (cases t) (auto simp: escape_char_def split: if_splits)
  ultimately show ?thesis
    by (cases "escape EncodePath t") (auto simp: URL_String_def)
qed

lemma rooted_relative:
  assumes "s = CHR ''/'' # t" "t = [] \<or> hd t \<noteq> CHR ''/''" "url_Parse s = Some u"
  shows "u_Scheme u = []" "u_Host u = []"
proof -
  from assms(3) obtain r where r: "parse_noFragment (fst (Cut s (CHR ''#''))) = Some r" "u_Scheme r = u_Scheme u" "u_Host r = u_Host u"
    by (auto simp: url_Parse_def setFragment_def case_prod_beta split: option.splits if_splits)
  define f where "f = fst (Cut t (CHR ''#''))"
  define b where "b = fst (Cut f (CHR ''?''))"
  have f: "fst (Cut s (CHR ''#'')) = CHR ''/'' # f" by (simp add: assms(1) f_def case_prod_beta)
  have "\<not> HasPrefix (CHR ''/'' # b) ''//''"
    using assms(2) by (cases t) (auto simp: b_def f_def HasPrefix_def case_prod_beta split: if_splits)
  then show "u_Scheme u = []" "u_Host u = []"
    using r unfolding f
    by (auto simp: parse_noFragment_def setPath_def empty_url_def Let_def case_prod_beta b_def [symmetric] split: if_splits)
qed

lemma redirect_location_rooted:
  assumes "target = CHR ''/'' # t" "t = [] \<or> hd t \<noteq> CHR ''/''" "reqpath = [] \<or> hd reqpath = CHR ''/''"
  shows "local_location (redirect_location reqpath target)"
proof (cases "url_Parse target")
  case None
  with assms show ?thesis by (auto simp: redirect_location_def local_location_def)
next
  case (Some u)
  from redirect_location_local [OF Some rooted_relative [OF assms(1,2) Some] assms(3)] show ?thesis .
qed

lemma clean_redirect_local:
  assumes "rq_Path r = [] \<or> hd (rq_Path r) = CHR ''/''"
    and "path = CHR ''/'' # t" "t = [] \<or> hd t \<noteq> CHR ''/''"
  shows "local_location (redirect_location (rq_Path r) (URL_String (clean_url path r)))"
  using clean_url_text [OF assms(2,3), of r] redirect_location_rooted [OF _ _ assms(1)] by blast

text \<open>
  The redirection of the base path appends a slash to the clean path; where that is the root, the target is two slashes,
  which parse as an empty authority.
\<close>

definition server_query :: "request \<Rightarrow> bool" where
  "server_query r \<longleftrightarrow> list_all (\<lambda>x. x \<noteq> CHR ''#'' \<and> \<not> is_ctl x) (u_RawQuery (rq_URL r))"

lemma two_slashes_relative:
  assumes "list_all (\<lambda>x. x \<noteq> CHR ''#'' \<and> \<not> is_ctl x) q"
  shows "\<exists>u. url_Parse (''//'' @ (if q \<noteq> [] then CHR ''?'' # q else [])) = Some u \<and> u_Scheme u = [] \<and> u_Host u = []"
proof -
  let ?s = "''//'' @ (if q \<noteq> [] then CHR ''?'' # q else [])"
  have facts: "parseAuthority [] = Some []" "\<not> is_ctl (CHR ''?'')" "\<not> is_ctl (CHR ''/'')" by code_simp+
  have "CHR ''#'' \<notin> set ?s" and ctl: "\<not> list_ex is_ctl ?s"
    using assms facts by (auto simp: list_all_iff list_ex_iff)
  then have cut: "Cut ?s (CHR ''#'') = (?s, [], False)" by (rule_tac Cut_absent)
  have "\<exists>u. parse_noFragment ?s = Some u \<and> u_Scheme u = [] \<and> u_Host u = []"
    using ctl facts(1)
    by (auto simp: parse_noFragment_def HasPrefix_def setPath_def empty_url_def Let_def)
  with cut show ?thesis by (auto simp: url_Parse_def)
qed

lemma base_redirect_local:
  assumes "server_query r" "rq_Path r = [] \<or> hd (rq_Path r) = CHR ''/''"
  shows "local_location (redirect_location (rq_Path r) (URL_String (clean_url (cleanPath p @ ''/'') r)))"
proof -
  obtain t where t: "cleanPath p = CHR ''/'' # t" "t = [] \<or> hd t \<noteq> CHR ''/''" using cleanPath_rooted by blast
  show ?thesis
  proof (cases t)
    case Nil
    have "URL_String (clean_url ''//'' r) = ''//'' @ (if u_RawQuery (rq_URL r) \<noteq> [] then CHR ''?'' # u_RawQuery (rq_URL r) else [])"
      by (simp add: URL_String_def url_front_def url_authority_def EscapedPath_def clean_url_def empty_url_def escape_slash)
    with two_slashes_relative assms(1) obtain u where "url_Parse (URL_String (clean_url ''//'' r)) = Some u"
      "u_Scheme u = []" "u_Host u = []" unfolding server_query_def by metis
    from redirect_location_local [OF this assms(2)] show ?thesis by (simp add: t(1) Nil)
  next
    case (Cons c t')
    with t have "cleanPath p @ ''/'' = CHR ''/'' # (t @ ''/'')" "t @ ''/'' = [] \<or> hd (t @ ''/'') \<noteq> CHR ''/''" by simp_all
    then show ?thesis by (rule clean_redirect_local [OF assms(2)])
  qed
qed

section \<open>Properties\<close>

text \<open>
  The redirections of the multiplexer stay on the host: for a request as a server parses it (a rooted path, a query
  without control characters), neither the redirection of an unclean path (encoded slashes and dots included) nor that of
  the base path sends a \<^verbatim>\<open>Location\<close> that names a scheme or another host.
\<close>

theorem mux_redirects_local:
  assumes "mount_find base r = MountRedirect u \<or> findHandler routes r = MuxRedirect u p"
    and "server_query r" "rq_Path r = [] \<or> hd (rq_Path r) = CHR ''/''" "rw_Status rw = 0"
  shows "local_location (Header_Get (rw_Sent (http_Redirect rw r (URL_String u) 307)) ''Location'')"
proof -
  have clean: "local_location (redirect_location (rq_Path r) (URL_String (clean_url (cleanPath q) r)))" for q
    using cleanPath_rooted [of q] clean_redirect_local [OF assms(3)] by blast
  have "u = clean_url (mux_path r) r \<and> mux_path r \<noteq> EscapedPath (rq_URL r) \<or> u = clean_url (cleanPath (rq_Path r) @ ''/'') r"
    using assms(1) by (auto simp: mount_find_def findHandler_def Let_def split: if_splits option.splits)
  then have "local_location (redirect_location (rq_Path r) (URL_String u))"
    using clean base_redirect_local [OF assms(2,3)] by (auto simp: mux_path_def)
  with assms(4) show ?thesis by (simp add: http_Redirect_location hexEscape_local)
qed

definition demo_mux_request :: "string \<Rightarrow> request" where
  "demo_mux_request path =
     \<lparr>rq_Method = ''GET'', rq_URL = empty_url\<lparr>u_Path := path, u_RawQuery := ''x=1''\<rparr>, rq_Header = Map.empty, rq_Body = None,
      rq_Cookies = Map.empty, rq_RemoteAddr = [], rq_PathValue = (\<lambda>_. []), rq_Pattern = [], cx_RequestID = [],
      cx_TraceID = [], cx_ClientIP = [], cx_ClientIPSource = [], cx_CFRay = [], cx_Session = None\<rparr>"

theorem mux_redirects_local_witness:
  "Header_Get (rw_Sent (snd (mount_at ''/app'' (\<lambda>r w rw. (w, rw)) (demo_mux_request ''//e/../app'') () new_response)))
     ''Location'' = ''/app/?x=1'' \<and>
   local_location (Header_Get (rw_Sent (http_Redirect new_response (demo_mux_request ''//e/../app'')
     (URL_String (clean_url ''/app/'' (demo_mux_request ''//e/../app''))) 307)) ''Location'')"
proof
  show "Header_Get (rw_Sent (snd (mount_at ''/app'' (\<lambda>r w rw. (w, rw)) (demo_mux_request ''//e/../app'') () new_response)))
     ''Location'' = ''/app/?x=1''" by code_simp
  have "case mount_find ''/app'' (demo_mux_request ''//e/../app'') of
      MountRedirect u \<Rightarrow> u = clean_url ''/app/'' (demo_mux_request ''//e/../app'') | _ \<Rightarrow> False" by code_simp
  then have "mount_find ''/app'' (demo_mux_request ''//e/../app'') =
      MountRedirect (clean_url ''/app/'' (demo_mux_request ''//e/../app''))" by (simp split: mount_answer.splits)
  moreover have "server_query (demo_mux_request ''//e/../app'')"
    "hd (rq_Path (demo_mux_request ''//e/../app'')) = CHR ''/''" "rw_Status new_response = 0" by code_simp+
  ultimately show "local_location (Header_Get (rw_Sent (http_Redirect new_response (demo_mux_request ''//e/../app'')
     (URL_String (clean_url ''/app/'' (demo_mux_request ''//e/../app''))) 307)) ''Location'')"
    by (intro mux_redirects_local) blast+
qed

end
