(* ===== verification/RoleRuntime.thy ===== *)
theory RoleRuntime
  imports AccessControl AuthHTTP ServeMux
begin

text \<open>
  The runtime of the specialised roles (\<^verbatim>\<open>internal/roleruntime/server.go\<close>): the routes that the selected
  roles and capabilities register, the storage handlers with their validation, authorization and calls of the
  signer, and the readiness endpoint. A handler gets the outcome of decoding its body as an argument, once
  for each type of request; logging is not modelled. The server of \<^verbatim>\<open>Run\<close> is in \<open>Lifecycle\<close>.
\<close>

section \<open>Definitions\<close>

subsection \<open>Configuration and requests\<close>

record 'w role_config =
  rc_BasePath :: string
  rc_Selection :: selection
  rc_StorageSigner :: "'w storage_signer option"
  rc_StorageProviders :: "'w provider_registry"
  rc_StorageDefaultTTL :: duration
  rc_StorageMaxTTL :: duration
  rc_StorageTargets :: target_registry
  rc_StorageAccessPolicy :: "'w access_evaluator option"
  rc_StorageSubjectHeader :: string
  rc_WorkloadVerifier :: "'w workload_verifier option"
  rc_WorkloadAuthRequired :: bool

record storage_request =
  sq_Target :: string
  sq_Operation :: string
  sq_Bucket :: string
  sq_ObjectKey :: string
  sq_ContentType :: string
  sq_ExpiresInSeconds :: int

record verification_request =
  vq_Target :: string
  vq_ObjectKey :: string
  vq_ExpectedSize :: "int option"
  vq_ExpectedContentType :: string
  vq_ExpectedChecksums :: string_map

record multipart_request =
  mr_Target :: string
  mr_Bucket :: string
  mr_ObjectKey :: string
  mr_ContentType :: string
  mr_UploadID :: string
  mr_PartNumber :: int
  mr_ExpiresInSeconds :: int
  mr_Parts :: "completed_part list"

text \<open>The outcomes of decoding the (size-limited) body of a request into each type.\<close>

record decoded =
  db_storage :: "storage_request result"
  db_verification :: "verification_request result"
  db_multipart :: "multipart_request result"

type_synonym 'w role_handler = "'w call_context \<Rightarrow> decoded \<Rightarrow> 'w handler"

subsection \<open>Responses\<close>

definition rr_writeJSON :: "response_writer \<Rightarrow> int \<Rightarrow> json \<Rightarrow> response_writer" where
  "rr_writeJSON rw status v =
     Write (WriteHeader (SetHeader rw ''Content-Type'' ''application/json'') status) (Json v)"

definition error_json :: "string \<Rightarrow> json" where
  "error_json m = JObj [(''error'', JStr m)]"

text \<open>\<^verbatim>\<open>err.Error()\<close> of the errors that the validation functions return, which are all plain messages.\<close>

fun error_text :: "goerr \<Rightarrow> string" where
  "error_text (ErrorString m) = m"
| "error_text (ErrWrapped m e) = m @ '': '' @ error_text e"
| "error_text (ExternalError m) = m"
| "error_text _ = []"

definition bad_request :: "response_writer \<Rightarrow> goerr \<Rightarrow> response_writer" where
  "bad_request rw e = rr_writeJSON rw 400 (error_json (error_text e))"

definition headers_json :: "string_map option \<Rightarrow> json" where
  "headers_json h = (case h of None \<Rightarrow> JNull | Some m \<Rightarrow> map_json m)"

definition writeStorageProviderError :: "response_writer \<Rightarrow> response_writer" where
  "writeStorageProviderError rw = rr_writeJSON rw 502 (error_json ''storage_provider_error'')"

definition writeStorageResult ::
  "response_writer \<Rightarrow> presigned_operation result \<Rightarrow> response_writer" where
  "writeStorageResult rw res =
     (case res of
        Inl e \<Rightarrow> writeStorageProviderError rw
      | Inr op0 \<Rightarrow>
          rr_writeJSON (SetHeader rw ''Cache-Control'' ''no-store'') 200
            (JObj [(''expires_at'', JTime (po_ExpiresAt op0)), (''headers'', headers_json (po_Headers op0)),
                   (''method'', JStr (po_Method op0)), (''url'', JStr (po_URL op0))]))"

definition providerUnavailable :: "response_writer \<Rightarrow> role \<Rightarrow> string \<Rightarrow> response_writer" where
  "providerUnavailable rw role c =
     rr_writeJSON rw 503
       (JObj [(''capability'', JStr c),
              (''message'', JStr ''runtime route is enabled but its external provider is not configured''),
              (''role'', JStr role), (''status'', JStr ''provider_not_configured'')])"

definition grant_json :: "storage_grant \<Rightarrow> json" where
  "grant_json g =
     JObj ([(''url'', JStr (gr_URL g)), (''method'', JStr (gr_Method g)), (''expires_at'', JTime (gr_ExpiresAt g))] @
       (case gr_Headers g of None \<Rightarrow> [] | Some m \<Rightarrow> map_field ''headers'' m))"

definition num_field :: "string \<Rightarrow> int \<Rightarrow> (string \<times> json) list" where
  "num_field name n = (if n = 0 then [] else [(name, JNum n)])"

definition metadata_json :: "storage_metadata \<Rightarrow> json" where
  "metadata_json m =
     JObj ([(''exists'', JBool (md_Exists m)), (''bucket'', JStr (md_Bucket m)),
            (''object_key'', JStr (md_ObjectKey m))] @
       num_field ''size'' (md_Size m) @ omit_empty ''content_type'' (md_ContentType m) @
       omit_empty ''etag'' (md_ETag m) @ omit_empty ''version_id'' (md_VersionID m) @
       [(''last_modified'', JTime (md_LastModified m))] @
       map_field ''checksums'' (md_Checksums m) @ map_field ''metadata'' (md_Metadata m))"

definition reference_json :: "storage_reference \<Rightarrow> json" where
  "reference_json r =
     JObj ([(''target'', JStr (sr_Target r)), (''object_key'', JStr (sr_ObjectKey r))] @
       omit_empty ''version_id'' (sr_VersionID r) @ omit_empty ''etag'' (sr_ETag r) @
       num_field ''size'' (sr_Size r) @ omit_empty ''content_type'' (sr_ContentType r) @
       map_field ''checksums'' (sr_Checksums r))"

definition mismatch_json :: "mismatch \<Rightarrow> json" where
  "mismatch_json m =
     JObj ([(''field'', JStr (mm_Field m))] @ omit_empty ''expected'' (mm_Expected m) @
       omit_empty ''actual'' (mm_Actual m))"

definition verification_json :: "verification_result \<Rightarrow> json" where
  "verification_json v =
     JObj ([(''verified'', JBool (vr_Verified v)), (''reference'', reference_json (vr_Reference v))] @
       (if vr_Mismatches v = [] then [] else [(''mismatches'', JArr (map mismatch_json (vr_Mismatches v)))]))"

definition upload_json :: "multipart_upload \<Rightarrow> json" where
  "upload_json u =
     JObj [(''upload_id'', JStr (mu_UploadID u)), (''bucket'', JStr (mu_Bucket u)),
           (''object_key'', JStr (mu_ObjectKey u)), (''expires_at'', JTime (mu_ExpiresAt u))]"

definition complete_json :: "complete_result \<Rightarrow> json" where
  "complete_json c =
     JObj ([(''etag'', JStr (cr_ETag c))] @ omit_empty ''version_id'' (cr_VersionID c) @
       omit_empty ''location'' (cr_Location c))"

definition write_no_store :: "response_writer \<Rightarrow> json \<Rightarrow> response_writer" where
  "write_no_store rw v = rr_writeJSON (SetHeader rw ''Cache-Control'' ''no-store'') 200 v"

subsection \<open>Validation\<close>

definition default_ttl :: "'w role_config \<Rightarrow> duration" where
  "default_ttl cfg = (if rc_StorageDefaultTTL cfg \<le> 0 then 15 * Minute else rc_StorageDefaultTTL cfg)"

definition max_ttl :: "'w role_config \<Rightarrow> duration" where
  "max_ttl cfg = (if rc_StorageMaxTTL cfg \<le> 0 then Hour else rc_StorageMaxTTL cfg)"

text \<open>\<^verbatim>\<open>time.Duration(n) * time.Second\<close> is a product of \<^verbatim>\<open>int64\<close> values, which wraps around.\<close>

definition requested_ttl :: "'w role_config \<Rightarrow> int \<Rightarrow> duration" where
  "requested_ttl cfg seconds = (if 0 < seconds then wrap64 (seconds * Second) else default_ttl cfg)"

definition request_bucket :: "storage_request \<Rightarrow> 'w role_config \<Rightarrow> string result" where
  "request_bucket q cfg =
     (if rc_StorageTargets cfg \<noteq> [] then
        (if TrimSpace (sq_Target q) = '''' then Inl (ErrorString ''target is required'')
         else case target_Resolve (rc_StorageTargets cfg) (TrimSpace (sq_Target q)) of
             None \<Rightarrow> Inl (ErrorString ''unknown storage target'')
           | Some t \<Rightarrow> Inr (tg_Bucket t))
      else if TrimSpace (sq_Bucket q) = '''' then Inl (ErrorString ''bucket is required'')
      else Inr (TrimSpace (sq_Bucket q)))"

definition validateStorageRequest :: "storage_request \<Rightarrow> 'w role_config \<Rightarrow> presigned_request result" where
  "validateStorageRequest q cfg =
     (case request_bucket q cfg of
        Inl e \<Rightarrow> Inl e
      | Inr bucket \<Rightarrow>
          (let key = TrimSpace (sq_ObjectKey q); ttl = requested_ttl cfg (sq_ExpiresInSeconds q)
           in if key = '''' then Inl (ErrorString ''object_key is required'')
              else if HasPrefix key ''/'' \<or> Contains key ''..'' \<or> Contains key [CHR 0x5C]
              then Inl (ErrorString ''object_key is invalid'')
              else if ttl \<le> 0 \<or> max_ttl cfg < ttl
              then Inl (ErrorString ''expires_in_seconds exceeds allowed TTL'')
              else Inr \<lparr>pr_Bucket = bucket, pr_ObjectKey = key,
                        pr_ContentType = TrimSpace (sq_ContentType q), pr_ExpiresIn = ttl\<rparr>))"

text \<open>
  The loop of \<^verbatim>\<open>validateCompletedParts\<close>; \<open>seen\<close> has the part numbers met so far.
\<close>

fun parts_loop :: "int list \<Rightarrow> completed_part list \<Rightarrow> completed_part list \<Rightarrow> completed_part list result" where
  "parts_loop seen out [] = Inr out"
| "parts_loop seen out (p # ps) =
     (if pt_PartNumber p < 1 \<or> 10000 < pt_PartNumber p
      then Inl (ErrorString ''part_number must be between 1 and 10000'')
      else if TrimSpace (pt_ETag p) = '''' then Inl (ErrorString ''etag is required for every part'')
      else if pt_PartNumber p \<in> set seen then Inl (ErrorString ''duplicate part_number'')
      else parts_loop (pt_PartNumber p # seen)
             (out @ [\<lparr>pt_PartNumber = pt_PartNumber p, pt_ETag = TrimSpace (pt_ETag p)\<rparr>]) ps)"

definition validateCompletedParts :: "completed_part list \<Rightarrow> completed_part list result" where
  "validateCompletedParts parts =
     (if length parts = 0 then Inl (ErrorString ''parts are required'')
      else if 10000 < length parts then Inl (ErrorString ''too many parts'')
      else parts_loop [] [] parts)"

definition hasCapability :: "selection \<Rightarrow> role \<Rightarrow> string \<Rightarrow> bool" where
  "hasCapability sel role want \<longleftrightarrow> list_ex (\<lambda>c. c = want) (caps_of (Capabilities sel) role)"

text \<open>
  A decoding step of a handler: the value, or the response that was written instead.
\<close>

type_synonym 'a step = "response_writer + 'a"

definition decodeJSONBody :: "response_writer \<Rightarrow> 'a result \<Rightarrow> 'a step" where
  "decodeJSONBody rw body =
     (case body of Inl e \<Rightarrow> Inl (rr_writeJSON rw 400 (error_json ''invalid_request'')) | Inr v \<Rightarrow> Inr v)"

definition decodeStorageRequest ::
  "response_writer \<Rightarrow> storage_request result \<Rightarrow> 'w role_config \<Rightarrow> (presigned_request \<times> string) step" where
  "decodeStorageRequest rw body cfg =
     (case body of
        Inl e \<Rightarrow> Inl (rr_writeJSON rw 400 (error_json ''invalid_request''))
      | Inr q \<Rightarrow>
          (case validateStorageRequest q cfg of
             Inl e \<Rightarrow> Inl (bad_request rw e)
           | Inr p \<Rightarrow> Inr (p, TrimSpace (sq_Target q))))"

definition query_seconds :: "request \<Rightarrow> int option" where
  "query_seconds r =
     (let raw = TrimSpace (rq_Query r ''expires_in_seconds'')
      in if raw = '''' then Some 0 else ParseInt64 raw)"

definition storageRequestFromQuery ::
  "response_writer \<Rightarrow> request \<Rightarrow> 'w role_config \<Rightarrow> (presigned_request \<times> string) step" where
  "storageRequestFromQuery rw r cfg =
     (case query_seconds r of
        None \<Rightarrow> Inl (rr_writeJSON rw 400 (error_json ''invalid expires_in_seconds''))
      | Some seconds \<Rightarrow>
          (case validateStorageRequest
                  \<lparr>sq_Target = rq_Query r ''target'', sq_Operation = '''', sq_Bucket = rq_Query r ''bucket'',
                   sq_ObjectKey = rq_Query r ''object_key'', sq_ContentType = '''',
                   sq_ExpiresInSeconds = seconds\<rparr> cfg of
             Inl e \<Rightarrow> Inl (bad_request rw e)
           | Inr p \<Rightarrow> Inr (p, TrimSpace (rq_Query r ''target''))))"

subsection \<open>Providers and readiness\<close>

definition storageSignerForTarget :: "'w role_config \<Rightarrow> string \<Rightarrow> 'w storage_signer option" where
  "storageSignerForTarget cfg name =
     (if rc_StorageProviders cfg = [] then rc_StorageSigner cfg
      else
        (case (if rc_StorageTargets cfg = [] then Some ''default''
               else map_option tg_Provider (target_Resolve (rc_StorageTargets cfg) (TrimSpace name))) of
           None \<Rightarrow> None
         | Some provider \<Rightarrow>
             (case provider_Resolve (rc_StorageProviders cfg) provider of
                None \<Rightarrow> None
              | Some s \<Rightarrow> s)))"

text \<open>The checks that a signer must pass for the selected capabilities.\<close>

definition signer_supports :: "'w role_config \<Rightarrow> 'w storage_signer \<Rightarrow> goerr option" where
  "signer_supports cfg s =
     (if hasCapability (rc_Selection cfg) RoleStorage ''multipart'' \<and> sg_Multipart s = None
      then Some (ErrorString ''storage_multipart_not_supported'')
      else if hasCapability (rc_Selection cfg) RoleStorage ''metadata'' \<and> sg_Metadata s = None
      then Some (ErrorString ''storage_metadata_not_supported'')
      else None)"

definition provider_names :: "'w role_config \<Rightarrow> string list" where
  "provider_names cfg =
     (if rc_StorageTargets cfg = [] then [''default'']
      else remdups (map (\<lambda>(n, t). tg_Provider t) (rc_StorageTargets cfg)))"

fun providers_loop :: "'w role_config \<Rightarrow> string list \<Rightarrow> goerr option" where
  "providers_loop cfg [] = None"
| "providers_loop cfg (n # ns) =
     (case provider_Resolve (rc_StorageProviders cfg) n of
        None \<Rightarrow> Some (ErrorString ''storage_provider_not_configured'')
      | Some None \<Rightarrow> Some (ErrorString ''storage_provider_not_configured'')
      | Some (Some s) \<Rightarrow>
          (case signer_supports cfg s of
             Some e \<Rightarrow> Some e
           | None \<Rightarrow> providers_loop cfg ns))"

definition validateStorageProvidersReady :: "'w role_config \<Rightarrow> goerr option" where
  "validateStorageProvidersReady cfg =
     (if rc_StorageProviders cfg = [] then
        (case rc_StorageSigner cfg of
           None \<Rightarrow> Some (ErrorString ''storage_signer_not_configured'')
         | Some s \<Rightarrow> signer_supports cfg s)
      else providers_loop cfg (provider_names cfg))"

definition storageProviderRequired :: "selection \<Rightarrow> bool" where
  "storageProviderRequired sel \<longleftrightarrow>
     list_ex (\<lambda>c. c \<in> set [''upload'', ''download'', ''presign'', ''multipart'', ''metadata''])
       (caps_of (Capabilities sel) RoleStorage)"

definition role_names_json :: "'w role_config \<Rightarrow> json" where
  "role_names_json cfg = JArr (map JStr (RoleNames (rc_Selection cfg)))"

definition not_ready :: "response_writer \<Rightarrow> string \<Rightarrow> response_writer" where
  "not_ready rw reason =
     rr_writeJSON rw 503 (JObj [(''reason'', JStr reason), (''status'', JStr ''not_ready'')])"

definition serve_live :: "'w role_config \<Rightarrow> 'w role_handler" where
  "serve_live cfg ctx bd r w rw =
     (w, rr_writeJSON rw 200 (JObj [(''roles'', role_names_json cfg), (''status'', JStr ''ok'')]))"

definition serve_ready :: "'w role_config \<Rightarrow> 'w role_handler" where
  "serve_ready cfg ctx bd r w rw =
     (w, (let storage = HasRole (rc_Selection cfg) RoleStorage
          in if storage \<and> rc_WorkloadAuthRequired cfg \<and> rc_WorkloadVerifier cfg = None
             then not_ready rw ''workload_auth_not_configured''
             else if storage \<and> rc_StorageTargets cfg \<noteq> [] \<and> rc_StorageAccessPolicy cfg = None
             then not_ready rw ''storage_access_policy_not_configured''
             else (case (if storage \<and> storageProviderRequired (rc_Selection cfg)
                         then validateStorageProvidersReady cfg else None) of
                 Some e \<Rightarrow> not_ready rw (error_text e)
               | None \<Rightarrow>
                   rr_writeJSON rw 200
                     (JObj [(''roles'', role_names_json cfg), (''status'', JStr ''ready'')]))))"

text \<open>The capability map has the selected roles as its keys; the encoder sorts them.\<close>

definition serve_runtime :: "'w role_config \<Rightarrow> 'w role_handler" where
  "serve_runtime cfg ctx bd r w rw =
     (w, rr_writeJSON rw 200
        (JObj [(''capabilities'', JObj (map (\<lambda>k. (k, JArr (map JStr (caps_of (Capabilities (rc_Selection cfg)) k))))
                  (sort_Strings (Roles (rc_Selection cfg))))),
               (''providers'', JObj
                  [(''storage_access_policy'', JBool (rc_StorageAccessPolicy cfg \<noteq> None)),
                   (''storage_provider_count'', JNum (int (length (rc_StorageProviders cfg)))),
                   (''storage_signer'', JBool (rc_StorageSigner cfg \<noteq> None))]),
               (''roles'', role_names_json cfg)]))"

subsection \<open>Authorization\<close>

text \<open>
  The identity that the policy is asked about: that of the request's headers, with the service that the
  workload token proves where a verifier is configured.
\<close>

definition workload_identity ::
  "'w role_config \<Rightarrow> 'w call_context \<Rightarrow> request \<Rightarrow> 'w \<Rightarrow> response_writer \<Rightarrow> 'w \<times> request_identity step" where
  "workload_identity cfg ctx r w rw =
     (let ident = Extract r \<lparr>ih_Actor = '''', ih_Service = '''', ih_Legacy = rc_StorageSubjectHeader cfg\<rparr>
      in case rc_WorkloadVerifier cfg of
           Some verify \<Rightarrow>
             (case BearerToken r of
                Inl e \<Rightarrow> (w, Inl (rr_writeJSON rw 401 (error_json ''workload_token_required'')))
              | Inr raw \<Rightarrow>
                  (case verify ctx w raw of
                     (w1, Inl e) \<Rightarrow> (w1, Inl (rr_writeJSON rw 401 (error_json ''invalid_workload_token'')))
                   | (w1, Inr p) \<Rightarrow> (w1, Inr (ident\<lparr>id_Service := pn_Service p\<rparr>))))
         | None \<Rightarrow>
             if rc_WorkloadAuthRequired cfg
             then (w, Inl (rr_writeJSON rw 503 (error_json ''workload_auth_unavailable'')))
             else (w, Inr ident))"

text \<open>The result is the response that was written instead, or nothing when the request may go on.\<close>

definition authorizeStorage ::
  "'w role_config \<Rightarrow> 'w call_context \<Rightarrow> request \<Rightarrow> string \<Rightarrow> string \<Rightarrow> bool \<Rightarrow> 'w \<Rightarrow> response_writer
   \<Rightarrow> 'w \<times> unit step" where
  "authorizeStorage cfg ctx r name0 action write w rw =
     (if rc_StorageTargets cfg = [] then (w, Inr ())
      else
        (let name = TrimSpace name0
         in case target_Resolve (rc_StorageTargets cfg) name of
              None \<Rightarrow> (w, Inl (rr_writeJSON rw 400 (error_json ''unknown_storage_target'')))
            | Some t \<Rightarrow>
                if write \<and> tg_ReadOnly t
                then (w, Inl (rr_writeJSON rw 403 (error_json ''storage_target_read_only'')))
                else (case rc_StorageAccessPolicy cfg of
                    None \<Rightarrow> (w, Inl (rr_writeJSON rw 503 (error_json ''access_policy_unavailable'')))
                  | Some policy \<Rightarrow>
                      (case workload_identity cfg ctx r w rw of
                         (w1, Inl rw1) \<Rightarrow> (w1, Inl rw1)
                       | (w1, Inr ident) \<Rightarrow>
                           if ValidateActor ident \<noteq> None
                           then (w1, Inl (rr_writeJSON rw 401 (error_json ''actor_required'')))
                           else (case policy ctx w1
                                   \<lparr>ar_Subject = id_Actor ident, ar_Action = action, ar_Target = name,
                                    ar_Context = PolicyContext ident\<rparr> of
                               (w2, Inl e) \<Rightarrow>
                                 (w2, Inl (rr_writeJSON rw 503 (error_json ''access_policy_unavailable'')))
                             | (w2, Inr d) \<Rightarrow>
                                 if \<not> dc_Allow d
                                 then (w2, Inl (rr_writeJSON rw 403
                                        (JObj [(''error'', JStr ''access_denied''), (''reason'', JStr (dc_Reason d))])))
                                 else (w2, Inr ()))))))"

subsection \<open>Storage handlers\<close>

text \<open>
  The steps that the handlers share after validation: authorize, find the signer of the target, go on
  with it. \<open>c\<close> is the capability that the unavailable response names.
\<close>

definition with_signer ::
  "'w role_config \<Rightarrow> 'w call_context \<Rightarrow> request \<Rightarrow> string \<Rightarrow> string \<Rightarrow> bool \<Rightarrow> string
   \<Rightarrow> ('w storage_signer \<Rightarrow> 'w \<Rightarrow> response_writer \<Rightarrow> 'w \<times> response_writer)
   \<Rightarrow> 'w \<Rightarrow> response_writer \<Rightarrow> 'w \<times> response_writer" where
  "with_signer cfg ctx r target0 action write c k w rw =
     (case authorizeStorage cfg ctx r target0 action write w rw of
        (w1, Inl rw1) \<Rightarrow> (w1, rw1)
      | (w1, Inr _) \<Rightarrow>
          (case storageSignerForTarget cfg target0 of
             None \<Rightarrow> (w1, providerUnavailable rw RoleStorage c)
           | Some s \<Rightarrow> k s w1 rw))"

definition presign_result ::
  "response_writer \<Rightarrow> 'w \<times> presigned_operation result \<Rightarrow> 'w \<times> response_writer" where
  "presign_result rw res = (case res of (w, out) \<Rightarrow> (w, writeStorageResult rw out))"

text \<open>A result of the provider: the error response, or the JSON of the value with \<^verbatim>\<open>no-store\<close>.\<close>

definition provider_result ::
  "response_writer \<Rightarrow> ('a \<Rightarrow> json) \<Rightarrow> 'w \<times> 'a result \<Rightarrow> 'w \<times> response_writer" where
  "provider_result rw enc res =
     (case res of
        (w, Inl e) \<Rightarrow> (w, writeStorageProviderError rw)
      | (w, Inr v) \<Rightarrow> (w, write_no_store rw (enc v)))"

definition serve_upload :: "'w role_config \<Rightarrow> 'w role_handler" where
  "serve_upload cfg ctx bd r w rw =
     (case decodeStorageRequest rw (db_storage bd) cfg of
        Inl rw1 \<Rightarrow> (w, rw1)
      | Inr (q, tgt) \<Rightarrow>
          with_signer cfg ctx r tgt ''storage.upload'' True ''upload''
            (\<lambda>s w1 rw1. presign_result rw1 (sg_PresignPut s ctx w1 q)) w rw)"

definition serve_upload_intent :: "'w role_config \<Rightarrow> 'w role_handler" where
  "serve_upload_intent cfg ctx bd r w rw =
     (case decodeStorageRequest rw (db_storage bd) cfg of
        Inl rw1 \<Rightarrow> (w, rw1)
      | Inr (q, tgt) \<Rightarrow>
          (case UploadIntent_Validate \<lparr>ui_Target = tgt, ui_ObjectKey = pr_ObjectKey q,
                  ui_ContentType = pr_ContentType q, ui_ExpiresIn = pr_ExpiresIn q\<rparr> of
             Some e \<Rightarrow> (w, bad_request rw e)
           | None \<Rightarrow>
               with_signer cfg ctx r tgt ''storage.upload'' True ''upload''
                 (\<lambda>s w1 rw1. provider_result rw1 (\<lambda>v. grant_json (UploadGrantFromOperation v))
                    (sg_PresignPut s ctx w1 q)) w rw))"

definition serve_download :: "'w role_config \<Rightarrow> 'w role_handler" where
  "serve_download cfg ctx bd r w rw =
     (case storageRequestFromQuery rw r cfg of
        Inl rw1 \<Rightarrow> (w, rw1)
      | Inr (q, tgt) \<Rightarrow>
          with_signer cfg ctx r tgt ''storage.download'' False ''download''
            (\<lambda>s w1 rw1. presign_result rw1 (sg_PresignGet s ctx w1 q)) w rw)"

definition serve_download_intent :: "'w role_config \<Rightarrow> 'w role_handler" where
  "serve_download_intent cfg ctx bd r w rw =
     (case decodeStorageRequest rw (db_storage bd) cfg of
        Inl rw1 \<Rightarrow> (w, rw1)
      | Inr (q, tgt) \<Rightarrow>
          (case DownloadIntent_Validate \<lparr>di_Target = tgt, di_ObjectKey = pr_ObjectKey q,
                  di_ExpiresIn = pr_ExpiresIn q\<rparr> of
             Some e \<Rightarrow> (w, bad_request rw e)
           | None \<Rightarrow>
               with_signer cfg ctx r tgt ''storage.download'' False ''download''
                 (\<lambda>s w1 rw1. provider_result rw1 (\<lambda>v. grant_json (DownloadGrantFromOperation v))
                    (sg_PresignGet s ctx w1 q)) w rw))"

definition serve_presign :: "'w role_config \<Rightarrow> 'w role_handler" where
  "serve_presign cfg ctx bd r w rw =
     (case db_storage bd of
        Inl e \<Rightarrow> (w, rr_writeJSON rw 400 (error_json ''invalid_request''))
      | Inr inp \<Rightarrow>
          (case validateStorageRequest inp cfg of
             Inl e \<Rightarrow> (w, bad_request rw e)
           | Inr q \<Rightarrow>
               (let operation = ToLower (TrimSpace (sq_Operation inp))
                in if operation = ''put'' \<or> operation = ''upload'' then
                     with_signer cfg ctx r (sq_Target inp) ''storage.upload'' True ''presign''
                       (\<lambda>s w1 rw1. presign_result rw1 (sg_PresignPut s ctx w1 q)) w rw
                   else if operation = ''get'' \<or> operation = ''download'' then
                     with_signer cfg ctx r (sq_Target inp) ''storage.download'' False ''presign''
                       (\<lambda>s w1 rw1. presign_result rw1 (sg_PresignGet s ctx w1 q)) w rw
                   else (w, rr_writeJSON rw 400 (error_json ''operation must be put/upload or get/download'')))))"

text \<open>The part that the metadata handlers share: the provider's metadata, or a response.\<close>

definition with_metadata ::
  "'w role_config \<Rightarrow> 'w call_context \<Rightarrow> request \<Rightarrow> string \<Rightarrow> presigned_request
   \<Rightarrow> (storage_metadata \<Rightarrow> response_writer \<Rightarrow> response_writer)
   \<Rightarrow> 'w \<Rightarrow> response_writer \<Rightarrow> 'w \<times> response_writer" where
  "with_metadata cfg ctx r tgt base k =
     with_signer cfg ctx r tgt ''storage.metadata'' False ''metadata''
       (\<lambda>s w rw.
          (case sg_Metadata s of
             None \<Rightarrow> (w, providerUnavailable rw RoleStorage ''metadata'')
           | Some getMetadata \<Rightarrow>
               (case getMetadata ctx w \<lparr>mq_Bucket = pr_Bucket base, mq_ObjectKey = pr_ObjectKey base\<rparr> of
                  (w1, Inl e) \<Rightarrow> (w1, writeStorageProviderError rw)
                | (w1, Inr m) \<Rightarrow> (w1, k m rw))))"

definition serve_metadata :: "'w role_config \<Rightarrow> 'w role_handler" where
  "serve_metadata cfg ctx bd r w rw =
     (case storageRequestFromQuery rw r cfg of
        Inl rw1 \<Rightarrow> (w, rw1)
      | Inr (base, tgt) \<Rightarrow>
          with_metadata cfg ctx r tgt base (\<lambda>m rw1. write_no_store rw1 (metadata_json m)) w rw)"

definition serve_verify :: "'w role_config \<Rightarrow> 'w role_handler" where
  "serve_verify cfg ctx bd r w rw =
     (case decodeJSONBody rw (db_verification bd) of
        Inl rw1 \<Rightarrow> (w, rw1)
      | Inr inp \<Rightarrow>
          (let intent = \<lparr>vi_Target = TrimSpace (vq_Target inp), vi_ObjectKey = TrimSpace (vq_ObjectKey inp),
                 vi_ExpectedSize = vq_ExpectedSize inp,
                 vi_ExpectedContentType = TrimSpace (vq_ExpectedContentType inp),
                 vi_ExpectedChecksums = vq_ExpectedChecksums inp\<rparr>
           in case VerificationIntent_Validate intent of
                Some e \<Rightarrow> (w, bad_request rw e)
              | None \<Rightarrow>
                  (case validateStorageRequest \<lparr>sq_Target = vi_Target intent, sq_Operation = '''', sq_Bucket = '''',
                          sq_ObjectKey = vi_ObjectKey intent, sq_ContentType = '''', sq_ExpiresInSeconds = 0\<rparr> cfg of
                     Inl e \<Rightarrow> (w, bad_request rw e)
                   | Inr base \<Rightarrow>
                       with_metadata cfg ctx r (vi_Target intent) base
                         (\<lambda>m rw1. (case VerifyUpload intent m of
                             Inl e \<Rightarrow> bad_request rw1 e
                           | Inr res \<Rightarrow> write_no_store rw1 (verification_json res))) w rw)))"

definition serve_reference :: "'w role_config \<Rightarrow> 'w role_handler" where
  "serve_reference cfg ctx bd r w rw =
     (case storageRequestFromQuery rw r cfg of
        Inl rw1 \<Rightarrow> (w, rw1)
      | Inr (base, tgt) \<Rightarrow>
          with_metadata cfg ctx r tgt base
            (\<lambda>m rw1. (let ref = ReferenceFromMetadata tgt m
                      in case StorageReference_Validate ref of
                           Some e \<Rightarrow> writeStorageProviderError rw1
                         | None \<Rightarrow> write_no_store rw1 (reference_json ref))) w rw)"

subsection \<open>Multipart uploads\<close>

text \<open>The steps that the multipart handlers share after validation.\<close>

definition with_multipart ::
  "'w role_config \<Rightarrow> 'w call_context \<Rightarrow> request \<Rightarrow> string
   \<Rightarrow> ('w multipart_signer \<Rightarrow> 'w \<Rightarrow> response_writer \<Rightarrow> 'w \<times> response_writer)
   \<Rightarrow> 'w \<Rightarrow> response_writer \<Rightarrow> 'w \<times> response_writer" where
  "with_multipart cfg ctx r tgt k =
     with_signer cfg ctx r tgt ''storage.multipart'' True ''multipart''
       (\<lambda>s w rw. (case sg_Multipart s of
          None \<Rightarrow> (w, providerUnavailable rw RoleStorage ''multipart'')
        | Some ms \<Rightarrow> k ms w rw))"

definition serve_multipart_initiate :: "'w role_config \<Rightarrow> 'w role_handler" where
  "serve_multipart_initiate cfg ctx bd r w rw =
     (case decodeJSONBody rw (db_multipart bd) of
        Inl rw1 \<Rightarrow> (w, rw1)
      | Inr inp \<Rightarrow>
          (case validateStorageRequest \<lparr>sq_Target = mr_Target inp, sq_Operation = '''', sq_Bucket = mr_Bucket inp,
                  sq_ObjectKey = mr_ObjectKey inp, sq_ContentType = mr_ContentType inp,
                  sq_ExpiresInSeconds = mr_ExpiresInSeconds inp\<rparr> cfg of
             Inl e \<Rightarrow> (w, bad_request rw e)
           | Inr base \<Rightarrow>
               with_multipart cfg ctx r (mr_Target inp)
                 (\<lambda>ms w1 rw1. provider_result rw1 upload_json
                    (ms_Initiate ms ctx w1 \<lparr>mi_Bucket = pr_Bucket base, mi_ObjectKey = pr_ObjectKey base,
                       mi_ContentType = pr_ContentType base, mi_ExpiresIn = pr_ExpiresIn base\<rparr>)) w rw))"

definition serve_multipart_part :: "'w role_config \<Rightarrow> 'w role_handler" where
  "serve_multipart_part cfg ctx bd r w rw =
     (case decodeJSONBody rw (db_multipart bd) of
        Inl rw1 \<Rightarrow> (w, rw1)
      | Inr inp \<Rightarrow>
          (case validateStorageRequest \<lparr>sq_Target = mr_Target inp, sq_Operation = '''', sq_Bucket = mr_Bucket inp,
                  sq_ObjectKey = mr_ObjectKey inp, sq_ContentType = '''',
                  sq_ExpiresInSeconds = mr_ExpiresInSeconds inp\<rparr> cfg of
             Inl e \<Rightarrow> (w, bad_request rw e)
           | Inr base \<Rightarrow>
               (let uploadID = TrimSpace (mr_UploadID inp)
                in if uploadID = '''' then (w, rr_writeJSON rw 400 (error_json ''upload_id is required''))
                   else if mr_PartNumber inp < 1 \<or> 10000 < mr_PartNumber inp
                   then (w, rr_writeJSON rw 400 (error_json ''part_number must be between 1 and 10000''))
                   else
                     with_multipart cfg ctx r (mr_Target inp)
                       (\<lambda>ms w1 rw1. presign_result rw1
                          (ms_Part ms ctx w1 \<lparr>mp_Bucket = pr_Bucket base, mp_ObjectKey = pr_ObjectKey base,
                             mp_UploadID = uploadID, mp_PartNumber = mr_PartNumber inp,
                             mp_ExpiresIn = pr_ExpiresIn base\<rparr>)) w rw)))"

text \<open>The request that \<^verbatim>\<open>complete\<close> and \<^verbatim>\<open>abort\<close> validate.\<close>

definition multipart_base :: "multipart_request \<Rightarrow> storage_request" where
  "multipart_base inp =
     \<lparr>sq_Target = mr_Target inp, sq_Operation = '''', sq_Bucket = mr_Bucket inp,
      sq_ObjectKey = mr_ObjectKey inp, sq_ContentType = '''', sq_ExpiresInSeconds = 0\<rparr>"

definition serve_multipart_complete :: "'w role_config \<Rightarrow> 'w role_handler" where
  "serve_multipart_complete cfg ctx bd r w rw =
     (case decodeJSONBody rw (db_multipart bd) of
        Inl rw1 \<Rightarrow> (w, rw1)
      | Inr inp \<Rightarrow>
          (case validateStorageRequest (multipart_base inp) cfg of
             Inl e \<Rightarrow> (w, bad_request rw e)
           | Inr base \<Rightarrow>
               (let uploadID = TrimSpace (mr_UploadID inp)
                in if uploadID = '''' then (w, rr_writeJSON rw 400 (error_json ''upload_id is required''))
                   else (case validateCompletedParts (mr_Parts inp) of
                       Inl e \<Rightarrow> (w, bad_request rw e)
                     | Inr parts \<Rightarrow>
                         with_multipart cfg ctx r (mr_Target inp)
                           (\<lambda>ms w1 rw1.
                              (case ms_Complete ms ctx w1 \<lparr>mc_Bucket = pr_Bucket base,
                                      mc_ObjectKey = pr_ObjectKey base, mc_UploadID = uploadID,
                                      mc_Parts = parts\<rparr> of
                                 (w2, Inl e) \<Rightarrow> (w2, writeStorageProviderError rw1)
                               | (w2, Inr out) \<Rightarrow> (w2, rr_writeJSON rw1 200 (complete_json out)))) w rw))))"

definition serve_multipart_abort :: "'w role_config \<Rightarrow> 'w role_handler" where
  "serve_multipart_abort cfg ctx bd r w rw =
     (case decodeJSONBody rw (db_multipart bd) of
        Inl rw1 \<Rightarrow> (w, rw1)
      | Inr inp \<Rightarrow>
          (case validateStorageRequest (multipart_base inp) cfg of
             Inl e \<Rightarrow> (w, bad_request rw e)
           | Inr base \<Rightarrow>
               (let uploadID = TrimSpace (mr_UploadID inp)
                in if uploadID = '''' then (w, rr_writeJSON rw 400 (error_json ''upload_id is required''))
                   else
                     with_multipart cfg ctx r (mr_Target inp)
                       (\<lambda>ms w1 rw1.
                          (case ms_Abort ms ctx w1 \<lparr>ma_Bucket = pr_Bucket base, ma_ObjectKey = pr_ObjectKey base,
                                  ma_UploadID = uploadID\<rparr> of
                             (w2, Inl e) \<Rightarrow> (w2, writeStorageProviderError rw1)
                           | (w2, Inr _) \<Rightarrow> (w2, WriteHeader rw1 204))) w rw)))"

subsection \<open>Routes\<close>

text \<open>The registrations of a role and a capability, in the order of the code: pattern and handler.\<close>

definition registerMultipartRoutes :: "'w role_config \<Rightarrow> (string \<times> 'w role_handler) list" where
  "registerMultipartRoutes cfg =
     [(''POST /storage/multipart/initiate'', serve_multipart_initiate cfg),
      (''POST /storage/multipart/part'', serve_multipart_part cfg),
      (''POST /storage/multipart/complete'', serve_multipart_complete cfg),
      (''POST /storage/multipart/abort'', serve_multipart_abort cfg)]"

definition registerStorageCapability :: "'w role_config \<Rightarrow> string \<Rightarrow> (string \<times> 'w role_handler) list" where
  "registerStorageCapability cfg c =
     (if c = ''upload'' then
        [(''POST /storage/upload'', serve_upload cfg), (''POST /storage/intents/upload'', serve_upload_intent cfg)]
      else if c = ''download'' then
        [(''GET /storage/download'', serve_download cfg),
         (''POST /storage/intents/download'', serve_download_intent cfg)]
      else if c = ''presign'' then [(''POST /storage/presign'', serve_presign cfg)]
      else if c = ''multipart'' then registerMultipartRoutes cfg
      else if c = ''metadata'' then
        [(''GET /storage/metadata'', serve_metadata cfg), (''POST /storage/intents/verify'', serve_verify cfg),
         (''GET /storage/references/metadata'', serve_reference cfg)]
      else [])"

definition routePattern :: "role \<Rightarrow> string \<Rightarrow> string" where
  "routePattern role c =
     (if role = RoleStorage then
        (if c = ''upload'' then ''POST /storage/upload''
         else if c = ''download'' then ''GET /storage/download''
         else if c = ''multipart'' then ''POST /storage/multipart''
         else if c = ''presign'' then ''POST /storage/presign''
         else if c = ''metadata'' then ''GET /storage/metadata'' else '''')
      else if role = RoleStreaming then
        (if c = ''playback'' then ''POST /streaming/playback''
         else if c = ''manifest'' then ''GET /streaming/manifest''
         else if c = ''token'' then ''POST /streaming/token''
         else if c = ''origin-select'' then ''POST /streaming/origin-select'' else '''')
      else if role = RoleWebSocket then
        (if c = ''connect'' then ''GET /websocket/connect''
         else if c = ''publish'' then ''POST /websocket/publish''
         else if c = ''subscribe'' then ''POST /websocket/subscribe''
         else if c = ''presence'' then ''GET /websocket/presence''
         else if c = ''heartbeat'' then ''POST /websocket/heartbeat'' else '''')
      else '''')"

definition registerUnavailableCapability :: "role \<Rightarrow> string \<Rightarrow> (string \<times> 'w role_handler) list" where
  "registerUnavailableCapability role c =
     (if routePattern role c = '''' then []
      else [(routePattern role c, \<lambda>ctx bd r w rw. (w, providerUnavailable rw role c))])"

definition registerRole :: "'w role_config \<Rightarrow> role \<Rightarrow> string list \<Rightarrow> (string \<times> 'w role_handler) list" where
  "registerRole cfg role caps =
     concat (map (\<lambda>c. if role = RoleStorage then registerStorageCapability cfg c
                      else registerUnavailableCapability role c) caps)"

definition registerSystem :: "'w role_config \<Rightarrow> (string \<times> 'w role_handler) list" where
  "registerSystem cfg =
     [(''GET /health/live'', serve_live cfg), (''GET /health/ready'', serve_ready cfg),
      (''GET /runtime'', serve_runtime cfg)]"

definition runtime_routes :: "'w role_config \<Rightarrow> (string \<times> 'w role_handler) list" where
  "runtime_routes cfg =
     registerSystem cfg @
     concat (map (\<lambda>role. registerRole cfg role (caps_of (Capabilities (rc_Selection cfg)) role))
       (Roles (rc_Selection cfg)))"

text \<open>
  The handler that \<^verbatim>\<open>Run\<close> gives to the server, and the path of the pattern that serves a request.
\<close>

definition serve_role_runtime :: "'w role_config \<Rightarrow> 'w role_handler" where
  "serve_role_runtime cfg ctx bd =
     mount_at (rc_BasePath cfg) (mux_ServeHTTP (\<lambda>h. h ctx bd) (runtime_routes cfg))"

definition role_route :: "'w role_config \<Rightarrow> request \<Rightarrow> string option" where
  "role_route cfg r =
     (case mount_find (rc_BasePath cfg) r of
        Mounted r' \<Rightarrow>
          (case findHandler (runtime_routes cfg) r' of MuxServe p vs h \<Rightarrow> Some (pattern_path p) | _ \<Rightarrow> None)
      | _ \<Rightarrow> None)"

subsection \<open>Specifications\<close>

text \<open>
  When a request may touch a target: with no targets configured, always; otherwise the target is known
  (and not read-only where the request writes), the caller is named, and the configured policy allows the action
  to that caller. Where workloads are verified, the service in the policy's context is the one the token
  proves. The world is that after the verifier and the policy have been asked.
\<close>

definition policy_question :: "request_identity \<Rightarrow> string \<Rightarrow> string \<Rightarrow> access_request" where
  "policy_question ident action name =
     \<lparr>ar_Subject = id_Actor ident, ar_Action = action, ar_Target = TrimSpace name,
      ar_Context = PolicyContext ident\<rparr>"

definition header_identity :: "'w role_config \<Rightarrow> request \<Rightarrow> request_identity" where
  "header_identity cfg r =
     Extract r \<lparr>ih_Actor = '''', ih_Service = '''', ih_Legacy = rc_StorageSubjectHeader cfg\<rparr>"

inductive identified ::
  "'w role_config \<Rightarrow> 'w call_context \<Rightarrow> request \<Rightarrow> 'w \<Rightarrow> 'w \<Rightarrow> request_identity \<Rightarrow> bool"
  for cfg :: "'w role_config" and ctx :: "'w call_context" and r :: request where
  by_headers: "rc_WorkloadVerifier cfg = None \<Longrightarrow> \<not> rc_WorkloadAuthRequired cfg \<Longrightarrow>
     identified cfg ctx r w w (header_identity cfg r)"
| by_token: "rc_WorkloadVerifier cfg = Some verify \<Longrightarrow> BearerToken r = Inr raw \<Longrightarrow>
     verify ctx w raw = (w1, Inr p) \<Longrightarrow>
     identified cfg ctx r w w1 ((header_identity cfg r)\<lparr>id_Service := pn_Service p\<rparr>)"

inductive authorized ::
  "'w role_config \<Rightarrow> 'w call_context \<Rightarrow> request \<Rightarrow> string \<Rightarrow> string \<Rightarrow> bool \<Rightarrow> 'w \<Rightarrow> 'w \<Rightarrow> bool"
  for cfg :: "'w role_config" and ctx :: "'w call_context" and r :: request where
  no_targets: "rc_StorageTargets cfg = [] \<Longrightarrow> authorized cfg ctx r name action write w w"
| allowed_by_policy: "rc_StorageTargets cfg \<noteq> [] \<Longrightarrow> target_Resolve (rc_StorageTargets cfg) name = Some t \<Longrightarrow>
     \<not> (write \<and> tg_ReadOnly t) \<Longrightarrow> rc_StorageAccessPolicy cfg = Some policy \<Longrightarrow>
     identified cfg ctx r w w1 ident \<Longrightarrow> id_Actor ident \<noteq> '''' \<Longrightarrow>
     policy ctx w1 (policy_question ident action name) = (w2, Inr d) \<Longrightarrow> dc_Allow d \<Longrightarrow>
     authorized cfg ctx r name action write w w2"

text \<open>What a request to a storage route asks for: the target, the action, and whether it writes.\<close>

definition body_demand ::
  "'a result \<Rightarrow> ('a \<Rightarrow> string) \<Rightarrow> string \<Rightarrow> bool \<Rightarrow> (string \<times> string \<times> bool) option" where
  "body_demand body tgt action write =
     (case body of Inl e \<Rightarrow> None | Inr q \<Rightarrow> Some (tgt q, action, write))"

definition storage_demand :: "string \<Rightarrow> decoded \<Rightarrow> request \<Rightarrow> (string \<times> string \<times> bool) option" where
  "storage_demand path bd r =
     (if path \<in> {''/storage/upload'', ''/storage/intents/upload''}
      then body_demand (db_storage bd) sq_Target ''storage.upload'' True
      else if path = ''/storage/download'' then Some (rq_Query r ''target'', ''storage.download'', False)
      else if path = ''/storage/intents/download''
      then body_demand (db_storage bd) sq_Target ''storage.download'' False
      else if path = ''/storage/presign'' then
        (case db_storage bd of
           Inl e \<Rightarrow> None
         | Inr q \<Rightarrow>
             if ToLower (TrimSpace (sq_Operation q)) \<in> {''put'', ''upload''}
             then Some (sq_Target q, ''storage.upload'', True)
             else if ToLower (TrimSpace (sq_Operation q)) \<in> {''get'', ''download''}
             then Some (sq_Target q, ''storage.download'', False) else None)
      else if path \<in> {''/storage/metadata'', ''/storage/references/metadata''}
      then Some (rq_Query r ''target'', ''storage.metadata'', False)
      else if path = ''/storage/intents/verify''
      then body_demand (db_verification bd) vq_Target ''storage.metadata'' False
      else if path \<in> {''/storage/multipart/initiate'', ''/storage/multipart/part'',
                       ''/storage/multipart/complete'', ''/storage/multipart/abort''}
      then body_demand (db_multipart bd) mr_Target ''storage.multipart'' True
      else None)"

definition demand_met ::
  "'w role_config \<Rightarrow> 'w call_context \<Rightarrow> request \<Rightarrow> 'w \<Rightarrow> (string \<times> string \<times> bool) option \<Rightarrow> bool" where
  "demand_met cfg ctx r w demand \<longleftrightarrow>
     (\<exists>tgt action write w1 s. demand = Some (tgt, action, write) \<and>
        authorized cfg ctx r tgt action write w w1 \<and> storageSignerForTarget cfg tgt = Some s)"

inductive_cases authorizedE: "authorized cfg ctx r name action write w w'"
inductive_cases identifiedE: "identified cfg ctx r w w' ident"

section \<open>Lemmas\<close>

subsection \<open>Validation\<close>

lemma sublist_singleton: "sublist [x] s \<longleftrightarrow> x \<in> set s"
  by (auto simp: sublist_def in_set_conv_decomp)

lemma requested_ttl_exact:
  assumes "0 < seconds" "seconds \<le> 9223372036"
  shows "requested_ttl cfg seconds = seconds * Second"
  using assms by (simp add: requested_ttl_def wrap64_id)

lemma request_bucket_cases:
  assumes "request_bucket q cfg = Inr b"
  shows "if rc_StorageTargets cfg = [] then b = TrimSpace (sq_Bucket q) \<and> b \<noteq> ''''
         else \<exists>t. target_Resolve (rc_StorageTargets cfg) (sq_Target q) = Some t \<and> b = tg_Bucket t"
  using assms by (auto simp: request_bucket_def target_Resolve_def split: if_splits option.splits)

lemma validateStorageRequest_cases:
  assumes "validateStorageRequest q cfg = Inr p"
  shows "request_bucket q cfg = Inr (pr_Bucket p)" "pr_ObjectKey p = TrimSpace (sq_ObjectKey q)"
    "pr_ObjectKey p \<noteq> ''''" "\<not> HasPrefix (pr_ObjectKey p) ''/''" "\<not> Contains (pr_ObjectKey p) ''..''"
    "\<not> Contains (pr_ObjectKey p) [CHR 0x5C]" "pr_ExpiresIn p = requested_ttl cfg (sq_ExpiresInSeconds q)"
    "0 < pr_ExpiresIn p" "pr_ExpiresIn p \<le> max_ttl cfg"
  using assms by (auto simp: validateStorageRequest_def Let_def split: sum.splits if_splits)

lemma parts_loop_iff:
  "parts_loop seen out ps = Inr res \<longleftrightarrow>
     (\<forall>p \<in> set ps. 1 \<le> pt_PartNumber p \<and> pt_PartNumber p \<le> 10000 \<and> TrimSpace (pt_ETag p) \<noteq> '''') \<and>
     distinct (map pt_PartNumber ps) \<and> set seen \<inter> set (map pt_PartNumber ps) = {} \<and>
     res = out @ map (\<lambda>p. \<lparr>pt_PartNumber = pt_PartNumber p, pt_ETag = TrimSpace (pt_ETag p)\<rparr>) ps"
  by (induction seen out ps rule: parts_loop.induct) auto

subsection \<open>Authorization\<close>

lemma target_Resolve_trim [simp]: "target_Resolve reg (TrimSpace n) = target_Resolve reg n"
  by (simp add: target_Resolve_def)

lemma identified_actor: "identified cfg ctx r w w1 ident \<Longrightarrow> TrimSpace (id_Actor ident) = id_Actor ident"
  by (auto elim!: identifiedE simp: header_identity_def)

lemma workload_identity_iff:
  "workload_identity cfg ctx r w rw = (w1, Inr ident) \<longleftrightarrow> identified cfg ctx r w w1 ident"
proof
  assume "workload_identity cfg ctx r w rw = (w1, Inr ident)"
  then show "identified cfg ctx r w w1 ident"
    by (auto simp: workload_identity_def Let_def header_identity_def [symmetric]
        split: option.splits sum.splits prod.splits if_splits intro: identified.intros)
next
  assume "identified cfg ctx r w w1 ident"
  then show "workload_identity cfg ctx r w rw = (w1, Inr ident)"
    by (cases rule: identified.cases) (simp_all add: workload_identity_def Let_def header_identity_def)
qed

lemma authorizeStorage_sound:
  assumes "authorizeStorage cfg ctx r name action write w rw = (w', Inr u)"
  shows "authorized cfg ctx r name action write w w'"
proof (cases "rc_StorageTargets cfg = []")
  case True
  with assms show ?thesis
    by (simp add: authorizeStorage_def authorized.no_targets)
next
  case False
  with assms obtain t policy w1 ident d where
    "target_Resolve (rc_StorageTargets cfg) name = Some t" "\<not> (write \<and> tg_ReadOnly t)"
    "rc_StorageAccessPolicy cfg = Some policy" and
    ident: "workload_identity cfg ctx r w rw = (w1, Inr ident)" "ValidateActor ident = None" and
    "policy ctx w1 (policy_question ident action name) = (w', Inr d)" "dc_Allow d"
    by (auto simp: authorizeStorage_def Let_def policy_question_def
        split: option.splits if_splits prod.splits sum.splits)
  moreover have "id_Actor ident \<noteq> ''''"
    using ident(2) by (auto simp: ValidateActor_None)
  ultimately show ?thesis
    using False ident(1) unfolding workload_identity_iff by (blast intro: authorized.allowed_by_policy)
qed

lemma authorizeStorage_complete:
  assumes "authorized cfg ctx r name action write w w'"
  shows "authorizeStorage cfg ctx r name action write w rw = (w', Inr ())"
  using assms
proof (cases rule: authorized.cases)
  case no_targets
  then show ?thesis by (simp add: authorizeStorage_def)
next
  case (allowed_by_policy t policy w1 ident d)
  have "workload_identity cfg ctx r w rw = (w1, Inr ident)"
    using allowed_by_policy by (simp add: workload_identity_iff)
  moreover have "ValidateActor ident = None"
    using allowed_by_policy identified_actor [of cfg ctx r w w1 ident] by (simp add: ValidateActor_None)
  ultimately show ?thesis
    using allowed_by_policy by (simp add: authorizeStorage_def Let_def policy_question_def)
qed

lemma authorized_trim: "authorized cfg ctx r (TrimSpace n) action write w w' \<longleftrightarrow> authorized cfg ctx r n action write w w'"
  by (auto simp: authorized.simps policy_question_def)

lemma authorized_same_call: "same_call r r' \<Longrightarrow> authorized cfg ctx r' = authorized cfg ctx r"
proof -
  assume "same_call r r'"
  then have "Extract r' hs = Extract r hs" "BearerToken r' = BearerToken r" for hs
    by (simp_all add: same_call_def Extract_def BearerToken_def)
  then show "authorized cfg ctx r' = authorized cfg ctx r"
    by (intro ext) (simp add: authorized.simps identified.simps header_identity_def)
qed

subsection \<open>Responses of the handlers\<close>

lemma rr_writeJSON_status [simp]:
  "rw_Status (rr_writeJSON rw c v) = (if rw_Status rw = 0 then (if c = 0 then 200 else c) else rw_Status rw)"
  by (simp add: rr_writeJSON_def)

lemmas response_defs = bad_request_def writeStorageProviderError_def providerUnavailable_def write_no_store_def

text \<open>The statuses of a response that reports what the signer did: a result or its failure.\<close>

definition signer_status :: "response_writer \<Rightarrow> bool" where
  "signer_status rw \<longleftrightarrow> rw_Status rw = 200 \<or> rw_Status rw = 204 \<or> rw_Status rw = 502"

lemma refusal_status [simp]:
  "rw_Status rw = 0 \<Longrightarrow> \<not> signer_status (bad_request rw e)"
  "rw_Status rw = 0 \<Longrightarrow> c = 400 \<or> c = 401 \<or> c = 403 \<or> c = 503 \<Longrightarrow> \<not> signer_status (rr_writeJSON rw c v)"
  "rw_Status rw = 0 \<Longrightarrow> \<not> signer_status (providerUnavailable rw role cap)"
  by (auto simp: signer_status_def response_defs)

lemma authorizeStorage_refusal:
  assumes "authorizeStorage cfg ctx r name action write w rw = (w', Inl rw')" "rw_Status rw = 0"
  shows "\<not> signer_status rw'"
  using assms by (auto simp: authorizeStorage_def workload_identity_def Let_def
      split: option.splits if_splits prod.splits sum.splits)

lemma with_signer_status:
  assumes "with_signer cfg ctx r tgt action write c k w rw = (w', rw')" "rw_Status rw = 0" "signer_status rw'"
  shows "demand_met cfg ctx r w (Some (tgt, action, write))"
proof (cases "authorizeStorage cfg ctx r tgt action write w rw")
  case (Pair w1 out)
  show ?thesis
  proof (cases out)
    case (Inl rw1)
    with Pair assms authorizeStorage_refusal [of cfg ctx r tgt action "write" w rw w1 rw1] show ?thesis
      by (simp add: with_signer_def)
  next
    case (Inr u)
    with Pair have "authorized cfg ctx r tgt action write w w1"
      by (auto intro: authorizeStorage_sound)
    moreover have "storageSignerForTarget cfg tgt \<noteq> None"
    proof
      assume "storageSignerForTarget cfg tgt = None"
      with Pair Inr assms(1) have "rw' = providerUnavailable rw RoleStorage c"
        by (simp add: with_signer_def)
      with assms(2,3) show False by simp
    qed
    ultimately show ?thesis
      unfolding demand_met_def by blast
  qed
qed

lemma demand_met_trim:
  "demand_met cfg ctx r w (Some (TrimSpace tgt, action, write)) \<longleftrightarrow> demand_met cfg ctx r w (Some (tgt, action, write))"
  by (auto simp: demand_met_def authorized_trim storageSignerForTarget_def target_Resolve_def)

lemma demand_met_same_call: "same_call r r' \<Longrightarrow> demand_met cfg ctx r' = demand_met cfg ctx r"
  by (intro ext) (simp add: demand_met_def authorized_same_call [of r r'])

lemma decode_refusal:
  "decodeStorageRequest rw body cfg = Inl rw' \<Longrightarrow> rw_Status rw = 0 \<Longrightarrow> \<not> signer_status rw'"
  "storageRequestFromQuery rw r cfg = Inl rw' \<Longrightarrow> rw_Status rw = 0 \<Longrightarrow> \<not> signer_status rw'"
  "decodeJSONBody rw body' = Inl rw' \<Longrightarrow> rw_Status rw = 0 \<Longrightarrow> \<not> signer_status rw'"
  by (auto simp: decodeStorageRequest_def storageRequestFromQuery_def decodeJSONBody_def
      split: sum.splits option.splits)

lemma decode_target:
  "decodeStorageRequest rw body cfg = Inr (q, tgt) \<Longrightarrow> \<exists>inp. body = Inr inp \<and> tgt = TrimSpace (sq_Target inp)"
  "storageRequestFromQuery rw r cfg = Inr (q, tgt) \<Longrightarrow> tgt = TrimSpace (rq_Query r ''target'')"
  "decodeJSONBody rw body' = Inr inp' \<Longrightarrow> body' = Inr inp'"
  by (auto simp: decodeStorageRequest_def storageRequestFromQuery_def decodeJSONBody_def
      split: sum.splits option.splits)

text \<open>Each storage handler reports on the signer only where its demand is met.\<close>

lemma handler_upload:
  assumes "serve_upload cfg ctx bd r w rw = (w', rw') \<or> serve_upload_intent cfg ctx bd r w rw = (w', rw')"
    "rw_Status rw = 0" "signer_status rw'"
  shows "demand_met cfg ctx r w (body_demand (db_storage bd) sq_Target ''storage.upload'' True)"
proof (cases "decodeStorageRequest rw (db_storage bd) cfg")
  case (Inl rw1)
  with assms decode_refusal(1) show ?thesis by (auto simp: serve_upload_def serve_upload_intent_def)
next
  case (Inr x)
  obtain q tgt where x: "x = (q, tgt)" by (cases x)
  obtain inp where inp: "db_storage bd = Inr inp" "tgt = TrimSpace (sq_Target inp)"
    using decode_target(1) Inr x by blast
  have "demand_met cfg ctx r w (Some (tgt, ''storage.upload'', True))"
    using assms Inr x
    by (auto simp: serve_upload_def serve_upload_intent_def split: option.splits
        dest!: with_signer_status [OF _ assms(2,3)])
  with inp show ?thesis by (simp add: body_demand_def demand_met_trim)
qed

lemma handler_download_intent:
  assumes "serve_download_intent cfg ctx bd r w rw = (w', rw')" "rw_Status rw = 0" "signer_status rw'"
  shows "demand_met cfg ctx r w (body_demand (db_storage bd) sq_Target ''storage.download'' False)"
proof (cases "decodeStorageRequest rw (db_storage bd) cfg")
  case (Inl rw1)
  with assms decode_refusal(1) show ?thesis by (auto simp: serve_download_intent_def)
next
  case (Inr x)
  obtain q tgt where x: "x = (q, tgt)" by (cases x)
  obtain inp where inp: "db_storage bd = Inr inp" "tgt = TrimSpace (sq_Target inp)"
    using decode_target(1) Inr x by blast
  have "demand_met cfg ctx r w (Some (tgt, ''storage.download'', False))"
    using assms Inr x
    by (auto simp: serve_download_intent_def split: option.splits dest!: with_signer_status [OF _ assms(2,3)])
  with inp show ?thesis by (simp add: body_demand_def demand_met_trim)
qed

lemma handler_download:
  assumes "serve_download cfg ctx bd r w rw = (w', rw')" "rw_Status rw = 0" "signer_status rw'"
  shows "demand_met cfg ctx r w (Some (rq_Query r ''target'', ''storage.download'', False))"
proof (cases "storageRequestFromQuery rw r cfg")
  case (Inl rw1)
  with assms decode_refusal(2) show ?thesis by (auto simp: serve_download_def)
next
  case (Inr x)
  obtain q tgt where x: "x = (q, tgt)" by (cases x)
  with assms Inr have "demand_met cfg ctx r w (Some (tgt, ''storage.download'', False))"
    by (auto simp: serve_download_def dest!: with_signer_status [OF _ assms(2,3)])
  moreover have "tgt = TrimSpace (rq_Query r ''target'')"
    using decode_target(2) Inr x by blast
  ultimately show ?thesis by (simp add: demand_met_trim)
qed

lemma with_metadata_status:
  assumes "with_metadata cfg ctx r tgt base k w rw = (w', rw')" "rw_Status rw = 0" "signer_status rw'"
  shows "demand_met cfg ctx r w (Some (tgt, ''storage.metadata'', False))"
  using assms unfolding with_metadata_def by (rule with_signer_status)

lemma handler_metadata:
  assumes "serve_metadata cfg ctx bd r w rw = (w', rw') \<or> serve_reference cfg ctx bd r w rw = (w', rw')"
    "rw_Status rw = 0" "signer_status rw'"
  shows "demand_met cfg ctx r w (Some (rq_Query r ''target'', ''storage.metadata'', False))"
proof (cases "storageRequestFromQuery rw r cfg")
  case (Inl rw1)
  with assms decode_refusal(2) show ?thesis by (auto simp: serve_metadata_def serve_reference_def)
next
  case (Inr x)
  obtain q tgt where x: "x = (q, tgt)" by (cases x)
  with assms Inr have "demand_met cfg ctx r w (Some (tgt, ''storage.metadata'', False))"
    by (auto simp: serve_metadata_def serve_reference_def dest!: with_metadata_status [OF _ assms(2,3)])
  moreover have "tgt = TrimSpace (rq_Query r ''target'')"
    using decode_target(2) Inr x by blast
  ultimately show ?thesis by (simp add: demand_met_trim)
qed

lemma handler_verify:
  assumes "serve_verify cfg ctx bd r w rw = (w', rw')" "rw_Status rw = 0" "signer_status rw'"
  shows "demand_met cfg ctx r w (body_demand (db_verification bd) vq_Target ''storage.metadata'' False)"
proof (cases "decodeJSONBody rw (db_verification bd)")
  case (Inl rw1)
  with assms decode_refusal(3) show ?thesis by (auto simp: serve_verify_def)
next
  case (Inr inp)
  with assms have "demand_met cfg ctx r w (Some (TrimSpace (vq_Target inp), ''storage.metadata'', False))"
    by (auto simp: serve_verify_def Let_def split: option.splits sum.splits
        dest!: with_metadata_status [OF _ assms(2,3)])
  with decode_target(3) [OF Inr] show ?thesis by (simp add: body_demand_def demand_met_trim)
qed

lemma handler_presign:
  assumes "serve_presign cfg ctx bd r w rw = (w', rw')" "rw_Status rw = 0" "signer_status rw'"
  shows "demand_met cfg ctx r w (storage_demand ''/storage/presign'' bd r)"
  using assms
  by (auto simp: serve_presign_def storage_demand_def Let_def split: sum.splits if_splits
      dest!: with_signer_status [OF _ assms(2,3)])

lemma with_multipart_status:
  assumes "with_multipart cfg ctx r tgt k w rw = (w', rw')" "rw_Status rw = 0" "signer_status rw'"
  shows "demand_met cfg ctx r w (Some (tgt, ''storage.multipart'', True))"
  using assms unfolding with_multipart_def by (rule with_signer_status)

lemma handler_multipart:
  assumes "serve_multipart_initiate cfg ctx bd r w rw = (w', rw') \<or> serve_multipart_part cfg ctx bd r w rw = (w', rw')
      \<or> serve_multipart_complete cfg ctx bd r w rw = (w', rw') \<or> serve_multipart_abort cfg ctx bd r w rw = (w', rw')"
    "rw_Status rw = 0" "signer_status rw'"
  shows "demand_met cfg ctx r w (body_demand (db_multipart bd) mr_Target ''storage.multipart'' True)"
proof (cases "decodeJSONBody rw (db_multipart bd)")
  case (Inl rw1)
  with assms decode_refusal(3) show ?thesis
    by (auto simp: serve_multipart_initiate_def serve_multipart_part_def serve_multipart_complete_def
        serve_multipart_abort_def)
next
  case (Inr inp)
  have "demand_met cfg ctx r w (Some (mr_Target inp, ''storage.multipart'', True))"
    using assms(1)
  proof (elim disjE)
    assume "serve_multipart_initiate cfg ctx bd r w rw = (w', rw')"
    with Inr assms(2,3) show ?thesis
      by (auto simp: serve_multipart_initiate_def split: sum.splits dest!: with_multipart_status [OF _ assms(2,3)])
  next
    assume "serve_multipart_part cfg ctx bd r w rw = (w', rw')"
    with Inr assms(2,3) show ?thesis
      by (auto simp: serve_multipart_part_def Let_def split: sum.splits if_splits
          dest!: with_multipart_status [OF _ assms(2,3)])
  next
    assume "serve_multipart_complete cfg ctx bd r w rw = (w', rw')"
    with Inr assms(2,3) show ?thesis
      by (auto simp: serve_multipart_complete_def Let_def split: sum.splits if_splits
          dest!: with_multipart_status [OF _ assms(2,3)])
  next
    assume "serve_multipart_abort cfg ctx bd r w rw = (w', rw')"
    with Inr assms(2,3) show ?thesis
      by (auto simp: serve_multipart_abort_def Let_def split: sum.splits if_splits
          dest!: with_multipart_status [OF _ assms(2,3)])
  qed
  with decode_target(3) [OF Inr] show ?thesis by (simp add: body_demand_def)
qed

subsection \<open>Routes\<close>

text \<open>The path of every storage route, with what its handler guarantees.\<close>

lemma pattern_parts:
  "Cut ''POST /storage/upload'' (CHR '' '') = (''POST'', ''/storage/upload'', True)"
  "Cut ''POST /storage/intents/upload'' (CHR '' '') = (''POST'', ''/storage/intents/upload'', True)"
  "Cut ''GET /storage/download'' (CHR '' '') = (''GET'', ''/storage/download'', True)"
  "Cut ''POST /storage/intents/download'' (CHR '' '') = (''POST'', ''/storage/intents/download'', True)"
  "Cut ''POST /storage/presign'' (CHR '' '') = (''POST'', ''/storage/presign'', True)"
  "Cut ''GET /storage/metadata'' (CHR '' '') = (''GET'', ''/storage/metadata'', True)"
  "Cut ''POST /storage/intents/verify'' (CHR '' '') = (''POST'', ''/storage/intents/verify'', True)"
  "Cut ''GET /storage/references/metadata'' (CHR '' '') = (''GET'', ''/storage/references/metadata'', True)"
  "Cut ''POST /storage/multipart/initiate'' (CHR '' '') = (''POST'', ''/storage/multipart/initiate'', True)"
  "Cut ''POST /storage/multipart/part'' (CHR '' '') = (''POST'', ''/storage/multipart/part'', True)"
  "Cut ''POST /storage/multipart/complete'' (CHR '' '') = (''POST'', ''/storage/multipart/complete'', True)"
  "Cut ''POST /storage/multipart/abort'' (CHR '' '') = (''POST'', ''/storage/multipart/abort'', True)"
  by code_simp+

lemma demand_at:
  "storage_demand ''/storage/upload'' bd r = body_demand (db_storage bd) sq_Target ''storage.upload'' True"
  "storage_demand ''/storage/intents/upload'' bd r = body_demand (db_storage bd) sq_Target ''storage.upload'' True"
  "storage_demand ''/storage/download'' bd r = Some (rq_Query r ''target'', ''storage.download'', False)"
  "storage_demand ''/storage/intents/download'' bd r = body_demand (db_storage bd) sq_Target ''storage.download'' False"
  "storage_demand ''/storage/metadata'' bd r = Some (rq_Query r ''target'', ''storage.metadata'', False)"
  "storage_demand ''/storage/references/metadata'' bd r = Some (rq_Query r ''target'', ''storage.metadata'', False)"
  "storage_demand ''/storage/intents/verify'' bd r = body_demand (db_verification bd) vq_Target ''storage.metadata'' False"
  "storage_demand ''/storage/multipart/initiate'' bd r = body_demand (db_multipart bd) mr_Target ''storage.multipart'' True"
  "storage_demand ''/storage/multipart/part'' bd r = body_demand (db_multipart bd) mr_Target ''storage.multipart'' True"
  "storage_demand ''/storage/multipart/complete'' bd r = body_demand (db_multipart bd) mr_Target ''storage.multipart'' True"
  "storage_demand ''/storage/multipart/abort'' bd r = body_demand (db_multipart bd) mr_Target ''storage.multipart'' True"
  by (simp_all add: storage_demand_def)

lemma storage_routes:
  assumes "(p, h) \<in> set (registerStorageCapability cfg c)" "pattern_path p = path"
  shows "(path, h) \<in> {(''/storage/upload'', serve_upload cfg), (''/storage/intents/upload'', serve_upload_intent cfg),
      (''/storage/download'', serve_download cfg), (''/storage/intents/download'', serve_download_intent cfg),
      (''/storage/presign'', serve_presign cfg), (''/storage/metadata'', serve_metadata cfg),
      (''/storage/intents/verify'', serve_verify cfg), (''/storage/references/metadata'', serve_reference cfg),
      (''/storage/multipart/initiate'', serve_multipart_initiate cfg),
      (''/storage/multipart/part'', serve_multipart_part cfg),
      (''/storage/multipart/complete'', serve_multipart_complete cfg),
      (''/storage/multipart/abort'', serve_multipart_abort cfg)}"
proof -
  have "(fst (snd (Cut p (CHR '' ''))), h) \<in> (\<lambda>(p, h). (fst (snd (Cut p (CHR '' ''))), h)) ` set (registerStorageCapability cfg c)"
    by (rule image_eqI [OF _ assms(1)]) (simp only: prod.case)
  then show ?thesis
    unfolding assms(2) [unfolded pattern_path_def] registerStorageCapability_def registerMultipartRoutes_def
    by (simp only: pattern_parts set_simps image_insert image_empty prod.case fst_conv snd_conv
        split: if_split_asm; elim insertE emptyE; simp only: insert_iff simp_thms)
qed

lemma storage_route_demand:
  assumes route: "(p, h) \<in> set (registerStorageCapability cfg c)" "pattern_path p = path"
    and run: "h ctx bd r w rw = (w', rw')" "rw_Status rw = 0" "signer_status rw'"
  shows "demand_met cfg ctx r w (storage_demand path bd r)"
proof -
  let ?met = "\<lambda>path. demand_met cfg ctx r w (storage_demand path bd r)"
  have upload: "serve_upload cfg ctx bd r w rw = (w', rw') \<Longrightarrow> ?met ''/storage/upload''"
    "serve_upload_intent cfg ctx bd r w rw = (w', rw') \<Longrightarrow> ?met ''/storage/intents/upload''"
    unfolding demand_at by (blast intro: handler_upload [OF _ run(2,3)])+
  have download: "serve_download cfg ctx bd r w rw = (w', rw') \<Longrightarrow> ?met ''/storage/download''"
    "serve_download_intent cfg ctx bd r w rw = (w', rw') \<Longrightarrow> ?met ''/storage/intents/download''"
    "serve_presign cfg ctx bd r w rw = (w', rw') \<Longrightarrow> ?met ''/storage/presign''"
    unfolding demand_at
    by (rule handler_download [OF _ run(2,3)] handler_download_intent [OF _ run(2,3)]
        handler_presign [OF _ run(2,3)], assumption)+
  have metadata: "serve_metadata cfg ctx bd r w rw = (w', rw') \<Longrightarrow> ?met ''/storage/metadata''"
    "serve_reference cfg ctx bd r w rw = (w', rw') \<Longrightarrow> ?met ''/storage/references/metadata''"
    "serve_verify cfg ctx bd r w rw = (w', rw') \<Longrightarrow> ?met ''/storage/intents/verify''"
    unfolding demand_at by (blast intro: handler_metadata [OF _ run(2,3)] handler_verify [OF _ run(2,3)])+
  have multipart: "serve_multipart_initiate cfg ctx bd r w rw = (w', rw') \<Longrightarrow> ?met ''/storage/multipart/initiate''"
    "serve_multipart_part cfg ctx bd r w rw = (w', rw') \<Longrightarrow> ?met ''/storage/multipart/part''"
    "serve_multipart_complete cfg ctx bd r w rw = (w', rw') \<Longrightarrow> ?met ''/storage/multipart/complete''"
    "serve_multipart_abort cfg ctx bd r w rw = (w', rw') \<Longrightarrow> ?met ''/storage/multipart/abort''"
    unfolding demand_at by (blast intro: handler_multipart [OF _ run(2,3)])+
  show ?thesis
    using storage_routes [OF route] run(1)
    by (elim insertE emptyE Pair_inject) (simp_all only: upload download metadata multipart)
qed

text \<open>Where a route comes from: the system, a storage capability, or an unavailable one.\<close>

lemma runtime_routes_cases:
  assumes "(p, h) \<in> set (runtime_routes cfg)"
  obtains (system) "(p, h) \<in> set (registerSystem cfg)"
    | (storage) c where "(p, h) \<in> set (registerStorageCapability cfg c)"
    | (unavailable) role c where "h = (\<lambda>ctx bd r w rw. (w, providerUnavailable rw role c))"
  using assms
  by (auto simp: runtime_routes_def registerRole_def registerUnavailableCapability_def split: if_splits)

lemma system_path:
  assumes "(p, h) \<in> set (registerSystem cfg)" "pattern_path p = path"
  shows "\<not> HasPrefix path ''/storage/''"
proof -
  have all: "list_all (\<lambda>p. \<not> HasPrefix (pattern_path p) ''/storage/'')
      [''GET /health/live'', ''GET /health/ready'', ''GET /runtime'']"
    by code_simp
  have "p \<in> set [''GET /health/live'', ''GET /health/ready'', ''GET /runtime'']"
    using assms(1) unfolding registerSystem_def by (simp only: set_simps insert_iff prod.inject) blast
  from bspec [OF all [unfolded list_all_iff] this] show ?thesis
    by (simp only: assms(2) not_False_eq_True)
qed

lemma storage_demand_same_call: "same_call r r' \<Longrightarrow> storage_demand path bd r' = storage_demand path bd r"
  by (simp only: storage_demand_def same_call_query [of r r'])

lemma serve_role_runtime_storage:
  assumes run: "serve_role_runtime cfg ctx bd r w rw = (w', rw')" "rw_Status rw = 0" "signer_status rw'"
    and path: "role_route cfg r = Some path" "HasPrefix path ''/storage/''"
  shows "demand_met cfg ctx r w (storage_demand path bd r)"
proof -
  from path(1) obtain r0 p vs h where m: "mount_find (rc_BasePath cfg) r = Mounted r0"
    "findHandler (runtime_routes cfg) r0 = MuxServe p vs h" "pattern_path p = path"
    by (auto simp: role_route_def split: mount_answer.splits mux_answer.splits)
  let ?r = "with_match p vs r0"
  have same: "same_call r ?r" by (rule same_call_trans [OF mount_find_same [OF m(1)] same_call_with_match])
  have served: "mux_ServeHTTP (\<lambda>h. h ctx bd) (runtime_routes cfg) r0 w rw = (w', rw')"
    using run(1) m(1) by (simp add: serve_role_runtime_def mount_at_def)
  have "rq_Path r0 \<noteq> ''*''"
    using served run(2,3) by (auto simp: mux_ServeHTTP_def signer_status_def)
  then have h: "h ctx bd ?r w rw = (w', rw')" using served m(2) by (simp add: mux_ServeHTTP_def)
  from findHandler_serve(1) [OF m(2)] show ?thesis
  proof (cases rule: runtime_routes_cases)
    case system
    with system_path m(3) path(2) show ?thesis by blast
  next
    case (storage c)
    from storage_route_demand [OF this m(3) h run(2,3)] show ?thesis
      by (simp only: demand_met_same_call [OF same] storage_demand_same_call [OF same])
  next
    case (unavailable role c)
    with h run(2,3) show ?thesis by auto
  qed
qed

subsection \<open>Readiness\<close>

lemma signer_supports_None:
  "signer_supports cfg s = None \<longleftrightarrow>
     (hasCapability (rc_Selection cfg) RoleStorage ''multipart'' \<longrightarrow> sg_Multipart s \<noteq> None) \<and>
     (hasCapability (rc_Selection cfg) RoleStorage ''metadata'' \<longrightarrow> sg_Metadata s \<noteq> None)"
  by (simp add: signer_supports_def)

lemma providers_loop_None:
  "providers_loop cfg ns = None \<Longrightarrow> n \<in> set ns \<Longrightarrow>
     \<exists>s. provider_Resolve (rc_StorageProviders cfg) n = Some (Some s) \<and> signer_supports cfg s = None"
  by (induction cfg ns rule: providers_loop.induct) (auto split: option.splits)

lemma ready_has_signer:
  assumes "validateStorageProvidersReady cfg = None"
    and "rc_StorageTargets cfg \<noteq> [] \<longrightarrow> target_Resolve (rc_StorageTargets cfg) name = Some t"
  shows "\<exists>s. storageSignerForTarget cfg name = Some s \<and> signer_supports cfg s = None"
proof (cases "rc_StorageProviders cfg = []")
  case True
  with assms(1) show ?thesis
    by (auto simp: validateStorageProvidersReady_def storageSignerForTarget_def split: option.splits)
next
  case False
  define n where "n = (if rc_StorageTargets cfg = [] then ''default'' else tg_Provider t)"
  have "n \<in> set (provider_names cfg)"
    using assms(2) by (force simp: n_def provider_names_def target_Resolve_def dest: map_of_SomeD)
  then obtain s where "provider_Resolve (rc_StorageProviders cfg) n = Some (Some s)" "signer_supports cfg s = None"
    using assms(1) False providers_loop_None [of cfg "provider_names cfg" n]
    by (auto simp: validateStorageProvidersReady_def)
  with False assms(2) show ?thesis
    by (cases "rc_StorageTargets cfg = []") (auto simp: storageSignerForTarget_def n_def)
qed

subsection \<open>Distinct patterns\<close>

lemma distinct_concat_map_sub:
  assumes "distinct (concat (map f ys))" "distinct xs" "set xs \<subseteq> set ys" "distinct ys"
  shows "distinct (concat (map f xs))"
  using assms(2,3)
proof (induction xs)
  case Nil
  then show ?case by simp
next
  case (Cons x xs)
  have "set (f x) \<inter> set (f y) = {}" if "y \<in> set xs" for y
  proof -
    from that Cons.prems have "y \<noteq> x" "x \<in> set ys" "y \<in> set ys" by auto
    then obtain as bs where "ys = as @ x # bs" "y \<in> set as \<or> y \<in> set bs"
      by (metis (no_types, lifting) in_set_conv_decomp UnE set_ConsD set_append)
    with assms(1) show ?thesis by auto
  qed
  moreover have "distinct (f x)"
    using assms(1) Cons.prems(2) by (auto simp: in_set_conv_decomp)
  ultimately show ?case
    using Cons by auto
qed

text \<open>The patterns of a role and a capability do not depend on the configuration.\<close>

definition patterns_of :: "role \<times> string \<Rightarrow> string list" where
  "patterns_of rc =
     (case rc of (role, c) \<Rightarrow>
        if role = RoleStorage then
          (if c = ''upload'' then [''POST /storage/upload'', ''POST /storage/intents/upload'']
           else if c = ''download'' then [''GET /storage/download'', ''POST /storage/intents/download'']
           else if c = ''presign'' then [''POST /storage/presign'']
           else if c = ''multipart'' then
             [''POST /storage/multipart/initiate'', ''POST /storage/multipart/part'',
              ''POST /storage/multipart/complete'', ''POST /storage/multipart/abort'']
           else if c = ''metadata'' then
             [''GET /storage/metadata'', ''POST /storage/intents/verify'', ''GET /storage/references/metadata'']
           else [])
        else if routePattern role c = '''' then [] else [routePattern role c])"

definition all_capabilities :: "(role \<times> string) list" where
  "all_capabilities = concat (map (\<lambda>(r, cs). map (Pair r) cs) allowed_capabilities)"

lemma registered_patterns:
  "map fst (registerRole cfg role caps) = concat (map (\<lambda>c. patterns_of (role, c)) caps)"
proof (induction caps)
  case Nil
  then show ?case by (simp add: registerRole_def)
next
  case (Cons c caps)
  have "map fst (if role = RoleStorage then registerStorageCapability cfg c
      else registerUnavailableCapability role c) = patterns_of (role, c)"
    unfolding patterns_of_def registerStorageCapability_def registerMultipartRoutes_def
      registerUnavailableCapability_def by (simp only: if_distrib [of "map fst"] list.map fst_conv prod.case)
  with Cons show ?case by (simp add: registerRole_def)
qed

definition selected_pairs :: "selection \<Rightarrow> (role \<times> string) list" where
  "selected_pairs sel = concat (map (\<lambda>r. map (Pair r) (caps_of (Capabilities sel) r)) (Roles sel))"

lemma concat_concat_map: "concat (concat (map f xs)) = concat (map (\<lambda>x. concat (f x)) xs)"
  by (induction xs) simp_all

lemma runtime_patterns:
  "map fst (runtime_routes cfg) =
     [''GET /health/live'', ''GET /health/ready'', ''GET /runtime''] @
     concat (map patterns_of (selected_pairs (rc_Selection cfg)))"
  unfolding runtime_routes_def registerSystem_def selected_pairs_def
  by (simp add: map_concat registered_patterns o_def concat_concat_map)

lemma all_patterns_distinct:
  "distinct ([''GET /health/live'', ''GET /health/ready'', ''GET /runtime''] @
     concat (map patterns_of all_capabilities)) \<and> distinct all_capabilities"
  by code_simp

lemma selected_pairs_ok:
  assumes "selection_ok sel" "\<forall>r \<in> set (Roles sel). distinct (caps_of (Capabilities sel) r)"
  shows "distinct (selected_pairs sel) \<and> set (selected_pairs sel) \<subseteq> set all_capabilities"
proof
  have "distinct (concat (map (\<lambda>r. map (Pair r) (caps_of (Capabilities sel) r)) rs))"
    if "distinct rs" "set rs \<subseteq> set (Roles sel)" for rs
    using that assms(2) by (induction rs) (auto simp: distinct_map inj_on_def)
  with assms(1) show "distinct (selected_pairs sel)"
    by (simp add: selected_pairs_def selection_ok_def)
  have "(r, c) \<in> set all_capabilities" if "r \<in> set (Roles sel)" "c \<in> set (caps_of (Capabilities sel) r)" for r c
  proof -
    have "c \<in> set (allowed_list r)"
      using that assms(1) by (auto simp: selection_ok_def allowed_cap_def)
    then obtain cs where "map_of allowed_capabilities r = Some cs" "c \<in> set cs"
      by (cases "map_of allowed_capabilities r") (simp_all add: allowed_list_def)
    then show ?thesis
      by (force simp: all_capabilities_def dest: map_of_SomeD)
  qed
  then show "set (selected_pairs sel) \<subseteq> set all_capabilities"
    by (auto simp: selected_pairs_def)
qed

section \<open>Properties\<close>

text \<open>
  C30. A storage request that passes validation is safe: its grant lives for a positive time within the
  configured maximum (exactly the requested number of seconds, up to the 292 years a duration can hold),
  its object key is not empty, does not start with a slash and contains neither two dots in a row nor a
  backslash, and its bucket is the one of the named target wherever targets are configured, whatever bucket
  the request names.
\<close>

theorem validated_request_safe:
  assumes "validateStorageRequest q cfg = Inr p"
  shows "0 < pr_ExpiresIn p \<and> pr_ExpiresIn p \<le> max_ttl cfg \<and>
    (0 < sq_ExpiresInSeconds q \<and> sq_ExpiresInSeconds q \<le> 9223372036 \<longrightarrow>
       pr_ExpiresIn p = sq_ExpiresInSeconds q * Second) \<and>
    pr_ObjectKey p \<noteq> '''' \<and> \<not> prefix ''/'' (pr_ObjectKey p) \<and> \<not> sublist ''..'' (pr_ObjectKey p) \<and>
    CHR 0x5C \<notin> set (pr_ObjectKey p) \<and>
    (if rc_StorageTargets cfg = [] then pr_Bucket p = TrimSpace (sq_Bucket q) \<and> pr_Bucket p \<noteq> ''''
     else \<exists>t. target_Resolve (rc_StorageTargets cfg) (sq_Target q) = Some t \<and> pr_Bucket p = tg_Bucket t)"
proof -
  note v = validateStorageRequest_cases [OF assms]
  have "pr_ExpiresIn p = sq_ExpiresInSeconds q * Second"
    if "0 < sq_ExpiresInSeconds q" "sq_ExpiresInSeconds q \<le> 9223372036"
    using v(7) requested_ttl_exact [OF that] by simp
  moreover have "\<not> prefix ''/'' (pr_ObjectKey p)" "\<not> sublist ''..'' (pr_ObjectKey p)" "CHR 0x5C \<notin> set (pr_ObjectKey p)"
    using v(4-6) by (simp_all only: HasPrefix_iff Contains_iff sublist_singleton not_False_eq_True)
  ultimately show ?thesis
    using v(3,8,9) request_bucket_cases [OF v(1)] by blast
qed

text \<open>A configuration and a request to evaluate on.\<close>

definition demo_signer :: "nat storage_signer" where
  "demo_signer =
     \<lparr>sg_PresignPut = (\<lambda>ctx w q. (w + 1, Inr \<lparr>po_URL = ''https://s/'' @ pr_Bucket q @ ''/'' @ pr_ObjectKey q,
        po_Method = ''PUT'', po_ExpiresAt = 0, po_Headers = None\<rparr>)),
      sg_PresignGet = (\<lambda>ctx w q. (w + 1, Inr \<lparr>po_URL = ''https://s/'' @ pr_Bucket q @ ''/'' @ pr_ObjectKey q,
        po_Method = ''GET'', po_ExpiresAt = 0, po_Headers = None\<rparr>)),
      sg_Multipart = None, sg_Metadata = None\<rparr>"

definition demo_role_config :: "nat role_config" where
  "demo_role_config =
     \<lparr>rc_BasePath = '''', rc_Selection = \<lparr>Roles = [''storage''], Capabilities = [''storage'' \<mapsto> [''upload'', ''presign'']]\<rparr>,
      rc_StorageSigner = Some demo_signer, rc_StorageProviders = [], rc_StorageDefaultTTL = 0, rc_StorageMaxTTL = 0,
      rc_StorageTargets = [(''media'', \<lparr>tg_Provider = ''default'', tg_Bucket = ''m-1'', tg_ReadOnly = False\<rparr>)],
      rc_StorageAccessPolicy = Some (\<lambda>ctx w q. (w, Inr \<lparr>dc_Allow = (ar_Subject q = ''alice''), dc_Reason = ''''\<rparr>)),
      rc_StorageSubjectHeader = '''', rc_WorkloadVerifier = None, rc_WorkloadAuthRequired = False\<rparr>"

definition demo_storage_request :: storage_request where
  "demo_storage_request = \<lparr>sq_Target = ''media'', sq_Operation = ''put'', sq_Bucket = ''other'',
     sq_ObjectKey = '' a/b.png'', sq_ContentType = '''', sq_ExpiresInSeconds = 60\<rparr>"

theorem validated_request_safe_witness:
  "\<exists>p. validateStorageRequest demo_storage_request demo_role_config = Inr p \<and> pr_ExpiresIn p = 60 * Second \<and>
     pr_Bucket p = ''m-1''"
proof -
  have "(case validateStorageRequest demo_storage_request demo_role_config of
      Inl _ \<Rightarrow> False | Inr p \<Rightarrow> pr_Bucket p = ''m-1'')"
    by code_simp
  then obtain p where p: "validateStorageRequest demo_storage_request demo_role_config = Inr p" "pr_Bucket p = ''m-1''"
    by (auto split: sum.splits)
  have "0 < sq_ExpiresInSeconds demo_storage_request \<and> sq_ExpiresInSeconds demo_storage_request \<le> 9223372036"
    "sq_ExpiresInSeconds demo_storage_request = 60"
    by (simp_all add: demo_storage_request_def)
  with validated_request_safe [OF p(1)] p show ?thesis by auto
qed

text \<open>
  Beyond what a duration can hold the product wraps around: a request for 18446744074 seconds, far over every
  maximum, is granted with a lifetime of less than a third of a second.
\<close>

lemma ttl_wraps_around:
  "map_option pr_ExpiresIn (case validateStorageRequest
       (demo_storage_request\<lparr>sq_ExpiresInSeconds := 18446744074\<rparr>) demo_role_config of Inl _ \<Rightarrow> None | Inr p \<Rightarrow> Some p) =
   Some 290448384"
  by code_simp

text \<open>
  The object key rule of the handlers and that of the storage contracts differ: a key with one backslash is
  valid for the contracts and refused by the handlers.
\<close>

lemma backslash_rules_differ:
  "validateObjectKey [CHR ''a'', CHR 0x5C, CHR ''b''] = None \<and>
   validateStorageRequest (demo_storage_request\<lparr>sq_ObjectKey := [CHR ''a'', CHR 0x5C, CHR ''b'']\<rparr>) demo_role_config =
     Inl (ErrorString ''object_key is invalid'')"
  by code_simp

text \<open>
  C9. The authorization of storage requests implements its specification, in both directions: the code lets a
  request go on, with the world that the verifier and the policy leave behind, exactly when the specification
  authorizes it (target known and writable where the request writes, caller named, workload token verified where
  a verifier is configured, refusal where one is required and missing, policy configured and allowing). In
  particular the service name that the policy sees is never taken from a header while a verifier is configured.
\<close>

theorem authorizeStorage_refines:
  "authorizeStorage cfg ctx r name action write w rw = (w', Inr ()) \<longleftrightarrow>
   authorized cfg ctx r name action write w w'"
  by (rule iffI) (erule authorizeStorage_sound, erule authorizeStorage_complete)

text \<open>
  C8. Nothing is signed without authorization: when a request to a storage route of the runtime is answered
  with what the signer did (200, 204, or 502 for its failure), the request's demand (target, action, whether it
  writes) is authorized and the target has a signer. A write to a read-only target is thus never
  granted, on any route.
\<close>

theorem storage_grant_authorized:
  assumes "serve_role_runtime cfg ctx bd r w rw = (w', rw')" "rw_Status rw = 0"
    and "role_route cfg r = Some path" "HasPrefix path ''/storage/''"
    and "rw_Status rw' = 200 \<or> rw_Status rw' = 204 \<or> rw_Status rw' = 502"
  shows "\<exists>tgt action write w1 s. storage_demand path bd r = Some (tgt, action, write) \<and>
    authorized cfg ctx r tgt action write w w1 \<and> storageSignerForTarget cfg tgt = Some s \<and>
    (rc_StorageTargets cfg \<noteq> [] \<longrightarrow>
      (\<exists>t. target_Resolve (rc_StorageTargets cfg) tgt = Some t \<and> \<not> (write \<and> tg_ReadOnly t)))"
proof -
  have "demand_met cfg ctx r w (storage_demand path bd r)"
    using assms by (intro serve_role_runtime_storage) (simp_all add: signer_status_def)
  then show ?thesis
    unfolding demand_met_def by (metis authorized.cases)
qed

definition demo_role_request :: request where
  "demo_role_request = demo_request\<lparr>rq_Method := ''POST'', rq_URL := empty_url\<lparr>u_Path := ''/storage/upload''\<rparr>,
     rq_Header := [''X-Actor-Subject'' \<mapsto> [''alice'']]\<rparr>"

definition demo_decoded :: decoded where
  "demo_decoded = \<lparr>db_storage = Inr demo_storage_request, db_verification = Inl NilDereference,
     db_multipart = Inl NilDereference\<rparr>"

definition demo_role_context :: "nat call_context" where
  "demo_role_context = \<lparr>cc_RequestID = '''', cc_TraceID = '''', cc_Err = (\<lambda>w. None)\<rparr>"

theorem storage_grant_authorized_witness:
  "rw_Status (snd (serve_role_runtime demo_role_config demo_role_context demo_decoded demo_role_request 0 new_response)) = 200 \<and>
   (\<exists>w1. authorized demo_role_config demo_role_context demo_role_request ''media'' ''storage.upload'' True 0 w1)"
proof -
  let ?out = "serve_role_runtime demo_role_config demo_role_context demo_decoded demo_role_request 0 new_response"
  have status: "rw_Status (snd ?out) = 200"
    by code_simp
  have path: "role_route demo_role_config demo_role_request = Some ''/storage/upload''"
    by code_simp
  have demand: "storage_demand ''/storage/upload'' demo_decoded demo_role_request = Some (''media'', ''storage.upload'', True)"
    by (simp add: demand_at demo_decoded_def body_demand_def demo_storage_request_def)
  have new: "rw_Status new_response = 0" and pre: "HasPrefix ''/storage/upload'' ''/storage/''"
    by code_simp+
  from storage_grant_authorized [OF prod.collapse [symmetric] new path pre disjI1 [OF status]] obtain w1 where
    "authorized demo_role_config demo_role_context demo_role_request ''media'' ''storage.upload'' True 0 w1"
    unfolding demand by blast
  with status show ?thesis by blast
qed

text \<open>
  C31. The parts of a multipart completion: the request is accepted exactly when it has between one and 10000
  parts, every number is between 1 and 10000, no number occurs twice and every entity tag is nonblank; then the
  signer gets the same parts in the same order with their tags trimmed.
\<close>

theorem completed_parts_iff:
  "validateCompletedParts parts = Inr out \<longleftrightarrow>
     parts \<noteq> [] \<and> length parts \<le> 10000 \<and> distinct (map pt_PartNumber parts) \<and>
     (\<forall>p \<in> set parts. 1 \<le> pt_PartNumber p \<and> pt_PartNumber p \<le> 10000 \<and> TrimSpace (pt_ETag p) \<noteq> '''') \<and>
     out = map (\<lambda>p. \<lparr>pt_PartNumber = pt_PartNumber p, pt_ETag = TrimSpace (pt_ETag p)\<rparr>) parts"
  by (auto simp: validateCompletedParts_def parts_loop_iff)

theorem completed_parts_iff_witness:
  "validateCompletedParts [\<lparr>pt_PartNumber = 2, pt_ETag = '' b''\<rparr>, \<lparr>pt_PartNumber = 1, pt_ETag = ''a''\<rparr>] =
     Inr [\<lparr>pt_PartNumber = 2, pt_ETag = ''b''\<rparr>, \<lparr>pt_PartNumber = 1, pt_ETag = ''a''\<rparr>]"
proof -
  have "TrimSpace '' b'' = ''b''" "TrimSpace ''a'' = ''a''"
    by code_simp+
  then show ?thesis
    by (intro completed_parts_iff [THEN iffD2]) simp
qed

text \<open>
  A storage runtime that reports ready can serve: workload verification and the access policy are configured
  where they are needed, and every target that a request can name (or any request, with no targets
  configured) has a signer, which supports multipart uploads and metadata where those capabilities are
  selected. No such request is answered with the response for an unconfigured provider.
\<close>

theorem ready_can_serve:
  assumes "serve_ready cfg ctx bd r w rw = (w', rw')" "rw_Status rw = 0" "rw_Status rw' = 200"
    and "HasRole (rc_Selection cfg) RoleStorage" "storageProviderRequired (rc_Selection cfg)"
    and "rc_StorageTargets cfg \<noteq> [] \<longrightarrow> target_Resolve (rc_StorageTargets cfg) name = Some t"
  shows "(\<exists>s. storageSignerForTarget cfg name = Some s \<and>
      (hasCapability (rc_Selection cfg) RoleStorage ''multipart'' \<longrightarrow> sg_Multipart s \<noteq> None) \<and>
      (hasCapability (rc_Selection cfg) RoleStorage ''metadata'' \<longrightarrow> sg_Metadata s \<noteq> None)) \<and>
    (rc_StorageTargets cfg \<noteq> [] \<longrightarrow> rc_StorageAccessPolicy cfg \<noteq> None) \<and>
    (rc_WorkloadAuthRequired cfg \<longrightarrow> rc_WorkloadVerifier cfg \<noteq> None)"
proof -
  have not_ready: "rw_Status (not_ready rw reason) = 503" for reason
    using assms(2) by (simp add: not_ready_def)
  have 1: "\<not> (rc_WorkloadAuthRequired cfg \<and> rc_WorkloadVerifier cfg = None)"
  proof
    assume "rc_WorkloadAuthRequired cfg \<and> rc_WorkloadVerifier cfg = None"
    with assms(1,4) have "rw' = not_ready rw ''workload_auth_not_configured''"
      by (simp add: serve_ready_def)
    with not_ready assms(3) show False by simp
  qed
  moreover have 2: "\<not> (rc_StorageTargets cfg \<noteq> [] \<and> rc_StorageAccessPolicy cfg = None)"
  proof
    assume "rc_StorageTargets cfg \<noteq> [] \<and> rc_StorageAccessPolicy cfg = None"
    with 1 assms(1,4) have "rw' = not_ready rw ''storage_access_policy_not_configured''"
      by (auto simp: serve_ready_def)
    with not_ready assms(3) show False by simp
  qed
  moreover have ready: "validateStorageProvidersReady cfg = None"
  proof (rule ccontr)
    assume "validateStorageProvidersReady cfg \<noteq> None"
    then obtain e where "validateStorageProvidersReady cfg = Some e" by blast
    with 1 2 assms(1,4,5) have "rw' = not_ready rw (error_text e)"
      by (auto simp: serve_ready_def Let_def)
    with not_ready assms(3) show False by simp
  qed
  moreover obtain s where "storageSignerForTarget cfg name = Some s" "signer_supports cfg s = None"
    using ready_has_signer [OF ready assms(6)] by (elim exE conjE)
  ultimately show ?thesis
    by (auto simp: signer_supports_None)
qed

theorem ready_can_serve_witness:
  "\<exists>s. storageSignerForTarget demo_role_config ''media'' = Some s"
proof -
  let ?out = "serve_ready demo_role_config demo_role_context demo_decoded demo_role_request 0 new_response"
  have "rw_Status new_response = 0" "rw_Status (snd ?out) = 200"
    "HasRole (rc_Selection demo_role_config) RoleStorage" "storageProviderRequired (rc_Selection demo_role_config)"
    by code_simp+
  moreover have "rc_StorageTargets demo_role_config \<noteq> [] \<longrightarrow> target_Resolve (rc_StorageTargets demo_role_config) ''media'' =
      Some \<lparr>tg_Provider = ''default'', tg_Bucket = ''m-1'', tg_ReadOnly = False\<rparr>"
    by code_simp
  ultimately show ?thesis
    using ready_can_serve [OF prod.collapse [symmetric], of new_response demo_role_config demo_role_context
        demo_decoded demo_role_request 0] by blast
qed

text \<open>
  Registering the routes of a parsed configuration never panics: whatever the two settings that parsed, the
  patterns that the runtime registers for the selected roles and capabilities are pairwise different, from one
  another and from those of the system routes.
\<close>

theorem parsed_routes_distinct:
  assumes "ParseRoles raw_roles = Inr roles" "ParseCapabilities roles raw_caps = Inr caps"
    and "rc_Selection cfg = \<lparr>Roles = roles, Capabilities = caps\<rparr>"
  shows "distinct (map fst (runtime_routes cfg))"
proof -
  have ok: "selection_ok (rc_Selection cfg)"
    "\<forall>r \<in> set (Roles (rc_Selection cfg)). distinct (caps_of (Capabilities (rc_Selection cfg)) r)"
    using parsed_selection_ok [OF assms(1,2)] by (simp_all add: assms(3))
  have pairs: "distinct (selected_pairs (rc_Selection cfg))"
    "set (selected_pairs (rc_Selection cfg)) \<subseteq> set all_capabilities"
    using selected_pairs_ok [OF ok] by blast+
  have all: "distinct (concat (map patterns_of all_capabilities))" "distinct all_capabilities"
    "distinct [''GET /health/live'', ''GET /health/ready'', ''GET /runtime'']"
    "set [''GET /health/live'', ''GET /health/ready'', ''GET /runtime''] \<inter>
       set (concat (map patterns_of all_capabilities)) = {}"
    using all_patterns_distinct unfolding distinct_append by blast+
  have "distinct (concat (map patterns_of (selected_pairs (rc_Selection cfg))))"
    by (rule distinct_concat_map_sub [OF all(1) pairs all(2)])
  moreover have "set (concat (map patterns_of (selected_pairs (rc_Selection cfg)))) \<subseteq>
      set (concat (map patterns_of all_capabilities))"
    unfolding set_concat set_map using pairs(2) by blast
  ultimately show ?thesis
    unfolding runtime_patterns distinct_append using all(3,4) by blast
qed

theorem parsed_routes_distinct_witness:
  "\<exists>roles caps. ParseRoles ''storage,websocket'' = Inr roles \<and> ParseCapabilities roles '''' = Inr caps \<and>
     distinct (map fst (runtime_routes (demo_role_config\<lparr>rc_Selection := \<lparr>Roles = roles, Capabilities = caps\<rparr>\<rparr>)))"
proof -
  have roles: "ParseRoles ''storage,websocket'' = Inr [''storage'', ''websocket'']"
    by code_simp
  have caps: "ParseCapabilities [''storage'', ''websocket''] '''' = Inr (set_defaults [''storage'', ''websocket''] Map.empty)"
    by (simp add: ParseCapabilities_def)
  from parsed_routes_distinct [OF roles caps,
      of "demo_role_config\<lparr>rc_Selection := \<lparr>Roles = [''storage'', ''websocket''], Capabilities = set_defaults [''storage'', ''websocket''] Map.empty\<rparr>\<rparr>"]
    roles caps show ?thesis by auto
qed

end
