(* ===== verification/AppAPI.thy ===== *)
theory AppAPI
  imports RoleRuntime
begin

text \<open>
  The application routes of the gateway (\<^verbatim>\<open>internal/appapi/handler.go\<close>) and the client of the domain service
  behind them (\<^verbatim>\<open>internal/domainapi\<close>): reading a managed item and presigning an upload, each behind the
  permission check, with the audit events they emit. The outcome of decoding the (size-limited, strict) body is
  an argument.
\<close>

section \<open>Definitions\<close>

subsection \<open>The domain client (domainapi/client.go, adapter.go)\<close>

record managed_item =
  it_ID :: string
  it_Name :: string

type_synonym 'w json_doer =
  "'w call_context \<Rightarrow> string \<Rightarrow> string \<Rightarrow> string \<Rightarrow> 'w \<Rightarrow> 'w \<times> (managed_item option) result"

definition zero_item :: managed_item where
  "zero_item = \<lparr>it_ID = '''', it_Name = ''''\<rparr>"

text \<open>\<open>doJSON\<close> is \<^verbatim>\<open>DoJSON\<close> with a nil body, decoding into a managed item: context, session, method, route.\<close>

definition domain_GetManagedItem ::
  "'w json_doer \<Rightarrow> 'w call_context \<Rightarrow> 'w \<Rightarrow> string \<Rightarrow> string \<Rightarrow> 'w \<times> managed_item result" where
  "domain_GetManagedItem doJSON ctx w sid itemID =
     (case doJSON ctx sid ''GET'' (''/api/managed-items/'' @ itemID) w of
        (w1, Inl e) \<Rightarrow> (w1, Inl e)
      | (w1, Inr None) \<Rightarrow> (w1, Inr zero_item)
      | (w1, Inr (Some it)) \<Rightarrow> (w1, Inr it))"

text \<open>The adapter copies the item of the client into the item of the handler.\<close>

definition AsAppAPI ::
  "('w call_context \<Rightarrow> 'w \<Rightarrow> string \<Rightarrow> string \<Rightarrow> 'w \<times> managed_item result)
   \<Rightarrow> 'w call_context \<Rightarrow> 'w \<Rightarrow> string \<Rightarrow> string \<Rightarrow> 'w \<times> managed_item result" where
  "AsAppAPI get ctx w sid itemID =
     (case get ctx w sid itemID of
        (w1, Inl e) \<Rightarrow> (w1, Inl e)
      | (w1, Inr item) \<Rightarrow> (w1, Inr \<lparr>it_ID = it_ID item, it_Name = it_Name item\<rparr>))"

subsection \<open>The handler\<close>

record 'w api_handler =
  ap_Sessions :: "'w session_store"
  ap_Policy :: "'w evaluator option"
  ap_Domain :: "('w call_context \<Rightarrow> 'w \<Rightarrow> string \<Rightarrow> string \<Rightarrow> 'w \<times> managed_item result) option"
  ap_Storage :: "'w storage_signer option"
  ap_Audit :: "'w audit_sink option"
  ap_Metrics :: "'w meter"
  ap_UploadBucket :: string
  ap_UploadPrefixes :: "string list"
  ap_MaxPresignTTL :: duration

record upload_request =
  uq_ObjectKey :: string
  uq_ContentType :: string
  uq_ExpiresIn :: int

definition api_writeJSON :: "response_writer \<Rightarrow> int \<Rightarrow> json \<Rightarrow> response_writer" where
  "api_writeJSON rw status v =
     Write (WriteHeader (SetHeader rw ''Content-Type'' ''application/json'') status) (Json v)"

definition api_writeError :: "response_writer \<Rightarrow> int \<Rightarrow> string \<Rightarrow> response_writer" where
  "api_writeError rw status code = api_writeJSON rw status (JObj [(''error'', JStr code)])"

definition outboundHTTPStatus :: "goerr \<Rightarrow> int" where
  "outboundHTTPStatus err =
     (case errors_As_outbound err of
        None \<Rightarrow> 502
      | Some (kind, _, _) \<Rightarrow>
          (case kind of
             ErrBadRequest \<Rightarrow> 400 | ErrUnauthorized \<Rightarrow> 401 | ErrForbidden \<Rightarrow> 403 | ErrNotFound \<Rightarrow> 404
           | ErrConflict \<Rightarrow> 409 | ErrRateLimited \<Rightarrow> 429 | ErrUnavailable \<Rightarrow> 503 | ErrUpstream \<Rightarrow> 502))"

definition kind_name :: "error_kind \<Rightarrow> string" where
  "kind_name k =
     (case k of
        ErrBadRequest \<Rightarrow> ''bad_request'' | ErrUnauthorized \<Rightarrow> ''unauthorized'' | ErrForbidden \<Rightarrow> ''forbidden''
      | ErrNotFound \<Rightarrow> ''not_found'' | ErrConflict \<Rightarrow> ''conflict'' | ErrRateLimited \<Rightarrow> ''rate_limited''
      | ErrUnavailable \<Rightarrow> ''unavailable'' | ErrUpstream \<Rightarrow> ''upstream_error'')"

definition writeOutboundError :: "response_writer \<Rightarrow> goerr \<Rightarrow> response_writer" where
  "writeOutboundError rw err =
     (case errors_As_outbound err of
        None \<Rightarrow> api_writeError rw (outboundHTTPStatus err) ''upstream_error''
      | Some (kind, _, _) \<Rightarrow> api_writeError rw (outboundHTTPStatus err) (kind_name kind))"

definition api_sessionID :: "request \<Rightarrow> string option" where
  "api_sessionID r =
     (case rq_Cookies r ''__Host-bff_session'' of
        None \<Rightarrow> None | Some v \<Rightarrow> if v = '''' then None else Some v)"

text \<open>The first prefix that admits a clean key.\<close>

fun prefix_admits :: "string list \<Rightarrow> string \<Rightarrow> bool" where
  "prefix_admits [] cleaned \<longleftrightarrow> False"
| "prefix_admits (p # ps) cleaned \<longleftrightarrow>
     (let q = Trim (TrimSpace p) (CHR ''/'')
      in (q \<noteq> '''' \<and> (cleaned = q \<or> HasPrefix cleaned (q @ ''/''))) \<or> prefix_admits ps cleaned)"

definition api_validateObjectKey :: "string \<Rightarrow> string list \<Rightarrow> string option" where
  "api_validateObjectKey raw0 pfx =
     (let raw = TrimSpace raw0; cleaned = path_Clean raw
      in if raw = '''' \<or> HasPrefix raw ''/'' \<or> Contains raw [CHR 0x5C] then None
         else if cleaned = ''.'' \<or> cleaned = ''..'' \<or> HasPrefix cleaned ''../'' \<or> cleaned \<noteq> raw then None
         else if length pfx = 0 then None
         else if prefix_admits pfx cleaned then Some cleaned else None)"

definition api_emit ::
  "'z world_scheme api_handler \<Rightarrow> request \<Rightarrow> 'z world_scheme \<Rightarrow> string \<Rightarrow> string \<Rightarrow> string \<Rightarrow> string \<Rightarrow> int
   \<Rightarrow> (string \<rightharpoonup> string) \<Rightarrow> 'z world_scheme" where
  "api_emit h r w action tgt resourceID outcome status attrs =
     (case ap_Audit h of
        None \<Rightarrow> w
      | Some snk \<Rightarrow>
          (case NewEvent w action tgt outcome of
             (w1, e0) \<Rightarrow>
               (let e1 = (case cx_Session r of
                            None \<Rightarrow> e0
                          | Some s \<Rightarrow> e0\<lparr>ev_Actor := sess_Subject s, ev_ActorUsername := sess_Username s\<rparr>);
                    e2 = e1\<lparr>ev_ResourceID := resourceID, ev_HTTPStatus := status\<rparr>;
                    e3 = (EnrichAuditEvent r e2)\<lparr>ev_Attributes := attrs\<rparr>
                in fst (snk w1 e3))))"

definition item_json :: "managed_item \<Rightarrow> json" where
  "item_json it = JObj [(''id'', JStr (it_ID it)), (''name'', JStr (it_Name it))]"

text \<open>\<^verbatim>\<open>getManagedItem\<close> is registered only where there is a domain client; \<open>get\<close> is its method.\<close>

definition getManagedItem ::
  "'z world_scheme api_handler
   \<Rightarrow> ('z world_scheme call_context \<Rightarrow> 'z world_scheme \<Rightarrow> string \<Rightarrow> string \<Rightarrow> 'z world_scheme \<times> managed_item result)
   \<Rightarrow> 'z world_scheme call_context \<Rightarrow> 'z world_scheme handler" where
  "getManagedItem h get ctx r w rw =
     (let itemID = TrimSpace (rq_PathValue r ''id'')
      in if itemID = '''' \<or> Contains itemID ''/'' then
           (api_emit h r w ''managed-item.read'' ''managed-item'' itemID ''deny'' 400 [''reason'' \<mapsto> ''invalid_id''],
            api_writeError rw 400 ''invalid_id'')
         else (case api_sessionID r of
             None \<Rightarrow> (w, api_writeError rw 401 ''unauthorized'')
           | Some sid \<Rightarrow>
               (case get ctx w sid itemID of
                  (w1, Inl e) \<Rightarrow>
                    (api_emit h r w1 ''managed-item.read'' ''managed-item'' itemID ''failure'' (outboundHTTPStatus e) Map.empty,
                     writeOutboundError rw e)
                | (w1, Inr it) \<Rightarrow>
                    (api_emit h r w1 ''managed-item.read'' ''managed-item'' itemID ''success'' 200 Map.empty,
                     api_writeJSON rw 200 (item_json it)))))"

text \<open>The lifetime that the handler asks for, and its maximum; the product of \<^verbatim>\<open>int64\<close> values wraps around.\<close>

definition upload_ttl :: "upload_request \<Rightarrow> duration" where
  "upload_ttl q =
     (let ttl = wrap64 (uq_ExpiresIn q * Second) in if ttl \<le> 0 then 5 * Minute else ttl)"

definition upload_max_ttl :: "'w api_handler \<Rightarrow> duration" where
  "upload_max_ttl h = (if ap_MaxPresignTTL h \<le> 0 then 15 * Minute else ap_MaxPresignTTL h)"

text \<open>The operation has no JSON tags: its fields are written under their Go names.\<close>

definition operation_json :: "presigned_operation \<Rightarrow> json" where
  "operation_json op0 =
     JObj [(''URL'', JStr (po_URL op0)), (''Method'', JStr (po_Method op0)),
           (''ExpiresAt'', JTime (po_ExpiresAt op0)), (''Headers'', headers_json (po_Headers op0))]"

definition presignUpload ::
  "'z world_scheme api_handler \<Rightarrow> 'z world_scheme storage_signer \<Rightarrow> 'z world_scheme call_context
   \<Rightarrow> upload_request result \<Rightarrow> 'z world_scheme handler" where
  "presignUpload h signer ctx body r w rw =
     (case body of
        Inl e \<Rightarrow>
          (api_emit h r w ''storage.presign_put'' ''object'' '''' ''deny'' 400 [''reason'' \<mapsto> ''invalid_request''],
           api_writeError rw 400 ''invalid_request'')
      | Inr q \<Rightarrow>
          (case (if TrimSpace (ap_UploadBucket h) = '''' then None
                 else api_validateObjectKey (uq_ObjectKey q) (ap_UploadPrefixes h)) of
             None \<Rightarrow>
               (api_emit h r w ''storage.presign_put'' ''object'' '''' ''deny'' 400 [''reason'' \<mapsto> ''invalid_object_key''],
                api_writeError rw 400 ''invalid_object_key'')
           | Some key \<Rightarrow>
               if upload_max_ttl h < upload_ttl q then
                 (api_emit h r w ''storage.presign_put'' ''object'' key ''deny'' 400 [''reason'' \<mapsto> ''expiry_too_long''],
                  api_writeError rw 400 ''expiry_too_long'')
               else
                 (case sg_PresignPut signer ctx w
                         \<lparr>pr_Bucket = ap_UploadBucket h, pr_ObjectKey = key,
                          pr_ContentType = TrimSpace (uq_ContentType q), pr_ExpiresIn = upload_ttl q\<rparr> of
                    (w1, Inl e) \<Rightarrow>
                      (api_emit h r w1 ''storage.presign_put'' ''object'' key ''failure'' (outboundHTTPStatus e) Map.empty,
                       writeOutboundError rw e)
                  | (w1, Inr op0) \<Rightarrow>
                      (api_emit h r w1 ''storage.presign_put'' ''object'' key ''success'' 200
                         [''bucket'' \<mapsto> ap_UploadBucket h, ''object_key'' \<mapsto> key],
                       api_writeJSON (SetHeader rw ''Cache-Control'' ''no-store'') 200 (operation_json op0)))))"

text \<open>The routes that \<^verbatim>\<open>Register\<close> adds, each behind the permission check with the secure cookie name.\<close>

definition RequirePermissionWithAudit ::
  "string \<Rightarrow> 'z world_scheme session_store \<Rightarrow> 'z world_scheme evaluator option
   \<Rightarrow> 'z world_scheme audit_sink option \<Rightarrow> 'z world_scheme meter
   \<Rightarrow> 'z world_scheme handler \<Rightarrow> 'z world_scheme handler" where
  "RequirePermissionWithAudit permission =
     RequirePermissionWithAuditCookie permission ''__Host-bff_session''"

definition api_Register ::
  "'z world_scheme api_handler \<Rightarrow> 'z world_scheme call_context \<Rightarrow> upload_request result
   \<Rightarrow> (string \<times> 'z world_scheme handler) list" where
  "api_Register h ctx body =
     (case ap_Domain h of
        None \<Rightarrow> []
      | Some get \<Rightarrow>
          [(''GET /api/managed-items/{id}'', RequirePermissionWithAudit ''managed-item.read'' (ap_Sessions h)
              (ap_Policy h) (ap_Audit h) (ap_Metrics h) (getManagedItem h get ctx))]) @
     (case ap_Storage h of
        None \<Rightarrow> []
      | Some signer \<Rightarrow>
          [(''POST /api/storage/upload-url'', RequirePermissionWithAudit ''storage.upload'' (ap_Sessions h)
              (ap_Policy h) (ap_Audit h) (ap_Metrics h) (presignUpload h signer ctx body))])"

section \<open>Lemmas\<close>

lemma AsAppAPI_id: "AsAppAPI get = get"
  by (intro ext) (simp add: AsAppAPI_def split: prod.split sum.split)

subsection \<open>Clean relative paths\<close>

text \<open>
  The stack of the cleaning loop: parent references only at the bottom. \<open>dots_below\<close> is that shape, for
  the stack as it is kept (top first).
\<close>

fun dots_below :: "string list \<Rightarrow> bool" where
  "dots_below [] \<longleftrightarrow> True"
| "dots_below (s # st) \<longleftrightarrow> (if s = ''..'' then set st \<subseteq> {''..''} else dots_below st)"

lemma dots_below_all: "set st \<subseteq> {''..''} \<Longrightarrow> dots_below st"
  by (induction st) auto

lemma dots_below_tl: "dots_below (s # st) \<Longrightarrow> dots_below st"
  by (auto split: if_splits intro: dots_below_all)

lemma dots_below_push: "dots_below (t # ts) \<Longrightarrow> t = ''..'' \<Longrightarrow> dots_below (''..'' # t # ts)"
  by auto

lemma clean_segs_dots: "dots_below st \<Longrightarrow> dots_below (rev (clean_segs False st ss))"
proof (induction ss arbitrary: st)
  case Nil
  then show ?case by simp
next
  case (Cons s ss)
  show ?case
  proof (cases "s = ''..''")
    case True
    with Cons show ?thesis
      by (cases st) (auto intro: dots_below_all split: if_splits)
  next
    case False
    with Cons show ?thesis by auto
  qed
qed

lemma dots_below_rev:
  assumes "dots_below (rev (s # ss))" "s \<noteq> ''..''"
  shows "''..'' \<notin> set (s # ss)"
proof -
  have "''..'' \<notin> set (st @ [s])" if "dots_below (st @ [s])" for st
    using that assms(2) by (induction st) (auto split: if_splits)
  with assms(1) show ?thesis by (metis rev.simps(2) set_rev)
qed

lemma clean_relative_segments:
  assumes "path_Clean p = p" "\<not> HasPrefix p ''/''" "p \<noteq> ''.''" "p \<noteq> ''..''" "\<not> HasPrefix p ''../''"
  shows "\<forall>s \<in> set (Split p (CHR ''/'')). s \<noteq> '''' \<and> s \<noteq> ''.'' \<and> s \<noteq> ''..''"
proof -
  define segs where "segs = clean_segs False [] (Split p (CHR ''/''))"
  have "p \<noteq> []"
    using assms(1) by (auto simp: path_Clean_def)
  moreover have "hd p \<noteq> CHR ''/''"
    using assms(2) \<open>p \<noteq> []\<close> by (cases p) (auto simp: HasPrefix_def)
  ultimately have p: "segs \<noteq> []" "join_path segs = p"
    using assms(1,3) by (auto simp: path_Clean_def segs_def Let_def split: if_splits)
  have seg: "s \<noteq> []" "s \<noteq> ''.''" "CHR ''/'' \<notin> set s" if "s \<in> set segs" for s
    using that clean_segs_from [of s False "[]" "Split p (CHR ''/'')"] clean_segs_Split [of s False p]
    by (auto simp: segs_def)
  then have split: "Split p (CHR ''/'') = segs"
    using Split_join_path [OF p(1)] p(2) by auto
  obtain s ss where ss: "segs = s # ss" using p(1) by (cases segs) auto
  have "s \<noteq> ''..''"
  proof
    assume "s = ''..''"
    with ss p(2) assms(4,5) show False
      by (cases ss) (auto simp: HasPrefix_def)
  qed
  moreover have "dots_below (rev segs)"
    unfolding segs_def by (rule clean_segs_dots) simp
  ultimately have "''..'' \<notin> set segs"
    using dots_below_rev [of s ss] by (simp add: ss)
  with seg split show ?thesis by auto
qed

lemma Split_append: "Split (q @ CHR ''/'' # t) (CHR ''/'') = Split q (CHR ''/'') @ Split t (CHR ''/'')"
proof (induction q)
  case Nil
  then show ?case by simp
next
  case (Cons x q)
  then show ?case by (cases "Split q (CHR ''/'')") auto
qed

lemma prefix_admits_segments:
  assumes "prefix_admits ps key"
  shows "\<exists>p \<in> set ps. Trim (TrimSpace p) (CHR ''/'') \<noteq> '''' \<and>
    prefix (Split (Trim (TrimSpace p) (CHR ''/'')) (CHR ''/'')) (Split key (CHR ''/''))"
  using assms
proof (induction ps)
  case Nil
  then show ?case by simp
next
  case (Cons p ps)
  define q where "q = Trim (TrimSpace p) (CHR ''/'')"
  show ?case
  proof (cases "q \<noteq> '''' \<and> (key = q \<or> HasPrefix key (q @ ''/''))")
    case True
    then have "prefix (Split q (CHR ''/'')) (Split key (CHR ''/''))"
      by (auto simp: HasPrefix_iff prefix_def Split_append)
    with True show ?thesis by (auto simp: q_def)
  next
    case False
    with Cons show ?thesis by (auto simp: q_def Let_def)
  qed
qed

lemma api_validateObjectKey_ok:
  assumes "api_validateObjectKey raw ps = Some key"
  shows "key = TrimSpace raw" "CHR 0x5C \<notin> set key"
    "\<forall>s \<in> set (Split key (CHR ''/'')). s \<noteq> '''' \<and> s \<noteq> ''.'' \<and> s \<noteq> ''..''"
    "\<exists>p \<in> set ps. Trim (TrimSpace p) (CHR ''/'') \<noteq> '''' \<and>
       prefix (Split (Trim (TrimSpace p) (CHR ''/'')) (CHR ''/'')) (Split key (CHR ''/''))"
proof -
  have key: "key = TrimSpace raw" "path_Clean key = key" "\<not> HasPrefix key ''/''" "\<not> Contains key [CHR 0x5C]"
    "key \<noteq> ''.''" "key \<noteq> ''..''" "\<not> HasPrefix key ''../''" "prefix_admits ps key"
    using assms unfolding api_validateObjectKey_def Let_def by (simp_all split: if_splits)
  then show "key = TrimSpace raw" by simp
  show "CHR 0x5C \<notin> set key"
    using key(4) by (simp only: Contains_iff sublist_singleton not_False_eq_True)
  show "\<forall>s \<in> set (Split key (CHR ''/'')). s \<noteq> '''' \<and> s \<noteq> ''.'' \<and> s \<noteq> ''..''"
    by (rule clean_relative_segments [OF key(2,3,5,6,7)])
  show "\<exists>p \<in> set ps. Trim (TrimSpace p) (CHR ''/'') \<noteq> '''' \<and>
       prefix (Split (Trim (TrimSpace p) (CHR ''/'')) (CHR ''/'')) (Split key (CHR ''/''))"
    by (rule prefix_admits_segments [OF key(8)])
qed

lemma outboundHTTPStatus_error: "400 \<le> outboundHTTPStatus e"
  by (auto simp: outboundHTTPStatus_def split: option.splits error_kind.splits)

lemma api_writeJSON_status [simp]:
  "rw_Status (api_writeJSON rw c v) = (if rw_Status rw = 0 then (if c = 0 then 200 else c) else rw_Status rw)"
  "rw_Status (api_writeError rw c m) = (if rw_Status rw = 0 then (if c = 0 then 200 else c) else rw_Status rw)"
  by (simp_all add: api_writeJSON_def api_writeError_def)

lemma writeOutboundError_status:
  "rw_Status rw = 0 \<Longrightarrow> rw_Status (writeOutboundError rw e) = outboundHTTPStatus e"
  using outboundHTTPStatus_error [of e] by (auto simp: writeOutboundError_def split: option.splits)

lemma upload_ttl_pos: "0 < upload_ttl q"
  by (simp add: upload_ttl_def Let_def)

section \<open>Properties\<close>

text \<open>
  C34. An upload grant stays inside the configured prefixes: when the handler answers 200, the body was valid,
  the signer was asked once, for the configured bucket, with a lifetime that is positive and at most the maximum,
  and for a key none of whose path segments is empty, a dot or two dots, without backslash, and whose segments
  start with those of one of the configured prefixes.
\<close>

theorem upload_grant_confined:
  assumes "presignUpload h signer ctx body r w rw = (w', rw')" "rw_Status rw = 0" "rw_Status rw' = 200"
  shows "\<exists>q key w1 op0. body = Inr q \<and> key = TrimSpace (uq_ObjectKey q) \<and>
    sg_PresignPut signer ctx w \<lparr>pr_Bucket = ap_UploadBucket h, pr_ObjectKey = key,
      pr_ContentType = TrimSpace (uq_ContentType q), pr_ExpiresIn = upload_ttl q\<rparr> = (w1, Inr op0) \<and>
    0 < upload_ttl q \<and> upload_ttl q \<le> upload_max_ttl h \<and> CHR 0x5C \<notin> set key \<and>
    (\<forall>s \<in> set (Split key (CHR ''/'')). s \<noteq> '''' \<and> s \<noteq> ''.'' \<and> s \<noteq> ''..'') \<and>
    (\<exists>p \<in> set (ap_UploadPrefixes h). Trim (TrimSpace p) (CHR ''/'') \<noteq> '''' \<and>
       prefix (Split (Trim (TrimSpace p) (CHR ''/'')) (CHR ''/'')) (Split key (CHR ''/'')))"
proof -
  have no: "rw_Status (writeOutboundError rw e) \<noteq> 200" for e
    using writeOutboundError_status [OF assms(2)] outboundHTTPStatus_error [of e] by simp
  obtain q where q: "body = Inr q"
    using assms by (cases body) (auto simp: presignUpload_def)
  obtain key where key: "api_validateObjectKey (uq_ObjectKey q) (ap_UploadPrefixes h) = Some key"
    "TrimSpace (ap_UploadBucket h) \<noteq> ''''"
    using assms q by (cases "api_validateObjectKey (uq_ObjectKey q) (ap_UploadPrefixes h)")
      (auto simp: presignUpload_def split: if_splits)
  have ttl: "upload_ttl q \<le> upload_max_ttl h"
    using assms q key by (auto simp: presignUpload_def split: if_splits)
  obtain w1 res where put: "sg_PresignPut signer ctx w \<lparr>pr_Bucket = ap_UploadBucket h, pr_ObjectKey = key,
      pr_ContentType = TrimSpace (uq_ContentType q), pr_ExpiresIn = upload_ttl q\<rparr> = (w1, res)"
    by fastforce
  have "\<exists>op0. res = Inr op0"
  proof (cases res)
    case (Inl e)
    with assms(1) q key ttl put have "rw' = writeOutboundError rw e"
      by (auto simp: presignUpload_def)
    with no assms(3) show ?thesis by simp
  qed blast
  then obtain op0 where op0: "res = Inr op0" ..
  note ok = api_validateObjectKey_ok [OF key(1)]
  show ?thesis
    by (rule exI [of _ q], rule exI [of _ key], rule exI [of _ w1], rule exI [of _ op0])
      (intro conjI q ok ttl upload_ttl_pos put [unfolded op0])
qed

definition demo_api :: "front_world api_handler" where
  "demo_api =
     \<lparr>ap_Sessions = MemoryStore, ap_Policy = None, ap_Domain = None, ap_Storage = None,
      ap_Audit = Some MemorySink_Append, ap_Metrics = None, ap_UploadBucket = ''uploads'',
      ap_UploadPrefixes = [''users/u1/''], ap_MaxPresignTTL = 0\<rparr>"

definition demo_api_signer :: "front_world storage_signer" where
  "demo_api_signer =
     \<lparr>sg_PresignPut = (\<lambda>ctx w q. (w, Inr zero_operation)), sg_PresignGet = (\<lambda>ctx w q. (w, Inr zero_operation)),
      sg_Multipart = None, sg_Metadata = None\<rparr>"

definition demo_api_context :: "front_world call_context" where
  "demo_api_context = \<lparr>cc_RequestID = '''', cc_TraceID = '''', cc_Err = (\<lambda>w. None)\<rparr>"

definition demo_upload :: upload_request where
  "demo_upload = \<lparr>uq_ObjectKey = ''users/u1/a.pdf'', uq_ContentType = '''', uq_ExpiresIn = 60\<rparr>"

theorem upload_grant_confined_witness:
  "rw_Status (snd (presignUpload demo_api demo_api_signer demo_api_context (Inr demo_upload) demo_user_request
       demo_front new_response)) = 200 \<and>
   ''..'' \<notin> set (Split ''users/u1/a.pdf'' (CHR ''/''))"
proof -
  let ?out = "presignUpload demo_api demo_api_signer demo_api_context (Inr demo_upload) demo_user_request
       demo_front new_response"
  have status: "rw_Status (snd ?out) = 200" and new: "rw_Status new_response = 0"
    and key: "TrimSpace (uq_ObjectKey demo_upload) = ''users/u1/a.pdf''"
    by code_simp+
  from upload_grant_confined [OF prod.collapse [symmetric] new status] key status show ?thesis
    by auto
qed

end
