(* ===== verification/Startup.thy ===== *)
theory Startup
  imports AppConfig AppAPI
begin

text \<open>
  The start of a process from its configuration (\<^verbatim>\<open>internal/app/app.go\<close>): the specialised role runtimes, that is
  the branch of \<^verbatim>\<open>RunWith\<close> for processes without the role \<^verbatim>\<open>rebff\<close>.
\<close>

section \<open>Definitions\<close>

subsection \<open>Starting a role runtime\<close>

text \<open>
  What starting takes from outside: the HTTP transport for a base URL and a timeout, waiting, the codecs of the
  signer and of the policy service, and OpenID discovery.
\<close>

record 'w start_lib =
  st_dial :: "url \<Rightarrow> duration \<Rightarrow> 'w \<Rightarrow> out_request \<Rightarrow> 'w \<times> out_response result"
  st_wait :: "'w \<Rightarrow> duration \<Rightarrow> 'w"
  st_signer :: signer_codec
  st_policy :: policy_codec
  st_discover :: "'w \<Rightarrow> string \<Rightarrow> 'w \<times> (string \<Rightarrow> 'w token_verifier) result"

text \<open>\<^verbatim>\<open>outbound.New\<close>; no token source is set.\<close>

definition outbound_New :: "'w start_lib \<Rightarrow> string \<Rightarrow> duration \<Rightarrow> 'w client result" where
  "outbound_New lib baseURL timeout =
     (case url_Parse (TrimRight baseURL (CHR ''/'')) of
        None \<Rightarrow> Inl (ErrorString ''outbound base URL must be absolute'')
      | Some u \<Rightarrow>
          if u_Scheme u = '''' \<or> u_Host u = '''' then Inl (ErrorString ''outbound base URL must be absolute'')
          else Inr \<lparr>cl_BasePath = u_Path u, cl_Do = st_dial lib u (if timeout \<le> 0 then 5 * Second else timeout),
                    cl_Tokens = None, cl_MaxRetries = 1, cl_RetryBackoff = 50 * Millisecond,
                    cl_MaxBodyBytes = 2 ^ 20\<rparr>)"

definition remote_signer_for :: "'w start_lib \<Rightarrow> string \<Rightarrow> duration \<Rightarrow> 'w storage_signer result" where
  "remote_signer_for lib base timeout =
     and_then (outbound_New lib base timeout) (\<lambda>client.
     Inr (RemoteSigner (st_wait lib) (st_signer lib) \<lparr>rs_HTTP = Some client, rs_SessionID = None\<rparr>))"

fun start_providers :: "'w start_lib \<Rightarrow> duration \<Rightarrow> provider_map \<Rightarrow> 'w provider_registry result" where
  "start_providers lib timeout [] = Inr []"
| "start_providers lib timeout ((name, p) # ps) =
     and_then (wrap_error (''initialize storage provider '' @ Quote name @ '' signer client'')
       (remote_signer_for lib (pv_SignerBaseURL p) timeout)) (\<lambda>signer.
     and_then (start_providers lib timeout ps) (\<lambda>rest. Inr ((name, Some signer) # rest)))"

definition start_signer :: "'w start_lib \<Rightarrow> config \<Rightarrow> 'w storage_signer option result" where
  "start_signer lib cfg =
     (if HasRole (cfg_Runtime cfg) RoleStorage \<and> sro_SignerBaseURL (cfg_Storage cfg) \<noteq> ''''
      then and_then (wrap_error ''initialize storage signer client''
             (remote_signer_for lib (sro_SignerBaseURL (cfg_Storage cfg)) (sro_SignerTimeout (cfg_Storage cfg))))
             (\<lambda>s. Inr (Some s))
      else Inr None)"

definition start_verifier :: "'w start_lib \<Rightarrow> config \<Rightarrow> 'w \<Rightarrow> 'w \<times> 'w workload_verifier option result" where
  "start_verifier lib cfg w =
     (let a = sro_WorkloadAuth (cfg_Storage cfg)
      in if HasRole (cfg_Runtime cfg) RoleStorage \<and> wa_Mode a = ''oidc''
         then (case NewOIDC (st_discover lib) w \<lparr>wc_Issuer = wa_Issuer a, wc_Audience = wa_Audience a\<rparr> of
             (w1, Inl e) \<Rightarrow> (w1, Inl (ErrWrapped ''initialize storage workload verifier'' e))
           | (w1, Inr v) \<Rightarrow> (w1, Inr (Some (OIDCVerifier_Verify v))))
         else (w, Inr None))"

definition start_policy :: "'w start_lib \<Rightarrow> config \<Rightarrow> 'w access_evaluator option result" where
  "start_policy lib cfg =
     (if HasRole (cfg_Runtime cfg) RoleStorage \<and> sro_AccessPolicyURL (cfg_Storage cfg) \<noteq> ''''
      then and_then (wrap_error ''initialize storage access policy client''
             (outbound_New lib (sro_AccessPolicyURL (cfg_Storage cfg)) (sro_AccessPolicyTimeout (cfg_Storage cfg))))
             (\<lambda>client. Inr (Some (Remote_Authorize (st_wait lib) (st_policy lib) (Some client))))
      else Inr None)"

text \<open>The configuration that \<^verbatim>\<open>roleruntime.Run\<close> gets, or the error with which the process ends.\<close>

definition role_runtime_config :: "'w start_lib \<Rightarrow> config \<Rightarrow> 'w \<Rightarrow> 'w \<times> 'w role_config result" where
  "role_runtime_config lib cfg w =
     (case start_signer lib cfg of
        Inl e \<Rightarrow> (w, Inl e)
      | Inr signer \<Rightarrow>
          (case (if HasRole (cfg_Runtime cfg) RoleStorage
                 then start_providers lib (sro_SignerTimeout (cfg_Storage cfg)) (sro_Providers (cfg_Storage cfg))
                 else Inr []) of
             Inl e \<Rightarrow> (w, Inl e)
           | Inr providers \<Rightarrow>
               (case start_verifier lib cfg w of
                  (w1, Inl e) \<Rightarrow> (w1, Inl e)
                | (w1, Inr verifier) \<Rightarrow>
                    (w1, and_then (start_policy lib cfg) (\<lambda>access.
                       Inr \<lparr>rc_BasePath = NormalizedBasePath (cfg_HTTP cfg), rc_Selection = cfg_Runtime cfg,
                            rc_StorageSigner = signer, rc_StorageProviders = providers,
                            rc_StorageDefaultTTL = sro_DefaultTTL (cfg_Storage cfg),
                            rc_StorageMaxTTL = sro_MaxTTL (cfg_Storage cfg),
                            rc_StorageTargets = sro_Targets (cfg_Storage cfg), rc_StorageAccessPolicy = access,
                            rc_StorageSubjectHeader = sro_SubjectHeader (cfg_Storage cfg),
                            rc_WorkloadVerifier = verifier,
                            rc_WorkloadAuthRequired = wa_Required (sro_WorkloadAuth (cfg_Storage cfg))\<rparr>)))))"

section \<open>Lemmas\<close>

subsection \<open>Trailing slashes of a URL\<close>

lemma hex_value_slash [simp]: "hex_value CHR ''/'' = None"
  by code_simp

lemma unescape_slash: "unescape (s @ ''/'') = Some t \<Longrightarrow> \<exists>t'. unescape s = Some t'"
proof (induction s arbitrary: t rule: unescape.induct)
  case (2 c s)
  show ?case
  proof (cases "c = CHR ''%''")
    case True
    show ?thesis
    proof (cases s rule: remdups_adj.cases)
      case 1
      with 2 True show ?thesis by simp
    next
      case (2 a)
      with "2.prems" True show ?thesis by (auto split: option.splits)
    next
      case (3 a b s')
      with "2.prems" "2.IH"(1) True show ?thesis by (fastforce split: option.splits)
    qed
  next
    case False
    with 2 show ?thesis by auto
  qed
qed simp

lemma getScheme_from_slash:
  "getScheme_from seen (s @ ''/'') = Some (sch, rest) \<Longrightarrow> sch \<noteq> [] \<Longrightarrow>
     \<exists>r. rest = r @ ''/'' \<and> getScheme_from seen s = Some (sch, r)"
proof (induction seen s rule: getScheme_from.induct)
  case (1 seen)
  have "\<not> is_alpha CHR ''/''" "\<not> is_digit CHR ''/''" by code_simp+
  with 1 show ?case by simp
next
  case (2 seen c s)
  consider "is_alpha c" | "\<not> is_alpha c" "is_digit c \<or> c \<in> set ''+-.''"
    | "\<not> is_alpha c" "\<not> (is_digit c \<or> c \<in> set ''+-.'')" "c = CHR '':''"
    | "\<not> is_alpha c" "\<not> (is_digit c \<or> c \<in> set ''+-.'')" "c \<noteq> CHR '':''"
    by blast
  then show ?case
  proof cases
    case 1
    with 2 show ?thesis by simp
  next
    case c: 2
    with 2 show ?thesis by (simp del: list.set split: if_splits)
  next
    case c: 3
    then have "getScheme_from seen (c # s) = (if seen = [] then None else Some (rev seen, s))"
      "getScheme_from seen (c # s @ ''/'') = (if seen = [] then None else Some (rev seen, s @ ''/''))"
      by (simp_all del: list.set)
    with 2 show ?thesis by (simp split: if_splits)
  next
    case c: 4
    with 2 show ?thesis by (simp del: list.set)
  qed
qed


text \<open>A slash at the end of the rest changes neither its authority nor whether its path can be decoded.\<close>

lemma rest_slash:
  assumes eq: "fst (Cut (r @ ''/'') (CHR ''?'')) = b" and "HasPrefix b ''//''"
    and "parseAuthority (rest_auth b) = Some h" "h \<noteq> []" "unescape (rest_path b) \<noteq> None"
  shows "HasPrefix (fst (Cut r (CHR ''?''))) ''//'' \<and> rest_auth (fst (Cut r (CHR ''?''))) = rest_auth b \<and>
    unescape (rest_path (fst (Cut r (CHR ''?'')))) \<noteq> None"
proof (cases "CHR ''?'' \<in> set r")
  case True
  with assms show ?thesis by (auto simp: Cut_append)
next
  case False
  with eq have b: "b = r @ ''/''" "fst (Cut r (CHR ''?'')) = r" by (simp_all add: Cut_append Cut_absent)
  have "parseAuthority [] = Some []" by code_simp
  with assms(3,4) have "rest_auth (r @ ''/'') \<noteq> []" unfolding b(1) by auto
  then obtain x where x: "r = ''//'' @ x" "x \<noteq> []"
    using assms(2) b(1) by (cases r; cases "tl r"; cases "tl (tl r)") (auto simp: HasPrefix_def rest_auth_def)
  have "rest_auth r = rest_auth (r @ ''/'') \<and> unescape (rest_path r) \<noteq> None"
    using assms(5) unescape_slash [of "rest_path r"] unfolding b(1)
    by (cases "CHR ''/'' \<in> set x") (auto simp: x rest_auth_def rest_path_def Cut_append Cut_absent)
  then show ?thesis unfolding b using x by (simp add: HasPrefix_def)
qed

lemma parse_noFragment_slash:
  assumes "parse_noFragment (t @ ''/'') = Some u" "u_Scheme u \<noteq> []" "u_Host u \<noteq> []"
  shows "\<exists>u'. parse_noFragment t = Some u' \<and> u_Scheme u' = u_Scheme u \<and> u_Host u' = u_Host u"
  using assms
proof (rule parse_noFragment_absoluteD)
  fix s r0
  assume ctl: "\<not> list_ex is_ctl (t @ ''/'')" and gs: "getScheme (t @ ''/'') = Some (s, r0)" and s: "s \<noteq> []"
    and u: "u_Scheme u = ToLower s"
    and pre: "HasPrefix (fst (Cut r0 (CHR ''?''))) ''//''"
    and host: "parseAuthority (rest_auth (fst (Cut r0 (CHR ''?'')))) = Some (u_Host u)"
    and path: "unescape (rest_path (fst (Cut r0 (CHR ''?'')))) = Some (u_Path u)"
  from gs s obtain r where r: "r0 = r @ ''/''" "getScheme t = Some (s, r)"
    using getScheme_from_slash unfolding getScheme_def by blast
  have "getScheme ''*'' = Some ([], ''*'')" by code_simp
  with r(2) s have t: "t \<noteq> ''*''" by auto
  note rest = rest_slash [OF arg_cong [OF r(1) [symmetric], of "\<lambda>x. fst (Cut x (CHR ''?''))"] pre host assms(3)]
  with path obtain q where "unescape (rest_path (fst (Cut r (CHR ''?'')))) = Some q" by auto
  then show ?thesis
    using parse_noFragment_absolute [OF _ t r(2) s, of "u_Host u" q] rest path host ctl u by (auto simp: r(1))
qed

lemma url_slash:
  assumes "url_Parse (t @ ''/'') = Some u" "u_Scheme u \<noteq> []" "u_Host u \<noteq> []"
  shows "\<exists>u'. url_Parse t = Some u' \<and> u_Scheme u' = u_Scheme u \<and> u_Host u' = u_Host u"
proof (cases "CHR ''#'' \<in> set t")
  case True
  then have cut: "Cut (t @ ''/'') (CHR ''#'') = (fst (Cut t (CHR ''#'')), fst (snd (Cut t (CHR ''#''))) @ ''/'', True)"
    by (simp add: Cut_append)
  from assms(1) obtain r where r: "parse_noFragment (fst (Cut t (CHR ''#''))) = Some r" "u_Scheme r = u_Scheme u"
    "u_Host r = u_Host u" and "unescape (fst (snd (Cut t (CHR ''#''))) @ ''/'') \<noteq> None"
    by (auto simp: url_Parse_def cut setFragment_def split: option.splits)
  with unescape_slash [of "fst (snd (Cut t (CHR ''#'')))"] have "unescape (fst (snd (Cut t (CHR ''#'')))) \<noteq> None" by auto
  from url_Parse_fragment [OF r(1) this] r(2,3) show ?thesis by auto
next
  case False
  then have "parse_noFragment (t @ ''/'') = Some u"
    using assms(1) by (auto simp: url_Parse_def Cut_append case_prod_beta split: option.splits)
  from parse_noFragment_slash [OF this assms(2,3)] False show ?thesis
    by (auto simp: url_Parse_def Cut_absent)
qed

lemma url_TrimRight:
  assumes "url_Parse s = Some u" "u_Scheme u \<noteq> []" "u_Host u \<noteq> []"
  shows "\<exists>u'. url_Parse (TrimRight s (CHR ''/'')) = Some u' \<and> u_Scheme u' = u_Scheme u \<and> u_Host u' = u_Host u"
  using assms
proof (induction s arbitrary: u rule: rev_induct)
  case Nil
  then show ?case by (simp add: TrimRight_def TrimLeft_def)
next
  case (snoc c s)
  show ?case
  proof (cases "c = CHR ''/''")
    case True
    with snoc.prems url_slash [of s u] obtain u' where "url_Parse s = Some u'" "u_Scheme u' = u_Scheme u" "u_Host u' = u_Host u"
      by auto
    with snoc.IH [of u'] snoc.prems True show ?thesis by (auto simp: TrimRight_def TrimLeft_def)
  next
    case False
    with snoc.prems show ?thesis by (simp add: TrimRight_def TrimLeft_def)
  qed
qed

lemma absolute_url_TrimRight: "absolute_url s \<Longrightarrow> absolute_url (TrimRight s (CHR ''/''))"
  using url_TrimRight [of s] by (fastforce simp: absolute_url_def split: option.splits)

subsection \<open>Starting\<close>

lemma outbound_New_ok: "absolute_url base \<Longrightarrow> \<exists>c. outbound_New lib base timeout = Inr c"
  using absolute_url_TrimRight [of base]
  by (auto simp: absolute_url_def outbound_New_def split: option.splits)

definition full_signer :: "'w storage_signer \<Rightarrow> bool" where
  "full_signer s \<longleftrightarrow> sg_Multipart s \<noteq> None \<and> sg_Metadata s \<noteq> None"

lemma full_signer_supports: "full_signer s \<Longrightarrow> signer_supports cfg s = None"
  by (simp add: full_signer_def signer_supports_def)

lemma remote_signer_for_ok:
  "absolute_url base \<Longrightarrow> \<exists>s. remote_signer_for lib base timeout = Inr s \<and> full_signer s"
  using outbound_New_ok [of base lib timeout]
  by (auto simp: remote_signer_for_def full_signer_def RemoteSigner_def)

lemma start_providers_ok:
  "\<forall>np \<in> set ps. absolute_url (pv_SignerBaseURL (snd np)) \<Longrightarrow>
   \<exists>reg. start_providers lib timeout ps = Inr reg \<and> (reg = [] \<longleftrightarrow> ps = []) \<and>
     (\<forall>k. map_of ps k \<noteq> None \<longrightarrow> (\<exists>s. map_of reg k = Some (Some s) \<and> full_signer s))"
proof (induction ps)
  case (Cons np ps)
  obtain name p where np: "np = (name, p)" by (cases np)
  from Cons obtain reg where reg: "start_providers lib timeout ps = Inr reg"
    "\<forall>k. map_of ps k \<noteq> None \<longrightarrow> (\<exists>s. map_of reg k = Some (Some s) \<and> full_signer s)" by auto
  from Cons.prems np obtain s where s: "remote_signer_for lib (pv_SignerBaseURL p) timeout = Inr s" "full_signer s"
    using remote_signer_for_ok by fastforce
  show ?case
    using reg s by (auto simp: np)
qed simp

lemma start_signer_ok:
  assumes "sro_SignerBaseURL (cfg_Storage cfg) \<noteq> '''' \<Longrightarrow> absolute_url (sro_SignerBaseURL (cfg_Storage cfg))"
    and "HasRole (cfg_Runtime cfg) RoleStorage"
  shows "\<exists>s. start_signer lib cfg = Inr s \<and>
    (sro_SignerBaseURL (cfg_Storage cfg) \<noteq> '''' \<longrightarrow> (\<exists>t. s = Some t \<and> full_signer t))"
proof (cases "sro_SignerBaseURL (cfg_Storage cfg) = ''''")
  case False
  from remote_signer_for_ok [OF assms(1) [OF False], of lib "sro_SignerTimeout (cfg_Storage cfg)"] False assms(2)
  show ?thesis by (auto simp: start_signer_def)
qed (simp add: start_signer_def)

lemma start_policy_ok:
  assumes "sro_AccessPolicyURL (cfg_Storage cfg) \<noteq> '''' \<Longrightarrow> absolute_url (sro_AccessPolicyURL (cfg_Storage cfg))"
    and "HasRole (cfg_Runtime cfg) RoleStorage"
  shows "\<exists>p. start_policy lib cfg = Inr p \<and> (sro_AccessPolicyURL (cfg_Storage cfg) \<noteq> '''' \<longrightarrow> p \<noteq> None)"
proof (cases "sro_AccessPolicyURL (cfg_Storage cfg) = ''''")
  case False
  from outbound_New_ok [OF assms(1) [OF False], of lib "sro_AccessPolicyTimeout (cfg_Storage cfg)"] False assms(2)
  show ?thesis by (auto simp: start_policy_def)
qed (simp add: start_policy_def)

text \<open>Discovery of the issuer succeeds.\<close>

definition discovers :: "'w start_lib \<Rightarrow> string \<Rightarrow> bool" where
  "discovers lib issuer \<longleftrightarrow> (\<forall>w. \<exists>w' p. st_discover lib w (TrimRight (TrimSpace issuer) (CHR ''/'')) = (w', Inr p))"

lemma start_verifier_ok:
  assumes "validate_workload (sro_WorkloadAuth (cfg_Storage cfg)) = None" "HasRole (cfg_Runtime cfg) RoleStorage"
    and "discovers lib (wa_Issuer (sro_WorkloadAuth (cfg_Storage cfg)))"
  shows "\<exists>w' v. start_verifier lib cfg w = (w', Inr v) \<and>
    (wa_Required (sro_WorkloadAuth (cfg_Storage cfg)) \<longrightarrow> v \<noteq> None)"
proof (cases "wa_Mode (sro_WorkloadAuth (cfg_Storage cfg)) = ''oidc''")
  case True
  obtain w' p where
    "st_discover lib w (TrimRight (TrimSpace (wa_Issuer (sro_WorkloadAuth (cfg_Storage cfg)))) (CHR ''/'')) = (w', Inr p)"
    using assms(3) unfolding discovers_def by blast
  with True assms(2) validate_workload_oidc [OF assms(1) True] show ?thesis
    by (simp add: start_verifier_def NewOIDC_def Let_def)
next
  case False
  with validate_workload_required [OF assms(1)] show ?thesis
    by (auto simp: start_verifier_def Let_def)
qed

lemma providers_loop_ok:
  "(\<And>n. n \<in> set ns \<Longrightarrow> \<exists>s. provider_Resolve (rc_StorageProviders rc) n = Some (Some s) \<and> full_signer s) \<Longrightarrow>
   providers_loop rc ns = None"
  by (induction ns) (fastforce simp: full_signer_supports)+

text \<open>What must hold of the parts for the process to report itself ready.\<close>

lemma serve_ready_ok:
  assumes "rc_WorkloadAuthRequired rc \<longrightarrow> rc_WorkloadVerifier rc \<noteq> None"
    and "rc_StorageTargets rc \<noteq> [] \<longrightarrow> rc_StorageAccessPolicy rc \<noteq> None"
    and "rc_StorageProviders rc = [] \<Longrightarrow> \<exists>s. rc_StorageSigner rc = Some s \<and> full_signer s"
    and "\<And>n. rc_StorageProviders rc \<noteq> [] \<Longrightarrow> n \<in> set (provider_names rc) \<Longrightarrow>
       \<exists>s. provider_Resolve (rc_StorageProviders rc) n = Some (Some s) \<and> full_signer s"
    and "rw_Status rw = 0"
  shows "rw_Status (snd (serve_ready rc ctx bd r w rw)) = 200"
proof -
  have "validateStorageProvidersReady rc = None"
    using assms(3,4) providers_loop_ok [of "provider_names rc" rc]
    by (auto simp: validateStorageProvidersReady_def full_signer_supports)
  with assms(1,2,5) show ?thesis
    by (auto simp: serve_ready_def Let_def)
qed

text \<open>The providers of a loaded configuration all start, and are found under their names.\<close>

lemma start_providers_loaded:
  assumes "LoadConfig clib env = Inr cfg" "decodes_maps clib" "validate_storage cfg = None" "storageConfigured cfg"
  shows "\<exists>reg. start_providers lib timeout (sro_Providers (cfg_Storage cfg)) = Inr reg \<and>
    (reg = [] \<longleftrightarrow> sro_Providers (cfg_Storage cfg) = []) \<and>
    (\<forall>n. map_of (sro_Providers (cfg_Storage cfg)) n \<noteq> None \<longrightarrow>
       (\<exists>s. provider_Resolve reg n = Some (Some s) \<and> full_signer s))"
proof -
  let ?ps = "sro_Providers (cfg_Storage cfg)"
  note load = LoadConfig_parts(3) [OF assms(1)]
  have named: "provider_ok n p" if "map_of ?ps n = Some p" for n p
    by (rule load_storage_provider [OF load that])
  have "\<forall>np \<in> set ?ps. absolute_url (pv_SignerBaseURL (snd np))"
  proof
    fix np assume np: "np \<in> set ?ps"
    with load_storage_distinct [OF assms(2) load] have "provider_ok (fst np) (snd np)"
      using named by (metis map_of_eq_Some_iff prod.collapse)
    with validate_storage_parts(5) [OF assms(3,4) np] show "absolute_url (pv_SignerBaseURL (snd np))"
      by (simp add: check_provider_def provider_ok_def Let_def)
  qed
  from start_providers_ok [OF this, of lib timeout] obtain reg where
    reg: "start_providers lib timeout ?ps = Inr reg" "reg = [] \<longleftrightarrow> ?ps = []"
    "\<And>n. map_of ?ps n \<noteq> None \<Longrightarrow> \<exists>s. map_of reg n = Some (Some s) \<and> full_signer s"
    by blast
  moreover have "TrimSpace n = n" if "map_of ?ps n \<noteq> None" for n
    using that named by (auto simp: provider_ok_def)
  ultimately show ?thesis by (auto simp: provider_Resolve_def)
qed

section \<open>Properties\<close>



definition demo_start :: "nat start_lib" where
  "demo_start = \<lparr>st_dial = (\<lambda>_ _ w _. (w, Inl (ExternalError ''connection refused''))), st_wait = (\<lambda>w _. w),
     st_signer = \<lparr>sc_marshal = (\<lambda>_. Inr ''{}''), sc_presign = (\<lambda>_. Inl (ExternalError ''json'')),
       sc_initiate = (\<lambda>_. Inl (ExternalError ''json'')), sc_complete = (\<lambda>_. Inl (ExternalError ''json'')),
       sc_metadata = (\<lambda>_. Inl (ExternalError ''json''))\<rparr>,
     st_policy = \<lparr>ac_marshal = (\<lambda>_. Inr ''{}''), ac_decision = (\<lambda>_. Inl (ExternalError ''json''))\<rparr>,
     st_discover = (\<lambda>w _. (w, Inr (\<lambda>_ _ w _. (w, Inl (ExternalError ''bad token'')))))\<rparr>"


end
