(* ===== verification/Core.thy ===== *)
theory Core
  imports Startup
begin

text \<open>
  The interface for applications (\<^verbatim>\<open>core/core.go\<close>): the router on which an application registers its routes behind
  permissions, the JSON client that it calls its services with, and the helpers for its handlers.
\<close>

section \<open>Definitions\<close>

subsection \<open>The router\<close>

record 'w route_deps =
  dp_Sessions :: "'w session_store"
  dp_Policy :: "'w evaluator option"
  dp_Audit :: "'w audit_sink option"
  dp_Metrics :: "'w meter"
  dp_Tokens :: "('w \<Rightarrow> string \<Rightarrow> 'w \<times> string result) option"
  dp_SessionCookieName :: string

record 'w route =
  rt_pattern :: string
  rt_handler :: "'w handler"

record 'w core_router =
  ro_deps :: "'w route_deps"
  ro_routes :: "'w route list"

definition permission_handler ::
  "'z world_scheme route_deps \<Rightarrow> string \<Rightarrow> 'z world_scheme handler \<Rightarrow> 'z world_scheme handler" where
  "permission_handler d permission h =
     (if permission \<noteq> '''' then
        RequirePermissionWithAuditCookie permission (dp_SessionCookieName d) (dp_Sessions d) (dp_Policy d) (dp_Audit d)
          (dp_Metrics d) (BusinessAudit permission (fst (Cut permission (CHR ''.''))) (dp_Audit d) h)
      else h)"

definition Router_Handle ::
  "'z world_scheme core_router \<Rightarrow> string \<Rightarrow> string \<Rightarrow> 'z world_scheme handler \<Rightarrow> 'z world_scheme core_router" where
  "Router_Handle r pattern permission h =
     r\<lparr>ro_routes := ro_routes r @ [\<lparr>rt_pattern = pattern, rt_handler = permission_handler (ro_deps r) permission h\<rparr>]\<rparr>"

text \<open>The mux is the list of its patterns and handlers, as in \<open>api_Register\<close>.\<close>

definition Router_Register :: "'w core_router \<Rightarrow> (string \<times> 'w handler) list \<Rightarrow> (string \<times> 'w handler) list" where
  "Router_Register r mux = mux @ map (\<lambda>rt. (rt_pattern rt, rt_handler rt)) (ro_routes r)"

text \<open>The routes that \<^verbatim>\<open>Run\<close> gives to the gateway for an application.\<close>

definition build_app_routes ::
  "('w core_router \<Rightarrow> 'w core_router result) option \<Rightarrow> 'w route_deps \<Rightarrow> 'w core_router result" where
  "build_app_routes application deps =
     (let r = \<lparr>ro_deps = deps, ro_routes = []\<rparr>
      in case application of None \<Rightarrow> Inr r | Some register \<Rightarrow> register r)"

subsection \<open>The JSON client\<close>

record client_options =
  op_Timeout :: duration
  op_MaxConcurrent :: int
  op_FailureThreshold :: int
  op_OpenFor :: duration

text \<open>
  A client: the three layers, with the place of the mutable state of the outermost one in the world.
\<close>

record 'w json_client =
  jc_client :: "'w client"
  jc_service :: string
  jc_protect :: protect_config
  jc_metrics :: "'w meter"
  jc_guard :: "('w \<Rightarrow> guard_state) \<times> (guard_state \<Rightarrow> 'w \<Rightarrow> 'w)"

definition NewJSONClient ::
  "'w start_lib \<Rightarrow> ('w \<Rightarrow> guard_state) \<times> (guard_state \<Rightarrow> 'w \<Rightarrow> 'w) \<Rightarrow> 'w core_router \<Rightarrow> string \<Rightarrow> string
   \<Rightarrow> client_options \<Rightarrow> 'w json_client result" where
  "NewJSONClient lib guard r serviceName baseURL opts =
     and_then (outbound_New lib baseURL (op_Timeout opts)) (\<lambda>client.
     Inr \<lparr>jc_client = client\<lparr>cl_Tokens := dp_Tokens (ro_deps r)\<rparr>, jc_service = serviceName,
          jc_protect = \<lparr>pc_MaxConcurrent = op_MaxConcurrent opts, pc_FailureThreshold = op_FailureThreshold opts,
                        pc_OpenFor = op_OpenFor opts, pc_ServiceName = serviceName\<rparr>,
          jc_metrics = dp_Metrics (ro_deps r), jc_guard = guard\<rparr>)"

definition JSONClient_DoJSON ::
  "('z world_scheme \<Rightarrow> duration \<Rightarrow> 'z world_scheme) \<Rightarrow> 'z world_scheme json_client \<Rightarrow> 'z world_scheme call_context
   \<Rightarrow> string \<Rightarrow> string \<Rightarrow> string \<Rightarrow> string result \<Rightarrow> (string \<Rightarrow> 'v result) option \<Rightarrow> ('z world_scheme, 'v) doer" where
  "JSONClient_DoJSON wait c ctx sid method path body decode =
     ProtectedClient_DoJSON (fst (jc_guard c)) (snd (jc_guard c)) (jc_protect c) (jc_metrics c)
       (Some (ObservedClient_DoJSON (jc_metrics c) (jc_service c) method
          (DoJSON wait (jc_client c) ctx sid method path body decode)))"

subsection \<open>Helpers for handlers\<close>

fun session_cookie_value :: "request \<Rightarrow> string list \<Rightarrow> string option" where
  "session_cookie_value r [] = None"
| "session_cookie_value r (name # names) =
     (case rq_Cookies r name of
        None \<Rightarrow> session_cookie_value r names
      | Some v \<Rightarrow> if v \<noteq> '''' then Some v else session_cookie_value r names)"

definition SessionID :: "request \<Rightarrow> string option" where
  "SessionID r = session_cookie_value r [SessionCookieName, InsecureSessionCookieName]"

definition HTTPStatus :: "goerr option \<Rightarrow> int" where
  "HTTPStatus err =
     (case err of
        None \<Rightarrow> 200
      | Some e \<Rightarrow>
          (case errors_As_outbound e of
             None \<Rightarrow> 502
           | Some (_, status, _) \<Rightarrow>
               if IsKind e ErrUnauthorized then 401
               else if IsKind e ErrForbidden then 403
               else if IsKind e ErrRateLimited then 429
               else if IsKind e ErrUnavailable then 503
               else if 400 \<le> status \<and> status \<le> 599 then status
               else 502))"

definition core_WriteJSON :: "response_writer \<Rightarrow> int \<Rightarrow> json \<Rightarrow> response_writer" where
  "core_WriteJSON rw status v =
     Write (WriteHeader (SetHeader (SetHeader rw ''Content-Type'' ''application/json'') ''Cache-Control'' ''no-store'')
       status) (Json v)"

definition core_WriteError :: "response_writer \<Rightarrow> goerr option \<Rightarrow> response_writer" where
  "core_WriteError rw err = (let status = HTTPStatus err in http_Error rw (StatusText status) status)"

section \<open>Lemmas\<close>

lemma SessionID_secure:
  "rq_Cookies r SessionCookieName = Some v \<Longrightarrow> v \<noteq> [] \<Longrightarrow> SessionID r = Some v"
  by (simp add: SessionID_def)

text \<open>The status for an error is one of an error.\<close>

lemma HTTPStatus_range: "400 \<le> HTTPStatus (Some e)" "HTTPStatus (Some e) \<le> 599"
  by (auto simp: HTTPStatus_def split: option.splits)

text \<open>
  An upstream status that is a client error other than the throttling and the authorisation ones is the status of the
  application's answer; of the server errors the three gateway ones become 503.
\<close>

lemma HTTPStatus_of_upstream:
  "400 \<le> s \<Longrightarrow> s \<le> 599 \<Longrightarrow>
     HTTPStatus (Some (OutboundError (normalizeStatus s) s m)) = (if s = 502 \<or> s = 503 \<or> s = 504 then 503 else s)"
  by (simp add: HTTPStatus_def normalizeStatus_def IsKind_def)

section \<open>Properties\<close>

text \<open>
  A route with a permission is closed to everyone else: whatever the handler, a request whose session cookie names no
  live session that is allowed the permission gets the same answer, a 401, 403 or 503; and a request that is let through
  reaches the handler with its session.
\<close>

theorem route_permission_enforced:
  fixes r :: "'z world_scheme core_router" and mux :: "(string \<times> 'z world_scheme handler) list" and pattern permission :: string
  assumes "permission \<noteq> ''''" "rw_Status rw = 0"
  defines "reg h \<equiv> Router_Register (Router_Handle r pattern permission h) mux"
  shows "butlast (reg h) = Router_Register r mux \<and> fst (last (reg h)) = pattern \<and>
    ((\<exists>w' rw'. rw_Status rw' \<in> {401, 403, 503} \<and> (\<forall>h. snd (last (reg h)) q w rw = (w', rw'))) \<or>
     (\<exists>v s. authorized_as (dp_Sessions (ro_deps r)) (dp_Policy (ro_deps r)) permission
        (dp_SessionCookieName (ro_deps r)) q w v s))"
  using permission_gate [OF assms(2), of "dp_Sessions (ro_deps r)" "dp_Policy (ro_deps r)" permission
      "dp_SessionCookieName (ro_deps r)" q w "dp_Audit (ro_deps r)" "dp_Metrics (ro_deps r)"] assms(1)
  by (auto simp: reg_def Router_Register_def Router_Handle_def permission_handler_def butlast_append)

definition demo_router :: "front_world core_router" where
  "demo_router =
     \<lparr>ro_deps = \<lparr>dp_Sessions = LifecycleStore demo_lifecycle MemoryStore, dp_Policy = Some (Static demo_policy),
        dp_Audit = Some MemorySink_Append, dp_Metrics = registry_meter, dp_Tokens = None,
        dp_SessionCookieName = SessionCookieNameFor True\<rparr>, ro_routes = []\<rparr>"

theorem route_permission_enforced_witness:
  "\<exists>w' rw'. rw_Status rw' \<in> {401, 403, 503} \<and>
     (\<forall>h. snd (last (Router_Register (Router_Handle demo_router ''PUT /doc'' ''doc.write'' h) [])) demo_user_request
        demo_front new_response = (w', rw'))"
proof -
  have perm: "''doc.write'' \<noteq> ''''" and new: "rw_Status new_response = 0" by (simp_all add: new_response_def)
  have "''doc.write'' \<notin> set (role_values (sp_RolePermissions demo_policy) role)" for role
    by (simp add: role_values_def demo_policy_def)
  then have "\<not> (\<exists>v s. authorized_as (dp_Sessions (ro_deps demo_router)) (dp_Policy (ro_deps demo_router)) ''doc.write''
      (dp_SessionCookieName (ro_deps demo_router)) demo_user_request demo_front v s)"
    by (simp add: demo_router_def authorized_as_def Static_def Static_Allowed_iff)
  with route_permission_enforced [OF perm new, of demo_router "''PUT /doc''" "\<lambda>r w rw. (w, rw)" "[]"
      demo_user_request demo_front]
  show ?thesis by blast
qed

text \<open>
  C16. The session of the calls is the one that was authorised: where the cookie is the secure one, a handler behind a
  permission that asks for the session of its request gets the session whose permission was checked. Changing the handler
  on requests for which \<open>SessionID\<close> says anything else changes nothing.
\<close>

theorem call_session_is_authorized:
  assumes "dp_SessionCookieName d = SessionCookieNameFor True" "permission \<noteq> ''''" "rw_Status rw = 0"
    and "\<And>r' w' rw'. SessionID r' = rq_Cookies q (dp_SessionCookieName d) \<Longrightarrow> h r' w' rw' = h' r' w' rw'"
  shows "permission_handler d permission h q w rw = permission_handler d permission h' q w rw"
proof (cases "\<exists>v s. authorized_as (dp_Sessions d) (dp_Policy d) permission (dp_SessionCookieName d) q w v s")
  case False
  from permission_gate [OF assms(3) this, of "dp_Audit d" "dp_Metrics d"] assms(2) show ?thesis
    by (auto simp: permission_handler_def)
next
  case True
  then obtain v s where a: "authorized_as (dp_Sessions d) (dp_Policy d) permission (dp_SessionCookieName d) q w v s"
    by blast
  then have "rq_Cookies q SessionCookieName = Some v" "v \<noteq> []"
    using assms(1) by (auto simp: authorized_as_def SessionCookieNameFor_def)
  then have "SessionID (q\<lparr>cx_Session := Some s\<rparr>) = rq_Cookies q (dp_SessionCookieName d)"
    using SessionID_secure [of "q\<lparr>cx_Session := Some s\<rparr>"] assms(1) by (simp add: SessionCookieNameFor_def)
  then have "h (q\<lparr>cx_Session := Some s\<rparr>) w' rw' = h' (q\<lparr>cx_Session := Some s\<rparr>) w' rw'" for w' rw' by (rule assms(4))
  then have "BusinessAudit p t k h (q\<lparr>cx_Session := Some s\<rparr>) w' rw' = BusinessAudit p t k h' (q\<lparr>cx_Session := Some s\<rparr>) w' rw'"
    for p t k w' rw' by (cases k) (simp_all add: BusinessAudit_def)
  then show ?thesis
    using permission_passes [OF a, of "dp_Audit d" "dp_Metrics d" rw] assms(2) by (auto simp: permission_handler_def)
qed

theorem call_session_is_authorized_witness:
  "permission_handler (ro_deps demo_router) ''doc.read'' (\<lambda>r w rw. (w, core_WriteError rw None)) demo_user_request demo_front
     new_response =
   permission_handler (ro_deps demo_router) ''doc.read''
     (\<lambda>r w rw. (w, if SessionID r = Some ''s1'' then core_WriteError rw None else rw)) demo_user_request demo_front new_response"
proof (rule call_session_is_authorized)
  show "dp_SessionCookieName (ro_deps demo_router) = SessionCookieNameFor True" by (simp add: demo_router_def)
  show "rw_Status new_response = 0" by (simp add: new_response_def)
  fix r' :: request and w' :: front_world and rw' :: response_writer
  assume "SessionID r' = rq_Cookies demo_user_request (dp_SessionCookieName (ro_deps demo_router))"
  then have "SessionID r' = Some ''s1''"
    by (simp add: demo_router_def demo_user_request_def SessionCookieNameFor_def SessionCookieName_def)
  then show "(w', core_WriteError rw' None) = (w', if SessionID r' = Some ''s1'' then core_WriteError rw' None else rw')"
    by simp
qed simp

text \<open>
  The insecure cookie does not have that property: \<open>SessionID\<close> prefers the secure name whatever the configuration, so
  that a request with both cookies is authorised with one session and calls the services with the other.
\<close>

lemma insecure_cookie_session_differs:
  "let q = demo_user_request\<lparr>rq_Cookies := [''bff_session'' \<mapsto> ''s1'', ''__Host-bff_session'' \<mapsto> ''other'']\<rparr>
   in (\<exists>s. authorized_as (LifecycleStore demo_lifecycle MemoryStore) (Some (Static demo_policy)) ''doc.read''
        (SessionCookieNameFor False) q demo_front ''s1'' s) \<and> SessionID q = Some ''other''"
  by (simp add: authorized_as_def SessionID_def SessionCookieNameFor_def SessionCookieName_def
      InsecureSessionCookieName_def Static_def Static_Allowed_iff role_values_def session_subject_def demo_front_eval demo_eval)

end
