(* ===== verification/AssetPortal.thy ===== *)
theory AssetPortal
  imports Core
begin

text \<open>
  The application of \<^verbatim>\<open>examples/asset-portal\<close>: its two clients and the two routes that it registers. The JSON codecs
  are arguments. The theorem says that the portal asks for upload addresses only below the directory of the asset of the
  request.
\<close>

section \<open>Definitions\<close>

subsection \<open>The clients (asset/client.go, storage/client.go)\<close>

record asset =
  as_ID :: string
  as_Name :: string
  as_Serial :: string
  as_Status :: string
  as_ProjectID :: string

record portal_upload_request =
  pu_ObjectKey :: string
  pu_ContentType :: string
  pu_TTLSeconds :: int

record portal_upload_response =
  pw_Method :: string
  pw_URL :: string
  pw_ExpiresAt :: string

record portal_codec =
  pk_asset :: "string \<Rightarrow> asset result"
  pk_upload :: "portal_upload_request \<Rightarrow> string result"
  pk_uploaded :: "string \<Rightarrow> portal_upload_response result"

text \<open>The destination of a successful call that decodes nothing keeps its zero value.\<close>

definition decoded :: "'v \<Rightarrow> 'w \<times> ('v option) result \<Rightarrow> 'w \<times> 'v result" where
  "decoded zero out =
     (case out of
        (w, Inl e) \<Rightarrow> (w, Inl e)
      | (w, Inr None) \<Rightarrow> (w, Inr zero)
      | (w, Inr (Some v)) \<Rightarrow> (w, Inr v))"

definition asset_Get ::
  "('z world_scheme \<Rightarrow> duration \<Rightarrow> 'z world_scheme) \<Rightarrow> portal_codec \<Rightarrow> 'z world_scheme json_client
   \<Rightarrow> 'z world_scheme call_context \<Rightarrow> 'z world_scheme \<Rightarrow> string \<Rightarrow> string \<Rightarrow> 'z world_scheme \<times> asset result" where
  "asset_Get wait codec c ctx w sid ident =
     decoded \<lparr>as_ID = '''', as_Name = '''', as_Serial = '''', as_Status = '''', as_ProjectID = ''''\<rparr>
       (JSONClient_DoJSON wait c ctx sid ''GET'' (''/api/assets/'' @ ident) (Inr '''') (Some (pk_asset codec)) w)"

definition portal_PresignUpload ::
  "('z world_scheme \<Rightarrow> duration \<Rightarrow> 'z world_scheme) \<Rightarrow> portal_codec \<Rightarrow> 'z world_scheme json_client
   \<Rightarrow> 'z world_scheme call_context \<Rightarrow> 'z world_scheme \<Rightarrow> string \<Rightarrow> portal_upload_request
   \<Rightarrow> 'z world_scheme \<times> portal_upload_response result" where
  "portal_PresignUpload wait codec c ctx w sid q =
     decoded \<lparr>pw_Method = '''', pw_URL = '''', pw_ExpiresAt = ''''\<rparr>
       (JSONClient_DoJSON wait c ctx sid ''POST'' ''/api/presign/upload'' (pk_upload codec q)
         (Some (pk_uploaded codec)) w)"

subsection \<open>The routes (routes.go)\<close>

text \<open>\<^verbatim>\<open>path.Base\<close>\<close>

definition path_Base :: "string \<Rightarrow> string" where
  "path_Base p =
     (if p = '''' then ''.''
      else (let q = rev (takeWhile (\<lambda>c. c \<noteq> CHR ''/'') (rev (TrimRight p (CHR ''/''))))
            in if q = '''' then ''/'' else q))"

text \<open>The pattern \<^verbatim>\<open>^[A-Za-z0-9_-]{1,64}$\<close>.\<close>

definition assetIDPattern :: "string \<Rightarrow> bool" where
  "assetIDPattern s \<longleftrightarrow>
     1 \<le> length s \<and> length s \<le> 64 \<and> list_all (\<lambda>c. is_alpha c \<or> is_digit c \<or> c = CHR ''_'' \<or> c = CHR ''-'') s"

record upload_input =
  pi_Filename :: string
  pi_ContentType :: string

definition allowedContentType :: "string \<Rightarrow> bool" where
  "allowedContentType v \<longleftrightarrow> v = ''application/pdf'' \<or> v = ''image/jpeg'' \<or> v = ''image/png''"

text \<open>\<^verbatim>\<open>UnixNano\<close>: the nanoseconds since 1970 in an \<^verbatim>\<open>int64\<close>.\<close>

definition UnixNano :: "time \<Rightarrow> int" where
  "UnixNano t = wrap64 (t - unix_offset * Second)"

definition object_key :: "string \<Rightarrow> time \<Rightarrow> string \<Rightarrow> string" where
  "object_key ident now filename =
     ''assets/'' @ ident @ ''/attachments/'' @ Itoa (UnixNano now) @ ''-'' @ filename"

definition asset_json :: "asset \<Rightarrow> json" where
  "asset_json a =
     JObj ([(''id'', JStr (as_ID a)), (''name'', JStr (as_Name a)), (''serial'', JStr (as_Serial a)),
            (''status'', JStr (as_Status a))] @
           (if as_ProjectID a = '''' then [] else [(''project_id'', JStr (as_ProjectID a))]))"

definition uploaded_json :: "portal_upload_response \<Rightarrow> json" where
  "uploaded_json u =
     JObj [(''method'', JStr (pw_Method u)), (''url'', JStr (pw_URL u)), (''expires_at'', JStr (pw_ExpiresAt u))]"

text \<open>\<open>ctx\<close> gives the context of a request and \<open>body\<close> the outcome of decoding its body.\<close>

definition portal_get_asset ::
  "('w call_context \<Rightarrow> 'w \<Rightarrow> string \<Rightarrow> string \<Rightarrow> 'w \<times> asset result) \<Rightarrow> (request \<Rightarrow> 'w call_context) \<Rightarrow> 'w handler" where
  "portal_get_asset get ctx r w rw =
     (let ident = rq_PathValue r ''id''
      in if \<not> assetIDPattern ident then (w, http_Error rw ''invalid asset id'' 400)
         else (case SessionID r of
             None \<Rightarrow> (w, http_Error rw ''unauthorized'' 401)
           | Some sid \<Rightarrow>
               (case get (ctx r) w sid ident of
                  (w1, Inl e) \<Rightarrow> (w1, core_WriteError rw (Some e))
                | (w1, Inr a) \<Rightarrow> (w1, core_WriteJSON rw 200 (asset_json a)))))"

definition portal_upload_url ::
  "('z world_scheme call_context \<Rightarrow> 'z world_scheme \<Rightarrow> string \<Rightarrow> portal_upload_request
      \<Rightarrow> 'z world_scheme \<times> portal_upload_response result)
   \<Rightarrow> (request \<Rightarrow> 'z world_scheme call_context) \<Rightarrow> (request \<Rightarrow> upload_input result) \<Rightarrow> 'z world_scheme handler" where
  "portal_upload_url presign ctx body r w rw =
     (let ident = rq_PathValue r ''id''
      in if \<not> assetIDPattern ident then (w, http_Error rw ''invalid asset id'' 400)
         else (case SessionID r of
             None \<Rightarrow> (w, http_Error rw ''unauthorized'' 401)
           | Some sid \<Rightarrow>
               (case body r of
                  Inl e \<Rightarrow> (w, http_Error rw ''invalid request'' 400)
                | Inr inp \<Rightarrow>
                    if \<not> allowedContentType (pi_ContentType inp) then (w, http_Error rw ''unsupported content type'' 400)
                    else (let filename = path_Base (TrimSpace (pi_Filename inp))
                          in if filename = ''.'' \<or> filename = ''/'' \<or> filename = '''' \<or> 128 < length filename
                             then (w, http_Error rw ''invalid filename'' 400)
                             else (case Now w of (now, w1) \<Rightarrow>
                                 (case presign (ctx r) w1 sid \<lparr>pu_ObjectKey = object_key ident now filename,
                                     pu_ContentType = pi_ContentType inp, pu_TTLSeconds = 300\<rparr> of
                                    (w2, Inl e) \<Rightarrow> (w2, core_WriteError rw (Some e))
                                  | (w2, Inr u) \<Rightarrow> (w2, core_WriteJSON rw 200 (uploaded_json u))))))))"

text \<open>What \<^verbatim>\<open>Register\<close> takes from the environment and what it registers.\<close>

definition service_url :: "(string \<rightharpoonup> string) \<Rightarrow> string \<Rightarrow> string \<Rightarrow> string" where
  "service_url env name fallback =
     (let u = TrimSpace (case env name of None \<Rightarrow> '''' | Some v \<Rightarrow> v) in if u = '''' then fallback else u)"

definition portal_options :: "int \<Rightarrow> client_options" where
  "portal_options n = \<lparr>op_Timeout = 3 * Second, op_MaxConcurrent = n, op_FailureThreshold = 5, op_OpenFor = 15 * Second\<rparr>"

definition portal_Register ::
  "'z world_scheme start_lib \<Rightarrow> portal_codec \<Rightarrow> (string \<rightharpoonup> string)
   \<Rightarrow> ('z world_scheme \<Rightarrow> guard_state) \<times> (guard_state \<Rightarrow> 'z world_scheme \<Rightarrow> 'z world_scheme)
   \<Rightarrow> ('z world_scheme \<Rightarrow> guard_state) \<times> (guard_state \<Rightarrow> 'z world_scheme \<Rightarrow> 'z world_scheme)
   \<Rightarrow> (request \<Rightarrow> 'z world_scheme call_context) \<Rightarrow> (request \<Rightarrow> upload_input result)
   \<Rightarrow> 'z world_scheme core_router \<Rightarrow> 'z world_scheme core_router result" where
  "portal_Register lib codec env guard1 guard2 ctx body r =
     and_then (wrap_error ''asset client'' (NewJSONClient lib guard1 r ''asset-api''
       (service_url env ''ASSET_API_URL'' ''http://127.0.0.1:19001'') (portal_options 64))) (\<lambda>assetHTTP.
     and_then (wrap_error ''storage client'' (NewJSONClient lib guard2 r ''storage-api''
       (service_url env ''STORAGE_API_URL'' ''http://127.0.0.1:19002'') (portal_options 32))) (\<lambda>storageHTTP.
     Inr (Router_Handle
       (Router_Handle r ''GET /api/assets/{id}'' ''asset.read''
          (portal_get_asset (asset_Get (st_wait lib) codec assetHTTP) ctx))
       ''POST /api/assets/{id}/attachments/upload-url'' ''storage.upload''
       (portal_upload_url (portal_PresignUpload (st_wait lib) codec storageHTTP) ctx body))))"

section \<open>Lemmas\<close>

lemma path_Base_no_slash: "path_Base p \<noteq> ''/'' \<Longrightarrow> CHR ''/'' \<notin> set (path_Base p)"
  by (auto simp: path_Base_def Let_def dest: set_takeWhileD split: if_splits)

lemma assetIDPattern_segment:
  assumes "assetIDPattern s"
  shows "CHR ''/'' \<notin> set s" "CHR ''.'' \<notin> set s" "s \<noteq> ''''"
proof -
  have "\<not> is_alpha CHR ''/''" "\<not> is_digit CHR ''/''" "\<not> is_alpha CHR ''.''" "\<not> is_digit CHR ''.''" by code_simp+
  with assms show "CHR ''/'' \<notin> set s" "CHR ''.'' \<notin> set s" "s \<noteq> ''''"
    by (auto simp: assetIDPattern_def list_all_iff)
qed

lemma Itoa_no_slash: "CHR ''/'' \<notin> set (Itoa n)"
proof -
  have "\<not> is_digit_char CHR ''/''" by code_simp
  with nat_digits_all show ?thesis by (auto simp: Itoa_def)
qed

lemma object_key_segments:
  assumes "assetIDPattern ident" "CHR ''/'' \<notin> set filename"
  shows "Split (object_key ident now filename) (CHR ''/'') =
    [''assets'', ident, ''attachments'', Itoa (UnixNano now) @ ''-'' @ filename]"
proof -
  have "object_key ident now filename = ''assets'' @ CHR ''/'' # ident @ CHR ''/'' # ''attachments'' @ CHR ''/'' #
      (Itoa (UnixNano now) @ ''-'' @ filename)"
    by (simp add: object_key_def)
  moreover have "Split ''assets'' (CHR ''/'') = [''assets'']" "Split ''attachments'' (CHR ''/'') = [''attachments'']"
    "Split (Itoa (UnixNano now) @ ''-'' @ filename) (CHR ''/'') = [Itoa (UnixNano now) @ ''-'' @ filename]"
    "Split ident (CHR ''/'') = [ident]"
    using assms Itoa_no_slash assetIDPattern_segment by (auto intro: Split_absent)
  ultimately show ?thesis by (simp only: Split_append_sep) simp
qed

section \<open>Properties\<close>

text \<open>
  C37. An upload stays in the directory of its asset: the portal asks the storage service only for keys of exactly four
  segments, \<^verbatim>\<open>assets\<close>, the identifier of the request's path, \<^verbatim>\<open>attachments\<close> and a name that is no dot segment, with
  one of the three content types, for five minutes, and in the session of the request. A service that differs on any
  other call is answered for in the same way.
\<close>

theorem portal_upload_confined:
  assumes "\<And>ctx w sid q. SessionID r = Some sid \<Longrightarrow> assetIDPattern (rq_PathValue r ''id'') \<Longrightarrow>
      (\<exists>name. Split (pu_ObjectKey q) (CHR ''/'') = [''assets'', rq_PathValue r ''id'', ''attachments'', name] \<and>
         name \<notin> {'''', ''.'', ''..''}) \<Longrightarrow>
      allowedContentType (pu_ContentType q) \<Longrightarrow> pu_TTLSeconds q = 300 \<Longrightarrow>
      presign ctx w sid q = presign' ctx w sid q"
  shows "portal_upload_url presign ctx body r w rw = portal_upload_url presign' ctx body r w rw"
proof -
  let ?id = "rq_PathValue r ''id''"
  have same: "presign c w1 sid \<lparr>pu_ObjectKey = object_key ?id now (path_Base f), pu_ContentType = t, pu_TTLSeconds = 300\<rparr> =
      presign' c w1 sid \<lparr>pu_ObjectKey = object_key ?id now (path_Base f), pu_ContentType = t, pu_TTLSeconds = 300\<rparr>"
    if "SessionID r = Some sid" "assetIDPattern ?id" "allowedContentType t" "path_Base f \<noteq> ''/''" for c w1 sid now f t
  proof (rule assms)
    have "x \<notin> {'''', ''.'', ''..''}" if "CHR ''-'' \<in> set x" for x using that by auto
    then have "Itoa (UnixNano now) @ ''-'' @ path_Base f \<notin> {'''', ''.'', ''..''}" by simp
    with object_key_segments [OF that(2) path_Base_no_slash [OF that(4)]]
    show "\<exists>name. Split (pu_ObjectKey \<lparr>pu_ObjectKey = object_key ?id now (path_Base f), pu_ContentType = t,
        pu_TTLSeconds = 300\<rparr>) (CHR ''/'') = [''assets'', ?id, ''attachments'', name] \<and> name \<notin> {'''', ''.'', ''..''}"
      by simp
  qed (use that in simp_all)
  show ?thesis by (auto simp: portal_upload_url_def Let_def same split: option.splits sum.splits prod.splits)
qed

definition demo_portal_request :: request where
  "demo_portal_request = demo_user_request\<lparr>rq_PathValue := (\<lambda>n. ''a1'')\<rparr>"

definition demo_presign ::
  "front_world call_context \<Rightarrow> front_world \<Rightarrow> string \<Rightarrow> portal_upload_request \<Rightarrow> front_world \<times> portal_upload_response result" where
  "demo_presign ctx w sid q = (w, Inr \<lparr>pw_Method = ''PUT'', pw_URL = ''https://s/'' @ pu_ObjectKey q, pw_ExpiresAt = ''''\<rparr>)"

theorem portal_upload_confined_witness:
  "let ctx = (\<lambda>r. demo_api_context); body = (\<lambda>r. Inr \<lparr>pi_Filename = ''../../x.pdf'', pi_ContentType = ''application/pdf''\<rparr>);
       strict = (\<lambda>c w sid q. if Split (pu_ObjectKey q) (CHR ''/'') ! 1 = ''a1'' then demo_presign c w sid q
                             else (w, Inl (ErrorString ''forbidden'')))
   in portal_upload_url demo_presign ctx body demo_portal_request demo_front new_response =
        portal_upload_url strict ctx body demo_portal_request demo_front new_response \<and>
      rw_Status (snd (portal_upload_url demo_presign ctx body demo_portal_request demo_front new_response)) = 200"
  unfolding Let_def
proof (intro conjI portal_upload_confined)
  fix ctx w sid and q :: portal_upload_request
  assume "\<exists>name. Split (pu_ObjectKey q) (CHR ''/'') = [''assets'', rq_PathValue demo_portal_request ''id'', ''attachments'', name] \<and>
    name \<notin> {'''', ''.'', ''..''}"
  then show "demo_presign ctx w sid q = (if Split (pu_ObjectKey q) (CHR ''/'') ! 1 = ''a1'' then demo_presign ctx w sid q
      else (w, Inl (ErrorString ''forbidden'')))"
    by (auto simp: demo_portal_request_def)
qed code_simp

end
