(* ===== verification/OIDC.thy ===== *)
theory OIDC
  imports Auth
begin

text \<open>
  The OpenID Connect provider (\<^verbatim>\<open>internal/auth/oidc\<close>): configuration, discovery, the exchange of the code, the
  refresh of tokens and the address of the logout. The libraries \<^verbatim>\<open>go-oidc\<close> and \<^verbatim>\<open>oauth2\<close> are arguments: discovery, the three calls of
  \<^verbatim>\<open>oauth2.Config\<close> and the verification of an ID token. The theorems say that a login is tied to a verified ID token
  with the nonce of its flow, what a refresh returns, and which address a logout goes to.
\<close>

section \<open>Definitions\<close>

subsection \<open>Configuration (config.go)\<close>

record idp_config =
  ic_Issuer :: string
  ic_ClientID :: string
  ic_ClientSecret :: string
  ic_Scopes :: "string list"

definition idp_Validate :: "idp_config \<Rightarrow> goerr option" where
  "idp_Validate c =
     (if TrimSpace (ic_Issuer c) = '''' then Some (ErrorString ''oidc issuer is required'')
      else if TrimSpace (ic_ClientID c) = '''' then Some (ErrorString ''oidc client id is required'')
      else None)"

text \<open>The members of \<^verbatim>\<open>seen\<close> are those of \<^verbatim>\<open>out\<close>.\<close>

fun scopes_loop :: "string list \<Rightarrow> string list \<Rightarrow> string list" where
  "scopes_loop out [] = out"
| "scopes_loop out (s # scopes) =
     (let scope = TrimSpace s
      in if scope = '''' \<or> scope \<in> set out then scopes_loop out scopes else scopes_loop (out @ [scope]) scopes)"

definition NormalizeScopes :: "string list \<Rightarrow> string list" where
  "NormalizeScopes scopes = scopes_loop [''openid''] scopes"

subsection \<open>The libraries\<close>

record oauth_config =
  oc_ClientID :: string
  oc_ClientSecret :: string
  oc_Endpoint :: string
  oc_Scopes :: "string list"
  oc_RedirectURL :: string

text \<open>
  A token of \<^verbatim>\<open>oauth2\<close>; the two extra fields are \<open>None\<close> where the response has none or one that is not a string.
\<close>

record oauth_token =
  ot_AccessToken :: string
  ot_RefreshToken :: string
  ot_Expiry :: time
  ot_ExtraIDToken :: "string option"
  ot_ExtraRefreshToken :: "string option"

record id_claims =
  cm_Subject :: string
  cm_Issuer :: string
  cm_Name :: string
  cm_PreferredUsername :: string
  cm_Email :: string
  cm_Roles :: "string list"

text \<open>A verified ID token, with the outcome of decoding its claims.\<close>

record id_token =
  vt_Nonce :: string
  vt_Expiry :: time
  vt_Claims :: "id_claims result"

type_synonym 'w id_verifier = "'w \<Rightarrow> string \<Rightarrow> 'w \<times> id_token result"

record 'w oauth_lib =
  ol_AuthCodeURL :: "oauth_config \<Rightarrow> string \<Rightarrow> (string \<times> string) list \<Rightarrow> string"
  ol_Exchange :: "oauth_config \<Rightarrow> 'w \<Rightarrow> string \<Rightarrow> (string \<times> string) list \<Rightarrow> 'w \<times> oauth_token result"
  ol_Token :: "oauth_config \<Rightarrow> 'w \<Rightarrow> string \<Rightarrow> 'w \<times> oauth_token result"

record 'w discovered =
  dv_EndSession :: "string result"
  dv_Verifier :: "string \<Rightarrow> 'w id_verifier"
  dv_Endpoint :: string

subsection \<open>The provider (provider.go)\<close>

record 'w oidc_provider =
  opr_verifier :: "'w id_verifier"
  opr_oauth :: oauth_config
  opr_endSessionEndpoint :: string

definition oidc_New ::
  "('w \<Rightarrow> string \<Rightarrow> 'w \<times> 'w discovered result) \<Rightarrow> 'w \<Rightarrow> idp_config \<Rightarrow> 'w \<times> 'w oidc_provider result" where
  "oidc_New newProvider w cfg =
     (case idp_Validate cfg of
        Some e \<Rightarrow> (w, Inl e)
      | None \<Rightarrow>
          (case newProvider w (TrimRight (ic_Issuer cfg) (CHR ''/'')) of
             (w1, Inl e) \<Rightarrow> (w1, Inl (ErrWrapped ''oidc discovery'' e))
           | (w1, Inr d) \<Rightarrow>
               (case dv_EndSession d of
                  Inl e \<Rightarrow> (w1, Inl (ErrWrapped ''oidc discovery claims'' e))
                | Inr endpoint \<Rightarrow>
                    (w1, Inr \<lparr>opr_verifier = dv_Verifier d (ic_ClientID cfg),
                              opr_oauth = \<lparr>oc_ClientID = ic_ClientID cfg, oc_ClientSecret = ic_ClientSecret cfg,
                                oc_Endpoint = dv_Endpoint d, oc_Scopes = NormalizeScopes (ic_Scopes cfg), oc_RedirectURL = ''''\<rparr>,
                              opr_endSessionEndpoint = endpoint\<rparr>))))"

definition oidc_AuthorizationURL ::
  "'w oauth_lib \<Rightarrow> 'w oidc_provider \<Rightarrow> 'w \<Rightarrow> string \<Rightarrow> string \<Rightarrow> string \<Rightarrow> string \<Rightarrow> 'w \<times> string result" where
  "oidc_AuthorizationURL lib p w state nonce codeChallenge redirectURI =
     (w, Inr (ol_AuthCodeURL lib ((opr_oauth p)\<lparr>oc_RedirectURL := redirectURI\<rparr>) state
        [(''nonce'', nonce), (''code_challenge'', codeChallenge), (''code_challenge_method'', ''S256'')]))"

text \<open>What the exchange makes of a token response and the verified claims.\<close>

definition exchange_identity :: "id_claims \<Rightarrow> identity" where
  "exchange_identity c =
     \<lparr>id_Subject = cm_Subject c, id_Issuer = cm_Issuer c, id_Username = cm_PreferredUsername c,
      id_DisplayName = (if cm_Name c = '''' then cm_PreferredUsername c else cm_Name c),
      id_Email = cm_Email c, id_Roles = cm_Roles c\<rparr>"

definition exchange_refresh_token :: "oauth_token \<Rightarrow> string" where
  "exchange_refresh_token t =
     (case ot_ExtraRefreshToken t of
        None \<Rightarrow> ot_RefreshToken t
      | Some r \<Rightarrow> if r = '''' then ot_RefreshToken t else r)"

text \<open>The clock is read only when the response carries no expiry.\<close>

definition exchange_expiry :: "oauth_token \<Rightarrow> id_token \<Rightarrow> 'z world_scheme \<Rightarrow> time \<times> 'z world_scheme" where
  "exchange_expiry t idt w =
     (if IsZero (ot_Expiry t)
      then (let (now, w1) = Now w in (if After (vt_Expiry idt) now then vt_Expiry idt else ot_Expiry t, w1))
      else (ot_Expiry t, w))"

definition oidc_Exchange ::
  "'z world_scheme oauth_lib \<Rightarrow> 'z world_scheme oidc_provider \<Rightarrow> 'z world_scheme \<Rightarrow> string \<Rightarrow> string \<Rightarrow> string \<Rightarrow> string
   \<Rightarrow> 'z world_scheme \<times> exchange_result result" where
  "oidc_Exchange lib p w code codeVerifier redirectURI expectedNonce =
     (case ol_Exchange lib ((opr_oauth p)\<lparr>oc_RedirectURL := redirectURI\<rparr>) w code [(''code_verifier'', codeVerifier)] of
        (w1, Inl e) \<Rightarrow> (w1, Inl (ErrWrapped ''oidc token exchange'' e))
      | (w1, Inr t) \<Rightarrow>
          (let raw = (case ot_ExtraIDToken t of None \<Rightarrow> '''' | Some r \<Rightarrow> r)
           in if raw = '''' then (w1, Inl (ErrorString ''oidc token response missing id_token''))
              else (case opr_verifier p w1 raw of
                  (w2, Inl e) \<Rightarrow> (w2, Inl (ErrWrapped ''oidc verify id_token'' e))
                | (w2, Inr idt) \<Rightarrow>
                    if expectedNonce = '''' \<or> vt_Nonce idt \<noteq> expectedNonce
                    then (w2, Inl (ErrorString ''oidc nonce mismatch''))
                    else (case vt_Claims idt of
                        Inl e \<Rightarrow> (w2, Inl (ErrWrapped ''oidc decode claims'' e))
                      | Inr claims \<Rightarrow>
                          (case exchange_expiry t idt w2 of (expiry, w3) \<Rightarrow>
                             (w3, Inr \<lparr>er_Identity = exchange_identity claims,
                                er_Tokens = \<lparr>at_AccessToken = ot_AccessToken t, at_RefreshToken = exchange_refresh_token t,
                                  at_IDToken = raw, at_Expiry = expiry\<rparr>\<rparr>))))))"

definition oidc_EndSessionURL :: "'w oidc_provider \<Rightarrow> string \<Rightarrow> string \<Rightarrow> string result" where
  "oidc_EndSessionURL p idTokenHint postLogoutRedirectURI =
     (if opr_endSessionEndpoint p = [] then Inr postLogoutRedirectURI
      else (case url_Parse (opr_endSessionEndpoint p) of
          None \<Rightarrow> Inl (ErrWrapped ''oidc end_session_endpoint'' (ExternalError ''parse''))
        | Some u \<Rightarrow>
            (let q0 = ParseQuery (u_RawQuery u);
                 q1 = (if idTokenHint \<noteq> [] then Values_Set ''id_token_hint'' idTokenHint q0 else q0);
                 q2 = (if postLogoutRedirectURI \<noteq> [] then Values_Set ''post_logout_redirect_uri'' postLogoutRedirectURI q1
                       else q1)
             in Inr (URL_String (u\<lparr>u_RawQuery := Values_Encode q2\<rparr>)))))"

text \<open>The provider as a value of the interface.\<close>

definition OIDCProvider ::
  "'z world_scheme oauth_lib \<Rightarrow> 'z world_scheme oidc_provider \<Rightarrow> 'z world_scheme identity_provider" where
  "OIDCProvider lib p =
     \<lparr>ip_AuthorizationURL = oidc_AuthorizationURL lib p, ip_Exchange = oidc_Exchange lib p,
      ip_EndSessionURL = (\<lambda>w hint redirect. (w, oidc_EndSessionURL p hint redirect))\<rparr>"

subsection \<open>Refreshing (refresh.go)\<close>

definition RefreshTokens :: "'w oauth_lib \<Rightarrow> 'w oidc_provider \<Rightarrow> 'w \<Rightarrow> string \<Rightarrow> 'w \<times> token_set result" where
  "RefreshTokens lib p w refreshToken =
     (if refreshToken = '''' then (w, Inl (ErrorString ''refresh token is required''))
      else (case ol_Token lib (opr_oauth p) w refreshToken of
          (w1, Inl e) \<Rightarrow> (w1, Inl (ErrWrapped ''oidc token refresh'' e))
        | (w1, Inr t) \<Rightarrow>
            if ot_AccessToken t = '''' then (w1, Inl (ErrorString ''oidc token refresh missing access token''))
            else if IsZero (ot_Expiry t) then (w1, Inl (ErrorString ''oidc token refresh missing expiry''))
            else (w1, Inr \<lparr>ts_AccessToken = ot_AccessToken t,
                           ts_RefreshToken = (if ot_RefreshToken t = '''' then refreshToken else ot_RefreshToken t),
                           ts_IDToken = (case ot_ExtraIDToken t of None \<Rightarrow> '''' | Some r \<Rightarrow> r),
                           ts_ExpiryUnix = Unix (ot_Expiry t)\<rparr>)))"

section \<open>Lemmas\<close>

lemma scopes_loop_result:
  "distinct out \<Longrightarrow> distinct (scopes_loop out scopes) \<and> prefix out (scopes_loop out scopes) \<and>
     set (scopes_loop out scopes) = set out \<union> {TrimSpace s |s. s \<in> set scopes \<and> TrimSpace s \<noteq> ''''}"
proof (induction scopes arbitrary: out)
  case (Cons s scopes)
  show ?case
  proof (cases "TrimSpace s = '''' \<or> TrimSpace s \<in> set out")
    case True
    with Cons.IH [OF Cons.prems] show ?thesis by (auto simp: Let_def)
  next
    case False
    with Cons.prems have "distinct (out @ [TrimSpace s])" by simp
    from Cons.IH [OF this] False show ?thesis by (auto simp: Let_def prefix_def)
  qed
qed simp

text \<open>The scopes: the first is the required one, none occurs twice, and none that was asked for is lost.\<close>

lemma NormalizeScopes_result:
  "distinct (NormalizeScopes scopes)" "hd (NormalizeScopes scopes) = ''openid''"
  "set (NormalizeScopes scopes) = {''openid''} \<union> {TrimSpace s |s. s \<in> set scopes \<and> TrimSpace s \<noteq> ''''}"
  using scopes_loop_result [of "[''openid'']" scopes] by (auto simp: NormalizeScopes_def prefix_def)

lemma oidc_Exchange_cases:
  assumes "oidc_Exchange lib p w code verifier redirect nonce = (w', Inr res)"
  obtains t w1 raw w2 idt claims where
    "ol_Exchange lib ((opr_oauth p)\<lparr>oc_RedirectURL := redirect\<rparr>) w code [(''code_verifier'', verifier)] = (w1, Inr t)"
    "ot_ExtraIDToken t = Some raw" "raw \<noteq> ''''" "opr_verifier p w1 raw = (w2, Inr idt)"
    "nonce \<noteq> ''''" "vt_Nonce idt = nonce" "vt_Claims idt = Inr claims"
    "er_Identity res = exchange_identity claims" "at_IDToken (er_Tokens res) = raw"
    "at_AccessToken (er_Tokens res) = ot_AccessToken t"
  using assms
  by (auto simp: oidc_Exchange_def Let_def split: prod.splits sum.splits option.splits if_splits)

section \<open>Properties\<close>

text \<open>
  C5. Every login is tied to its browser: whatever the stores, a callback that succeeds took the flow of its state,
  exchanged its code with the code verifier of that flow, and got an ID token that the verifier accepts, that carries
  the nonempty nonce of the flow and whose claims give the nonempty subject of the new session.
\<close>

theorem login_identity_verified:
  assumes "CompleteCallback s w state code = (w', Inr cb)" "sv_Provider s = Some (OIDCProvider lib p)"
  shows "\<exists>fs w1 f w2 t raw w3 idt claims. sv_Flows s = Some fs \<and> fs_Take fs w state = (w1, Inr f) \<and>
    ol_Exchange lib ((opr_oauth p)\<lparr>oc_RedirectURL := sv_RedirectURI s\<rparr>) w1 code
      [(''code_verifier'', fl_CodeVerifier f)] = (w2, Inr t) \<and>
    ot_ExtraIDToken t = Some raw \<and> opr_verifier p w2 raw = (w3, Inr idt) \<and>
    vt_Nonce idt = fl_Nonce f \<and> fl_Nonce f \<noteq> '''' \<and> vt_Claims idt = Inr claims \<and>
    cb_Subject cb = cm_Subject claims \<and> cm_Subject claims \<noteq> '''' \<and> cm_Issuer claims \<noteq> ''''"
proof -
  obtain fs w1 f where take: "sv_Flows s = Some fs" "fs_Take fs w state = (w1, Inr f)"
    using assms by (auto simp: CompleteCallback_def split: option.splits prod.splits sum.splits if_splits)
  obtain w5 res where ex: "oidc_Exchange lib p w1 code (fl_CodeVerifier f) (sv_RedirectURI s) (fl_Nonce f) = (w5, Inr res)"
    and full: "id_Subject (er_Identity res) \<noteq> []" "id_Issuer (er_Identity res) \<noteq> []"
    and est: "establish_session s w5 (fl_ReturnTo f) res = (w', Inr cb)"
    using assms take
    by (auto simp: CompleteCallback_def OIDCProvider_def split: option.splits prod.splits sum.splits if_splits)
  have "cb_Subject cb = id_Subject (er_Identity res)"
    using est by (auto simp: establish_session_def Let_def split: option.splits prod.splits sum.splits)
  moreover from ex obtain t w2 raw w3 idt claims where
    "ol_Exchange lib ((opr_oauth p)\<lparr>oc_RedirectURL := sv_RedirectURI s\<rparr>) w1 code
       [(''code_verifier'', fl_CodeVerifier f)] = (w2, Inr t)"
    "ot_ExtraIDToken t = Some raw" "opr_verifier p w2 raw = (w3, Inr idt)" "fl_Nonce f \<noteq> ''''"
    "vt_Nonce idt = fl_Nonce f" "vt_Claims idt = Inr claims" "er_Identity res = exchange_identity claims"
    by (rule oidc_Exchange_cases)
  ultimately show ?thesis using take full by (auto simp: exchange_identity_def)
qed

definition demo_oauth_lib :: "'w oauth_lib" where
  "demo_oauth_lib =
     \<lparr>ol_AuthCodeURL = (\<lambda>c state opts. ''https://idp/auth?state='' @ state),
      ol_Exchange = (\<lambda>c w code opts. (w,
        if opts = [(''code_verifier'', ''v'')]
        then Inr \<lparr>ot_AccessToken = ''acc'', ot_RefreshToken = ''ref'', ot_Expiry = demo_clock 600,
                  ot_ExtraIDToken = Some ''jwt'', ot_ExtraRefreshToken = None\<rparr>
        else Inl (ErrorString ''invalid_grant''))),
      ol_Token = (\<lambda>c w r. (w, Inl (ErrorString ''invalid_grant'')))\<rparr>"

definition demo_oidc :: "auth_world oidc_provider" where
  "demo_oidc =
     \<lparr>opr_verifier = (\<lambda>w raw. (w, if raw = ''jwt''
        then Inr \<lparr>vt_Nonce = ''n'', vt_Expiry = demo_clock 600,
                  vt_Claims = Inr \<lparr>cm_Subject = ''alice'', cm_Issuer = ''https://idp'', cm_Name = '''',
                                   cm_PreferredUsername = ''alice'', cm_Email = '''', cm_Roles = []\<rparr>\<rparr>
        else Inl (ErrorString ''malformed jwt''))),
      opr_oauth = \<lparr>oc_ClientID = ''gw'', oc_ClientSecret = '''', oc_Endpoint = ''https://idp'',
                   oc_Scopes = [''openid''], oc_RedirectURL = ''''\<rparr>,
      opr_endSessionEndpoint = ''''\<rparr>"

definition demo_oidc_service :: "auth_world service" where
  "demo_oidc_service = demo_service\<lparr>sv_Provider := Some (OIDCProvider demo_oauth_lib demo_oidc)\<rparr>"

theorem login_identity_verified_witness:
  "\<exists>w' cb. CompleteCallback demo_oidc_service demo_auth_world ''st'' ''c'' = (w', Inr cb) \<and> cb_Subject cb = ''alice'' \<and>
     (\<exists>fs w1 f. sv_Flows demo_oidc_service = Some fs \<and> fs_Take fs demo_auth_world ''st'' = (w1, Inr f) \<and> fl_Nonce f \<noteq> '''')"
proof -
  obtain w' r where c: "CompleteCallback demo_oidc_service demo_auth_world ''st'' ''c'' = (w', r)" by fastforce
  have "\<exists>cb. snd (CompleteCallback demo_oidc_service demo_auth_world ''st'' ''c'') = Inr cb \<and> cb_Subject cb = ''alice''"
    by (simp add: demo_auth_eval demo_eval demo_oidc_service_def OIDCProvider_def oidc_Exchange_def demo_oauth_lib_def
        demo_oidc_def exchange_identity_def exchange_expiry_def)
  with c obtain cb where cb: "CompleteCallback demo_oidc_service demo_auth_world ''st'' ''c'' = (w', Inr cb)"
    "cb_Subject cb = ''alice''" by auto
  have "sv_Provider demo_oidc_service = Some (OIDCProvider demo_oauth_lib demo_oidc)"
    by (simp add: demo_oidc_service_def)
  from login_identity_verified [OF cb(1) this] cb show ?thesis by blast
qed

text \<open>
  What a refresh returns: an access token and an expiry always, and a refresh token to go on with, the new one
  where the provider rotates it and else the one that was sent; a response without access token or expiry is an error.
\<close>

theorem refresh_answer_complete:
  "RefreshTokens lib p w r = (w', Inr ts) \<longleftrightarrow>
     (\<exists>t. ol_Token lib (opr_oauth p) w r = (w', Inr t) \<and> r \<noteq> '''' \<and> ot_AccessToken t \<noteq> '''' \<and> \<not> IsZero (ot_Expiry t) \<and>
        ts_AccessToken ts = ot_AccessToken t \<and> ts_ExpiryUnix ts = Unix (ot_Expiry t) \<and>
        ts_RefreshToken ts = (if ot_RefreshToken t = '''' then r else ot_RefreshToken t) \<and> ts_RefreshToken ts \<noteq> '''' \<and>
        ts_IDToken ts = (case ot_ExtraIDToken t of None \<Rightarrow> '''' | Some i \<Rightarrow> i))"
  by (cases ts) (auto simp: RefreshTokens_def split: prod.splits sum.splits if_splits)

text \<open>
  C21. The logout of the identity provider is addressed as configured: the address that \<^verbatim>\<open>EndSessionURL\<close> composes from an
  absolute endpoint parses to the scheme, the host and the path of the endpoint, and its query carries the token hint and
  the return address exactly, whatever characters they have, beside the parameters of the endpoint.
\<close>

theorem logout_address_exact:
  assumes "url_Parse (opr_endSessionEndpoint p) = Some u" "u_Scheme u \<noteq> []" "u_Host u \<noteq> []"
  shows "\<exists>s u'. oidc_EndSessionURL p hint redirect = Inr s \<and> url_Parse s = Some u' \<and>
    u_Scheme u' = u_Scheme u \<and> u_Host u' = u_Host u \<and> u_Path u' = u_Path u \<and>
    map_of (ParseQuery (u_RawQuery u')) =
      (let q = map_of (ParseQuery (u_RawQuery u));
           q1 = (if hint \<noteq> [] then q(''id_token_hint'' \<mapsto> [hint]) else q)
       in if redirect \<noteq> [] then q1(''post_logout_redirect_uri'' \<mapsto> [redirect]) else q1)"
proof -
  define q where "q = (let q0 = ParseQuery (u_RawQuery u);
      q1 = (if hint \<noteq> [] then Values_Set ''id_token_hint'' hint q0 else q0)
    in if redirect \<noteq> [] then Values_Set ''post_logout_redirect_uri'' redirect q1 else q1)"
  have ok: "values_ok q" by (simp add: q_def Let_def Values_Set_ok ParseQuery_ok)
  have "absolute (u\<lparr>u_RawQuery := Values_Encode q\<rparr>)" using url_Parse_absolute [OF assms] by (simp add: absolute_def)
  moreover have "\<forall>x \<in> set (u_RawQuery (u\<lparr>u_RawQuery := Values_Encode q\<rparr>)). x \<noteq> CHR ''#'' \<and> \<not> is_ctl x"
    using Values_Encode_set by simp
  ultimately have "\<exists>u'. url_Parse (URL_String (u\<lparr>u_RawQuery := Values_Encode q\<rparr>)) = Some u' \<and> absolute u' \<and>
      u_Scheme u' = u_Scheme u \<and> u_Host u' = u_Host u \<and> u_Path u' = u_Path u \<and> u_RawQuery u' = Values_Encode q"
    by (drule_tac URL_String_parses) simp_all
  then obtain u' where u': "url_Parse (URL_String (u\<lparr>u_RawQuery := Values_Encode q\<rparr>)) = Some u'"
    "u_Scheme u' = u_Scheme u" "u_Host u' = u_Host u" "u_Path u' = u_Path u" "u_RawQuery u' = Values_Encode q" by blast
  have "opr_endSessionEndpoint p \<noteq> []"
    using assms by (auto simp: url_Parse_def parse_noFragment_def getScheme_def HasPrefix_def setPath_def empty_url_def)
  then have "oidc_EndSessionURL p hint redirect = Inr (URL_String (u\<lparr>u_RawQuery := Values_Encode q\<rparr>))"
    by (simp add: oidc_EndSessionURL_def assms(1) q_def Let_def)
  moreover have "map_of q = (let q = map_of (ParseQuery (u_RawQuery u));
      q1 = (if hint \<noteq> [] then q(''id_token_hint'' \<mapsto> [hint]) else q)
    in if redirect \<noteq> [] then q1(''post_logout_redirect_uri'' \<mapsto> [redirect]) else q1)"
    by (simp add: q_def Let_def map_of_Values_Set)
  ultimately show ?thesis using u' map_of_ParseQuery_Encode [OF ok] by auto
qed

theorem logout_address_exact_witness:
  "oidc_EndSessionURL (demo_oidc\<lparr>opr_endSessionEndpoint := ''https://idp/o?c=1''\<rparr>) ''j'' ''https://a/?x&y'' =
     Inr ''https://idp/o?c=1&id_token_hint=j&post_logout_redirect_uri=https%3A%2F%2Fa%2F%3Fx%26y'' \<and>
   (\<exists>s u'. oidc_EndSessionURL (demo_oidc\<lparr>opr_endSessionEndpoint := ''https://idp/o?c=1''\<rparr>) ''j'' ''https://a/?x&y'' = Inr s \<and>
      url_Parse s = Some u' \<and> u_Host u' = ''idp'' \<and>
      map_of (ParseQuery (u_RawQuery u')) ''post_logout_redirect_uri'' = Some [''https://a/?x&y''])"
proof
  show "oidc_EndSessionURL (demo_oidc\<lparr>opr_endSessionEndpoint := ''https://idp/o?c=1''\<rparr>) ''j'' ''https://a/?x&y'' =
     Inr ''https://idp/o?c=1&id_token_hint=j&post_logout_redirect_uri=https%3A%2F%2Fa%2F%3Fx%26y''" by code_simp
  have "case url_Parse ''https://idp/o?c=1'' of None \<Rightarrow> False | Some u \<Rightarrow> u_Scheme u = ''https'' \<and> u_Host u = ''idp''"
    by code_simp
  then obtain u where u: "url_Parse ''https://idp/o?c=1'' = Some u" "u_Scheme u = ''https''" "u_Host u = ''idp''"
    by (auto split: option.splits)
  with logout_address_exact [of "demo_oidc\<lparr>opr_endSessionEndpoint := ''https://idp/o?c=1''\<rparr>" u "''j''" "''https://a/?x&y''"]
  show "\<exists>s u'. oidc_EndSessionURL (demo_oidc\<lparr>opr_endSessionEndpoint := ''https://idp/o?c=1''\<rparr>) ''j'' ''https://a/?x&y'' = Inr s \<and>
      url_Parse s = Some u' \<and> u_Host u' = ''idp'' \<and>
      map_of (ParseQuery (u_RawQuery u')) ''post_logout_redirect_uri'' = Some [''https://a/?x&y'']"
    by (auto simp: Let_def)
qed

end
