(* ===== verification/Redis.thy ===== *)
theory Redis
  imports UserContext
begin

text \<open>
  The stores of a deployment with several processes (\<^verbatim>\<open>internal/store/redis\<close>): sessions, tokens, login flows, the
  cache and the refresh lock, kept in a Redis server. The driver is an argument (a record of the commands that the
  code sends), as are the JSON codecs of the stored values; what the theorems need of the commands is the predicate
  \<open>redis_laws\<close>. A command that returns an error may have been carried out or not.
\<close>

section \<open>Definitions\<close>

subsection \<open>The driver and the client (client.go)\<close>

record 'w redis_db =
  db_Get :: "'w \<Rightarrow> string \<Rightarrow> 'w \<times> (string option) result"
  db_Set :: "'w \<Rightarrow> string \<Rightarrow> string \<Rightarrow> duration \<Rightarrow> 'w \<times> goerr option"
  db_Del :: "'w \<Rightarrow> string \<Rightarrow> 'w \<times> goerr option"
  db_GetDel :: "'w \<Rightarrow> string \<Rightarrow> 'w \<times> (string option) result"
  db_SetNX :: "'w \<Rightarrow> string \<Rightarrow> string \<Rightarrow> duration \<Rightarrow> 'w \<times> bool result"
  db_CompareDel :: "'w \<Rightarrow> string \<Rightarrow> string \<Rightarrow> 'w \<times> goerr option"
  db_Ping :: "'w \<Rightarrow> 'w \<times> goerr option"

text \<open>
  \<open>db_CompareDel\<close> is \<^verbatim>\<open>Eval\<close> of the release script: it deletes the key if it holds the given value. The answer nil
  of \<^verbatim>\<open>Get\<close> and \<^verbatim>\<open>GetDel\<close> (the error \<^verbatim>\<open>redis.Nil\<close>) is \<open>Inr None\<close>.
\<close>

record 'w redis_client =
  rd_DB :: "'w redis_db"
  rd_Prefix :: string

text \<open>\<open>open_db\<close> is \<^verbatim>\<open>redis.ParseURL\<close> followed by \<^verbatim>\<open>redis.NewClient\<close>.\<close>

definition redis_New :: "(string \<Rightarrow> 'w redis_db result) \<Rightarrow> string \<Rightarrow> string \<Rightarrow> 'w redis_client result" where
  "redis_New open_db rawURL prefix0 =
     (if TrimSpace rawURL = '''' then Inl (ErrorString ''redis URL is required'')
      else case open_db rawURL of
          Inl e \<Rightarrow> Inl (ErrWrapped ''parse redis URL'' e)
        | Inr db \<Rightarrow>
            (let p = (if prefix0 = '''' then ''rebff'' else prefix0)
             in Inr \<lparr>rd_DB = db, rd_Prefix = TrimSuffix p '':''\<rparr>))"

definition redis_Ping :: "'w redis_client \<Rightarrow> 'w \<Rightarrow> 'w \<times> goerr option" where
  "redis_Ping c w = db_Ping (rd_DB c) w"

definition redis_key :: "'w redis_client \<Rightarrow> string list \<Rightarrow> string" where
  "redis_key c parts = strings_Join (rd_Prefix c # parts) '':''"

record 'v codec =
  co_Marshal :: "'v \<Rightarrow> string result"
  co_Unmarshal :: "string \<Rightarrow> 'v result"

text \<open>\<^verbatim>\<open>time.Until\<close>\<close>

definition time_Until :: "time \<Rightarrow> 'z world_scheme \<Rightarrow> duration \<times> 'z world_scheme" where
  "time_Until t w = (let (now, w1) = Now w in (Time_Sub t now, w1))"

text \<open>The common end of the three \<^verbatim>\<open>Put\<close> methods: marshal, refuse what has expired, store with the time left.\<close>

definition put_until ::
  "'z world_scheme redis_client \<Rightarrow> string result \<Rightarrow> time \<Rightarrow> goerr \<Rightarrow> string \<Rightarrow> 'z world_scheme
   \<Rightarrow> 'z world_scheme \<times> goerr option" where
  "put_until c marshalled expiresAt notFound key w =
     (case marshalled of
        Inl e \<Rightarrow> (w, Some e)
      | Inr b \<Rightarrow>
          (let (ttl, w1) = time_Until expiresAt w
           in if ttl \<le> 0 then (w1, Some notFound) else db_Set (rd_DB c) w1 key b ttl))"

subsection \<open>Sessions (session.go)\<close>

definition redis_session_key :: "'w redis_client \<Rightarrow> string \<Rightarrow> string" where
  "redis_session_key c i = redis_key c [''session'', i]"

definition RedisSession_Delete :: "'w redis_client \<Rightarrow> 'w \<Rightarrow> string \<Rightarrow> 'w \<times> goerr option" where
  "RedisSession_Delete c w i = db_Del (rd_DB c) w (redis_session_key c i)"

definition RedisSession_Get ::
  "'z world_scheme redis_client \<Rightarrow> session codec \<Rightarrow> 'z world_scheme \<Rightarrow> string \<Rightarrow> 'z world_scheme \<times> session result" where
  "RedisSession_Get c k w i =
     (case db_Get (rd_DB c) w (redis_session_key c i) of
        (w1, Inl e) \<Rightarrow> (w1, Inl e)
      | (w1, Inr None) \<Rightarrow> (w1, Inl ErrSessionNotFound)
      | (w1, Inr (Some raw)) \<Rightarrow>
          (case co_Unmarshal k raw of
             Inl e \<Rightarrow> (w1, Inl e)
           | Inr v \<Rightarrow>
               if IsZero (sess_ExpiresAt v) then (w1, Inr v)
               else (let (now, w2) = Now w1
                     in if \<not> After (sess_ExpiresAt v) now
                        then (fst (RedisSession_Delete c w2 i), Inl ErrSessionNotFound)
                        else (w2, Inr v))))"

definition RedisSession_Put ::
  "'z world_scheme redis_client \<Rightarrow> session codec \<Rightarrow> 'z world_scheme \<Rightarrow> session \<Rightarrow> 'z world_scheme \<times> goerr option" where
  "RedisSession_Put c k w v =
     put_until c (co_Marshal k v) (sess_ExpiresAt v) ErrSessionNotFound (redis_session_key c (sess_ID v)) w"

definition RedisSessionStore :: "'z world_scheme redis_client \<Rightarrow> session codec \<Rightarrow> 'z world_scheme session_store" where
  "RedisSessionStore c k =
     \<lparr>ss_Get = RedisSession_Get c k, ss_Put = RedisSession_Put c k, ss_Delete = RedisSession_Delete c\<rparr>"

subsection \<open>Tokens (token.go)\<close>

definition redis_token_key :: "'w redis_client \<Rightarrow> string \<Rightarrow> string" where
  "redis_token_key c i = redis_key c [''token'', i]"

definition RedisToken_Get ::
  "'w redis_client \<Rightarrow> token_set codec \<Rightarrow> 'w \<Rightarrow> string \<Rightarrow> 'w \<times> token_set result" where
  "RedisToken_Get c k w i =
     (case db_Get (rd_DB c) w (redis_token_key c i) of
        (w1, Inl e) \<Rightarrow> (w1, Inl e)
      | (w1, Inr None) \<Rightarrow> (w1, Inl ErrTokenNotFound)
      | (w1, Inr (Some raw)) \<Rightarrow> (w1, co_Unmarshal k raw))"

definition RedisToken_Put ::
  "'z world_scheme redis_client \<Rightarrow> token_set codec \<Rightarrow> 'z world_scheme \<Rightarrow> string \<Rightarrow> token_set \<Rightarrow> time
   \<Rightarrow> 'z world_scheme \<times> goerr option" where
  "RedisToken_Put c k w i v expiresAt =
     put_until c (co_Marshal k v) expiresAt ErrTokenNotFound (redis_token_key c i) w"

definition RedisToken_Delete :: "'w redis_client \<Rightarrow> 'w \<Rightarrow> string \<Rightarrow> 'w \<times> goerr option" where
  "RedisToken_Delete c w i = db_Del (rd_DB c) w (redis_token_key c i)"

definition RedisTokenStore :: "'z world_scheme redis_client \<Rightarrow> token_set codec \<Rightarrow> 'z world_scheme token_store" where
  "RedisTokenStore c k =
     \<lparr>tk_Get = RedisToken_Get c k, tk_Put = RedisToken_Put c k, tk_Delete = RedisToken_Delete c\<rparr>"

subsection \<open>Login flows (flow.go)\<close>

definition redis_flow_key :: "'w redis_client \<Rightarrow> string \<Rightarrow> string" where
  "redis_flow_key c state = redis_key c [''auth'', ''flow'', state]"

definition RedisFlow_Put ::
  "'z world_scheme redis_client \<Rightarrow> flow codec \<Rightarrow> 'z world_scheme \<Rightarrow> flow \<Rightarrow> 'z world_scheme \<times> goerr option" where
  "RedisFlow_Put c k w f =
     put_until c (co_Marshal k f) (fl_ExpiresAt f) ErrFlowNotFound (redis_flow_key c (fl_State f)) w"

definition RedisFlow_Take ::
  "'z world_scheme redis_client \<Rightarrow> flow codec \<Rightarrow> 'z world_scheme \<Rightarrow> string \<Rightarrow> 'z world_scheme \<times> flow result" where
  "RedisFlow_Take c k w state =
     (case db_GetDel (rd_DB c) w (redis_flow_key c state) of
        (w1, Inl e) \<Rightarrow> (w1, Inl e)
      | (w1, Inr None) \<Rightarrow> (w1, Inl ErrFlowNotFound)
      | (w1, Inr (Some raw)) \<Rightarrow>
          (case co_Unmarshal k raw of
             Inl e \<Rightarrow> (w1, Inl e)
           | Inr f \<Rightarrow>
               (let (now, w2) = Now w1
                in if \<not> After (fl_ExpiresAt f) now then (w2, Inl ErrFlowNotFound) else (w2, Inr f))))"

definition RedisFlowStore :: "'z world_scheme redis_client \<Rightarrow> flow codec \<Rightarrow> 'z world_scheme flow_store" where
  "RedisFlowStore c k = \<lparr>fs_Put = RedisFlow_Put c k, fs_Take = RedisFlow_Take c k\<rparr>"

subsection \<open>The cache (cache.go)\<close>

definition redis_cache_key :: "'w redis_client \<Rightarrow> string \<Rightarrow> string" where
  "redis_cache_key c key = redis_key c [''cache'', key]"

definition RedisCache_Get :: "'w redis_client \<Rightarrow> 'v codec \<Rightarrow> 'w \<Rightarrow> string \<Rightarrow> 'w \<times> ('v option) result" where
  "RedisCache_Get c k w key =
     (case db_Get (rd_DB c) w (redis_cache_key c key) of
        (w1, Inl e) \<Rightarrow> (w1, Inl e)
      | (w1, Inr None) \<Rightarrow> (w1, Inr None)
      | (w1, Inr (Some raw)) \<Rightarrow>
          (case co_Unmarshal k raw of Inl e \<Rightarrow> (w1, Inl e) | Inr v \<Rightarrow> (w1, Inr (Some v))))"

definition RedisCache_Set :: "'w redis_client \<Rightarrow> 'v codec \<Rightarrow> 'w \<Rightarrow> string \<Rightarrow> 'v \<Rightarrow> duration \<Rightarrow> 'w \<times> goerr option" where
  "RedisCache_Set c k w key v ttl =
     (case co_Marshal k v of
        Inl e \<Rightarrow> (w, Some e)
      | Inr b \<Rightarrow> db_Set (rd_DB c) w (redis_cache_key c key) b ttl)"

definition RedisCache_Delete :: "'w redis_client \<Rightarrow> 'w \<Rightarrow> string \<Rightarrow> 'w \<times> goerr option" where
  "RedisCache_Delete c w key = db_Del (rd_DB c) w (redis_cache_key c key)"

definition RedisCache :: "'w redis_client \<Rightarrow> 'v codec \<Rightarrow> ('w, 'v) cache" where
  "RedisCache c k = \<lparr>ca_Get = RedisCache_Get c k, ca_Set = RedisCache_Set c k, ca_Delete = RedisCache_Delete c\<rparr>"

subsection \<open>The refresh lock (refresh\_lock.go)\<close>

definition redis_lock_key :: "'w redis_client \<Rightarrow> string \<Rightarrow> string" where
  "redis_lock_key c key = redis_key c [''lock'', key]"

definition lease_ttl :: "duration \<Rightarrow> duration" where
  "lease_ttl ttl = (if ttl \<le> 0 then 10 * Second else ttl)"

text \<open>
  The loop of \<^verbatim>\<open>Lock\<close>. \<open>wait\<close> is the timer of 25 milliseconds, during which other processes act, and \<open>ctxerr\<close> the
  error of the context at a moment. The loop may run forever: then it has no result.
\<close>

partial_function (option) lock_loop ::
  "'w redis_db \<Rightarrow> ('w \<Rightarrow> 'w) \<Rightarrow> ('w \<Rightarrow> goerr option) \<Rightarrow> string \<Rightarrow> string \<Rightarrow> duration \<Rightarrow> 'w \<Rightarrow> ('w \<times> unit result) option" where
  "lock_loop db wait ctxerr k v ttl w =
     (case db_SetNX db w k v ttl of
        (w1, Inl e) \<Rightarrow> Some (w1, Inl e)
      | (w1, Inr ok) \<Rightarrow>
          if ok then Some (w1, Inr ())
          else (case ctxerr (wait w1) of
              Some e \<Rightarrow> Some (wait w1, Inl e)
            | None \<Rightarrow> lock_loop db wait ctxerr k v ttl (wait w1)))"

text \<open>\<^verbatim>\<open>Lock\<close> returns the value that marks the holder, which the unlock function closes over.\<close>

definition RedisLocker_Lock ::
  "'z world_scheme redis_client \<Rightarrow> ('z world_scheme \<Rightarrow> 'z world_scheme) \<Rightarrow> ('z world_scheme \<Rightarrow> goerr option)
   \<Rightarrow> 'z world_scheme \<Rightarrow> string \<Rightarrow> duration \<Rightarrow> ('z world_scheme \<times> string result) option" where
  "RedisLocker_Lock c wait ctxerr w key ttl =
     (case rand_Read 16 w of
        (Inl e, w1) \<Rightarrow> Some (w1, Inl e)
      | (Inr b, w1) \<Rightarrow>
          (let v = hex_EncodeToString b
           in case lock_loop (rd_DB c) wait ctxerr (redis_lock_key c key) v (lease_ttl ttl) w1 of
                None \<Rightarrow> None
              | Some (w2, Inl e) \<Rightarrow> Some (w2, Inl e)
              | Some (w2, Inr _) \<Rightarrow> Some (w2, Inr v)))"

definition RedisLocker_Unlock :: "'w redis_client \<Rightarrow> 'w \<Rightarrow> string \<Rightarrow> string \<Rightarrow> 'w \<times> goerr option" where
  "RedisLocker_Unlock c w key v =
     (case db_CompareDel (rd_DB c) w (redis_lock_key c key) v of
        (w1, None) \<Rightarrow> (w1, None)
      | (w1, Some e) \<Rightarrow> (w1, Some (ErrWrapped ''release refresh lock'' e)))"

section \<open>What the commands do\<close>

text \<open>
  The content of the server: each key with its value and the instant at which it expires. An expired entry counts
  as absent; whether the server has dropped it already makes no difference to any command.
\<close>

type_synonym server = "string \<rightharpoonup> string \<times> time option"

definition fresh :: "time \<Rightarrow> string \<times> time option \<Rightarrow> bool" where
  "fresh now en \<longleftrightarrow> (case snd en of None \<Rightarrow> True | Some t \<Rightarrow> now < t)"

definition visible :: "time \<Rightarrow> server \<Rightarrow> string \<rightharpoonup> string" where
  "visible now s k = (case s k of None \<Rightarrow> None | Some en \<Rightarrow> if fresh now en then Some (fst en) else None)"

text \<open>
  What \<^verbatim>\<open>SET\<close> with a lifetime leaves at the key: the value, which expires when the lifetime is over, rounded down to
  milliseconds, counted from the moment the server carries out the command; without a lifetime it stays.
\<close>

definition stored_as :: "string \<Rightarrow> duration \<Rightarrow> time \<Rightarrow> string \<times> time option \<Rightarrow> bool" where
  "stored_as b ttl now en \<longleftrightarrow>
     fst en = b \<and> (if ttl \<le> 0 then snd en = None else (\<exists>t. snd en = Some t \<and> now + ttl - Millisecond < t))"

definition law_Get :: "'z world_scheme redis_db \<Rightarrow> ('z world_scheme \<Rightarrow> server) \<Rightarrow> bool" where
  "law_Get db kv \<longleftrightarrow>
     (\<forall>w k w' r. db_Get db w k = (w', r) \<longrightarrow>
        kv w' = kv w \<and> clock_kept w w' \<and> (\<forall>x. r = Inr x \<longrightarrow> x = visible (cur w) (kv w) k))"

definition law_Set :: "'z world_scheme redis_db \<Rightarrow> ('z world_scheme \<Rightarrow> server) \<Rightarrow> bool" where
  "law_Set db kv \<longleftrightarrow>
     (\<forall>w k b ttl w' r. db_Set db w k b ttl = (w', r) \<longrightarrow>
        clock_kept w w' \<and> (\<exists>en. stored_as b ttl (cur w) en \<and>
          (kv w' = (kv w)(k \<mapsto> en) \<or> r \<noteq> None \<and> kv w' = kv w)))"

definition law_Del :: "'z world_scheme redis_db \<Rightarrow> ('z world_scheme \<Rightarrow> server) \<Rightarrow> bool" where
  "law_Del db kv \<longleftrightarrow>
     (\<forall>w k w' r. db_Del db w k = (w', r) \<longrightarrow>
        clock_kept w w' \<and> (kv w' = (kv w)(k := None) \<or> r \<noteq> None \<and> kv w' = kv w))"

definition law_GetDel :: "'z world_scheme redis_db \<Rightarrow> ('z world_scheme \<Rightarrow> server) \<Rightarrow> bool" where
  "law_GetDel db kv \<longleftrightarrow>
     (\<forall>w k w' r. db_GetDel db w k = (w', r) \<longrightarrow>
        clock_kept w w' \<and> (\<forall>x. r = Inr x \<longrightarrow> x = visible (cur w) (kv w) k) \<and>
        (kv w' = (kv w)(k := None) \<or> (\<exists>e. r = Inl e) \<and> kv w' = kv w))"

text \<open>\<^verbatim>\<open>SET\<close> with the option \<^verbatim>\<open>NX\<close> answers whether the key was free, and stores only then.\<close>

definition law_SetNX :: "'z world_scheme redis_db \<Rightarrow> ('z world_scheme \<Rightarrow> server) \<Rightarrow> bool" where
  "law_SetNX db kv \<longleftrightarrow>
     (\<forall>w k b ttl w' r. db_SetNX db w k b ttl = (w', r) \<longrightarrow>
        clock_kept w w' \<and> (\<forall>x. r = Inr x \<longrightarrow> x = (visible (cur w) (kv w) k = None)) \<and>
        (\<exists>en. stored_as b ttl (cur w) en \<and>
          (kv w' = kv w \<and> r \<noteq> Inr True \<or> visible (cur w) (kv w) k = None \<and> kv w' = (kv w)(k \<mapsto> en))))"

definition law_CompareDel :: "'z world_scheme redis_db \<Rightarrow> ('z world_scheme \<Rightarrow> server) \<Rightarrow> bool" where
  "law_CompareDel db kv \<longleftrightarrow>
     (\<forall>w k b w' r. db_CompareDel db w k b = (w', r) \<longrightarrow>
        clock_kept w w' \<and>
        (kv w' = kv w \<and> (r \<noteq> None \<or> visible (cur w) (kv w) k \<noteq> Some b) \<or>
         visible (cur w) (kv w) k = Some b \<and> kv w' = (kv w)(k := None)))"

definition redis_laws :: "'z world_scheme redis_db \<Rightarrow> ('z world_scheme \<Rightarrow> server) \<Rightarrow> bool" where
  "redis_laws db kv \<longleftrightarrow>
     (\<forall>w n. kv (w\<lparr>ticks := n\<rparr>) = kv w) \<and> law_Get db kv \<and> law_Set db kv \<and> law_Del db kv \<and>
     law_GetDel db kv \<and> law_SetNX db kv \<and> law_CompareDel db kv"

definition codec_ok :: "'v codec \<Rightarrow> bool" where
  "codec_ok k \<longleftrightarrow> (\<forall>v b. co_Marshal k v = Inr b \<longrightarrow> co_Unmarshal k b = Inr v)"

section \<open>Lemmas\<close>

lemma laws_ticks: "redis_laws db kv \<Longrightarrow> kv (w\<lparr>ticks := n\<rparr>) = kv w"
  by (simp add: redis_laws_def)

lemma laws_Get:
  assumes "redis_laws db kv" "db_Get db w k = (w', r)"
  shows "kv w' = kv w" "clock_kept w w'" "r = Inr x \<Longrightarrow> x = visible (cur w) (kv w) k"
proof -
  have "law_Get db kv" using assms(1) by (simp add: redis_laws_def)
  with assms(2) show "kv w' = kv w" "clock_kept w w'" "r = Inr x \<Longrightarrow> x = visible (cur w) (kv w) k"
    unfolding law_Get_def by (blast, blast, blast)
qed

lemma laws_Set:
  assumes "redis_laws db kv" "db_Set db w k b ttl = (w', r)"
  shows "clock_kept w w'"
    and "\<exists>en. stored_as b ttl (cur w) en \<and> (kv w' = (kv w)(k \<mapsto> en) \<or> r \<noteq> None \<and> kv w' = kv w)"
proof -
  have "law_Set db kv" using assms(1) by (simp add: redis_laws_def)
  with assms(2) show "clock_kept w w'"
    "\<exists>en. stored_as b ttl (cur w) en \<and> (kv w' = (kv w)(k \<mapsto> en) \<or> r \<noteq> None \<and> kv w' = kv w)"
    unfolding law_Set_def by (blast, blast)
qed

lemma laws_Del:
  assumes "redis_laws db kv" "db_Del db w k = (w', r)"
  shows "clock_kept w w'" "kv w' = (kv w)(k := None) \<or> r \<noteq> None \<and> kv w' = kv w"
proof -
  have "law_Del db kv" using assms(1) by (simp add: redis_laws_def)
  with assms(2) show "clock_kept w w'" "kv w' = (kv w)(k := None) \<or> r \<noteq> None \<and> kv w' = kv w"
    unfolding law_Del_def by (blast, blast)
qed

lemma laws_GetDel:
  assumes "redis_laws db kv" "db_GetDel db w k = (w', r)"
  shows "clock_kept w w'" "r = Inr x \<Longrightarrow> x = visible (cur w) (kv w) k"
    and "kv w' = (kv w)(k := None) \<or> (\<exists>e. r = Inl e) \<and> kv w' = kv w"
proof -
  have "law_GetDel db kv" using assms(1) by (simp add: redis_laws_def)
  with assms(2) show "clock_kept w w'" "r = Inr x \<Longrightarrow> x = visible (cur w) (kv w) k"
    "kv w' = (kv w)(k := None) \<or> (\<exists>e. r = Inl e) \<and> kv w' = kv w"
    unfolding law_GetDel_def by (blast, blast, blast)
qed

lemma laws_SetNX:
  assumes "redis_laws db kv" "db_SetNX db w k b ttl = (w', r)"
  shows "clock_kept w w'" "r = Inr x \<Longrightarrow> x = (visible (cur w) (kv w) k = None)"
    and "\<exists>en. stored_as b ttl (cur w) en \<and>
      (kv w' = kv w \<and> r \<noteq> Inr True \<or> visible (cur w) (kv w) k = None \<and> kv w' = (kv w)(k \<mapsto> en))"
proof -
  have "law_SetNX db kv" using assms(1) by (simp add: redis_laws_def)
  with assms(2) show "clock_kept w w'" "r = Inr x \<Longrightarrow> x = (visible (cur w) (kv w) k = None)"
    "\<exists>en. stored_as b ttl (cur w) en \<and>
      (kv w' = kv w \<and> r \<noteq> Inr True \<or> visible (cur w) (kv w) k = None \<and> kv w' = (kv w)(k \<mapsto> en))"
    unfolding law_SetNX_def by (blast, blast, blast)
qed

lemma laws_CompareDel:
  assumes "redis_laws db kv" "db_CompareDel db w k b = (w', r)"
  shows "clock_kept w w'"
    and "kv w' = kv w \<and> (r \<noteq> None \<or> visible (cur w) (kv w) k \<noteq> Some b) \<or>
      visible (cur w) (kv w) k = Some b \<and> kv w' = (kv w)(k := None)"
proof -
  have "law_CompareDel db kv" using assms(1) by (simp add: redis_laws_def)
  with assms(2) show "clock_kept w w'" "kv w' = kv w \<and> (r \<noteq> None \<or> visible (cur w) (kv w) k \<noteq> Some b) \<or>
      visible (cur w) (kv w) k = Some b \<and> kv w' = (kv w)(k := None)"
    unfolding law_CompareDel_def by (blast, blast)
qed

subsection \<open>Keys\<close>

lemmas store_keys =
  redis_session_key_def redis_token_key_def redis_flow_key_def redis_cache_key_def redis_lock_key_def redis_key_def

lemma store_keys_inj [simp]:
  "redis_session_key c i = redis_session_key c j \<longleftrightarrow> i = j"
  "redis_token_key c i = redis_token_key c j \<longleftrightarrow> i = j"
  "redis_flow_key c i = redis_flow_key c j \<longleftrightarrow> i = j"
  "redis_cache_key c i = redis_cache_key c j \<longleftrightarrow> i = j"
  "redis_lock_key c i = redis_lock_key c j \<longleftrightarrow> i = j"
  by (simp_all add: store_keys)

lemma store_keys_distinct [simp]:
  "redis_session_key c i \<noteq> redis_token_key c j" "redis_session_key c i \<noteq> redis_flow_key c j"
  "redis_session_key c i \<noteq> redis_cache_key c j" "redis_session_key c i \<noteq> redis_lock_key c j"
  "redis_token_key c i \<noteq> redis_flow_key c j" "redis_token_key c i \<noteq> redis_cache_key c j"
  "redis_token_key c i \<noteq> redis_lock_key c j" "redis_flow_key c i \<noteq> redis_cache_key c j"
  "redis_flow_key c i \<noteq> redis_lock_key c j" "redis_cache_key c i \<noteq> redis_lock_key c j"
  by (simp_all add: store_keys)

text \<open>An operation that changes the server at one key at most.\<close>

definition only_at :: "string \<Rightarrow> server \<Rightarrow> server \<Rightarrow> bool" where
  "only_at k s s' \<longleftrightarrow> (\<forall>k'. k' \<noteq> k \<longrightarrow> s' k' = s k')"

lemma only_at_refl [simp]: "only_at k s s"
  by (simp add: only_at_def)

lemma only_at_upd [simp]: "only_at k s (s(k := x))"
  by (simp add: only_at_def)

lemma only_at_db:
  assumes "redis_laws db kv"
  shows "only_at k (kv w) (kv (fst (db_Set db w k b ttl)))" "only_at k (kv w) (kv (fst (db_Del db w k)))"
    and "only_at k (kv w) (kv (fst (db_Get db w k)))" "only_at k (kv w) (kv (fst (db_GetDel db w k)))"
    and "only_at k (kv w) (kv (fst (db_CompareDel db w k b)))" "only_at k (kv w) (kv (fst (db_SetNX db w k b ttl)))"
  using laws_Set(2) [OF assms, of w k b ttl] laws_Del(2) [OF assms, of w k] laws_Get(1) [OF assms, of w k]
    laws_GetDel(3) [OF assms, of w k] laws_CompareDel(2) [OF assms, of w k b] laws_SetNX(3) [OF assms, of w k b ttl]
  by (metis only_at_refl only_at_upd prod.collapse)+

lemma put_until_only_at:
  assumes "redis_laws (rd_DB c) kv"
  shows "only_at k (kv w) (kv (fst (put_until c m t e k w)))"
  using only_at_db(1) [OF assms, of k "w\<lparr>ticks := Suc (ticks w)\<rparr>"]
  by (cases m) (simp_all add: put_until_def time_Until_def Now_eq Let_def laws_ticks [OF assms])

lemma RedisSession_Get_only_at:
  assumes "redis_laws (rd_DB c) kv"
  shows "only_at (redis_session_key c i) (kv w) (kv (fst (RedisSession_Get c k w i)))"
proof -
  obtain w1 r where get: "db_Get (rd_DB c) w (redis_session_key c i) = (w1, r)" by fastforce
  have "only_at (redis_session_key c i) (kv w) (kv (fst (db_Del (rd_DB c) (w1\<lparr>ticks := n\<rparr>) (redis_session_key c i))))" for n
    using only_at_db(2) [OF assms, of "redis_session_key c i" "w1\<lparr>ticks := n\<rparr>"] laws_Get(1) [OF assms get]
    by (simp add: laws_ticks [OF assms])
  then show ?thesis
    using laws_Get(1) [OF assms get]
    by (auto simp: RedisSession_Get_def get Now_eq RedisSession_Delete_def laws_ticks [OF assms] Let_def
        split: sum.split option.split)
qed

lemma RedisFlow_Take_only_at:
  assumes "redis_laws (rd_DB c) kv"
  shows "only_at (redis_flow_key c i) (kv w) (kv (fst (RedisFlow_Take c k w i)))"
  using only_at_db(4) [OF assms, of "redis_flow_key c i" w]
  by (auto simp: RedisFlow_Take_def Now_eq laws_ticks [OF assms] Let_def split: sum.split option.split prod.split)

subsection \<open>Clocks\<close>

lemma cur_mono: "clock_ok w \<Longrightarrow> clock_kept w w' \<Longrightarrow> cur w \<le> cur w'"
  by (simp add: clock_kept_def cur_def clock_ok_def mono_def)

lemma clock_ok_kept: "clock_ok w \<Longrightarrow> clock_kept w w' \<Longrightarrow> clock_ok w'"
  by (simp add: clock_kept_def clock_ok_def)

subsection \<open>Leases\<close>

text \<open>
  Processes that compete for one lock: the world they share, and for each process that was given the lock the moment
  until which it may rely on it. An attempt is one pass of the loop of \<^verbatim>\<open>Lock\<close>; a process may also end without
  releasing its lock, and whatever else happens leaves the key of the lock alone.
\<close>

record 'w leases =
  le_world :: 'w
  le_held :: "nat \<Rightarrow> time option"

inductive lease_step ::
  "'z world_scheme redis_client \<Rightarrow> ('z world_scheme \<Rightarrow> server) \<Rightarrow> string \<Rightarrow> (nat \<Rightarrow> string) \<Rightarrow> duration
   \<Rightarrow> 'z world_scheme leases \<Rightarrow> 'z world_scheme leases \<Rightarrow> bool"
  for c kv key val ttl where
  attempt: "le_held S i = None \<Longrightarrow>
     db_SetNX (rd_DB c) (le_world S) (redis_lock_key c key) (val i) (lease_ttl ttl) = (w', r) \<Longrightarrow>
     lease_step c kv key val ttl S
       (S\<lparr>le_world := w', le_held := (if r = Inr True
          then (le_held S)(i \<mapsto> cur (le_world S) + lease_ttl ttl - Millisecond) else le_held S)\<rparr>)"
| release: "le_held S i = Some e \<Longrightarrow> RedisLocker_Unlock c (le_world S) key (val i) = (w', r) \<Longrightarrow>
     lease_step c kv key val ttl S (S\<lparr>le_world := w', le_held := (le_held S)(i := None)\<rparr>)"
| abandon: "lease_step c kv key val ttl S (S\<lparr>le_held := (le_held S)(i := None)\<rparr>)"
| other: "clock_kept (le_world S) w' \<Longrightarrow>
     kv w' (redis_lock_key c key) = kv (le_world S) (redis_lock_key c key) \<Longrightarrow>
     lease_step c kv key val ttl S (S\<lparr>le_world := w'\<rparr>)"

definition lease_inv ::
  "'z world_scheme redis_client \<Rightarrow> ('z world_scheme \<Rightarrow> server) \<Rightarrow> string \<Rightarrow> (nat \<Rightarrow> string) \<Rightarrow> 'z world_scheme leases \<Rightarrow> bool" where
  "lease_inv c kv key val S \<longleftrightarrow> clock_ok (le_world S) \<and>
     (\<forall>i e. le_held S i = Some e \<longrightarrow> cur (le_world S) < e \<longrightarrow>
        (\<exists>t. kv (le_world S) (redis_lock_key c key) = Some (val i, Some t) \<and> e \<le> t))"

lemma lease_ttl_pos: "0 < lease_ttl ttl"
  by (simp add: lease_ttl_def)

lemma lease_inv_later:
  assumes "lease_inv c kv key val S" "clock_kept (le_world S) w'"
    and "kv w' (redis_lock_key c key) = kv (le_world S) (redis_lock_key c key)"
    and "\<And>i e. held i = Some e \<Longrightarrow> le_held S i = Some e"
  shows "lease_inv c kv key val (S\<lparr>le_world := w', le_held := held\<rparr>)"
  using assms cur_mono [of "le_world S" w'] clock_ok_kept [of "le_world S" w']
  unfolding lease_inv_def by fastforce

lemma lease_inv_drop:
  assumes "lease_inv c kv key val S" "clock_kept (le_world S) w'"
    and "kv w' (redis_lock_key c key) = kv (le_world S) (redis_lock_key c key)"
  shows "lease_inv c kv key val (S\<lparr>le_world := w', le_held := (le_held S)(i := None)\<rparr>)"
  by (rule lease_inv_later [OF assms]) (simp split: if_splits)

lemma lease_inv_attempt:
  assumes inv: "lease_inv c kv key val S" and laws: "redis_laws (rd_DB c) kv"
    and nx: "db_SetNX (rd_DB c) (le_world S) (redis_lock_key c key) (val i) (lease_ttl ttl) = (w', r)"
  shows "lease_inv c kv key val (S\<lparr>le_world := w', le_held := (if r = Inr True
          then (le_held S)(i \<mapsto> cur (le_world S) + lease_ttl ttl - Millisecond) else le_held S)\<rparr>)"
    (is "lease_inv c kv key val ?S")
proof -
  let ?k = "redis_lock_key c key" and ?w = "le_world S"
  note nx = laws_SetNX [OF laws nx]
  have clock: "clock_ok ?w" using inv by (simp add: lease_inv_def)
  from nx(3) consider "kv w' = kv ?w" "r \<noteq> Inr True"
    | en where "stored_as (val i) (lease_ttl ttl) (cur ?w) en" "visible (cur ?w) (kv ?w) ?k = None"
      "kv w' = (kv ?w)(?k \<mapsto> en)"
    by blast
  then show ?thesis
  proof cases
    case 1
    with lease_inv_later [OF inv nx(1), of "le_held S"] show ?thesis by simp
  next
    case en: 2
    have expired: "\<not> cur ?w < e" if "le_held S j = Some e" for j e
      using inv en(2) that unfolding lease_inv_def by (fastforce simp: visible_def fresh_def)
    from en(1) lease_ttl_pos obtain t where t: "en = (val i, Some t)" "cur ?w + lease_ttl ttl - Millisecond < t"
      by (cases en) (auto simp: stored_as_def not_le [symmetric])
    have "\<exists>t. kv w' ?k = Some (val j, Some t) \<and> e \<le> t" if held: "le_held ?S j = Some e" "cur w' < e" for j e
    proof (cases "le_held S j = Some e")
      case True
      with expired [OF True] held(2) cur_mono [OF clock nx(1)] show ?thesis by simp
    next
      case False
      with held(1) have "j = i" "e = cur ?w + lease_ttl ttl - Millisecond" by (auto split: if_splits)
      with t en(3) show ?thesis by simp
    qed
    then show ?thesis using clock_ok_kept [OF clock nx(1)] by (simp add: lease_inv_def)
  qed
qed

lemma lease_inv_release:
  assumes inv: "lease_inv c kv key val S" and laws: "redis_laws (rd_DB c) kv" and inj: "inj val"
    and unlock: "RedisLocker_Unlock c (le_world S) key (val i) = (w', r)"
  shows "lease_inv c kv key val (S\<lparr>le_world := w', le_held := (le_held S)(i := None)\<rparr>)"
proof -
  let ?k = "redis_lock_key c key" and ?w = "le_world S"
  from unlock obtain r0 where cd: "db_CompareDel (rd_DB c) ?w ?k (val i) = (w', r0)"
    by (auto simp: RedisLocker_Unlock_def split: prod.splits option.splits)
  note del = laws_CompareDel [OF laws cd]
  show ?thesis
  proof (cases "kv w' = kv ?w")
    case True
    with lease_inv_drop [OF inv del(1)] show ?thesis by simp
  next
    case False
    with del(2) have own: "visible (cur ?w) (kv ?w) ?k = Some (val i)" by blast
    have "\<not> cur ?w < e" if "le_held S j = Some e" "j \<noteq> i" for j e
    proof
      assume "cur ?w < e"
      with inv that(1) obtain t where "kv ?w ?k = Some (val j, Some t)" "e \<le> t"
        unfolding lease_inv_def by blast
      with own \<open>cur ?w < e\<close> have "val j = val i" by (simp add: visible_def split: if_splits)
      with inj that(2) show False by (auto dest: injD)
    qed
    with inv cur_mono [OF _ del(1)] clock_ok_kept [OF _ del(1)] show ?thesis
      by (fastforce simp: lease_inv_def)
  qed
qed

lemma lease_inv_step:
  assumes "lease_step c kv key val ttl S S'" "redis_laws (rd_DB c) kv" "inj val" "lease_inv c kv key val S"
  shows "lease_inv c kv key val S'"
  using assms(1)
proof cases
  case (attempt i w' r)
  then show ?thesis by (simp only: lease_inv_attempt [OF assms(4,2)])
next
  case (release i e w' r)
  then show ?thesis by (simp only: lease_inv_release [OF assms(4,2,3)])
next
  case (abandon i)
  with lease_inv_drop [OF assms(4), of "le_world S" i] show ?thesis by simp
next
  case (other w')
  with lease_inv_later [OF assms(4), of w' "le_held S"] show ?thesis by simp
qed

lemma lease_inv_reach:
  assumes "(lease_step c kv key val ttl)\<^sup>*\<^sup>* S0 S" "redis_laws (rd_DB c) kv" "inj val" "lease_inv c kv key val S0"
  shows "lease_inv c kv key val S"
  using assms(1) by (induction rule: rtranclp_induct) (use assms lease_inv_step in blast)+

subsection \<open>The loop of the lock\<close>

text \<open>
  A wait takes at least 25 milliseconds of the clock that the processes share (\<open>steady\<close>: in every world with that
  clock), and leaves it in place.
\<close>

definition steady :: "(nat \<Rightarrow> time) \<Rightarrow> ('z world_scheme \<Rightarrow> 'z world_scheme) \<Rightarrow> bool" where
  "steady clock wait \<longleftrightarrow>
     mono clock \<and> (\<forall>w. clk w = clock \<longrightarrow> clk (wait w) = clock \<and> cur w + 25 * Millisecond \<le> cur (wait w))"

lemma lock_wait:
  assumes "redis_laws db kv" "steady clock wait" "clk w = clock" "db_SetNX db w k v ttl = (w1, r)"
  shows "clk (wait w1) = clock" "cur w + 25 * Millisecond \<le> cur (wait w1)"
proof -
  have "clk w1 = clock" "cur w \<le> cur w1"
    using laws_SetNX(1) [OF assms(1,4)] assms(2,3) cur_mono [of w w1]
    by (simp_all add: clock_kept_def steady_def clock_ok_def)
  with assms(2) show "clk (wait w1) = clock" "cur w + 25 * Millisecond \<le> cur (wait w1)"
    by (auto simp: steady_def)
qed

text \<open>The loop returns when the context ends at some moment.\<close>

lemma lock_loop_returns:
  assumes laws: "redis_laws db kv" "steady clock wait" and deadline: "\<And>w. clk w = clock \<Longrightarrow> D \<le> cur w \<Longrightarrow> ctxerr w \<noteq> None"
    and "clk w = clock"
  shows "\<exists>y. lock_loop db wait ctxerr k v ttl w = Some y"
  using assms(4)
proof (induction "nat (D - cur w)" arbitrary: w rule: less_induct)
  case less
  obtain w1 r where nx: "db_SetNX db w k v ttl = (w1, r)" by fastforce
  note after = lock_wait [OF laws less.prems nx]
  have go: "\<exists>y. lock_loop db wait ctxerr k v ttl (wait w1) = Some y" if "ctxerr (wait w1) = None"
  proof -
    have "\<not> D \<le> cur (wait w1)" using deadline after(1) that by blast
    with after(2) have "nat (D - cur (wait w1)) < nat (D - cur w)" by simp
    from less.hyps [OF this after(1)] show ?thesis .
  qed
  show ?case
    by (subst lock_loop.simps) (use go in \<open>auto simp: nx split: sum.split option.split\<close>)
qed

text \<open>A lock whose holder is gone is obtained once its lifetime is over, if nobody else takes it.\<close>

lemma lock_loop_obtains:
  assumes laws: "redis_laws db kv" "steady clock wait"
    and quiet: "\<And>w. kv (wait w) k = kv w k" "\<And>w. ctxerr w = None"
    and up: "\<And>w w1 e. db_SetNX db w k v ttl \<noteq> (w1, Inl e)"
    and "kv w k = Some (b, Some t)" "clk w = clock"
  shows "\<exists>w'. lock_loop db wait ctxerr k v ttl w = Some (w', Inr ())"
  using assms(6,7)
proof (induction "nat (t - cur w)" arbitrary: w rule: less_induct)
  case less
  obtain w1 r where nx: "db_SetNX db w k v ttl = (w1, r)" by fastforce
  with up obtain ok where r: "r = Inr ok" by (cases r) auto
  note after = lock_wait [OF laws less.prems(2) nx]
  show ?case
  proof (cases ok)
    case True
    then show ?thesis by (subst lock_loop.simps) (simp add: nx r)
  next
    case False
    with laws_SetNX(2) [OF laws(1) nx r] have taken: "visible (cur w) (kv w) k \<noteq> None" by simp
    with less.prems(1) have "cur w < t"
      by (auto simp: visible_def fresh_def split: if_splits)
    moreover have "kv w1 k = Some (b, Some t)"
      using laws_SetNX(3) [OF laws(1) nx] taken less.prems(1) by auto
    ultimately have "\<exists>w'. lock_loop db wait ctxerr k v ttl (wait w1) = Some (w', Inr ())"
      using less.hyps [of "wait w1"] after quiet(1) by simp
    with False show ?thesis by (subst lock_loop.simps) (simp add: nx r quiet(2))
  qed
qed

subsection \<open>Reading what was stored\<close>

lemma put_until_stored:
  assumes "redis_laws (rd_DB c) kv" "put_until c m expires e k w = (w1, None)" "clock_ok w" "expires < cur w + 2 ^ 63"
  shows "\<exists>b t. m = Inr b \<and> kv w1 k = Some (b, Some t) \<and> expires - Millisecond < t \<and> cur w < expires \<and> clock_kept w w1"
proof -
  from assms(2) obtain b where b: "m = Inr b" by (cases m) (auto simp: put_until_def)
  let ?w = "w\<lparr>ticks := Suc (ticks w)\<rparr>" and ?ttl = "Time_Sub expires (cur w)"
  have ttl: "\<not> ?ttl \<le> 0" and set: "db_Set (rd_DB c) ?w k b ?ttl = (w1, None)"
    using assms(2) by (simp_all add: put_until_def b time_Until_def Now_eq Let_def split: if_splits)
  from ttl assms(4) have exact: "?ttl = expires - cur w" and pos: "cur w < expires"
    by (auto simp: Time_Sub_def min_def max_def split: if_splits)
  from laws_Set(2) [OF assms(1) set] obtain en where
    en: "stored_as b ?ttl (cur ?w) en" "kv w1 = (kv ?w)(k \<mapsto> en)" by auto
  from en(1) ttl obtain t where t: "en = (b, Some t)" "cur ?w + ?ttl - Millisecond < t"
    by (cases en) (auto simp: stored_as_def)
  have "cur w \<le> cur ?w" using cur_ticks [OF assms(3)] by simp
  with t exact have "expires - Millisecond < t" by simp
  moreover have "clock_kept w w1"
    using laws_Set(1) [OF assms(1) set] by (simp add: clock_kept_def)
  ultimately show ?thesis using b en(2) t(1) pos by simp
qed

lemma RedisSession_Delete_clock:
  assumes "redis_laws (rd_DB c) kv"
  shows "clock_kept w (fst (RedisSession_Delete c (w\<lparr>ticks := Suc (ticks w)\<rparr>) sid))"
  using laws_Del(1) [OF assms, of "w\<lparr>ticks := Suc (ticks w)\<rparr>" "redis_session_key c sid"]
  by (cases "db_Del (rd_DB c) (w\<lparr>ticks := Suc (ticks w)\<rparr>) (redis_session_key c sid)")
    (simp add: RedisSession_Delete_def clock_kept_def)

section \<open>Properties\<close>

text \<open>
  C36. A session that was stored is read back as it was, by any process, until a millisecond before it expires, and
  is not read any more from its expiry on, as long as nobody writes or deletes its key in between: a read gives the
  error of the driver or the session in the first case, and an error in the second.
\<close>

theorem redis_session_roundtrip:
  assumes "redis_laws (rd_DB c) kv" "codec_ok k" "clock_ok w" "sess_ExpiresAt v < cur w + 2 ^ 63"
    and "RedisSession_Put c k w v = (w1, None)" "clock_kept w1 w2"
    and "kv w2 (redis_session_key c (sess_ID v)) = kv w1 (redis_session_key c (sess_ID v))"
    and "RedisSession_Get c k w2 (sess_ID v) = (w3, r)"
  shows "(cur w3 \<le> sess_ExpiresAt v - Millisecond \<longrightarrow>
      r = Inr v \<or> (\<exists>w' e. db_Get (rd_DB c) w2 (redis_session_key c (sess_ID v)) = (w', Inl e) \<and> r = Inl e)) \<and>
    (sess_ExpiresAt v \<le> cur w2 \<longrightarrow> sess_ExpiresAt v \<noteq> 0 \<longrightarrow> (\<exists>e. r = Inl e))"
proof -
  let ?k = "redis_session_key c (sess_ID v)"
  from put_until_stored [OF assms(1) assms(5) [unfolded RedisSession_Put_def] assms(3,4)] obtain b t where
    b: "co_Marshal k v = Inr b" and st: "kv w1 ?k = Some (b, Some t)" "sess_ExpiresAt v - Millisecond < t"
      "clock_kept w w1" by blast
  have un: "co_Unmarshal k b = Inr v" using assms(2) b by (simp add: codec_ok_def)
  obtain w' x where get: "db_Get (rd_DB c) w2 ?k = (w', x)" by fastforce
  note g = laws_Get [OF assms(1) get]
  have ok: "clock_ok w2" using assms(3,6) st(3) by (metis clock_ok_kept)
  then have le: "cur w2 \<le> cur w'" "clock_ok w'" using g(2) by (simp_all add: cur_mono clock_ok_kept)
  show ?thesis
  proof (cases x)
    case (Inl e)
    with assms(8) get show ?thesis by (auto simp: RedisSession_Get_def)
  next
    case (Inr raw)
    with g(3) have raw: "raw = (if cur w2 < t then Some b else None)"
      using st(1) assms(7) by (simp add: visible_def fresh_def)
    have run: "RedisSession_Get c k w2 (sess_ID v) =
        (if \<not> cur w2 < t then (w', Inl ErrSessionNotFound)
         else if sess_ExpiresAt v = 0 then (w', Inr v)
         else if sess_ExpiresAt v \<le> cur w'
         then (fst (RedisSession_Delete c (w'\<lparr>ticks := Suc (ticks w')\<rparr>) (sess_ID v)), Inl ErrSessionNotFound)
         else (w'\<lparr>ticks := Suc (ticks w')\<rparr>, Inr v))"
      by (auto simp: RedisSession_Get_def get Inr raw un Now_eq go_time Let_def)
    have "clock_kept w' w3"
      using assms(8) run RedisSession_Delete_clock [OF assms(1), of w'] by (auto simp: clock_kept_def split: if_splits)
    with le(2) have "cur w' \<le> cur w3" by (rule cur_mono)
    with run assms(8) st(2) le(1) show ?thesis by (auto split: if_splits)
  qed
qed

text \<open>
  A login flow is handed out once: after a successful take, no take of the same state succeeds unless the flow
  is stored again, by whichever process; and the flow that was handed out had not expired.
\<close>

theorem redis_flow_single_use:
  assumes "redis_laws (rd_DB c) kv" "RedisFlow_Take c k w state = (w1, Inr f)"
    and "kv w2 (redis_flow_key c state) = kv w1 (redis_flow_key c state)" "RedisFlow_Take c k w2 state = (w3, r)"
  shows "(\<exists>e. r = Inl e) \<and> (\<exists>n. clk w1 n < fl_ExpiresAt f)"
proof -
  obtain w' raw where gd: "db_GetDel (rd_DB c) w (redis_flow_key c state) = (w', Inr raw)"
    and now: "w1 = w'\<lparr>ticks := Suc (ticks w')\<rparr>" "cur w' < fl_ExpiresAt f"
    using assms(2) by (auto simp: RedisFlow_Take_def Now_eq go_time Let_def split: prod.splits sum.splits option.splits if_splits)
  have "kv w2 (redis_flow_key c state) = None"
    using laws_GetDel(3) [OF assms(1) gd] assms(3) now(1) by (simp add: laws_ticks [OF assms(1)])
  then have "x = None" if "db_GetDel (rd_DB c) w2 (redis_flow_key c state) = (y, Inr x)" for x y
    using laws_GetDel(2) [OF assms(1) that] by (simp add: visible_def)
  then have "\<exists>e. r = Inl e"
    using assms(4)
    by (cases "db_GetDel (rd_DB c) w2 (redis_flow_key c state)"; cases "snd (db_GetDel (rd_DB c) w2 (redis_flow_key c state))")
      (fastforce simp: RedisFlow_Take_def)+
  moreover have "clk w1 (ticks w') < fl_ExpiresAt f" using now by (simp add: cur_def)
  ultimately show ?thesis by blast
qed

text \<open>
  The stores share one server without touching each other: every operation changes the server at the key of its
  own entry at most, and no key of one store is a key of another, whatever the identifiers contain.
\<close>

theorem redis_stores_separate:
  assumes "redis_laws (rd_DB c) kv"
  shows "only_at (redis_session_key c i) (kv w) (kv (fst (ss_Get (RedisSessionStore c sk) w i))) \<and>
    only_at (redis_session_key c (sess_ID v)) (kv w) (kv (fst (ss_Put (RedisSessionStore c sk) w v))) \<and>
    only_at (redis_session_key c i) (kv w) (kv (fst (ss_Delete (RedisSessionStore c sk) w i))) \<and>
    only_at (redis_token_key c i) (kv w) (kv (fst (tk_Get (RedisTokenStore c tk) w i))) \<and>
    only_at (redis_token_key c i) (kv w) (kv (fst (tk_Put (RedisTokenStore c tk) w i ts expires))) \<and>
    only_at (redis_token_key c i) (kv w) (kv (fst (tk_Delete (RedisTokenStore c tk) w i))) \<and>
    only_at (redis_flow_key c (fl_State f)) (kv w) (kv (fst (fs_Put (RedisFlowStore c fk) w f))) \<and>
    only_at (redis_flow_key c i) (kv w) (kv (fst (fs_Take (RedisFlowStore c fk) w i))) \<and>
    only_at (redis_cache_key c i) (kv w) (kv (fst (ca_Get (RedisCache c ck) w i))) \<and>
    only_at (redis_cache_key c i) (kv w) (kv (fst (ca_Set (RedisCache c ck) w i x ttl))) \<and>
    only_at (redis_cache_key c i) (kv w) (kv (fst (ca_Delete (RedisCache c ck) w i))) \<and>
    only_at (redis_lock_key c i) (kv w) (kv (fst (RedisLocker_Unlock c w i m))) \<and>
    distinct [redis_session_key c a1, redis_token_key c a2, redis_flow_key c a3, redis_cache_key c a4, redis_lock_key c a5]"
proof -
  note db = only_at_db [OF assms]
  have token: "only_at (redis_token_key c i) (kv w) (kv (fst (RedisToken_Get c tk w i)))"
    using db(3) [of "redis_token_key c i" w] by (auto simp: RedisToken_Get_def split: prod.split sum.split option.split)
  have cache: "only_at (redis_cache_key c i) (kv w) (kv (fst (RedisCache_Get c ck w i)))"
    using db(3) [of "redis_cache_key c i" w] by (auto simp: RedisCache_Get_def split: prod.split sum.split option.split)
  have unlock: "only_at (redis_lock_key c i) (kv w) (kv (fst (RedisLocker_Unlock c w i m)))"
    using db(5) [of "redis_lock_key c i" w m] by (auto simp: RedisLocker_Unlock_def split: prod.split option.split)
  show ?thesis
    using db(1,2) put_until_only_at [OF assms] RedisSession_Get_only_at [OF assms] RedisFlow_Take_only_at [OF assms]
    by (intro conjI token cache unlock)
      (simp_all add: RedisSessionStore_def RedisTokenStore_def RedisFlowStore_def RedisCache_def RedisSession_Put_def
        RedisSession_Delete_def RedisToken_Put_def RedisToken_Delete_def RedisFlow_Put_def RedisCache_Set_def
        RedisCache_Delete_def token cache split: sum.split)
qed


text \<open>
  C17. The lock returns: where the context ends at some moment, after finitely many attempts; and where it does not
  end, a lock whose holder is gone is obtained once its lifetime is over, if nobody else takes it and the server answers.
\<close>

theorem redis_lock_returns:
  assumes "redis_laws (rd_DB c) kv" "steady (clk w) wait"
  shows "((\<forall>w'. clk w' = clk w \<longrightarrow> D \<le> cur w' \<longrightarrow> ctxerr w' \<noteq> None) \<longrightarrow>
      (\<exists>y. RedisLocker_Lock c wait ctxerr w key ttl = Some y)) \<and>
    ((\<forall>w'. kv (wait w') (redis_lock_key c key) = kv w' (redis_lock_key c key)) \<longrightarrow>
     (\<forall>w' b. \<not> (\<exists>w'' e. db_SetNX (rd_DB c) w' (redis_lock_key c key) b (lease_ttl ttl) = (w'', Inl e))) \<longrightarrow>
     (\<forall>w' n. kv (w'\<lparr>rands := n\<rparr>) = kv w') \<longrightarrow> rand_src w (rands w) 16 = Inr bytes \<longrightarrow>
     kv w (redis_lock_key c key) = Some (m, Some t) \<longrightarrow>
     (\<exists>w'. RedisLocker_Lock c wait (\<lambda>_. None) w key ttl = Some (w', Inr (hex_EncodeToString bytes))))"
proof (intro conjI impI)
  let ?k = "redis_lock_key c key" and ?w = "w\<lparr>rands := Suc (rands w)\<rparr>"
  assume D: "\<forall>w'. clk w' = clk w \<longrightarrow> D \<le> cur w' \<longrightarrow> ctxerr w' \<noteq> None"
  show "\<exists>y. RedisLocker_Lock c wait ctxerr w key ttl = Some y"
  proof (cases "rand_src w (rands w) 16")
    case (Inl e)
    then show ?thesis by (simp add: RedisLocker_Lock_def rand_Read_def)
  next
    case (Inr b)
    have "\<exists>y. lock_loop (rd_DB c) wait ctxerr ?k (hex_EncodeToString b) (lease_ttl ttl) ?w = Some y"
      by (rule lock_loop_returns [OF assms, of D]) (use D in auto)
    then show ?thesis
      by (auto simp: RedisLocker_Lock_def rand_Read_def Inr Let_def split: sum.split)
  qed
next
  let ?k = "redis_lock_key c key" and ?w = "w\<lparr>rands := Suc (rands w)\<rparr>"
  assume quiet: "\<forall>w'. kv (wait w') ?k = kv w' ?k" and
    up: "\<forall>w' b. \<not> (\<exists>w'' e. db_SetNX (rd_DB c) w' ?k b (lease_ttl ttl) = (w'', Inl e))" and
    rands: "\<forall>w' n. kv (w'\<lparr>rands := n\<rparr>) = kv w'" "rand_src w (rands w) 16 = Inr bytes" and held: "kv w ?k = Some (m, Some t)"
  have "\<exists>w'. lock_loop (rd_DB c) wait (\<lambda>_. None) ?k (hex_EncodeToString bytes) (lease_ttl ttl) ?w = Some (w', Inr ())"
    by (rule lock_loop_obtains [OF assms, of ?k _ _ _ ?w m t]) (use quiet up rands(1) held in auto)
  then show "\<exists>w'. RedisLocker_Lock c wait (\<lambda>_. None) w key ttl = Some (w', Inr (hex_EncodeToString bytes))"
    by (auto simp: RedisLocker_Lock_def rand_Read_def rands(2) Let_def)
qed

section \<open>Witnesses\<close>

text \<open>A server that answers every command at once, and a clock of one second per reading.\<close>

record server_world = world +
  content :: server

definition demo_entry :: "server_world \<Rightarrow> string \<Rightarrow> duration \<Rightarrow> string \<times> time option" where
  "demo_entry w b ttl = (b, if ttl \<le> 0 then None else Some (cur w + ttl))"

definition demo_db :: "server_world redis_db" where
  "demo_db =
     \<lparr>db_Get = (\<lambda>w k. (w, Inr (visible (cur w) (content w) k))),
      db_Set = (\<lambda>w k b ttl. (w\<lparr>content := (content w)(k \<mapsto> demo_entry w b ttl)\<rparr>, None)),
      db_Del = (\<lambda>w k. (w\<lparr>content := (content w)(k := None)\<rparr>, None)),
      db_GetDel = (\<lambda>w k. (w\<lparr>content := (content w)(k := None)\<rparr>, Inr (visible (cur w) (content w) k))),
      db_SetNX = (\<lambda>w k b ttl. if visible (cur w) (content w) k = None
         then (w\<lparr>content := (content w)(k \<mapsto> demo_entry w b ttl)\<rparr>, Inr True) else (w, Inr False)),
      db_CompareDel = (\<lambda>w k b. if visible (cur w) (content w) k = Some b
         then (w\<lparr>content := (content w)(k := None)\<rparr>, None) else (w, None)),
      db_Ping = (\<lambda>w. (w, None))\<rparr>"

lemma demo_entry_stored: "stored_as b ttl (cur w) (demo_entry w b ttl)"
  by (simp add: demo_entry_def stored_as_def)

lemma demo_db_laws: "redis_laws demo_db content"
  unfolding redis_laws_def
proof (intro conjI)
  show "law_Set demo_db content"
    unfolding law_Set_def using demo_entry_stored by (fastforce simp: demo_db_def clock_kept_def)
  show "law_SetNX demo_db content"
    unfolding law_SetNX_def
  proof (intro allI impI)
    fix w k b ttl w' r
    assume "db_SetNX demo_db w k b ttl = (w', r)"
    then show "clock_kept w w' \<and> (\<forall>x. r = Inr x \<longrightarrow> x = (visible (cur w) (content w) k = None)) \<and>
        (\<exists>en. stored_as b ttl (cur w) en \<and>
          (content w' = content w \<and> r \<noteq> Inr True \<or> visible (cur w) (content w) k = None \<and> content w' = (content w)(k \<mapsto> en)))"
      using demo_entry_stored [of b ttl w]
      by (intro conjI exI [of _ "demo_entry w b ttl"])
        (auto simp: demo_db_def clock_kept_def split: if_splits)
  qed
qed (auto simp: law_Get_def law_Del_def law_GetDel_def law_CompareDel_def demo_db_def clock_kept_def)

definition demo_redis :: "server_world redis_client" where
  "demo_redis = \<lparr>rd_DB = demo_db, rd_Prefix = ''rebff''\<rparr>"

lemma demo_redis_laws: "redis_laws (rd_DB demo_redis) content"
  by (simp add: demo_redis_def demo_db_laws)

definition demo_server :: server_world where
  "demo_server = \<lparr>clk = demo_clock, ticks = 0, rand_src = (\<lambda>i n. Inr (replicate n i)), rands = 0, content = Map.empty\<rparr>"

lemma demo_server_clock: "clock_ok demo_server"
  by (simp add: clock_ok_def demo_server_def demo_clock_def mono_def)

definition demo_expiring :: session where
  "demo_expiring = demo_session\<lparr>sess_ExpiresAt := demo_clock 100\<rparr>"

definition one_value_codec :: "'v \<Rightarrow> 'v codec" where
  "one_value_codec v = \<lparr>co_Marshal = (\<lambda>x. if x = v then Inr ''{}'' else Inl (ExternalError ''json'')), co_Unmarshal = (\<lambda>_. Inr v)\<rparr>"

lemma one_value_codec_ok: "codec_ok (one_value_codec v)"
  by (simp add: codec_ok_def one_value_codec_def)

lemmas demo_redis_defs =
  demo_redis_def demo_db_def demo_entry_def demo_server_def demo_expiring_def demo_clock_def one_value_codec_def
  put_until_def time_Until_def Now_eq cur_def Time_Sub_def visible_def fresh_def go_time

theorem redis_session_roundtrip_witness:
  "snd (RedisSession_Get demo_redis (one_value_codec demo_expiring)
     (fst (RedisSession_Put demo_redis (one_value_codec demo_expiring) demo_server demo_expiring)) ''s1'') = Inr demo_expiring"
proof -
  let ?k = "one_value_codec demo_expiring"
  let ?put = "RedisSession_Put demo_redis ?k demo_server demo_expiring"
  let ?get = "RedisSession_Get demo_redis ?k (fst ?put) (sess_ID demo_expiring)"
  have id: "sess_ID demo_expiring = ''s1''" by (simp add: demo_expiring_def demo_session_def)
  have put: "?put = (fst ?put, None)" by (simp add: RedisSession_Put_def demo_redis_defs Let_def)
  have bound: "sess_ExpiresAt demo_expiring < cur demo_server + 2 ^ 63" by (simp add: demo_redis_defs)
  have "cur (fst ?get) \<le> sess_ExpiresAt demo_expiring - Millisecond"
    by (simp add: RedisSession_Put_def RedisSession_Get_def demo_redis_defs Let_def)
  moreover have "db_Get (rd_DB demo_redis) w x \<noteq> (w', Inl e)" for w x w' e
    by (simp add: demo_redis_def demo_db_def)
  ultimately show ?thesis
    using redis_session_roundtrip [OF demo_redis_laws one_value_codec_ok demo_server_clock bound put clock_kept_refl refl
        prod.collapse [symmetric]]
    by (simp add: id)
qed

definition demo_flow :: flow where
  "demo_flow = \<lparr>fl_State = ''st'', fl_Nonce = ''n'', fl_CodeVerifier = ''c'', fl_ReturnTo = ''/'', fl_ExpiresAt = demo_clock 100\<rparr>"

theorem redis_flow_single_use_witness:
  "(\<exists>w1 e. RedisFlow_Take demo_redis (one_value_codec demo_flow)
       (fst (RedisFlow_Put demo_redis (one_value_codec demo_flow) demo_server demo_flow)) ''st'' = (w1, Inr demo_flow) \<and>
     snd (RedisFlow_Take demo_redis (one_value_codec demo_flow) w1 ''st'') = Inl e)"
proof -
  let ?k = "one_value_codec demo_flow"
  let ?take = "RedisFlow_Take demo_redis ?k (fst (RedisFlow_Put demo_redis ?k demo_server demo_flow)) ''st''"
  have take: "?take = (fst ?take, Inr demo_flow)"
    by (simp add: RedisFlow_Put_def RedisFlow_Take_def demo_redis_defs demo_flow_def Let_def)
  from redis_flow_single_use [OF demo_redis_laws take refl prod.collapse [symmetric]] obtain e where
    "snd (RedisFlow_Take demo_redis ?k (fst ?take) ''st'') = Inl e" by blast
  with take show ?thesis by blast
qed

theorem redis_stores_separate_witness:
  "content (fst (tk_Delete (RedisTokenStore demo_redis (one_value_codec demo_answer)) demo_server ''x''))
     (redis_session_key demo_redis ''x'') = None"
proof -
  have "only_at (redis_token_key demo_redis ''x'') (content demo_server)
      (content (fst (tk_Delete (RedisTokenStore demo_redis (one_value_codec demo_answer)) demo_server ''x'')))"
    by (rule redis_stores_separate [OF demo_redis_laws, THEN conjunct2, THEN conjunct2, THEN conjunct2, THEN conjunct2,
          THEN conjunct2, THEN conjunct1])
  then show ?thesis by (simp add: only_at_def demo_server_def)
qed

definition demo_leases :: "server_world leases" where
  "demo_leases = \<lparr>le_world = demo_server, le_held = (\<lambda>_. None)\<rparr>"

definition demo_mark :: "nat \<Rightarrow> string" where
  "demo_mark i = replicate i (CHR ''m'')"

lemma demo_mark_inj: "inj demo_mark"
  by (rule injI) (auto simp: demo_mark_def dest: arg_cong [where f = length])


definition demo_wait :: "server_world \<Rightarrow> server_world" where
  "demo_wait w = w\<lparr>ticks := Suc (ticks w)\<rparr>"

definition demo_locked :: server_world where
  "demo_locked = demo_server\<lparr>content := [redis_lock_key demo_redis ''s1'' \<mapsto> (''gone'', Some (demo_clock 10))]\<rparr>"

theorem redis_lock_returns_witness:
  "\<exists>w'. RedisLocker_Lock demo_redis demo_wait (\<lambda>_. None) demo_locked ''s1'' 0 = Some (w', Inr (hex_EncodeToString (replicate 16 0)))"
proof -
  have steady: "steady (clk demo_locked) demo_wait"
    by (auto simp: steady_def demo_locked_def demo_server_def demo_wait_def demo_clock_def mono_def cur_def)
  show ?thesis
    using redis_lock_returns [OF demo_redis_laws steady, of 0 "\<lambda>_. None" "''s1''" 0 "replicate 16 0" "''gone''" "demo_clock 10"]
    by (auto simp: demo_wait_def demo_locked_def demo_server_def demo_redis_def demo_db_def)
qed

text \<open>
  The lock is not renewed while it is held: once its lifetime is over another process gets it although the first still
  works under it.
\<close>

lemma lease_can_be_lost:
  "snd (db_SetNX demo_db (demo_locked\<lparr>ticks := 10\<rparr>) (redis_lock_key demo_redis ''s1'') ''other'' Second) = Inr True"
  by (simp add: demo_redis_defs demo_locked_def)

end
