(* ===== verification/Gateway.thy ===== *)
theory Gateway
  imports AssetPortal OIDC Redis AuthHTTP
begin

text \<open>
  The gateway as \<^verbatim>\<open>RunWith\<close> of \<^verbatim>\<open>internal/app/app.go\<close> puts it together for the role \<^verbatim>\<open>rebff\<close>: the identity
  provider, the stores of the configured backend under the lifetimes of sessions, the login service, the user context, the
  token manager, the routes of the application and the middleware. The theorems are about the whole: a loaded
  configuration starts, a logout closes the application's routes, and public addresses are on the gateway's host.
\<close>

section \<open>Definitions\<close>

subsection \<open>Public addresses (config.go)\<close>

text \<open>\<^verbatim>\<open>path.Join\<close>\<close>

definition path_Join :: "string list \<Rightarrow> string" where
  "path_Join elems =
     (let es = filter (\<lambda>e. e \<noteq> '''') elems in if es = [] then '''' else path_Clean (strings_Join es ''/''))"

text \<open>A public URL that does not parse is a nil pointer.\<close>

definition endpoint_path :: "url \<Rightarrow> http_config \<Rightarrow> string \<Rightarrow> string" where
  "endpoint_path base c route =
     (let p = path_Join [u_Path base, NormalizedBasePath c, route]
      in if HasSuffix route ''/'' \<and> \<not> HasSuffix p ''/'' then p @ ''/'' else p)"

definition PublicEndpoint :: "http_config \<Rightarrow> string \<Rightarrow> string result" where
  "PublicEndpoint c route =
     (case url_Parse (TrimRight (ht_PublicURL c) (CHR ''/'')) of
        None \<Rightarrow> Inl NilDereference
      | Some base \<Rightarrow> Inr (URL_String (base\<lparr>u_Path := endpoint_path base c route\<rparr>)))"

subsection \<open>What the gateway takes from outside\<close>

text \<open>
  OpenID discovery and the OAuth client, the Redis driver, the JSON codecs of the stored values, the parsing of networks,
  the log, and the refresh locker as the token manager calls it (\<open>None\<close> for the one in memory, else the client of the
  one in Redis), whose waiting is outside of this model: \<open>MemoryLocker_Lock\<close> and \<open>RedisLocker_Lock\<close> have it.
\<close>

record ('w, 'ip, 'net) gateway_lib =
  gl_discover :: "'w \<Rightarrow> string \<Rightarrow> 'w \<times> 'w discovered result"
  gl_oauth :: "'w oauth_lib"
  gl_redis :: "string \<Rightarrow> 'w redis_db result"
  gl_session :: "session codec"
  gl_token :: "token_set codec"
  gl_flow :: "flow codec"
  gl_context :: "user_context codec"
  gl_locker :: "'w redis_client option \<Rightarrow> 'w refresh_locker"
  gl_net :: "('ip, 'net) netlib"
  gl_slog :: "'w audit_sink"
  gl_access :: "'w access_log"
  gl_size :: "body_part \<Rightarrow> int"

subsection \<open>The parts\<close>

text \<open>The provider, and its side as a refresher of tokens, which only the configured one has.\<close>

definition start_provider ::
  "('z world_scheme, 'ip, 'net) gateway_lib \<Rightarrow> config \<Rightarrow> 'z world_scheme
   \<Rightarrow> 'z world_scheme \<times>
      ('z world_scheme identity_provider \<times> ('z world_scheme \<Rightarrow> string \<Rightarrow> 'z world_scheme \<times> token_set result) option) result" where
  "start_provider gl cfg w =
     (let o' = cfg_OIDC cfg
      in if oi_Issuer o' = '''' then (w, Inr (UnconfiguredProvider, None))
         else (case oidc_New (gl_discover gl) w \<lparr>ic_Issuer = oi_Issuer o', ic_ClientID = oi_ClientID o',
                     ic_ClientSecret = oi_ClientSecret o', ic_Scopes = oi_Scopes o'\<rparr> of
             (w1, Inl e) \<Rightarrow> (w1, Inl (ErrWrapped ''initialize oidc provider'' e))
           | (w1, Inr p) \<Rightarrow>
               (w1, Inr (OIDCProvider (gl_oauth gl) p, Some (RefreshTokens (gl_oauth gl) p)))))"

definition start_evaluator :: "config \<Rightarrow> 'w evaluator option" where
  "start_evaluator cfg =
     (if pol_Provider (cfg_Policy cfg) = ''static''
      then Some (Static \<lparr>sp_RolePermissions = pol_RolePermissions (cfg_Policy cfg),
                         sp_RoleCapabilities = pol_RoleCapabilities (cfg_Policy cfg)\<rparr>)
      else None)"

record 'w backend =
  be_Flows :: "'w flow_store"
  be_Sessions :: "'w session_store"
  be_Tokens :: "'w token_store"
  be_Cache :: "('w, user_context) cache"
  be_Locker :: "'w refresh_locker"
  be_Readiness :: "('w \<Rightarrow> 'w \<times> goerr option) option"

definition memory_backend :: "('z front_world_scheme, 'ip, 'net) gateway_lib \<Rightarrow> 'z front_world_scheme backend" where
  "memory_backend gl =
     \<lparr>be_Flows = MemoryFlowStore, be_Sessions = MemoryStore, be_Tokens = TokenMemory, be_Cache = CacheMemory,
      be_Locker = gl_locker gl None, be_Readiness = None\<rparr>"

definition redis_backend ::
  "('z world_scheme, 'ip, 'net) gateway_lib \<Rightarrow> 'z world_scheme redis_client \<Rightarrow> 'z world_scheme backend" where
  "redis_backend gl c =
     \<lparr>be_Flows = RedisFlowStore c (gl_flow gl), be_Sessions = RedisSessionStore c (gl_session gl),
      be_Tokens = RedisTokenStore c (gl_token gl), be_Cache = RedisCache c (gl_context gl),
      be_Locker = gl_locker gl (Some c), be_Readiness = Some (redis_Ping c)\<rparr>"

text \<open>A backend with another name leaves the stores nil; validation has excluded it.\<close>

definition open_backend ::
  "('z front_world_scheme, 'ip, 'net) gateway_lib \<Rightarrow> config \<Rightarrow> 'z front_world_scheme
   \<Rightarrow> 'z front_world_scheme \<times> 'z front_world_scheme backend result" where
  "open_backend gl cfg w =
     (let s = cfg_Store cfg
      in if sto_Backend s = ''memory'' then (w, Inr (memory_backend gl))
         else if sto_Backend s = ''redis'' then
           (case redis_New (gl_redis gl) (sto_RedisURL s) (sto_RedisPrefix s) of
              Inl e \<Rightarrow> (w, Inl (ErrWrapped ''initialize redis store'' e))
            | Inr c \<Rightarrow>
                (case redis_Ping c w of
                   (w1, Some e) \<Rightarrow> (w1, Inl (ErrWrapped ''redis ping'' e))
                 | (w1, None) \<Rightarrow> (w1, Inr (redis_backend gl c))))
         else (w, Inl NilDereference))"

definition gateway_lifecycle :: "config \<Rightarrow> lifecycle" where
  "gateway_lifecycle cfg =
     \<lparr>lc_MaxLifetime = sc_MaxLifetime (cfg_Session cfg), lc_IdleTimeout = sc_IdleTimeout (cfg_Session cfg),
      lc_TouchInterval = sc_TouchInterval (cfg_Session cfg)\<rparr>"

subsection \<open>The whole\<close>

record ('w, 'net) gateway =
  gw_Auth :: "'w auth_handler"
  gw_Deps :: "'w route_deps"
  gw_Tokens :: "'w store_manager"
  gw_Routes :: "'w core_router option"
  gw_Readiness :: "('w \<Rightarrow> 'w \<times> goerr option) option"
  gw_TrustedProxy :: "'net list"
  gw_Metrics :: "'w meter"
  gw_PublicURL :: url

definition gateway_manager ::
  "config \<Rightarrow> 'z world_scheme backend \<Rightarrow> ('z world_scheme \<Rightarrow> string \<Rightarrow> 'z world_scheme \<times> token_set result) option
   \<Rightarrow> 'z world_scheme store_manager" where
  "gateway_manager cfg be refresher =
     \<lparr>sm_Store = Some (be_Tokens be), sm_Sessions = Some (LifecycleStore (gateway_lifecycle cfg) (be_Sessions be)),
      sm_Refresher = refresher, sm_Locker = Some (be_Locker be), sm_RefreshBefore = 0, sm_LockTTL = 0\<rparr>"

definition gateway_service ::
  "config \<Rightarrow> 'z world_scheme identity_provider \<Rightarrow> 'z world_scheme backend \<Rightarrow> string \<Rightarrow> string \<Rightarrow> 'z world_scheme service" where
  "gateway_service cfg provider be redirect return =
     \<lparr>sv_Provider = Some provider, sv_Flows = Some (be_Flows be),
      sv_Sessions = Some (LifecycleStore (gateway_lifecycle cfg) (be_Sessions be)), sv_Tokens = Some (be_Tokens be),
      sv_RedirectURI = redirect, sv_LogoutReturn = return, sv_FlowTTL = 0, sv_SessionTTL = sc_MaxLifetime (cfg_Session cfg)\<rparr>"

definition gateway_resolver :: "config \<Rightarrow> 'z world_scheme backend \<Rightarrow> 'z world_scheme resolver" where
  "gateway_resolver cfg be =
     CachedResolver_Resolve
       (SessionResolver_Resolve (LifecycleStore (gateway_lifecycle cfg) (be_Sessions be)) (start_evaluator cfg))
       (Some (be_Cache be)) (60 * Second)"

definition gateway_audit :: "('w, 'ip, 'net) gateway_lib \<Rightarrow> config \<Rightarrow> 'w audit_sink" where
  "gateway_audit gl cfg = (if tl_AuditEnabled (cfg_Telemetry cfg) then gl_slog gl else NoopSink_Append)"

definition gateway_metrics :: "config \<Rightarrow> 'z obs_world_scheme meter" where
  "gateway_metrics cfg = (if tl_MetricsEnabled (cfg_Telemetry cfg) then registry_meter else None)"

text \<open>The cookies are secure where the public URL has the scheme \<^verbatim>\<open>https\<close>.\<close>

definition gateway_deps ::
  "('z front_world_scheme, 'ip, 'net) gateway_lib \<Rightarrow> config \<Rightarrow> 'z front_world_scheme backend
   \<Rightarrow> ('z front_world_scheme \<Rightarrow> string \<Rightarrow> 'z front_world_scheme \<times> token_set result) option \<Rightarrow> url
   \<Rightarrow> 'z front_world_scheme route_deps" where
  "gateway_deps gl cfg be refresher u =
     \<lparr>dp_Sessions = LifecycleStore (gateway_lifecycle cfg) (be_Sessions be), dp_Policy = start_evaluator cfg,
      dp_Audit = Some (gateway_audit gl cfg), dp_Metrics = gateway_metrics cfg,
      dp_Tokens = Some (AccessToken (gateway_manager cfg be refresher)),
      dp_SessionCookieName = SessionCookieNameFor (u_Scheme u = ''https'')\<rparr>"

definition gateway_auth ::
  "('z front_world_scheme, 'ip, 'net) gateway_lib \<Rightarrow> config \<Rightarrow> 'z front_world_scheme backend
   \<Rightarrow> 'z front_world_scheme service \<Rightarrow> url \<Rightarrow> 'z front_world_scheme auth_handler" where
  "gateway_auth gl cfg be service0 u =
     \<lparr>ah_Service = service0, ah_UserContext = Some (gateway_resolver cfg be), ah_Cache = Some (be_Cache be),
      ah_Audit = Some (gateway_audit gl cfg), ah_Metrics = gateway_metrics cfg, ah_Secure = u_Scheme u = ''https'',
      ah_CookieName = SessionCookieNameFor (u_Scheme u = ''https'')\<rparr>"

text \<open>
  The branch of \<^verbatim>\<open>RunWith\<close> up to the server; \<open>build\<close> is the option with the application's routes. The public URL is
  used first for the two addresses of the login service, where one that does not parse would be a nil pointer.
\<close>

definition gateway_start ::
  "('z front_world_scheme, 'ip, 'net) gateway_lib
   \<Rightarrow> ('z front_world_scheme route_deps \<Rightarrow> 'z front_world_scheme core_router result) option \<Rightarrow> config
   \<Rightarrow> 'z front_world_scheme \<Rightarrow> 'z front_world_scheme \<times> ('z front_world_scheme, 'net) gateway result" where
  "gateway_start gl build cfg w =
     (if 1 < length (Roles (cfg_Runtime cfg))
      then (w, Inl (ErrorString ''rebff cannot be combined with specialized roles in v0.1.0''))
      else (case ParseTrustedProxyCIDRs (gl_net gl) (ht_TrustedProxyCIDRs (cfg_HTTP cfg)) of
          Inl e \<Rightarrow> (w, Inl (ErrWrapped ''trusted proxy CIDRs'' e))
        | Inr proxy \<Rightarrow>
            (case start_provider gl cfg w of
               (w1, Inl e) \<Rightarrow> (w1, Inl e)
             | (w1, Inr (provider, refresher)) \<Rightarrow>
                 (case open_backend gl cfg w1 of
                    (w2, Inl e) \<Rightarrow> (w2, Inl e)
                  | (w2, Inr be) \<Rightarrow>
                      (w2, and_then (PublicEndpoint (cfg_HTTP cfg) ''/auth/callback'') (\<lambda>redirect.
                           and_then (PublicEndpoint (cfg_HTTP cfg) ''/'') (\<lambda>return.
                           case url_Parse (ht_PublicURL (cfg_HTTP cfg)) of
                             None \<Rightarrow> Inl NilDereference
                           | Some u \<Rightarrow>
                               and_then (case build of
                                   None \<Rightarrow> Inr None
                                 | Some f \<Rightarrow> (case f (gateway_deps gl cfg be refresher u) of
                                       Inl e \<Rightarrow> Inl (ErrWrapped ''build application routes'' e)
                                     | Inr r \<Rightarrow> Inr (Some r))) (\<lambda>routes.
                               Inr \<lparr>gw_Auth = gateway_auth gl cfg be (gateway_service cfg provider be redirect return) u,
                                    gw_Deps = gateway_deps gl cfg be refresher u,
                                    gw_Tokens = gateway_manager cfg be refresher, gw_Routes = routes,
                                    gw_Readiness = be_Readiness be, gw_TrustedProxy = proxy,
                                    gw_Metrics = gateway_metrics cfg, gw_PublicURL = u\<rparr>))))))))"

text \<open>
  What the router gets. The rates of the configuration are floating-point numbers; the limiter is modelled for finite
  ones, so they are arguments here.
\<close>

definition gateway_router_deps ::
  "('z front_world_scheme, 'ip, 'net) gateway_lib \<Rightarrow> config \<Rightarrow> ('z front_world_scheme, 'net) gateway \<Rightarrow> rat \<Rightarrow> rat
   \<Rightarrow> ('z front_world_scheme \<Rightarrow> limiter) \<times> (limiter \<Rightarrow> 'z front_world_scheme \<Rightarrow> 'z front_world_scheme)
   \<Rightarrow> ('z front_world_scheme \<Rightarrow> limiter) \<times> (limiter \<Rightarrow> 'z front_world_scheme \<Rightarrow> 'z front_world_scheme)
   \<Rightarrow> ('z front_world_scheme \<Rightarrow> int) \<times> (int \<Rightarrow> 'z front_world_scheme \<Rightarrow> 'z front_world_scheme)
   \<Rightarrow> ('z front_world_scheme, 'ip, 'net) router_deps" where
  "gateway_router_deps gl cfg g rate authRate authLimiter limiter0 sem =
     (let secure = (u_Scheme (gw_PublicURL g) = ''https'')
      in \<lparr>rd_PublicURL = ht_PublicURL (cfg_HTTP cfg), rd_SecureCookies = secure,
          rd_CSRFCookieName = CSRFCookieNameFor secure, rd_Net = gl_net gl, rd_TrustedProxy = gw_TrustedProxy g,
          rd_Metrics = gw_Metrics g, rd_MaxRequestBodyBytes = lim_MaxRequestBodyBytes (cfg_Limits cfg), rd_MaxConcurrency = lim_MaxConcurrency (cfg_Limits cfg), rd_RatePerSecond = rate,
          rd_RateBurst = lim_RateBurst (cfg_Limits cfg), rd_RateMaxEntries = lim_RateMaxEntries (cfg_Limits cfg),
          rd_AuthRatePerSecond = authRate, rd_AuthRateBurst = lim_AuthRateBurst (cfg_Limits cfg),
          rd_AccessLogEnabled = tl_AccessLogEnabled (cfg_Telemetry cfg),
          rd_TraceEnabled = tl_TraceEnabled (cfg_Telemetry cfg), rd_Slog = gl_access gl, rd_Size = gl_size gl, rd_authLimiter = authLimiter, rd_limiter = limiter0,
          rd_semaphore = sem\<rparr>)"

section \<open>Lemmas\<close>

lemma gateway_start_parts:
  assumes "gateway_start gl build cfg w = (w', Inr g)"
  obtains provider refresher be redirect return u w1 where
    "start_provider gl cfg w = (w1, Inr (provider, refresher))" "open_backend gl cfg w1 = (w', Inr be)"
    "gw_Auth g = gateway_auth gl cfg be (gateway_service cfg provider be redirect return) u"
    "gw_Deps g = gateway_deps gl cfg be refresher u" "gw_Tokens g = gateway_manager cfg be refresher"
    "gw_PublicURL g = u" "url_Parse (ht_PublicURL (cfg_HTTP cfg)) = Some u"
  using assms by (auto simp: gateway_start_def split: if_splits sum.splits prod.splits option.splits)

lemma ParseTrustedProxyCIDRs_ok:
  "(\<And>c. c \<in> set cs \<Longrightarrow> TrimSpace c \<noteq> '''' \<Longrightarrow> \<exists>n. nl_ParseCIDR nl (TrimSpace c) = Inr n) \<Longrightarrow>
   \<exists>ns. ParseTrustedProxyCIDRs nl cs = Inr ns"
proof (induction cs)
  case (Cons c cs)
  from Cons.IH Cons.prems obtain ns where "ParseTrustedProxyCIDRs nl cs = Inr ns" by auto
  moreover from Cons.prems obtain n where "TrimSpace c \<noteq> '''' \<longrightarrow> nl_ParseCIDR nl (TrimSpace c) = Inr n" by auto
  ultimately show ?case by (auto simp: Let_def)
qed simp

lemma loaded_public_url:
  assumes "LoadConfig clib env = Inr cfg"
  shows "\<exists>u. url_Parse (ht_PublicURL (cfg_HTTP cfg)) = Some u \<and> u_Scheme u \<noteq> '''' \<and> u_Host u \<noteq> ''''"
    and "\<exists>a. PublicEndpoint (cfg_HTTP cfg) route = Inr a"
proof -
  have abs: "absolute_url (ht_PublicURL (cfg_HTTP cfg))"
    using Config_Validate_parts(1) [OF LoadConfig_parts(10) [OF assms]] by (simp add: validate_http_def first_error_None)
  then show "\<exists>u. url_Parse (ht_PublicURL (cfg_HTTP cfg)) = Some u \<and> u_Scheme u \<noteq> '''' \<and> u_Host u \<noteq> ''''"
    by (auto simp: absolute_url_def split: option.splits)
  from absolute_url_TrimRight [OF abs] show "\<exists>a. PublicEndpoint (cfg_HTTP cfg) route = Inr a"
    by (auto simp: absolute_url_def PublicEndpoint_def Let_def split: option.splits)
qed

text \<open>The services that the configuration names answer: discovery of the issuer, and the ping of Redis.\<close>

definition login_discovers :: "('w, 'ip, 'net) gateway_lib \<Rightarrow> config \<Rightarrow> bool" where
  "login_discovers gl cfg \<longleftrightarrow>
     (\<forall>w. \<exists>w' d a. gl_discover gl w (TrimRight (oi_Issuer (cfg_OIDC cfg)) (CHR ''/'')) = (w', Inr d) \<and> dv_EndSession d = Inr a)"

definition redis_answers :: "('w, 'ip, 'net) gateway_lib \<Rightarrow> config \<Rightarrow> bool" where
  "redis_answers gl cfg \<longleftrightarrow>
     (\<exists>db. gl_redis gl (sto_RedisURL (cfg_Store cfg)) = Inr db \<and> (\<forall>w. snd (db_Ping db w) = None))"

lemma start_provider_ok:
  assumes "validate_login cfg = None" "oi_Issuer (cfg_OIDC cfg) = '''' \<or> TrimSpace (oi_Issuer (cfg_OIDC cfg)) \<noteq> '''' \<and> login_discovers gl cfg"
  shows "\<exists>w' pr. start_provider gl cfg w = (w', Inr pr)"
proof (cases "oi_Issuer (cfg_OIDC cfg) = ''''")
  case False
  with assms have "login_discovers gl cfg" "TrimSpace (oi_Issuer (cfg_OIDC cfg)) \<noteq> ''''"
    "TrimSpace (oi_ClientID (cfg_OIDC cfg)) \<noteq> ''''" by (auto simp: validate_login_def)
  moreover from this(1) obtain w' d a where
    "gl_discover gl w (TrimRight (oi_Issuer (cfg_OIDC cfg)) (CHR ''/'')) = (w', Inr d)" "dv_EndSession d = Inr a"
    unfolding login_discovers_def by blast
  ultimately show ?thesis using False by (simp add: start_provider_def oidc_New_def idp_Validate_def Let_def)
qed (simp add: start_provider_def Let_def)

lemma open_backend_ok:
  assumes "validate_store cfg = None" "sto_Backend (cfg_Store cfg) = ''redis'' \<Longrightarrow> redis_answers gl cfg"
  shows "\<exists>w' be. open_backend gl cfg w = (w', Inr be)"
proof (cases "sto_Backend (cfg_Store cfg) = ''memory''")
  case False
  with assms(1) have r: "sto_Backend (cfg_Store cfg) = ''redis''" "TrimSpace (sto_RedisURL (cfg_Store cfg)) \<noteq> ''''"
    by (auto simp: validate_store_def Let_def split: if_splits)
  from assms(2) [OF r(1)] obtain db where db: "gl_redis gl (sto_RedisURL (cfg_Store cfg)) = Inr db" "snd (db_Ping db w) = None"
    by (auto simp: redis_answers_def)
  then obtain w' where "db_Ping db w = (w', None)" by (metis prod.collapse)
  with r db show ?thesis by (simp add: open_backend_def redis_New_def redis_Ping_def Let_def)
qed (simp add: open_backend_def Let_def)

lemma gateway_memory_handler:
  assumes "gateway_start gl build cfg w = (w', Inr g)" "sto_Backend (cfg_Store cfg) = ''memory''" "sink_frame (gl_slog gl)"
    and "\<And>p. sv_Provider (ah_Service (gw_Auth g)) = Some p \<Longrightarrow> provider_frame p"
  shows "memory_handler (gateway_lifecycle cfg) (gw_Auth g)"
    and "dp_Sessions (gw_Deps g) = LifecycleStore (gateway_lifecycle cfg) MemoryStore"
proof -
  from assms(1) obtain provider refresher be redirect return u w1 where
    g: "open_backend gl cfg w1 = (w', Inr be)"
    "gw_Auth g = gateway_auth gl cfg be (gateway_service cfg provider be redirect return) u"
    "gw_Deps g = gateway_deps gl cfg be refresher u"
    by (rule gateway_start_parts)
  then have be: "be = memory_backend gl" using assms(2) by (simp add: open_backend_def Let_def)
  have "provider_frame provider" using assms(4) g by (simp add: gateway_auth_def gateway_service_def)
  then have "memory_service (gateway_lifecycle cfg) (gateway_service cfg provider be redirect return)"
    by (simp add: memory_service_def gateway_service_def be memory_backend_def)
  with assms(3) show "memory_handler (gateway_lifecycle cfg) (gw_Auth g)"
    by (simp add: g memory_handler_def gateway_auth_def gateway_audit_def gateway_metrics_def be memory_backend_def MemorySink_frame)
  show "dp_Sessions (gw_Deps g) = LifecycleStore (gateway_lifecycle cfg) MemoryStore"
    by (simp add: g gateway_deps_def be memory_backend_def)
qed

lemma SessionCookieNameFor_nonempty [simp]: "SessionCookieNameFor b \<noteq> []"
  by (simp add: SessionCookieNameFor_def SessionCookieName_def InsecureSessionCookieName_def)

text \<open>The login side and the routes of the application name the session's cookie alike.\<close>

lemma gateway_cookie:
  assumes "gateway_start gl build cfg w = (w', Inr g)"
  shows "cookieName (gw_Auth g) = dp_SessionCookieName (gw_Deps g)"
proof -
  from assms obtain provider refresher be redirect return u where
    "gw_Auth g = gateway_auth gl cfg be (gateway_service cfg provider be redirect return) u"
    "gw_Deps g = gateway_deps gl cfg be refresher u"
    by (rule gateway_start_parts)
  then show ?thesis by (simp add: cookieName_def gateway_auth_def gateway_deps_def)
qed

section \<open>Properties\<close>

lemma path_Clean_join_rooted:
  assumes "e \<noteq> []" "hd e = CHR ''/''"
  shows "hd (path_Clean (strings_Join (e # es) ''/'')) = CHR ''/'' \<and> path_Clean (strings_Join (e # es) ''/'') \<noteq> []"
proof -
  have "strings_Join (e # es) ''/'' \<noteq> []" "hd (strings_Join (e # es) ''/'') = CHR ''/''"
    using assms by (cases es; simp add: hd_append)+
  from path_Clean_rooted [OF this] show ?thesis by auto
qed

lemma NormalizedBasePath_rooted: "NormalizedBasePath c = [] \<or> hd (NormalizedBasePath c) = CHR ''/''"
proof -
  have "hd (path_Clean v) = CHR ''/''" if "HasPrefix v ''/''" for v
    using that path_Clean_rooted [of v] by (cases v) (auto simp: HasPrefix_def)
  then have "TrimRight (path_Clean v) (CHR ''/'') = [] \<or> hd (TrimRight (path_Clean v) (CHR ''/'')) = CHR ''/''"
    if "HasPrefix v ''/''" for v
    using that hd_TrimRight [of "path_Clean v" "CHR ''/''"] by auto
  then show ?thesis by (auto simp: NormalizedBasePath_def normalizeBasePath_def Let_def split: sum.splits if_splits)
qed

lemma endpoint_path_rooted:
  assumes "u_Path base = [] \<or> hd (u_Path base) = CHR ''/''" "HasPrefix route ''/''"
    and "NormalizedBasePath c = [] \<or> hd (NormalizedBasePath c) = CHR ''/''"
  shows "hd (endpoint_path base c route) = CHR ''/''"
proof -
  let ?es = "filter (\<lambda>e. e \<noteq> []) [u_Path base, NormalizedBasePath c, route]"
  have "route \<noteq> []" "hd route = CHR ''/''" using assms(2) by (cases route; simp add: HasPrefix_def)+
  then obtain e es where "?es = e # es" "e \<noteq> []" "hd e = CHR ''/''"
    using assms(1,3) by (cases "u_Path base = []"; cases "NormalizedBasePath c = []") auto
  with path_Clean_join_rooted [of e es] show ?thesis
    by (simp add: endpoint_path_def path_Join_def Let_def hd_append)
qed

text \<open>
  C18. A loaded configuration starts the gateway: where the services that it names answer (discovery of the issuer, the
  ping of Redis), its proxy networks parse and the application registers its routes, no error is left for the start. A
  public URL without scheme or host, a login without client or an unknown backend have been refused before.
\<close>

theorem loaded_gateway_starts:
  assumes "LoadConfig clib env = Inr cfg" "length (Roles (cfg_Runtime cfg)) \<le> 1"
    and "\<And>c. c \<in> set (ht_TrustedProxyCIDRs (cfg_HTTP cfg)) \<Longrightarrow> TrimSpace c \<noteq> '''' \<Longrightarrow>
      \<exists>n. nl_ParseCIDR (gl_net gl) (TrimSpace c) = Inr n"
    and "oi_Issuer (cfg_OIDC cfg) = '''' \<or> TrimSpace (oi_Issuer (cfg_OIDC cfg)) \<noteq> '''' \<and> login_discovers gl cfg"
    and "sto_Backend (cfg_Store cfg) = ''redis'' \<Longrightarrow> redis_answers gl cfg"
    and "\<And>deps. \<exists>r. register deps = Inr r"
  shows "\<exists>w' g routes. gateway_start gl (Some register) cfg w = (w', Inr g) \<and> register (gw_Deps g) = Inr routes \<and>
    gw_Routes g = Some routes \<and> cookieName (gw_Auth g) = dp_SessionCookieName (gw_Deps g)"
proof -
  note valid = Config_Validate_parts [OF LoadConfig_parts(10) [OF assms(1)]]
  from ParseTrustedProxyCIDRs_ok [OF assms(3)] obtain proxy where
    proxy: "ParseTrustedProxyCIDRs (gl_net gl) (ht_TrustedProxyCIDRs (cfg_HTTP cfg)) = Inr proxy" by blast
  from start_provider_ok [OF valid(3) assms(4)] obtain w1 provider refresher where
    provider: "start_provider gl cfg w = (w1, Inr (provider, refresher))" by fastforce
  from open_backend_ok [OF valid(4) assms(5)] obtain w2 be where be: "open_backend gl cfg w1 = (w2, Inr be)" by blast
  from loaded_public_url [OF assms(1)] obtain u redirect return where u: "url_Parse (ht_PublicURL (cfg_HTTP cfg)) = Some u"
    "PublicEndpoint (cfg_HTTP cfg) ''/auth/callback'' = Inr redirect"
    "PublicEndpoint (cfg_HTTP cfg) ''/'' = Inr return" by meson
  from assms(6) obtain routes where routes: "register (gateway_deps gl cfg be refresher u) = Inr routes" by blast
  have "\<exists>w' g. gateway_start gl (Some register) cfg w = (w', Inr g) \<and> register (gw_Deps g) = Inr routes \<and> gw_Routes g = Some routes"
    using assms(2) proxy provider be u routes by (simp add: gateway_start_def)
  then show ?thesis using gateway_cookie by blast
qed

definition demo_gateway_lib :: "(front_world, string, string list) gateway_lib" where
  "demo_gateway_lib =
     \<lparr>gl_discover = (\<lambda>w issuer. (w, Inl (ExternalError ''no route to host''))), gl_oauth = demo_oauth_lib,
      gl_redis = (\<lambda>url. Inl (ExternalError ''no redis'')), gl_session = one_value_codec demo_session,
      gl_token = one_value_codec \<lparr>ts_AccessToken = '''', ts_RefreshToken = '''', ts_IDToken = '''', ts_ExpiryUnix = 0\<rparr>,
      gl_flow = one_value_codec Auth.demo_flow, gl_context = one_value_codec (context_of demo_session [] [] ''''),
      gl_locker = (\<lambda>c. \<lparr>lk_Lock = (\<lambda>w k d. (w, Inr ())), lk_Unlock = (\<lambda>w k. (w, None))\<rparr>), gl_net = demo_net,
      gl_slog = NoopSink_Append, gl_access = (\<lambda>w e. w), gl_size = (\<lambda>b. 0)\<rparr>"

lemma demo_gateway_loads:
  "loaded [(''BFF_HTTP_PUBLIC_URL'', ''https://gw.example'')] (\<lambda>cfg. length (Roles (cfg_Runtime cfg)) \<le> 1 \<and>
     HasRole (cfg_Runtime cfg) RoleREBFF \<and> ht_TrustedProxyCIDRs (cfg_HTTP cfg) = [] \<and>
     oi_Issuer (cfg_OIDC cfg) = '''' \<and> sto_Backend (cfg_Store cfg) = ''memory'')"
  by code_simp

theorem loaded_gateway_starts_witness:
  "\<exists>cfg w' g. LoadConfig demo_lib (map_of [(''BFF_HTTP_PUBLIC_URL'', ''https://gw.example'')]) = Inr cfg \<and>
     HasRole (cfg_Runtime cfg) RoleREBFF \<and>
     gateway_start demo_gateway_lib (Some (build_app_routes None)) cfg demo_front = (w', Inr g) \<and>
     cookieName (gw_Auth g) = dp_SessionCookieName (gw_Deps g)"
proof -
  from demo_gateway_loads obtain cfg where
    cfg: "LoadConfig demo_lib (map_of [(''BFF_HTTP_PUBLIC_URL'', ''https://gw.example'')]) = Inr cfg"
    "length (Roles (cfg_Runtime cfg)) \<le> 1" "HasRole (cfg_Runtime cfg) RoleREBFF"
    "ht_TrustedProxyCIDRs (cfg_HTTP cfg) = []" "oi_Issuer (cfg_OIDC cfg) = ''''" "sto_Backend (cfg_Store cfg) = ''memory''"
    by (auto simp: loaded_def split: sum.splits)
  have "\<exists>w' g routes. gateway_start demo_gateway_lib (Some (build_app_routes None)) cfg demo_front = (w', Inr g) \<and>
      build_app_routes None (gw_Deps g) = Inr routes \<and> gw_Routes g = Some routes \<and>
      cookieName (gw_Auth g) = dp_SessionCookieName (gw_Deps g)"
    by (rule loaded_gateway_starts [OF cfg(1,2)]) (use cfg in \<open>simp_all add: build_app_routes_def Let_def\<close>)
  with cfg(1,3) show ?thesis by blast
qed

text \<open>
  C11. A logout closes the application: in the gateway as it is started with the stores in memory, once a logout with a
  session's cookie has been handled (whatever it answered), a request with that cookie for any route behind a permission
  is answered 401, whatever the handler.
\<close>

theorem logout_closes_routes:
  assumes "gateway_start gl build cfg w0 = (w0', Inr g)" "sto_Backend (cfg_Store cfg) = ''memory''" "sink_frame (gl_slog gl)"
    and "\<And>p. sv_Provider (ah_Service (gw_Auth g)) = Some p \<Longrightarrow> provider_frame p"
    and "rq_Cookies r (cookieName (gw_Auth g)) = Some sid" "sid \<noteq> ''''" "handle_logout (gw_Auth g) r w rw = (w1, rw1)"
    and "rq_Cookies q (cookieName (gw_Auth g)) = Some sid" "permission \<noteq> ''''" "rw_Status rw' = 0"
  shows "\<exists>w' rw''. rw_Status rw'' = 401 \<and> (\<forall>h. permission_handler (gw_Deps g) permission h q w1 rw' = (w', rw''))"
proof -
  note h = gateway_memory_handler [OF assms(1-4)]
  from handle_logout_ends [OF h(1) assms(5-7)] obtain w2 where
    "LifecycleStore_Get (gateway_lifecycle cfg) MemoryStore w1 sid = (w2, Inl ErrSessionNotFound)" ..
  with h(2) assms(6,8,9,10) gateway_cookie [OF assms(1)] show ?thesis
    by (auto simp: permission_handler_def RequirePermissionWithAuditCookie_def)
qed

definition demo_gateway_config :: config where
  "demo_gateway_config =
     \<lparr>cfg_Runtime = \<lparr>Roles = [RoleREBFF], Capabilities = Map.empty\<rparr>,
      cfg_HTTP = \<lparr>ht_Addr = '':8080'', ht_BasePath = '''', ht_PublicURL = ''https://gw.example'', ht_TrustedProxyCIDRs = []\<rparr>,
      cfg_Telemetry = \<lparr>tl_MetricsEnabled = True, tl_AuditEnabled = True, tl_AccessLogEnabled = True, tl_TraceEnabled = True\<rparr>,
      cfg_Limits = \<lparr>lim_MaxRequestBodyBytes = 0, lim_MaxConcurrency = 0, lim_RatePerSecond = Finite 0, lim_RateBurst = 0,
        lim_RateMaxEntries = 0, lim_AuthRatePerSecond = Finite 0, lim_AuthRateBurst = 0\<rparr>,
      cfg_OIDC = \<lparr>oi_Issuer = '''', oi_ClientID = '''', oi_ClientSecret = '''', oi_Scopes = []\<rparr>,
      cfg_Store = \<lparr>sto_Backend = ''memory'', sto_RedisURL = '''', sto_RedisPrefix = ''rebff''\<rparr>,
      cfg_Policy = \<lparr>pol_Provider = ''static'', pol_RolePermissions = sp_RolePermissions demo_policy, pol_RoleCapabilities = Map.empty\<rparr>,
      cfg_Session = \<lparr>sc_MaxLifetime = 8 * Hour, sc_IdleTimeout = Hour, sc_TouchInterval = Minute\<rparr>,
      cfg_Storage = \<lparr>sro_SignerBaseURL = '''', sro_SignerTimeout = 0, sro_Providers = [], sro_DefaultTTL = 0, sro_MaxTTL = 0,
        sro_Targets = [], sro_AccessPolicyURL = '''', sro_AccessPolicyTimeout = 0, sro_SubjectHeader = '''',
        sro_WorkloadAuth = \<lparr>wa_Mode = '''', wa_Issuer = '''', wa_Audience = '''', wa_Required = False\<rparr>\<rparr>\<rparr>"

lemma demo_gateway_start:
  "\<exists>g. gateway_start demo_gateway_lib None demo_gateway_config demo_front = (demo_front, Inr g) \<and>
     cookieName (gw_Auth g) = ''__Host-bff_session'' \<and> sv_Provider (ah_Service (gw_Auth g)) = Some UnconfiguredProvider"
proof -
  have u: "url_Parse ''https://gw.example'' =
      Some (empty_url\<lparr>u_Scheme := ''https'', u_Host := ''gw.example''\<rparr>)"
    "TrimRight ''https://gw.example'' (CHR ''/'') = ''https://gw.example''" by code_simp+
  show ?thesis
    by (simp add: gateway_start_def demo_gateway_config_def start_provider_def open_backend_def PublicEndpoint_def u Let_def empty_url_def
        gateway_auth_def gateway_service_def cookieName_def SessionCookieNameFor_def SessionCookieName_def)
qed

theorem logout_closes_routes_witness:
  "\<exists>g w1 rw1 w' rw''. gateway_start demo_gateway_lib None demo_gateway_config demo_front = (demo_front, Inr g) \<and>
     handle_logout (gw_Auth g) demo_user_request demo_front new_response = (w1, rw1) \<and> rw_Status rw'' = 401 \<and>
     (\<forall>h. permission_handler (gw_Deps g) ''doc.read'' h demo_user_request w1 new_response = (w', rw''))"
proof -
  from demo_gateway_start obtain g where
    g: "gateway_start demo_gateway_lib None demo_gateway_config demo_front = (demo_front, Inr g)"
    "cookieName (gw_Auth g) = ''__Host-bff_session''" "sv_Provider (ah_Service (gw_Auth g)) = Some UnconfiguredProvider" by blast
  obtain w1 rw1 where out: "handle_logout (gw_Auth g) demo_user_request demo_front new_response = (w1, rw1)" by fastforce
  have "\<exists>w' rw''. rw_Status rw'' = 401 \<and>
      (\<forall>h. permission_handler (gw_Deps g) ''doc.read'' h demo_user_request w1 new_response = (w', rw''))"
  proof (rule logout_closes_routes [OF g(1) _ _ _ _ _ out])
    show "provider_frame p" if "sv_Provider (ah_Service (gw_Auth g)) = Some p" for p :: "front_world identity_provider"
      using that g(3) by (auto simp: provider_frame_def UnconfiguredProvider_def)
    show "rq_Cookies demo_user_request (cookieName (gw_Auth g)) = Some ''s1''" by (simp add: g(2) demo_user_request_def)
  qed (simp_all add: demo_gateway_config_def demo_gateway_lib_def MemorySink_frame g(2) demo_user_request_def new_response_def)
  with g(1) out show ?thesis by blast
qed

text \<open>
  C22. The addresses that the gateway publishes are its own: with a loaded configuration, the address of every route (the
  callback of the login, the return address of the logout) parses to the scheme and the host of the public URL, from which
  the cookies and the CSRF check take them too, with the joined path.
\<close>

theorem public_endpoints_on_host:
  assumes "LoadConfig clib env = Inr cfg" "HasPrefix route ''/''"
  shows "\<exists>u base a u'. url_Parse (ht_PublicURL (cfg_HTTP cfg)) = Some u \<and> u_Host u \<noteq> [] \<and>
    url_Parse (TrimRight (ht_PublicURL (cfg_HTTP cfg)) (CHR ''/'')) = Some base \<and>
    PublicEndpoint (cfg_HTTP cfg) route = Inr a \<and> url_Parse a = Some u' \<and>
    u_Scheme u' = u_Scheme u \<and> u_Host u' = u_Host u \<and> u_Path u' = endpoint_path base (cfg_HTTP cfg) route"
proof -
  from loaded_public_url(1) [OF assms(1)] obtain u where u: "url_Parse (ht_PublicURL (cfg_HTTP cfg)) = Some u"
    "u_Scheme u \<noteq> []" "u_Host u \<noteq> []" by blast
  from url_TrimRight [OF this] obtain base where base: "url_Parse (TrimRight (ht_PublicURL (cfg_HTTP cfg)) (CHR ''/'')) = Some base"
    "u_Scheme base = u_Scheme u" "u_Host base = u_Host u" by blast
  let ?p = "endpoint_path base (cfg_HTTP cfg) route"
  have abs: "absolute base" by (rule url_Parse_absolute [OF base(1)]) (use u base in simp_all)
  then have "hd ?p = CHR ''/''" by (intro endpoint_path_rooted assms(2) NormalizedBasePath_rooted) (simp add: absolute_def)
  with abs have "absolute (base\<lparr>u_Path := ?p\<rparr>)" by (simp add: absolute_def)
  then have "\<exists>u'. url_Parse (URL_String (base\<lparr>u_Path := ?p\<rparr>)) = Some u' \<and> absolute u' \<and> u_Scheme u' = u_Scheme base \<and>
      u_Host u' = u_Host base \<and> u_Path u' = ?p \<and> u_RawQuery u' = u_RawQuery base"
    using url_Parse_query [OF base(1)] by (drule_tac URL_String_parses) simp_all
  with u base show ?thesis by (auto simp: PublicEndpoint_def)
qed

theorem public_endpoints_on_host_witness:
  "\<exists>cfg a u'. LoadConfig demo_lib (map_of [(''BFF_HTTP_PUBLIC_URL'', ''https://gw.example'')]) = Inr cfg \<and>
     PublicEndpoint (cfg_HTTP cfg) ''/auth/callback'' = Inr a \<and> url_Parse a = Some u' \<and> u_Host u' \<noteq> []"
proof -
  from demo_gateway_loads obtain cfg where
    cfg: "LoadConfig demo_lib (map_of [(''BFF_HTTP_PUBLIC_URL'', ''https://gw.example'')]) = Inr cfg"
    by (auto simp: loaded_def split: sum.splits)
  have "HasPrefix ''/auth/callback'' ''/''" by code_simp
  from public_endpoints_on_host [OF cfg this] cfg show ?thesis by auto
qed

end
