(* ===== verification/Chain.thy ===== *)
theory Chain
  imports AuthHTTP
begin

text \<open>
  The middleware as a chain. A locale states what all of them have in common: a middleware answers by itself, with one of
  its statuses, or passes the request on with the parts that the ones inside decide by unchanged. Each middleware of the
  gateway is an instance, and what the innermost one refuses the whole chain refuses. No handler inside reads more of a body than the limit.
\<close>

section \<open>What middleware does\<close>

text \<open>The parts of a request that decide: the middleware only adds values to its context.\<close>

definition same_parts :: "request \<Rightarrow> request \<Rightarrow> bool" where
  "same_parts r r' \<longleftrightarrow>
     rq_Method r' = rq_Method r \<and> rq_URL r' = rq_URL r \<and> rq_Header r' = rq_Header r \<and> rq_Cookies r' = rq_Cookies r"

lemma same_parts_refl [simp]: "same_parts r r"
  by (simp add: same_parts_def)

lemma same_parts_trans: "same_parts r s \<Longrightarrow> same_parts s t \<Longrightarrow> same_parts r t"
  by (simp add: same_parts_def)

text \<open>The answer is the same for every handler, with one of the statuses.\<close>

definition answered ::
  "('w handler \<Rightarrow> 'w handler) \<Rightarrow> int set \<Rightarrow> request \<Rightarrow> 'w \<Rightarrow> response_writer \<Rightarrow> bool" where
  "answered M S r w rw \<longleftrightarrow> (\<exists>w' rw'. rw_Status rw' \<in> S \<and> (\<forall>next. M next r w rw = (w', rw')))"

text \<open>The handler runs once, and its response is the answer; the world may change before and after.\<close>

definition passed :: "('w handler \<Rightarrow> 'w handler) \<Rightarrow> request \<Rightarrow> 'w \<Rightarrow> response_writer \<Rightarrow> bool" where
  "passed M r w rw \<longleftrightarrow>
     (\<exists>r' w' rw' post. same_parts r r' \<and> rw_Status rw' = 0 \<and>
        (\<forall>next. M next r w rw = (case next r' w' rw' of (w2, rw2) \<Rightarrow> (post w2 rw2, rw2))))"

lemma passedI:
  assumes "\<And>next. M next r w rw = next r' w' rw'" "same_parts r r'" "rw_Status rw' = 0"
  shows "passed M r w rw"
  unfolding passed_def
  by (rule exI [of _ r'], rule exI [of _ w'], rule exI [of _ rw'], rule exI [of _ "\<lambda>w2 rw2. w2"]) (use assms in auto)

text \<open>A request that is refused wherever it arrives.\<close>

definition refuses :: "('w handler \<Rightarrow> 'w handler) \<Rightarrow> int set \<Rightarrow> request \<Rightarrow> bool" where
  "refuses M S r \<longleftrightarrow> (\<forall>r' w rw. same_parts r r' \<longrightarrow> rw_Status rw = 0 \<longrightarrow> answered M S r' w rw)"

lemma refusesD: "refuses M S r \<Longrightarrow> rw_Status rw = 0 \<Longrightarrow> answered M S r w rw"
  by (simp add: refuses_def)

locale middleware =
  fixes M :: "'w handler \<Rightarrow> 'w handler" and own :: "int set"
  assumes answers_or_passes: "rw_Status rw = 0 \<Longrightarrow> answered M own r w rw \<or> passed M r w rw"
begin

lemma refuses_inside:
  assumes "refuses F S r"
  shows "refuses (\<lambda>next. M (F next)) (own \<union> S) r"
  unfolding refuses_def
proof (intro allI impI)
  fix q w and rw :: response_writer assume q: "same_parts r q" "rw_Status rw = 0"
  from answers_or_passes [OF q(2), of q w] show "answered (\<lambda>next. M (F next)) (own \<union> S) q w rw"
  proof
    assume "answered M own q w rw"
    then show ?thesis by (auto simp: answered_def)
  next
    assume "passed M q w rw"
    then obtain r' w' rw' post where p: "same_parts q r'" "rw_Status rw' = 0"
      "\<And>next. M next q w rw = (case next r' w' rw' of (w2, rw2) \<Rightarrow> (post w2 rw2, rw2))"
      unfolding passed_def by blast
    from assms q(1) p(1,2) have "answered F S r' w' rw'" by (auto simp: refuses_def intro: same_parts_trans)
    then obtain w2 rw2 where "rw_Status rw2 \<in> S" "\<And>next. F next r' w' rw' = (w2, rw2)" by (auto simp: answered_def)
    with p(3) show ?thesis by (auto simp: answered_def)
  qed
qed

end

section \<open>The middleware of the gateway\<close>

interpretation request_id: middleware RequestID "{}"
  by unfold_locales
    (rule disjI2, rule passedI, simp only: RequestID_def Let_def case_prod_beta, auto simp: same_parts_def)

interpretation trace: middleware TraceContext "{}"
  by unfold_locales
    (rule disjI2, rule passedI, simp only: TraceContext_def Let_def case_prod_beta, auto simp: same_parts_def)

interpretation security: middleware SecurityHeaders "{}"
  by unfold_locales
    (rule disjI2, rule passedI, simp only: SecurityHeaders_def Let_def, auto)

interpretation metadata: middleware "RequestMetadata nl cidrs" "{}" for nl cidrs
  by unfold_locales
    (rule disjI2, rule passedI, simp only: RequestMetadata_def Let_def case_prod_beta, auto simp: same_parts_def)

lemma answeredI: "(\<And>next. M next r w rw = (w', rw')) \<Longrightarrow> rw_Status rw' \<in> S \<Longrightarrow> answered M S r w rw"
  by (auto simp: answered_def)

interpretation rate: middleware "RateLimit get put nl cidrs meter cfg" "{429}" for get put nl cidrs meter cfg
proof
  fix r :: request and w and rw :: response_writer assume new: "rw_Status rw = 0"
  let ?M = "RateLimit get put nl cidrs meter cfg" and ?c = "rate_defaults cfg"
  show "answered ?M {429} r w rw \<or> passed ?M r w rw"
  proof (cases "rl_RatePerSecond cfg \<le> 0 \<or> rl_Burst cfg \<le> 0 \<or> operationalPath (rq_Path r) \<or>
      rl_PathSuffixes ?c \<noteq> [] \<and> \<not> matchesPathSuffix (rq_Path r) (rl_PathSuffixes ?c)")
    case True
    then have "?M next r w rw = next r w rw" for "next" by (auto simp: RateLimit_def Let_def)
    from passedI [of ?M, OF this same_parts_refl new] show ?thesis ..
  next
    case False
    obtain lm key allowed where t: "rate_take ?c (get (snd (Now w))) (ClientIP nl cidrs r) (fst (Now w)) = (lm, key, allowed)"
      using prod_cases3 by blast
    show ?thesis
    proof (cases allowed)
      case True
      with False t have "?M next r w rw = next r (put lm (snd (Now w))) rw" for "next"
        by (auto simp: RateLimit_def Let_def case_prod_beta)
      from passedI [of ?M, OF this same_parts_refl new] show ?thesis ..
    next
      case denied: False
      with False t have "?M next r w rw = (meter_call meter (put lm (snd (Now w))) (RecordRejected (rl_RejectReason ?c)),
          http_Error (SetHeader rw ''Retry-After'' ''1'') ''rate limit exceeded'' 429)" for "next"
        by (auto simp: RateLimit_def Let_def case_prod_beta)
      from answeredI [of ?M, OF this] new show ?thesis by simp
    qed
  qed
qed

interpretation concurrency: middleware "ConcurrencyLimit get put limit meter" "{503}" for get put limit meter
proof
  fix r :: request and w and rw :: response_writer assume new: "rw_Status rw = 0"
  let ?M = "ConcurrencyLimit get put limit meter"
  show "answered ?M {503} r w rw \<or> passed ?M r w rw"
  proof (cases "limit \<le> 0 \<or> operationalPath (rq_Path r)")
    case True
    then have "?M next r w rw = next r w rw" for "next" by (auto simp: ConcurrencyLimit_def)
    from passedI [of ?M, OF this same_parts_refl new] show ?thesis ..
  next
    case False
    show ?thesis
    proof (cases "get w < limit")
      case True
      with False new have "passed ?M r w rw"
        unfolding passed_def ConcurrencyLimit_def Let_def
        by (intro exI [of _ r] exI [of _ "meter_call meter (put (get w + 1) w) (AddInflight 1)"] exI [of _ rw]
            exI [of _ "\<lambda>w2 rw2. meter_call meter (put (get w2 - 1) w2) (AddInflight (- 1))"]) simp
      then show ?thesis ..
    next
      case full: False
      with False have "?M next r w rw = (meter_call meter w (RecordRejected ''concurrency''),
          http_Error (SetHeader rw ''Retry-After'' ''1'') ''server busy'' 503)" for "next"
        by (simp add: ConcurrencyLimit_def)
      from answeredI [of ?M, OF this] new show ?thesis by simp
    qed
  qed
qed

interpretation access_log: middleware "AccessLog slog len nl cidrs" "{}" for slog len nl cidrs
proof
  fix r :: request and w and rw :: response_writer assume new: "rw_Status rw = 0"
  let ?M = "AccessLog slog len nl cidrs"
  have "passed ?M r w rw"
    unfolding passed_def AccessLog_def Let_def Now_eq
    by (intro exI [of _ r] exI [of _ "w\<lparr>ticks := Suc (ticks w)\<rparr>"] exI [of _ rw]
        exI [of _ "\<lambda>w2 rw2. if successfulHealthCheck (rq_Path r) (recorded_status rw rw2) then w2
          else slog (w2\<lparr>ticks := Suc (ticks w2)\<rparr>) (access_line nl cidrs r (recorded_status rw rw2)
            (recorded_bytes len rw rw2) (Time_Sub (cur w2) (cur w)))"]) (auto simp: new split: prod.split)
  then show "answered ?M {} r w rw \<or> passed ?M r w rw" ..
qed

interpretation body_limit: middleware "MaxRequestBodyBytes limit" "{}" for limit
proof
  fix r :: request and w and rw :: response_writer assume new: "rw_Status rw = 0"
  let ?M = "MaxRequestBodyBytes limit"
  let ?r = "if limit \<le> 0 then r else r\<lparr>rq_Body := map_option (\<lambda>b. MaxBytesReader b limit) (rq_Body r)\<rparr>"
  have "?M next r w rw = next ?r w rw" for "next" by (simp add: MaxRequestBodyBytes_def)
  from passedI [of ?M, OF this _ new] show "answered ?M {} r w rw \<or> passed ?M r w rw" by (simp add: same_parts_def)
qed

interpretation permission: middleware "RequirePermissionWithAuditCookie perm name sessions0 evaluator0 sink meter" "{401, 403, 503}"
  for perm name sessions0 evaluator0 sink meter
proof
  fix r :: request and w and rw :: response_writer assume new: "rw_Status rw = 0"
  let ?M = "RequirePermissionWithAuditCookie perm name sessions0 evaluator0 sink meter"
  show "answered ?M {401, 403, 503} r w rw \<or> passed ?M r w rw"
  proof (cases "\<exists>v s. authorized_as sessions0 evaluator0 perm name r w v s")
    case True
    then obtain v s where "authorized_as sessions0 evaluator0 perm name r w v s" by blast
    from permission_passes [OF this, of sink meter rw] obtain w4 where
      "\<And>next. ?M next r w rw = next (r\<lparr>cx_Session := Some s\<rparr>) w4 rw" by blast
    from passedI [of ?M, OF this _ new] show ?thesis by (simp add: same_parts_def)
  next
    case False
    from permission_gate [OF new this] show ?thesis by (simp add: answered_def)
  qed
qed

section \<open>Forged requests\<close>

text \<open>
  A state-changing request from another origin, or without the token of the cookie in its header.
\<close>

definition forged :: "csrf_config \<Rightarrow> request \<Rightarrow> bool" where
  "forged cfg r \<longleftrightarrow> isUnsafeMethod (rq_Method r) \<and>
     \<not> (sameOriginRequest r (url_Parse (csrf_PublicURL cfg)) \<and>
        (\<exists>v. rq_Cookies r (csrf_cookie_name cfg) = Some v \<and> v \<noteq> [] \<and> Header_Get (rq_Header r) CSRFHeaderName = v))"

abbreviation csrf_of :: "('w, 'ip, 'net) router_deps \<Rightarrow> csrf_config" where
  "csrf_of d \<equiv> \<lparr>csrf_PublicURL = rd_PublicURL d, csrf_Secure = rd_SecureCookies d, csrf_CookieName = rd_CSRFCookieName d\<rparr>"

lemma forged_same_parts: "same_parts r q \<Longrightarrow> forged cfg r \<Longrightarrow> forged cfg q"
proof -
  assume same: "same_parts r q"
  then have "sameOriginRequest q u = sameOriginRequest r u" for u by (simp only: sameOriginRequest_def same_parts_def)
  with same show "forged cfg r \<Longrightarrow> forged cfg q" by (simp only: forged_def same_parts_def simp_thms)
qed

lemma CSRF_refuses:
  assumes "forged cfg r"
  shows "refuses (CSRF cfg) {403} r"
  unfolding refuses_def
proof (intro allI impI)
  fix q w and rw :: response_writer assume q: "same_parts r q" "rw_Status rw = 0"
  from forged_same_parts [OF q(1) assms] CSRF_answers [of q cfg rw w, OF _ _ q(2)]
  show "answered (CSRF cfg) {403} q w rw" unfolding forged_def answered_def by simp
qed

section \<open>Properties\<close>

text \<open>
  C7. A forged request reaches no route of the gateway: through the whole chain of middleware, a state-changing request
  from another origin, or without the token of its cookie in the header, is answered 403 (or 429 or 503 by the limits),
  the same for whatever is mounted.
\<close>

theorem chain_refuses_forgery:
  assumes "forged (csrf_of d) r" "rw_Status rw = 0"
  shows "\<exists>w' rw'. rw_Status rw' \<in> {403, 429, 503} \<and> (\<forall>mounted. router_chain d mounted r w rw = (w', rw'))"
proof -
  let ?csrf = "\<lambda>next. MaxRequestBodyBytes (rd_MaxRequestBodyBytes d) (CSRF (csrf_of d) next)"
  let ?rate = "\<lambda>next. RateLimit (fst (rd_limiter d)) (snd (rd_limiter d)) (rd_Net d) (rd_TrustedProxy d) (rd_Metrics d) (rate_config d)
      (RateLimit (fst (rd_authLimiter d)) (snd (rd_authLimiter d)) (rd_Net d) (rd_TrustedProxy d) (rd_Metrics d) (auth_rate_config d)
      (ConcurrencyLimit (fst (rd_semaphore d)) (snd (rd_semaphore d)) (rd_MaxConcurrency d) (rd_Metrics d) (?csrf next)))"
  let ?log = "\<lambda>next. if rd_AccessLogEnabled d
      then AccessLog (rd_Slog d) (rd_Size d) (rd_Net d) (rd_TrustedProxy d) (?rate next) else ?rate next"
  let ?sec = "\<lambda>next. SecurityHeaders (RequestMetadata (rd_Net d) (rd_TrustedProxy d) (?log next))"
  have rate: "refuses ?rate ({429} \<union> ({429} \<union> ({503} \<union> ({} \<union> {403})))) r"
    by (intro rate.refuses_inside concurrency.refuses_inside body_limit.refuses_inside CSRF_refuses assms(1))
  have "refuses ?log ({429} \<union> ({429} \<union> ({503} \<union> ({} \<union> {403})))) r"
    using access_log.refuses_inside [OF rate] rate by (cases "rd_AccessLogEnabled d") simp_all
  then have sec: "refuses ?sec ({} \<union> ({} \<union> ({429} \<union> ({429} \<union> ({503} \<union> ({} \<union> {403})))))) r"
    by (intro security.refuses_inside metadata.refuses_inside)
  have "refuses (\<lambda>next. RequestID (if rd_TraceEnabled d then TraceContext (?sec next) else ?sec next)) {403, 429, 503} r"
    using request_id.refuses_inside [OF trace.refuses_inside [OF sec]] request_id.refuses_inside [OF sec]
    by (cases "rd_TraceEnabled d") (simp_all add: insert_commute)
  from refusesD [OF this assms(2), of w] show ?thesis by (simp add: answered_def router_chain_def Let_def)
qed

definition demo_deps :: "(front_world, string, string list) router_deps" where
  "demo_deps =
     \<lparr>rd_PublicURL = ''https://app.example'', rd_SecureCookies = True, rd_CSRFCookieName = CSRFCookieNameFor True,
      rd_Net = demo_net, rd_TrustedProxy = [], rd_Metrics = registry_meter, rd_MaxRequestBodyBytes = 4, rd_MaxConcurrency = 10, rd_RatePerSecond = 0,
      rd_RateBurst = 0, rd_RateMaxEntries = 0, rd_AuthRatePerSecond = 0, rd_AuthRateBurst = 0, rd_AccessLogEnabled = True, rd_TraceEnabled = True, rd_Slog = (\<lambda>w e. w), rd_Size = (\<lambda>b. 0),
      rd_authLimiter = (\<lambda>w. new_limiter, \<lambda>l w. w), rd_limiter = (\<lambda>w. new_limiter, \<lambda>l w. w),
      rd_semaphore = (\<lambda>w. 0, \<lambda>n w. w)\<rparr>"

theorem chain_refuses_forgery_witness:
  "forged (csrf_of demo_deps) demo_request \<and>
   (\<exists>w' rw'. rw_Status rw' \<in> {403, 429, 503} \<and>
      (\<forall>mounted. router_chain demo_deps mounted demo_request demo_front new_response = (w', rw')))"
proof -
  have "\<not> sameOriginRequest demo_request (url_Parse ''https://app.example'')" by code_simp
  then have f: "forged (csrf_of demo_deps) demo_request"
    by (simp add: forged_def demo_deps_def demo_request_def isUnsafeMethod_def)
  have "rw_Status new_response = 0" by (simp add: new_response_def)
  from chain_refuses_forgery [OF f this] f show ?thesis by blast
qed

text \<open>
  C13. No handler of the gateway reads more of a body than the limit: for the whole chain, two applications are the same
  that agree on every request whose body holds at most that many bytes.
\<close>

theorem chain_bounds_bodies:
  assumes "0 < rd_MaxRequestBodyBytes d"
    and "\<And>r w rw. body_bounded (rd_MaxRequestBodyBytes d) r \<Longrightarrow> f r w rw = g r w rw"
  shows "router_chain d f = router_chain d g"
proof -
  have "CSRF (csrf_of d) f r w rw = CSRF (csrf_of d) g r w rw" if "body_bounded (rd_MaxRequestBodyBytes d) r" for r w rw
    by (simp add: CSRF_def Let_def assms(2) [OF that] split: prod.split option.split)
  from limit_cong [OF assms(1) this] show ?thesis by (simp add: router_chain_def)
qed

definition demo_echo :: "front_world handler" where
  "demo_echo r w rw = (w, Write rw (Text (case rq_Body r of None \<Rightarrow> [] | Some b \<Rightarrow> fst (read_body b))))"

theorem chain_bounds_bodies_witness:
  "router_chain demo_deps demo_echo = router_chain demo_deps (\<lambda>r w rw. if body_bounded 4 r then demo_echo r w rw else (w, rw))"
proof -
  have "0 < rd_MaxRequestBodyBytes demo_deps" "rd_MaxRequestBodyBytes demo_deps = 4" by (simp_all add: demo_deps_def)
  then show ?thesis by (intro chain_bounds_bodies) simp_all
qed

end
