(* ===== verification/MetricsText.thy ===== *)
theory MetricsText
  imports GoConv GoHTTP "HOL-Library.List_Lexorder" "HOL-Library.Char_ord"
begin

text \<open>
  The text exposition of the metrics (\<^verbatim>\<open>writePrometheus\<close> and \<^verbatim>\<open>Handler\<close> of
  \<^verbatim>\<open>internal/observability/metrics.go\<close>). A line is kept as its parts until it is printed. The order in which Go ranges
  over a map is an argument, the list of its keys, and so is the format \<^verbatim>\<open>%g\<close> of the sum of a histogram.
\<close>

section \<open>Definitions\<close>

datatype line = TypeLine string string | SampleLine string "(string \<times> string) list" string

definition label_text :: "string \<times> string \<Rightarrow> string" where
  "label_text l = fst l @ ''='' @ Quote (snd l)"

fun labels_text :: "(string \<times> string) list \<Rightarrow> string" where
  "labels_text [] = ''''"
| "labels_text [l] = label_text l"
| "labels_text (l # ls) = label_text l @ '','' @ labels_text ls"

definition series_text :: "string \<Rightarrow> (string \<times> string) list \<Rightarrow> string" where
  "series_text name ls = (if ls = [] then name else name @ ''{'' @ labels_text ls @ ''}'')"

fun line_text :: "line \<Rightarrow> string" where
  "line_text (TypeLine name kind) = ''# TYPE '' @ name @ '' '' @ kind @ [CHR 0x0A]"
| "line_text (SampleLine name ls v) = series_text name ls @ '' '' @ v @ [CHR 0x0A]"

text \<open>The keys of the maps, in the order in which Go ranges over each.\<close>

record metric_keys =
  mk_httpRequests :: "(string \<times> string \<times> string) list"
  mk_httpDuration :: "(string \<times> string) list"
  mk_authAttempts :: "string list"
  mk_decisions :: "(string \<times> string) list"
  mk_outRequests :: "(string \<times> string \<times> string) list"
  mk_outDuration :: "(string \<times> string) list"
  mk_rejected :: "string list"
  mk_outRejected :: "(string \<times> string) list"

text \<open>
  The sorted keys. \<^verbatim>\<open>sort.Slice\<close> may put keys with equal concatenations in any order, and so does the sorting of a
  list whose order is arbitrary.
\<close>

definition sortedHTTPKeys :: "(string \<times> string \<times> string) list \<Rightarrow> (string \<times> string \<times> string) list" where
  "sortedHTTPKeys ks = sort_key (\<lambda>(a, b, c). a @ b @ c) ks"

definition sortedHTTPDurationKeys :: "(string \<times> string) list \<Rightarrow> (string \<times> string) list" where
  "sortedHTTPDurationKeys ks = sort_key (\<lambda>(a, b). a @ b) ks"

definition sortedAuthKeys :: "string list \<Rightarrow> string list" where
  "sortedAuthKeys ks = sort ks"

definition sortedDecisionKeys :: "(string \<times> string) list \<Rightarrow> (string \<times> string) list" where
  "sortedDecisionKeys ks = sort_key (\<lambda>(a, b). a @ b) ks"

definition sortedOutboundKeys :: "(string \<times> string \<times> string) list \<Rightarrow> (string \<times> string \<times> string) list" where
  "sortedOutboundKeys ks = sort_key (\<lambda>(a, b, c). a @ b @ c) ks"

definition sortedOutboundDurationKeys :: "(string \<times> string) list \<Rightarrow> (string \<times> string) list" where
  "sortedOutboundDurationKeys ks = sort_key (\<lambda>(a, b). a @ b) ks"

definition sortedRejectedKeys :: "string list \<Rightarrow> string list" where
  "sortedRejectedKeys ks = sort ks"

definition sortedOutboundRejectedKeys :: "(string \<times> string) list \<Rightarrow> (string \<times> string) list" where
  "sortedOutboundRejectedKeys ks = sort_key (\<lambda>(a, b). a @ b) ks"

definition counter_text :: "64 word \<Rightarrow> string" where
  "counter_text n = Itoa (uint n)"

text \<open>\<^verbatim>\<open>strconv.FormatFloat(bound, 'g', -1, 64)\<close> on the default bounds.\<close>

definition bound_texts :: "string list" where
  "bound_texts = [''0.005'', ''0.01'', ''0.025'', ''0.05'', ''0.1'', ''0.25'', ''0.5'', ''1'', ''2.5'', ''5'', ''10'']"

definition writeHistogram ::
  "(duration \<Rightarrow> string) \<Rightarrow> string \<Rightarrow> (string \<times> string) list \<Rightarrow> histogram \<Rightarrow> line list" where
  "writeHistogram fmt name ls h =
     map2 (\<lambda>b n. SampleLine (name @ ''_bucket'') (ls @ [(''le'', b)]) (counter_text n)) bound_texts (hi_Buckets h) @
     [SampleLine (name @ ''_bucket'') (ls @ [(''le'', ''+Inf'')]) (counter_text (hi_Count h)),
      SampleLine (name @ ''_sum'') ls (fmt (hi_Sum h)), SampleLine (name @ ''_count'') ls (counter_text (hi_Count h))]"

definition counter_lines :: "string \<Rightarrow> ('k \<Rightarrow> (string \<times> string) list) \<Rightarrow> 'k list \<Rightarrow> ('k \<rightharpoonup> 64 word) \<Rightarrow> line list" where
  "counter_lines name labels ks m =
     TypeLine name ''counter'' # map (\<lambda>k. SampleLine name (labels k) (counter_text (counter m k))) ks"

definition zero_histogram :: histogram where
  "zero_histogram = \<lparr>hi_Count = 0, hi_Sum = 0, hi_Buckets = []\<rparr>"

definition histogram_lines ::
  "(duration \<Rightarrow> string) \<Rightarrow> string \<Rightarrow> ('k \<Rightarrow> (string \<times> string) list) \<Rightarrow> 'k list \<Rightarrow> ('k \<rightharpoonup> histogram) \<Rightarrow> line list" where
  "histogram_lines fmt name labels ks m =
     TypeLine name ''histogram'' #
     concat (map (\<lambda>k. writeHistogram fmt name (labels k) (case m k of None \<Rightarrow> zero_histogram | Some h \<Rightarrow> h)) ks)"

definition writePrometheus :: "(duration \<Rightarrow> string) \<Rightarrow> metric_keys \<Rightarrow> metrics \<Rightarrow> line list" where
  "writePrometheus fmt ks m = concat [
     counter_lines ''rebff_http_requests_total'' (\<lambda>(a, b, c). [(''method'', a), (''route'', b), (''status_class'', c)])
       (sortedHTTPKeys (mk_httpRequests ks)) (mx_httpRequests m),
     histogram_lines fmt ''rebff_http_request_duration_seconds'' (\<lambda>(a, b). [(''method'', a), (''route'', b)])
       (sortedHTTPDurationKeys (mk_httpDuration ks)) (mx_httpDuration m),
     counter_lines ''rebff_auth_attempts_total'' (\<lambda>a. [(''outcome'', a)])
       (sortedAuthKeys (mk_authAttempts ks)) (mx_authAttempts m),
     counter_lines ''rebff_authorization_decisions_total'' (\<lambda>(a, b). [(''outcome'', a), (''permission'', b)])
       (sortedDecisionKeys (mk_decisions ks)) (mx_decisions m),
     counter_lines ''rebff_outbound_requests_total'' (\<lambda>(a, b, c). [(''service'', a), (''method'', b), (''outcome'', c)])
       (sortedOutboundKeys (mk_outRequests ks)) (mx_outRequests m),
     counter_lines ''rebff_http_rejected_total'' (\<lambda>a. [(''reason'', a)])
       (sortedRejectedKeys (mk_rejected ks)) (mx_rejected m),
     counter_lines ''rebff_outbound_rejected_total'' (\<lambda>(a, b). [(''service'', a), (''reason'', b)])
       (sortedOutboundRejectedKeys (mk_outRejected ks)) (mx_outRejected m),
     [TypeLine ''rebff_http_inflight_requests'' ''gauge'',
      SampleLine ''rebff_http_inflight_requests'' [] (Itoa (mx_inflight m))],
     histogram_lines fmt ''rebff_outbound_request_duration_seconds'' (\<lambda>(a, b). [(''service'', a), (''method'', b)])
       (sortedOutboundDurationKeys (mk_outDuration ks)) (mx_outDuration m)]"

definition metrics_Handler :: "(duration \<Rightarrow> string) \<Rightarrow> metric_keys \<Rightarrow> metrics \<Rightarrow> response_writer \<Rightarrow> response_writer" where
  "metrics_Handler fmt ks m rw =
     Write (SetHeader rw ''Content-Type'' ''text/plain; version=0.0.4; charset=utf-8'')
       (Text (concat (map line_text (writePrometheus fmt ks m))))"

section \<open>Lemmas\<close>

subsection \<open>Quoting can be undone\<close>

text \<open>
  What the encoding of a character looks like, for each of them: it does not start with a quotation mark and has no line
  break, its first two characters tell its length, and it can be decoded.
\<close>

fun unquote :: "string \<Rightarrow> char" where
  "unquote [c] = c"
| "unquote [_, e] =
     (case map_of (zip ''abtnvfr'' [CHR 0x07, CHR 0x08, CHR 0x09, CHR 0x0A, CHR 0x0B, CHR 0x0C, CHR 0x0D]) e of
        None \<Rightarrow> e | Some c \<Rightarrow> c)"
| "unquote [_, _, h, l] =
     char_of (16 * length (takeWhile (\<lambda>d. d \<noteq> h) ''0123456789abcdef'') + length (takeWhile (\<lambda>d. d \<noteq> l) ''0123456789abcdef''))"
| "unquote _ = CHR 0x00"

definition code_length :: "string \<Rightarrow> nat" where
  "code_length u = (if hd u \<noteq> CHR 0x5C then 1 else if hd (tl u) = CHR ''x'' then 4 else 2)"

definition quote_ok :: "char \<Rightarrow> bool" where
  "quote_ok c \<longleftrightarrow>
     (let q = quote_char c
      in q \<noteq> [] \<and> hd q \<noteq> CHR 0x22 \<and> CHR 0x0A \<notin> set q \<and> length q = code_length q \<and> unquote q = c)"

lemma quote_ok_all: "list_all quote_ok Enum.enum"
  by code_simp

lemma quote_char_ok: "quote_ok c"
  using quote_ok_all by (simp add: list_all_iff enum_UNIV)

lemma quote_char_length: "length (quote_char c) = code_length (quote_char c)"
  using quote_char_ok [of c] by (simp only: quote_ok_def Let_def)

lemma unquote_char: "unquote (quote_char c) = c"
  using quote_char_ok [of c] by (simp only: quote_ok_def Let_def)

lemma quote_char_hd: "quote_char c \<noteq> []" "hd (quote_char c) \<noteq> CHR 0x22" "CHR 0x0A \<notin> set (quote_char c)"
  using quote_char_ok [of c] by (simp_all add: quote_ok_def Let_def)

lemma code_length_append:
  assumes "length q = code_length q" "q \<noteq> []"
  shows "code_length (q @ r) = length q"
proof (cases "tl q = []")
  case True
  with assms(2) obtain a where q: "q = [a]" by (cases q) auto
  with assms(1) have "a \<noteq> CHR 0x5C" by (metis code_length_def length_Cons list.sel(1) list.size(3) numeral_eq_one_iff
      One_nat_def semiring_norm(85) semiring_norm(83))
  with q show ?thesis by (simp add: code_length_def)
next
  case False
  then have "hd (q @ r) = hd q" "hd (tl (q @ r)) = hd (tl q)" using assms(2) by (cases q; simp)+
  then have "code_length (q @ r) = code_length q" by (simp only: code_length_def)
  with assms(1) show ?thesis by simp
qed

lemma quote_char_prefix_free:
  assumes "quote_char c @ r = quote_char d @ r'"
  shows "c = d \<and> r = r'"
proof -
  have "length (quote_char c) = length (quote_char d)"
    using code_length_append [OF quote_char_length quote_char_hd(1), of c r]
      code_length_append [OF quote_char_length quote_char_hd(1), of d r'] assms by argo
  with assms have "quote_char c = quote_char d" "r = r'" by simp_all
  then show ?thesis using unquote_char by metis
qed

lemma quoted_inj:
  "concat (map quote_char s) @ CHR 0x22 # r = concat (map quote_char t) @ CHR 0x22 # r' \<Longrightarrow> s = t \<and> r = r'"
proof (induction s arbitrary: t)
  case Nil
  show ?case
  proof (cases t)
    case (Cons d t')
    with Nil.prems quote_char_hd [of d] show ?thesis by (cases "quote_char d") auto
  qed (use Nil.prems in simp)
next
  case (Cons c s)
  show ?case
  proof (cases t)
    case Nil
    with Cons.prems quote_char_hd [of c] show ?thesis by (cases "quote_char c") auto
  next
    case (Cons d t')
    with Cons.prems have "quote_char c @ (concat (map quote_char s) @ CHR 0x22 # r) =
        quote_char d @ (concat (map quote_char t') @ CHR 0x22 # r')" by simp
    from quote_char_prefix_free [OF this] Cons.IH [of t'] Cons show ?thesis by simp
  qed
qed

lemma Quote_inj: "Quote s @ r = Quote t @ r' \<Longrightarrow> s = t \<and> r = r'"
  using quoted_inj [of s r t r'] by (simp add: Quote_def)

lemma labels_text_inj:
  "map fst ls = map fst ls' \<Longrightarrow> labels_text ls @ r = labels_text ls' @ r' \<Longrightarrow> ls = ls'"
proof (induction ls arbitrary: ls' rule: labels_text.induct)
  case 1
  then show ?case by simp
next
  case (2 l)
  then obtain l' where l: "ls' = [l']" "fst l = fst l'" by auto
  with 2 have "Quote (snd l) @ r = Quote (snd l') @ r'" by (simp add: label_text_def)
  from Quote_inj [OF this] l show ?case by (simp add: prod_eq_iff)
next
  case (3 l k ls)
  then obtain l' k' ks where l: "ls' = l' # k' # ks" "fst l = fst l'" "map fst (k # ls) = map fst (k' # ks)"
    by (cases ls' rule: labels_text.cases) auto
  with 3 have "Quote (snd l) @ ('','' @ labels_text (k # ls) @ r) = Quote (snd l') @ ('','' @ labels_text (k' # ks) @ r')"
    by (simp add: label_text_def)
  from Quote_inj [OF this] have "snd l = snd l'" "labels_text (k # ls) @ r = labels_text (k' # ks) @ r'" by simp_all
  with "3.IH" [OF l(3)] l show ?case by (simp add: prod_eq_iff)
qed

subsection \<open>Series\<close>

fun series :: "line \<Rightarrow> (string \<times> (string \<times> string) list) list" where
  "series (TypeLine name kind) = []"
| "series (SampleLine name ls v) = [(name, ls)]"

definition all_series :: "line list \<Rightarrow> (string \<times> (string \<times> string) list) list" where
  "all_series lines = concat (map series lines)"

lemma all_series_append [simp]:
  "all_series [] = []" "all_series (xs @ ys) = all_series xs @ all_series ys" "all_series (l # ls) = series l @ all_series ls"
  by (simp_all add: all_series_def)

lemma all_series_map:
  "all_series (map (\<lambda>k. SampleLine (n k) (l k) (v k)) ks) = map (\<lambda>k. (n k, l k)) ks"
  by (induction ks) simp_all

lemma counter_series: "all_series (counter_lines name labels ks m) = map (\<lambda>k. (name, labels k)) ks"
  by (simp add: counter_lines_def all_series_map)

definition histogram_series :: "string \<Rightarrow> (string \<times> string) list \<Rightarrow> nat \<Rightarrow> (string \<times> (string \<times> string) list) list" where
  "histogram_series name ls n =
     map (\<lambda>b. (name @ ''_bucket'', ls @ [(''le'', b)])) (take n bound_texts @ [''+Inf'']) @ [(name @ ''_sum'', ls), (name @ ''_count'', ls)]"

lemma writeHistogram_series:
  "all_series (writeHistogram fmt name ls h) = histogram_series name ls (length (hi_Buckets h))"
proof -
  have "all_series (map2 (\<lambda>b n. SampleLine (name @ ''_bucket'') (ls @ [(''le'', b)]) (counter_text n)) bs ns) =
      map (\<lambda>b. (name @ ''_bucket'', ls @ [(''le'', b)])) (take (length ns) bs)" for bs ns
    by (induction bs ns rule: list_induct2') simp_all
  then show ?thesis by (simp add: writeHistogram_def histogram_series_def)
qed

lemma histogram_lines_series:
  "all_series (histogram_lines fmt name labels ks m) =
     concat (map (\<lambda>k. histogram_series name (labels k) (length (hi_Buckets (case m k of None \<Rightarrow> zero_histogram | Some h \<Rightarrow> h)))) ks)"
  by (induction ks) (simp_all add: histogram_lines_def writeHistogram_series)

lemma histogram_series_distinct: "distinct (histogram_series name ls n)"
proof -
  have d: "distinct (bound_texts @ [''+Inf''])" by code_simp
  then have "distinct (take n bound_texts @ [''+Inf''])"
    by (auto dest: in_set_takeD)
  then show ?thesis by (auto simp: histogram_series_def distinct_map inj_on_def)
qed

lemma histogram_series_labels:
  "(n, l) \<in> set (histogram_series name ls k) \<Longrightarrow> take (length ls) l = ls"
  by (auto simp: histogram_series_def)

lemma concat_series_distinct:
  assumes "distinct ks" "inj_on labels (set ks)" "\<And>k k'. length (labels k) = length (labels k')"
  shows "distinct (concat (map (\<lambda>k. histogram_series name (labels k) (f k)) ks))"
  using assms(1,2)
proof (induction ks)
  case (Cons k ks)
  have False if "k' \<in> set ks" "x \<in> set (histogram_series name (labels k) (f k))"
    "x \<in> set (histogram_series name (labels k') (f k'))" for k' x
  proof -
    have "labels k = labels k'"
      using histogram_series_labels [of "fst x" "snd x"] that(2,3) assms(3) [of k k'] by (metis prod.collapse)
    with Cons.prems that(1) show False by (auto simp: inj_on_def)
  qed
  with Cons show ?case by (auto simp: histogram_series_distinct)
qed simp

text \<open>The labels of each series, by its name.\<close>

definition series_labels :: "(string \<times> string list) list" where
  "series_labels =
     [(''rebff_http_requests_total'', [''method'', ''route'', ''status_class'']),
      (''rebff_http_request_duration_seconds_bucket'', [''method'', ''route'', ''le'']),
      (''rebff_http_request_duration_seconds_sum'', [''method'', ''route'']),
      (''rebff_http_request_duration_seconds_count'', [''method'', ''route'']),
      (''rebff_auth_attempts_total'', [''outcome'']),
      (''rebff_authorization_decisions_total'', [''outcome'', ''permission'']),
      (''rebff_outbound_requests_total'', [''service'', ''method'', ''outcome'']),
      (''rebff_http_rejected_total'', [''reason'']),
      (''rebff_outbound_rejected_total'', [''service'', ''reason'']),
      (''rebff_http_inflight_requests'', []),
      (''rebff_outbound_request_duration_seconds_bucket'', [''service'', ''method'', ''le'']),
      (''rebff_outbound_request_duration_seconds_sum'', [''service'', ''method'']),
      (''rebff_outbound_request_duration_seconds_count'', [''service'', ''method''])]"

lemma series_labels_names: "distinct (map fst series_labels)" "list_all (\<lambda>p. CHR ''{'' \<notin> set (fst p)) series_labels"
  by code_simp+

lemma series_text_inj:
  assumes "series_text n ls = series_text n' ls'" "CHR ''{'' \<notin> set n" "CHR ''{'' \<notin> set n'"
    and "n = n' \<Longrightarrow> map fst ls = map fst ls'"
  shows "n = n' \<and> ls = ls'"
proof -
  have name: "takeWhile (\<lambda>c. c \<noteq> CHR ''{'') (series_text m l) = m" if "CHR ''{'' \<notin> set m" for m l
    using that by (auto simp: series_text_def takeWhile_append takeWhile_eq_all_conv)
  have n: "n = n'" using name [OF assms(2), of ls] name [OF assms(3), of ls'] assms(1) by metis
  with assms(4) have fsts: "map fst ls = map fst ls'" .
  then have "ls = [] \<longleftrightarrow> ls' = []" by auto
  moreover have "ls = ls'" if "ls \<noteq> []" "ls' \<noteq> []"
    using labels_text_inj [OF fsts, of "''}''" "''}''"] assms(1) n that by (simp add: series_text_def)
  ultimately show ?thesis using n by auto
qed

text \<open>The lists hold the keys of the maps, each once.\<close>

definition ranges_over :: "'k list \<Rightarrow> ('k \<rightharpoonup> 'v) \<Rightarrow> bool" where
  "ranges_over ks m \<longleftrightarrow> distinct ks \<and> set ks = dom m"

definition keys_of :: "metric_keys \<Rightarrow> metrics \<Rightarrow> bool" where
  "keys_of ks m \<longleftrightarrow>
     ranges_over (mk_httpRequests ks) (mx_httpRequests m) \<and> ranges_over (mk_httpDuration ks) (mx_httpDuration m) \<and>
     ranges_over (mk_authAttempts ks) (mx_authAttempts m) \<and> ranges_over (mk_decisions ks) (mx_decisions m) \<and>
     ranges_over (mk_outRequests ks) (mx_outRequests m) \<and> ranges_over (mk_outDuration ks) (mx_outDuration m) \<and>
     ranges_over (mk_rejected ks) (mx_rejected m) \<and> ranges_over (mk_outRejected ks) (mx_outRejected m)"

lemmas sorted_defs = sortedHTTPKeys_def sortedHTTPDurationKeys_def sortedAuthKeys_def sortedDecisionKeys_def 
  sortedOutboundKeys_def sortedOutboundDurationKeys_def sortedRejectedKeys_def sortedOutboundRejectedKeys_def

lemma sorted_keys [simp]:
  "set (sortedHTTPKeys k1) = set k1" "distinct (sortedHTTPKeys k1) = distinct k1"
  "set (sortedHTTPDurationKeys k2) = set k2" "distinct (sortedHTTPDurationKeys k2) = distinct k2"
  "set (sortedAuthKeys k3) = set k3" "distinct (sortedAuthKeys k3) = distinct k3"
  "set (sortedDecisionKeys k2) = set k2" "distinct (sortedDecisionKeys k2) = distinct k2"
  "set (sortedOutboundKeys k1) = set k1" "distinct (sortedOutboundKeys k1) = distinct k1"
  "set (sortedOutboundDurationKeys k2) = set k2" "distinct (sortedOutboundDurationKeys k2) = distinct k2"
  "set (sortedRejectedKeys k3) = set k3" "distinct (sortedRejectedKeys k3) = distinct k3"
  "set (sortedOutboundRejectedKeys k2) = set k2" "distinct (sortedOutboundRejectedKeys k2) = distinct k2"
  by (simp_all add: sorted_defs)

text \<open>Lines whose series are distinct and have only the given names.\<close>

definition series_group :: "line list \<Rightarrow> string list \<Rightarrow> bool" where
  "series_group g ns \<longleftrightarrow> distinct (all_series g) \<and> fst ` set (all_series g) \<subseteq> set ns"

lemma series_group_counter:
  "distinct ks \<Longrightarrow> inj labels \<Longrightarrow> series_group (counter_lines name labels ks m) [name]"
  by (auto simp: series_group_def counter_series distinct_map inj_on_def)

lemma series_group_histogram:
  assumes "distinct ks" "inj labels" "\<And>k k'. length (labels k) = length (labels k')"
  shows "series_group (histogram_lines fmt name labels ks m) [name @ ''_bucket'', name @ ''_sum'', name @ ''_count'']"
proof -
  have "distinct (all_series (histogram_lines fmt name labels ks m))"
    unfolding histogram_lines_series by (rule concat_series_distinct) (use assms in \<open>auto intro: inj_on_subset\<close>)
  then show ?thesis by (auto simp: series_group_def histogram_lines_series histogram_series_def)
qed

lemma distinct_groups:
  "list_all2 series_group gs nss \<Longrightarrow> distinct (concat nss) \<Longrightarrow>
     distinct (all_series (concat gs)) \<and> fst ` set (all_series (concat gs)) \<subseteq> set (concat nss)"
proof (induction rule: list_all2_induct)
  case (Cons g gs ns nss)
  then have "distinct (all_series (concat gs))" "fst ` set (all_series (concat gs)) \<subseteq> set (concat nss)"
    "distinct (all_series g)" "fst ` set (all_series g) \<subseteq> set ns" "set ns \<inter> set (concat nss) = {}"
    by (simp_all add: series_group_def)
  then show ?case by auto
qed simp

lemma inj_labels:
  "inj (\<lambda>a. [(x, a)])" "inj (\<lambda>(a, b). [(x, a), (y, b)])" "inj (\<lambda>(a, b, c). [(x, a), (y, b), (z, c)])"
  by (auto simp: inj_def)

lemma writePrometheus_distinct:
  assumes "keys_of ks m"
  shows "distinct (all_series (writePrometheus fmt ks m))"
proof -
  let ?http = "''rebff_http_request_duration_seconds''"
  let ?out = "''rebff_outbound_request_duration_seconds''"
  let ?names = "[[''rebff_http_requests_total''], [?http @ ''_bucket'', ?http @ ''_sum'', ?http @ ''_count''],
     [''rebff_auth_attempts_total''], [''rebff_authorization_decisions_total''], [''rebff_outbound_requests_total''],
     [''rebff_http_rejected_total''], [''rebff_outbound_rejected_total''], [''rebff_http_inflight_requests''],
     [?out @ ''_bucket'', ?out @ ''_sum'', ?out @ ''_count'']]"
  show ?thesis
    unfolding writePrometheus_def
  proof (rule distinct_groups [where nss = ?names, THEN conjunct1])
    show "distinct (concat ?names)" by code_simp
  qed (intro list.rel_intros series_group_counter series_group_histogram inj_labels,
      use assms in \<open>auto simp: keys_of_def ranges_over_def series_group_def\<close>)
qed

text \<open>Every series has the labels of its name.\<close>

definition labelled :: "line list \<Rightarrow> bool" where
  "labelled g \<longleftrightarrow> (\<forall>(n, ls) \<in> set (all_series g). map_of series_labels n = Some (map fst ls))"

lemma labelled_concat: "list_all labelled gs \<Longrightarrow> labelled (concat gs)"
  by (induction gs) (auto simp: labelled_def)

lemma labelled_counter:
  "map_of series_labels name = Some keys \<Longrightarrow> (\<And>k. map fst (labels k) = keys) \<Longrightarrow> labelled (counter_lines name labels ks m)"
  by (auto simp: labelled_def counter_series)

lemma labelled_histogram:
  "map_of series_labels (name @ ''_bucket'') = Some (keys @ [''le'']) \<Longrightarrow> map_of series_labels (name @ ''_sum'') = Some keys \<Longrightarrow>
   map_of series_labels (name @ ''_count'') = Some keys \<Longrightarrow> (\<And>k. map fst (labels k) = keys) \<Longrightarrow>
   labelled (histogram_lines fmt name labels ks m)"
  by (auto simp: labelled_def histogram_lines_series histogram_series_def)

lemma writePrometheus_labelled: "labelled (writePrometheus fmt ks m)"
  unfolding writePrometheus_def
proof (rule labelled_concat, simp only: list.pred_inject, intro conjI TrueI)
  show "labelled (counter_lines ''rebff_http_requests_total'' (\<lambda>(a, b, c). [(''method'', a), (''route'', b), (''status_class'', c)]) js v)" for js v
    by (rule labelled_counter [where keys = "[''method'', ''route'', ''status_class'']"]) (code_simp, auto)
  show "labelled (histogram_lines fmt ''rebff_http_request_duration_seconds'' (\<lambda>(a, b). [(''method'', a), (''route'', b)]) js v)" for js v
    by (rule labelled_histogram [where keys = "[''method'', ''route'']"]) (code_simp, code_simp, code_simp, auto)
  show "labelled (counter_lines ''rebff_auth_attempts_total'' (\<lambda>a. [(''outcome'', a)]) js v)" for js v
    by (rule labelled_counter [where keys = "[''outcome'']"]) (code_simp, auto)
  show "labelled (counter_lines ''rebff_authorization_decisions_total'' (\<lambda>(a, b). [(''outcome'', a), (''permission'', b)]) js v)" for js v
    by (rule labelled_counter [where keys = "[''outcome'', ''permission'']"]) (code_simp, auto)
  show "labelled (counter_lines ''rebff_outbound_requests_total'' (\<lambda>(a, b, c). [(''service'', a), (''method'', b), (''outcome'', c)]) js v)" for js v
    by (rule labelled_counter [where keys = "[''service'', ''method'', ''outcome'']"]) (code_simp, auto)
  show "labelled (counter_lines ''rebff_http_rejected_total'' (\<lambda>a. [(''reason'', a)]) js v)" for js v
    by (rule labelled_counter [where keys = "[''reason'']"]) (code_simp, auto)
  show "labelled (counter_lines ''rebff_outbound_rejected_total'' (\<lambda>(a, b). [(''service'', a), (''reason'', b)]) js v)" for js v
    by (rule labelled_counter [where keys = "[''service'', ''reason'']"]) (code_simp, auto)
  show "labelled [TypeLine ''rebff_http_inflight_requests'' ''gauge'', SampleLine ''rebff_http_inflight_requests'' [] v]" for v
  proof -
    have "map_of series_labels ''rebff_http_inflight_requests'' = Some []" by code_simp
    then show ?thesis by (simp add: labelled_def)
  qed
  show "labelled (histogram_lines fmt ''rebff_outbound_request_duration_seconds'' (\<lambda>(a, b). [(''service'', a), (''method'', b)]) js v)" for js v
    by (rule labelled_histogram [where keys = "[''service'', ''method'']"]) (code_simp, code_simp, code_simp, auto)
qed

lemma writePrometheus_labels:
  "(n, ls) \<in> set (all_series (writePrometheus fmt ks m)) \<Longrightarrow> map_of series_labels n = Some (map fst ls)"
  using writePrometheus_labelled [of fmt ks m] by (auto simp: labelled_def)

lemma writePrometheus_text_inj:
  "inj_on (\<lambda>(n, ls). series_text n ls) (set (all_series (writePrometheus fmt ks m)))"
proof (rule inj_onI)
  fix x y assume xy: "x \<in> set (all_series (writePrometheus fmt ks m))" "y \<in> set (all_series (writePrometheus fmt ks m))"
    "(\<lambda>(n, ls). series_text n ls) x = (\<lambda>(n, ls). series_text n ls) y"
  obtain n ls n' ls' where e: "x = (n, ls)" "y = (n', ls')" by fastforce
  have l: "map_of series_labels n = Some (map fst ls)" "map_of series_labels n' = Some (map fst ls')"
    using writePrometheus_labels xy(1,2) e by blast+
  then have "CHR ''{'' \<notin> set n" "CHR ''{'' \<notin> set n'"
    using series_labels_names(2) by (auto simp: list_all_iff dest!: map_of_SomeD)
  moreover have "map fst ls = map fst ls'" if "n = n'" using l that by simp
  ultimately show "x = y" using series_text_inj [of n ls n' ls'] xy(3) e by auto
qed

subsection \<open>Lines\<close>

lemma Quote_no_newline: "CHR 0x0A \<notin> set (Quote s)"
  using quote_char_hd(3) by (auto simp: Quote_def)

lemma labels_text_no_newline:
  "list_all (\<lambda>l. CHR 0x0A \<notin> set (fst l)) ls \<Longrightarrow> CHR 0x0A \<notin> set (labels_text ls)"
  by (induction ls rule: labels_text.induct) (auto simp: label_text_def Quote_no_newline)

lemma counter_text_no_newline: "CHR 0x0A \<notin> set (Itoa n)" "CHR 0x0A \<notin> set (counter_text k)"
proof -
  have "\<not> is_digit_char CHR 0x0A" by code_simp
  with nat_digits_all have "CHR 0x0A \<notin> set (nat_digits n)" for n by blast
  then show i: "CHR 0x0A \<notin> set (Itoa n)" for n by (auto simp: Itoa_def)
  then show "CHR 0x0A \<notin> set (counter_text k)" by (simp add: counter_text_def)
qed

text \<open>The parts of a line that are no labels have no line break.\<close>

fun plain :: "line \<Rightarrow> bool" where
  "plain (TypeLine name kind) \<longleftrightarrow> CHR 0x0A \<notin> set name \<and> CHR 0x0A \<notin> set kind"
| "plain (SampleLine name ls v) \<longleftrightarrow> CHR 0x0A \<notin> set v"

lemma plain_counter: "CHR 0x0A \<notin> set name \<Longrightarrow> list_all plain (counter_lines name labels ks m)"
  by (simp add: counter_lines_def list_all_iff counter_text_no_newline)

lemma plain_histogram:
  assumes "CHR 0x0A \<notin> set name" "\<And>d. CHR 0x0A \<notin> set (fmt d)"
  shows "list_all plain (histogram_lines fmt name labels ks m)"
proof -
  have "list_all plain (map2 (\<lambda>b n. SampleLine nm (ls b) (counter_text n)) bs ns)" for nm ls bs ns
    by (induction bs ns rule: list_induct2') (simp_all add: counter_text_no_newline)
  then have "list_all plain (writeHistogram fmt name ls h)" for ls h
    by (simp add: writeHistogram_def counter_text_no_newline assms(2))
  then show ?thesis using assms(1) by (induction ks) (simp_all add: histogram_lines_def)
qed

lemma writePrometheus_plain:
  assumes "\<And>d. CHR 0x0A \<notin> set (fmt d)"
  shows "list_all plain (writePrometheus fmt ks m)"
  unfolding writePrometheus_def
  by (simp add: plain_counter plain_histogram assms counter_text_no_newline)

lemma series_labels_plain: "list_all (\<lambda>p. CHR 0x0A \<notin> set (fst p) \<and> list_all (\<lambda>k. CHR 0x0A \<notin> set k) (snd p)) series_labels"
  by code_simp

lemma sample_one_line:
  assumes "map_of series_labels n = Some (map fst ls)" "CHR 0x0A \<notin> set v"
  shows "CHR 0x0A \<notin> set (series_text n ls @ '' '' @ v)"
proof -
  have "(n, map fst ls) \<in> set series_labels" using assms(1) by (rule map_of_SomeD)
  with series_labels_plain have "CHR 0x0A \<notin> set n" "list_all (\<lambda>k. CHR 0x0A \<notin> set k) (map fst ls)"
    by (auto simp: list_all_iff)
  with labels_text_no_newline [of ls] assms(2) show ?thesis by (auto simp: series_text_def list_all_iff)
qed

lemma series_of_sample: "SampleLine n ls v \<in> set lines \<Longrightarrow> (n, ls) \<in> set (all_series lines)"
  by (force simp: all_series_def)

lemma writePrometheus_one_line:
  assumes "\<And>d. CHR 0x0A \<notin> set (fmt d)" "l \<in> set (writePrometheus fmt ks m)"
  shows "\<exists>t. line_text l = t @ [CHR 0x0A] \<and> CHR 0x0A \<notin> set t"
proof -
  have p: "plain l" using writePrometheus_plain [OF assms(1)] assms(2) by (auto simp: list_all_iff)
  show ?thesis
  proof (cases l)
    case (TypeLine n k)
    with p show ?thesis by (intro exI [of _ "''# TYPE '' @ n @ '' '' @ k"]) simp
  next
    case (SampleLine n ls v)
    with assms(2) have "map_of series_labels n = Some (map fst ls)"
      by (intro writePrometheus_labels series_of_sample) simp
    from sample_one_line [OF this, of v] p SampleLine show ?thesis
      by (intro exI [of _ "series_text n ls @ '' '' @ v"]) simp
  qed
qed

section \<open>Properties\<close>

text \<open>
  C20. Nothing that a client sends can forge a metric: whatever the methods, routes, services and outcomes that were
  recorded, each line of the exposition is one line, no two lines are samples of the same series, and the line of a
  counter has the value that was counted.
\<close>

theorem metrics_unforgeable:
  assumes "keys_of ks m" "\<And>d. CHR 0x0A \<notin> set (fmt d)"
  shows "distinct (map (\<lambda>(n, ls). series_text n ls) (all_series (writePrometheus fmt ks m))) \<and>
    (\<forall>l \<in> set (writePrometheus fmt ks m). \<exists>t. line_text l = t @ [CHR 0x0A] \<and> CHR 0x0A \<notin> set t) \<and>
    (\<forall>a b c n. mx_httpRequests m (a, b, c) = Some n \<longrightarrow>
       SampleLine ''rebff_http_requests_total'' [(''method'', a), (''route'', b), (''status_class'', c)] (counter_text n)
         \<in> set (writePrometheus fmt ks m))"
proof (intro conjI ballI allI impI)
  show "distinct (map (\<lambda>(n, ls). series_text n ls) (all_series (writePrometheus fmt ks m)))"
    by (simp add: distinct_map writePrometheus_distinct [OF assms(1)] writePrometheus_text_inj)
  show "\<exists>t. line_text l = t @ [CHR 0x0A] \<and> CHR 0x0A \<notin> set t" if "l \<in> set (writePrometheus fmt ks m)" for l
    by (rule writePrometheus_one_line [OF assms(2) that])
  fix a b c n assume n: "mx_httpRequests m (a, b, c) = Some n"
  with assms(1) have "(a, b, c) \<in> set (mk_httpRequests ks)" "counter (mx_httpRequests m) (a, b, c) = n"
    by (auto simp: keys_of_def ranges_over_def counter_def)
  then have "SampleLine ''rebff_http_requests_total'' [(''method'', a), (''route'', b), (''status_class'', c)] (counter_text n)
      \<in> set (counter_lines ''rebff_http_requests_total'' (\<lambda>(a, b, c). [(''method'', a), (''route'', b), (''status_class'', c)])
          (sortedHTTPKeys (mk_httpRequests ks)) (mx_httpRequests m))"
    unfolding counter_lines_def by (intro list.set_intros(2)) (auto intro: image_eqI [where x = "(a, b, c)"])
  then show "SampleLine ''rebff_http_requests_total'' [(''method'', a), (''route'', b), (''status_class'', c)] (counter_text n)
      \<in> set (writePrometheus fmt ks m)"
    by (simp only: writePrometheus_def concat.simps set_append Un_iff simp_thms)
qed

text \<open>A registry with a method and an outcome that try to end their line.\<close>

definition demo_metrics :: metrics where
  "demo_metrics = NewMetrics\<lparr>mx_httpRequests := [([CHR 0x22, CHR 0x0A], ''/a'', ''2xx'') \<mapsto> 3], mx_authAttempts := [[CHR 0x0A] \<mapsto> 1]\<rparr>"

definition demo_keys :: metric_keys where
  "demo_keys =
     \<lparr>mk_httpRequests = [([CHR 0x22, CHR 0x0A], ''/a'', ''2xx'')], mk_httpDuration = [], mk_authAttempts = [[CHR 0x0A]],
      mk_decisions = [], mk_outRequests = [], mk_outDuration = [], mk_rejected = [], mk_outRejected = []\<rparr>"

theorem metrics_unforgeable_witness:
  "keys_of demo_keys demo_metrics \<and>
   SampleLine ''rebff_http_requests_total'' [(''method'', [CHR 0x22, CHR 0x0A]), (''route'', ''/a''), (''status_class'', ''2xx'')]
     (counter_text 3) \<in> set (writePrometheus (\<lambda>d. ''0'') demo_keys demo_metrics)"
proof -
  have k: "keys_of demo_keys demo_metrics"
    by (simp add: keys_of_def ranges_over_def demo_keys_def demo_metrics_def NewMetrics_def)
  from metrics_unforgeable [OF k, of "\<lambda>d. ''0''"]
  have "mx_httpRequests demo_metrics ([CHR 0x22, CHR 0x0A], ''/a'', ''2xx'') = Some 3 \<longrightarrow>
     SampleLine ''rebff_http_requests_total'' [(''method'', [CHR 0x22, CHR 0x0A]), (''route'', ''/a''), (''status_class'', ''2xx'')]
       (counter_text 3) \<in> set (writePrometheus (\<lambda>d. ''0'') demo_keys demo_metrics)" by simp
  moreover have "mx_httpRequests demo_metrics ([CHR 0x22, CHR 0x0A], ''/a'', ''2xx'') = Some 3" by (simp add: demo_metrics_def)
  ultimately show ?thesis using k by blast
qed

end
