(* ===== verification/Router.thy ===== *)
theory Router
  imports Gateway Chain MetricsText ServeMux
begin

text \<open>
  The routes of the gateway (\<^verbatim>\<open>internal/httpx/router.go\<close>, \<^verbatim>\<open>system_routes.go\<close>, and the registration in
  \<^verbatim>\<open>auth/http.go\<close>), up to the whole handler that the server runs. The theorem says that the routes of the gateway with the
  example application are unambiguous, so that no registration panics and the first match is the only one.
\<close>

section \<open>Definitions\<close>

definition RegisterSystemRoutes ::
  "('w \<Rightarrow> 'w \<times> goerr option) option \<Rightarrow> 'w handler option \<Rightarrow> (string \<times> 'w handler) list" where
  "RegisterSystemRoutes ready metrics0 =
     [(''GET /health/live'', handle_live), (''GET /health/ready'', handle_ready ready)] @
     (case metrics0 of None \<Rightarrow> [] | Some h \<Rightarrow> [(''GET /metrics'', h)])"

definition auth_Register ::
  "(string \<Rightarrow> nat list) \<Rightarrow> 'z world_scheme auth_handler \<Rightarrow> (string \<times> 'z world_scheme handler) list" where
  "auth_Register sha256 h =
     [(''GET /auth/login'', handle_login sha256 h), (''GET /auth/callback'', handle_callback h),
      (''POST /auth/logout'', handle_logout h), (''GET /api/me'', handle_me h)]"

text \<open>All routes; \<open>metrics_handler\<close> is the exposition of the registry, where there is one.\<close>

definition gateway_routes ::
  "(string \<Rightarrow> nat list) \<Rightarrow> 'z front_world_scheme handler \<Rightarrow> ('z front_world_scheme, 'net) gateway
   \<Rightarrow> (string \<times> 'z front_world_scheme handler) list" where
  "gateway_routes sha256 metrics_handler g =
     (let sys = RegisterSystemRoutes (gw_Readiness g) (case gw_Metrics g of None \<Rightarrow> None | Some _ \<Rightarrow> Some metrics_handler)
                @ auth_Register sha256 (gw_Auth g)
      in case gw_Routes g of None \<Rightarrow> sys | Some rt \<Rightarrow> Router_Register rt sys)"

definition registry_handler ::
  "(duration \<Rightarrow> string) \<Rightarrow> ('z obs_world_scheme \<Rightarrow> metric_keys) \<Rightarrow> 'z obs_world_scheme handler" where
  "registry_handler fmt keys r w rw = (w, metrics_Handler fmt (keys w) (registry w) rw)"

text \<open>
  \<^verbatim>\<open>NewRouter\<close>: the routes below the base path, with the metrics inside and the other middleware outside. The metrics
  read the pattern that the multiplexer has stored in the request.
\<close>

definition NewRouter ::
  "string \<Rightarrow> ('z world_scheme, 'ip, 'net) router_deps \<Rightarrow> (string \<times> 'z world_scheme handler) list
   \<Rightarrow> 'z world_scheme handler" where
  "NewRouter basePath d routes =
     router_chain d (mount_at basePath (\<lambda>r. HTTPMetrics (rd_Metrics d) (mux_ServeHTTP (\<lambda>h. h) routes) (mux_request routes r)))"

section \<open>Lemmas\<close>

text \<open>Whether some path matches two patterns, decided on the patterns.\<close>

fun segments_overlap :: "string list \<Rightarrow> string list \<Rightarrow> bool" where
  "segments_overlap [] [] \<longleftrightarrow> True"
| "segments_overlap (p # ps) (q # qs) \<longleftrightarrow> (wildcard p \<noteq> None \<or> wildcard q \<noteq> None \<or> p = q) \<and> segments_overlap ps qs"
| "segments_overlap _ _ \<longleftrightarrow> False"

definition patterns_overlap :: "string \<Rightarrow> string \<Rightarrow> bool" where
  "patterns_overlap p q \<longleftrightarrow>
     (let m = pattern_method p; n = pattern_method q
      in (m = n \<or> m = ''GET'' \<and> n = ''HEAD'' \<or> m = ''HEAD'' \<and> n = ''GET'') \<and>
         segments_overlap (Split (pattern_path p) (CHR ''/'')) (Split (pattern_path q) (CHR ''/'')))"

text \<open>A route that serves a verb and a path.\<close>

definition match_route :: "string \<Rightarrow> string \<Rightarrow> string \<Rightarrow> (string \<times> string) list option" where
  "match_route pattern verb path =
     (if pattern_method pattern = verb \<or> pattern_method pattern = ''GET'' \<and> verb = ''HEAD''
      then match_path pattern path else None)"

fun unambiguous :: "string list \<Rightarrow> bool" where
  "unambiguous [] \<longleftrightarrow> True"
| "unambiguous (p # ps) \<longleftrightarrow> list_all (\<lambda>q. \<not> patterns_overlap p q) ps \<and> unambiguous ps"

lemma match_segments_overlap:
  "match_segments ps ss \<noteq> None \<Longrightarrow> match_segments qs ss \<noteq> None \<Longrightarrow> segments_overlap ps qs"
proof (induction ps ss arbitrary: qs rule: match_segments.induct)
  case (2 p ps s ss)
  then obtain q qs' where q: "qs = q # qs'" by (cases qs) auto
  with 2 show ?case by (auto split: option.splits if_splits)
next
  case 1
  then show ?case by (cases qs) auto
qed auto

lemma match_route_overlap:
  assumes "match_route p verb path \<noteq> None" "match_route q verb path \<noteq> None"
  shows "patterns_overlap p q"
  using assms match_segments_overlap
  by (auto simp: match_route_def match_path_def patterns_overlap_def Let_def split: if_splits)

lemma unambiguous_once:
  assumes "unambiguous (map fst routes)" "(p, h) \<in> set routes" "(q, k) \<in> set routes"
    and "match_route p verb path \<noteq> None" "match_route q verb path \<noteq> None"
  shows "p = q \<and> h = k"
  using assms
proof (induction routes)
  case (Cons x xs)
  have no: False if "(o', l) \<in> set xs" "match_route (fst x) verb path \<noteq> None" "match_route o' verb path \<noteq> None" for o' l
    using Cons.prems(1) that(1) match_route_overlap [OF that(2,3)] by (auto simp: list_all_iff)
  from Cons.prems Cons.IH no [of q k] no [of p h] show ?case by auto
qed simp

lemma mux_match_unambiguous:
  assumes "unambiguous (map fst routes)" "(p, h) \<in> set routes" "match_route p verb path = Some vs"
  shows "mux_match routes verb path = Some (p, vs, h)"
proof -
  have once: "q = p \<and> k = h \<and> us = vs" if "(q, k) \<in> set routes" "match_route q verb path = Some us" for q k us
    using unambiguous_once [OF assms(1,2) that(1), of verb path] assms(3) that(2) by auto
  have found: "m = (p, vs, h)" if "mux_find routes v path = Some m" "v = verb \<or> v = ''GET'' \<and> verb = ''HEAD''" for m v
    using mux_find_Some [of routes v path "fst m" "fst (snd m)" "snd (snd m)"] that once [of "fst m" "snd (snd m)" "fst (snd m)"]
    by (cases m) (auto simp: match_route_def)
  have m: "pattern_method p = verb \<or> pattern_method p = ''GET'' \<and> verb = ''HEAD''" "match_path p path = Some vs"
    using assms(3) by (auto simp: match_route_def split: if_splits)
  with mux_find_None [OF _ assms(2) refl, of path] obtain m where "mux_find routes (pattern_method p) path = Some m"
    by (cases "mux_find routes (pattern_method p) path") auto
  with found m(1) have p: "mux_find routes (pattern_method p) path = Some (p, vs, h)" by blast
  show ?thesis
  proof (cases "mux_find routes verb path")
    case None
    with p m(1) show ?thesis by (auto simp: mux_match_def)
  next
    case (Some n)
    with found [of verb n] show ?thesis by (simp add: mux_match_def)
  qed
qed

lemma gateway_routes_built:
  assumes "gateway_start gl (Some f) cfg w = (w', Inr g)"
  shows "\<exists>rt. gw_Routes g = Some rt \<and> f (gw_Deps g) = Inr rt"
  using assms by (auto simp: gateway_start_def split: if_splits sum.splits prod.splits option.splits)

lemma portal_patterns:
  "portal_Register lib codec env g1 g2 ctx body r = Inr r' \<Longrightarrow>
     map rt_pattern (ro_routes r') = map rt_pattern (ro_routes r) @
       [''GET /api/assets/{id}'', ''POST /api/assets/{id}/attachments/upload-url'']"
  by (auto simp: portal_Register_def and_then_Inr Router_Handle_def)

definition system_patterns :: "bool \<Rightarrow> string list" where
  "system_patterns metrics0 =
     [''GET /health/live'', ''GET /health/ready''] @ (if metrics0 then [''GET /metrics''] else []) @
     [''GET /auth/login'', ''GET /auth/callback'', ''POST /auth/logout'', ''GET /api/me'']"

lemma gateway_patterns:
  "map fst (gateway_routes sha256 mh g) =
     system_patterns (gw_Metrics g \<noteq> None) @ (case gw_Routes g of None \<Rightarrow> [] | Some rt \<Rightarrow> map rt_pattern (ro_routes rt))"
  by (auto simp: gateway_routes_def RegisterSystemRoutes_def auth_Register_def Router_Register_def system_patterns_def Let_def
      split: option.splits)

lemma portal_unambiguous:
  "unambiguous (system_patterns b @ [''GET /api/assets/{id}'', ''POST /api/assets/{id}/attachments/upload-url''])"
proof -
  have "unambiguous (system_patterns True @ [''GET /api/assets/{id}'', ''POST /api/assets/{id}/attachments/upload-url''])"
    "unambiguous (system_patterns False @ [''GET /api/assets/{id}'', ''POST /api/assets/{id}/attachments/upload-url''])"
    by code_simp+
  then show ?thesis by (cases b) (simp_all only:)
qed

section \<open>Properties\<close>

text \<open>
  C39. No route of the gateway hides another: with the example application registered, every request whose path is clean
  is served by the one route that matches its verb and path, with the values of its wildcards, whatever the order of
  registration.
\<close>

theorem routes_not_shadowed:
  assumes "gateway_start gl (Some (build_app_routes (Some (portal_Register lib codec env g1 g2 ctx body)))) cfg w = (w', Inr g)"
    and "(p, h) \<in> set (gateway_routes sha256 mh g)"
    and "match_route p (rq_Method r) (EscapedPath (rq_URL r)) = Some vs" "mux_path r = EscapedPath (rq_URL r)"
  shows "findHandler (gateway_routes sha256 mh g) r = MuxServe p vs h"
proof -
  from gateway_routes_built [OF assms(1)] obtain rt where rt: "gw_Routes g = Some rt"
    "portal_Register lib codec env g1 g2 ctx body \<lparr>ro_deps = gw_Deps g, ro_routes = []\<rparr> = Inr rt"
    by (auto simp: build_app_routes_def)
  from portal_patterns [OF rt(2)] rt(1) portal_unambiguous have "unambiguous (map fst (gateway_routes sha256 mh g))"
    by (simp add: gateway_patterns)
  from mux_match_unambiguous [OF this assms(2,3)] assms(4) show ?thesis by (simp add: findHandler_def)
qed

definition demo_portal_lib :: "front_world start_lib" where
  "demo_portal_lib = \<lparr>st_dial = (\<lambda>_ _ w _. (w, Inl (ExternalError ''connection refused''))), st_wait = (\<lambda>w _. w),
     st_signer = st_signer demo_start, st_policy = st_policy demo_start,
     st_discover = (\<lambda>w _. (w, Inl (ExternalError ''no route to host'')))\<rparr>"

definition demo_portal_codec :: portal_codec where
  "demo_portal_codec = \<lparr>pk_asset = (\<lambda>_. Inl (ExternalError ''json'')), pk_upload = (\<lambda>_. Inr ''{}''),
     pk_uploaded = (\<lambda>_. Inl (ExternalError ''json''))\<rparr>"

abbreviation demo_portal :: "front_world core_router \<Rightarrow> front_world core_router result" where
  "demo_portal \<equiv> portal_Register demo_portal_lib demo_portal_codec Map.empty
     (\<lambda>w. \<lparr>gu_breaker = new_breaker, gu_inuse = 0\<rparr>, \<lambda>s w. w) (\<lambda>w. \<lparr>gu_breaker = new_breaker, gu_inuse = 0\<rparr>, \<lambda>s w. w)
     (\<lambda>r. demo_api_context) (\<lambda>r. Inl (ExternalError ''json''))"

lemma demo_portal_start:
  "\<exists>g. gateway_start demo_gateway_lib (Some (build_app_routes (Some demo_portal))) demo_gateway_config demo_front = (demo_front, Inr g)"
proof -
  have u: "url_Parse ''https://gw.example'' =
      Some (empty_url\<lparr>u_Scheme := ''https'', u_Host := ''gw.example''\<rparr>)"
    "TrimRight ''https://gw.example'' (CHR ''/'') = ''https://gw.example''" by code_simp+
  have "absolute_url ''http://127.0.0.1:19001''" "absolute_url ''http://127.0.0.1:19002''" "TrimSpace '''' = ''''" by code_simp+
  then have "\<exists>rt. demo_portal r = Inr rt" for r
    using outbound_New_ok [of "''http://127.0.0.1:19001''" demo_portal_lib "3 * Second"]
      outbound_New_ok [of "''http://127.0.0.1:19002''" demo_portal_lib "3 * Second"]
    by (auto simp: portal_Register_def service_url_def NewJSONClient_def portal_options_def)
  then have "\<exists>rt. build_app_routes (Some demo_portal) deps = Inr rt" for deps by (simp add: build_app_routes_def)
  then obtain rt where "build_app_routes (Some demo_portal) (gateway_deps demo_gateway_lib demo_gateway_config
      (memory_backend demo_gateway_lib) None (empty_url\<lparr>u_Scheme := ''https'', u_Host := ''gw.example''\<rparr>)) = Inr rt" ..
  then show ?thesis
    by (simp add: gateway_start_def start_provider_def open_backend_def PublicEndpoint_def u Let_def demo_gateway_config_def)
qed

theorem routes_not_shadowed_witness:
  "\<exists>g h. gateway_start demo_gateway_lib (Some (build_app_routes (Some demo_portal))) demo_gateway_config demo_front = (demo_front, Inr g) \<and>
     findHandler (gateway_routes (\<lambda>s. []) handle_live g) demo_login_request = MuxServe ''GET /auth/login'' [] h"
proof -
  obtain g where g: "gateway_start demo_gateway_lib (Some (build_app_routes (Some demo_portal))) demo_gateway_config demo_front =
      (demo_front, Inr g)" using demo_portal_start by blast
  have "''GET /auth/login'' \<in> fst ` set (gateway_routes (\<lambda>s. []) handle_live g)"
    using gateway_patterns [of "\<lambda>s. []" handle_live g] by (simp add: set_map [symmetric] system_patterns_def del: set_map)
  then obtain h where h: "(''GET /auth/login'', h) \<in> set (gateway_routes (\<lambda>s. []) handle_live g)" by auto
  have "match_route ''GET /auth/login'' (rq_Method demo_login_request) (EscapedPath (rq_URL demo_login_request)) = Some []"
    "mux_path demo_login_request = EscapedPath (rq_URL demo_login_request)" by code_simp+
  from routes_not_shadowed [OF g h this] g show ?thesis by blast
qed

end
