(* ===== verification/Lifecycle.thy ===== *)
theory Lifecycle
  imports Router "HOL-Library.Multiset"
begin

text \<open>
  The life of a process after its parts are built (the end of \<^verbatim>\<open>app.RunWith\<close> and of \<^verbatim>\<open>roleruntime.Run\<close>): the server with
  its limits, the goroutine that listens, the channels of its error and of signals, and the main goroutine that selects
  between them and shuts the server down. Of \<^verbatim>\<open>http.Server\<close> there is what \<^verbatim>\<open>ListenAndServe\<close> and \<^verbatim>\<open>Shutdown\<close> document: no
  connection is accepted once the listener is closed, connections that serve a request are waited for, idle ones are
  closed. A handler runs at the step that ends its request. The theorem says what has happened when a process returns.
\<close>

section \<open>Definitions\<close>

subsection \<open>The start\<close>

text \<open>
  \<^verbatim>\<open>RunWith\<close> up to its server: a process without the role \<^verbatim>\<open>rebff\<close> is a role runtime, one with it the gateway. The
  application of \<^verbatim>\<open>core.Run\<close> is what builds the routes.
\<close>

datatype ('w, 'net) program = RoleProgram "'w role_config" | GatewayProgram "('w, 'net) gateway"

definition RunWith ::
  "('z front_world_scheme, 'ip, 'net) gateway_lib \<Rightarrow> 'z front_world_scheme start_lib \<Rightarrow> config_lib
   \<Rightarrow> ('z front_world_scheme route_deps \<Rightarrow> 'z front_world_scheme core_router result) option \<Rightarrow> (string \<rightharpoonup> string)
   \<Rightarrow> 'z front_world_scheme \<Rightarrow> 'z front_world_scheme \<times> (config \<times> ('z front_world_scheme, 'net) program) result" where
  "RunWith gl lib clib build env w =
     (case LoadConfig clib env of
        Inl e \<Rightarrow> (w, Inl (ErrWrapped ''load config'' e))
      | Inr cfg \<Rightarrow>
          if \<not> HasRole (cfg_Runtime cfg) RoleREBFF
          then (case role_runtime_config lib cfg w of
              (w1, Inl e) \<Rightarrow> (w1, Inl e)
            | (w1, Inr rc) \<Rightarrow> (w1, Inr (cfg, RoleProgram rc)))
          else (case gateway_start gl build cfg w of
              (w1, Inl e) \<Rightarrow> (w1, Inl e)
            | (w1, Inr g) \<Rightarrow> (w1, Inr (cfg, GatewayProgram g))))"

definition core_Run where
  "core_Run gl lib clib application env w = RunWith gl lib clib (Some (build_app_routes application)) env w"

subsection \<open>The server\<close>

record 'w http_server =
  hs_Addr :: string
  hs_Handler :: "'w handler"
  hs_ReadHeaderTimeout :: duration
  hs_ReadTimeout :: duration
  hs_WriteTimeout :: duration
  hs_IdleTimeout :: duration
  hs_MaxHeaderBytes :: int

definition gateway_server :: "config \<Rightarrow> 'w handler \<Rightarrow> 'w http_server" where
  "gateway_server cfg h =
     \<lparr>hs_Addr = ht_Addr (cfg_HTTP cfg), hs_Handler = h, hs_ReadHeaderTimeout = 5 * Second, hs_ReadTimeout = 15 * Second,
      hs_WriteTimeout = 30 * Second, hs_IdleTimeout = 60 * Second, hs_MaxHeaderBytes = 2 ^ 20\<rparr>"

definition role_server :: "string \<Rightarrow> 'w handler \<Rightarrow> 'w http_server" where
  "role_server addr h =
     \<lparr>hs_Addr = addr, hs_Handler = h, hs_ReadHeaderTimeout = 5 * Second, hs_ReadTimeout = 15 * Second,
      hs_WriteTimeout = 30 * Second, hs_IdleTimeout = 60 * Second, hs_MaxHeaderBytes = 2 ^ 20\<rparr>"

subsection \<open>The lines that a start logs\<close>

datatype log_value = LString string | LBool bool | LStrings "string list" | LCapabilities "role \<rightharpoonup> string list"

type_synonym log_line = "string \<times> (string \<times> log_value) list"

definition gateway_listening :: "config \<Rightarrow> log_line" where
  "gateway_listening cfg =
     (''bff listening'',
      [(''addr'', LString (ht_Addr (cfg_HTTP cfg))), (''base_path'', LString (NormalizedBasePath (cfg_HTTP cfg))),
       (''public_url'', LString (ht_PublicURL (cfg_HTTP cfg))), (''oidc_configured'', LBool (oi_Issuer (cfg_OIDC cfg) \<noteq> '''')),
       (''store_backend'', LString (sto_Backend (cfg_Store cfg))), (''policy_provider'', LString (pol_Provider (cfg_Policy cfg))),
       (''metrics_enabled'', LBool (tl_MetricsEnabled (cfg_Telemetry cfg))),
       (''audit_enabled'', LBool (tl_AuditEnabled (cfg_Telemetry cfg))),
       (''access_log_enabled'', LBool (tl_AccessLogEnabled (cfg_Telemetry cfg))),
       (''trace_enabled'', LBool (tl_TraceEnabled (cfg_Telemetry cfg))),
       (''runtime_roles'', LStrings (RoleNames (cfg_Runtime cfg))),
       (''runtime_capabilities'', LCapabilities (Capabilities (cfg_Runtime cfg)))])"

definition role_listening :: "string \<Rightarrow> 'w role_config \<Rightarrow> log_line" where
  "role_listening addr rc =
     (''gateway runtime listening'',
      [(''addr'', LString addr), (''roles'', LStrings (RoleNames (rc_Selection rc))),
       (''capabilities'', LCapabilities (Capabilities (rc_Selection rc))),
       (''storage_signer_configured'', LBool (rc_StorageSigner rc \<noteq> None))])"

definition shutdown_requested :: "string \<Rightarrow> log_line list" where
  "shutdown_requested sig = [(''shutdown requested'', [(''signal'', LString sig)])]"

subsection \<open>The process\<close>

text \<open>What \<^verbatim>\<open>ListenAndServe\<close> returns, how far the listening goroutine is, and the main goroutine.\<close>

datatype listen_error = ErrServerClosed | ListenError goerr

datatype listener = Unstarted | Starting | Accepting | Stopped

datatype main_state = Selecting | ShuttingDown time | Returned "goerr option"

text \<open>
  The channels have one place each. \<open>ps_Active\<close> holds the requests that are being served, \<open>ps_Idle\<close> counts the kept
  connections without one; \<open>ps_Accepted\<close> and \<open>ps_Answered\<close> are the history.
\<close>

record 'w process =
  ps_World :: 'w
  ps_Listener :: listener
  ps_ErrCh :: "listen_error option"
  ps_SigCh :: "string option"
  ps_Main :: main_state
  ps_Active :: "request multiset"
  ps_Idle :: nat
  ps_Accepted :: "request multiset"
  ps_Answered :: "(request \<times> response_writer) list"
  ps_Log :: "log_line list"

definition start_process :: "'w \<Rightarrow> 'w process" where
  "start_process w =
     \<lparr>ps_World = w, ps_Listener = Unstarted, ps_ErrCh = None, ps_SigCh = None, ps_Main = Selecting, ps_Active = {#},
      ps_Idle = 0, ps_Accepted = {#}, ps_Answered = [], ps_Log = []\<rparr>"

definition main_running :: "'w process \<Rightarrow> bool" where
  "main_running p \<longleftrightarrow> (case ps_Main p of Returned _ \<Rightarrow> False | _ \<Rightarrow> True)"

text \<open>The branch of the select for the error of the server.\<close>

definition server_result :: "listen_error \<Rightarrow> goerr option" where
  "server_result e = (case e of ErrServerClosed \<Rightarrow> None | ListenError err \<Rightarrow> Some (ErrWrapped ''http server'' err))"

text \<open>
  Returning runs the deferred calls: \<open>close\<close> is the one that closes the store, where there is one. \<open>lnerr\<close> is the error of
  closing the listener, which \<^verbatim>\<open>Shutdown\<close> returns when all connections are done.
\<close>

definition return_main :: "('w \<Rightarrow> 'w) \<Rightarrow> goerr option \<Rightarrow> 'w process \<Rightarrow> 'w process" where
  "return_main close res p = p\<lparr>ps_Main := Returned res, ps_World := close (ps_World p)\<rparr>"

definition take_request :: "request \<Rightarrow> 'w process \<Rightarrow> 'w process" where
  "take_request r p = p\<lparr>ps_Active := add_mset r (ps_Active p), ps_Accepted := add_mset r (ps_Accepted p)\<rparr>"

definition answer_request :: "'w http_server \<Rightarrow> request \<Rightarrow> 'w process \<Rightarrow> 'w process" where
  "answer_request srv r p =
     (case hs_Handler srv r (ps_World p) new_response of (w, rw) \<Rightarrow>
        p\<lparr>ps_World := w, ps_Active := ps_Active p - {#r#}, ps_Answered := (r, rw) # ps_Answered p\<rparr>)"

text \<open>\<^verbatim>\<open>Shutdown\<close> with a context of ten seconds: it closes the listener, and the listening goroutine returns.\<close>

definition begin_shutdown :: "'z world_scheme process \<Rightarrow> 'z world_scheme process" where
  "begin_shutdown p =
     (case Now (ps_World p) of (now, w) \<Rightarrow>
        p\<lparr>ps_World := w, ps_SigCh := None, ps_Main := ShuttingDown (Time_Add now (10 * Second)),
          ps_Listener := (if ps_Listener p = Accepting then Stopped else ps_Listener p),
          ps_ErrCh := (if ps_Listener p = Accepting then Some ErrServerClosed else ps_ErrCh p)\<rparr>)"

inductive run_step ::
  "'z world_scheme http_server \<Rightarrow> log_line \<Rightarrow> (string \<Rightarrow> log_line list) \<Rightarrow> ('z world_scheme \<Rightarrow> 'z world_scheme) \<Rightarrow> goerr option
   \<Rightarrow> 'z world_scheme process \<Rightarrow> 'z world_scheme process \<Rightarrow> bool" for srv line notice close lnerr where
  announce: "main_running p \<Longrightarrow> ps_Listener p = Unstarted \<Longrightarrow>
     run_step srv line notice close lnerr p (p\<lparr>ps_Listener := Starting, ps_Log := ps_Log p @ [line]\<rparr>)"
| bind: "ps_Main p = Selecting \<Longrightarrow> ps_Listener p = Starting \<Longrightarrow>
     run_step srv line notice close lnerr p (p\<lparr>ps_Listener := Accepting\<rparr>)"
| bind_late: "ps_Main p = ShuttingDown d \<Longrightarrow> ps_Listener p = Starting \<Longrightarrow>
     run_step srv line notice close lnerr p (p\<lparr>ps_Listener := Stopped, ps_ErrCh := Some ErrServerClosed\<rparr>)"
| listen_fails: "main_running p \<Longrightarrow> ps_Listener p = Starting \<or> ps_Listener p = Accepting \<Longrightarrow>
     run_step srv line notice close lnerr p (p\<lparr>ps_Listener := Stopped, ps_ErrCh := Some (ListenError e)\<rparr>)"
| arrive: "main_running p \<Longrightarrow> ps_Listener p = Accepting \<Longrightarrow> run_step srv line notice close lnerr p (take_request r p)"
| reuse: "main_running p \<Longrightarrow> 0 < ps_Idle p \<Longrightarrow>
     run_step srv line notice close lnerr p (take_request r (p\<lparr>ps_Idle := ps_Idle p - 1\<rparr>))"
| answer: "main_running p \<Longrightarrow> r \<in># ps_Active p \<Longrightarrow> run_step srv line notice close lnerr p (answer_request srv r p)"
| answer_keep: "ps_Main p = Selecting \<Longrightarrow> r \<in># ps_Active p \<Longrightarrow>
     run_step srv line notice close lnerr p ((answer_request srv r p)\<lparr>ps_Idle := Suc (ps_Idle p)\<rparr>)"
| hang_up: "main_running p \<Longrightarrow> 0 < ps_Idle p \<Longrightarrow> run_step srv line notice close lnerr p (p\<lparr>ps_Idle := ps_Idle p - 1\<rparr>)"
| tick: "main_running p \<Longrightarrow> run_step srv line notice close lnerr p (p\<lparr>ps_World := snd (Now (ps_World p))\<rparr>)"
| notify: "main_running p \<Longrightarrow> sig = ''interrupt'' \<or> sig = ''terminated'' \<Longrightarrow>
     run_step srv line notice close lnerr p (p\<lparr>ps_SigCh := (case ps_SigCh p of None \<Rightarrow> Some sig | Some s \<Rightarrow> Some s)\<rparr>)"
| on_signal: "ps_Main p = Selecting \<Longrightarrow> ps_SigCh p = Some sig \<Longrightarrow>
     run_step srv line notice close lnerr p ((begin_shutdown p)\<lparr>ps_Log := ps_Log p @ notice sig\<rparr>)"
| on_error: "ps_Main p = Selecting \<Longrightarrow> ps_ErrCh p = Some e \<Longrightarrow>
     run_step srv line notice close lnerr p (return_main close (server_result e) p)"
| drained: "ps_Main p = ShuttingDown d \<Longrightarrow> ps_Active p = {#} \<Longrightarrow>
     run_step srv line notice close lnerr p (return_main close lnerr (p\<lparr>ps_Idle := 0\<rparr>))"
| deadline: "ps_Main p = ShuttingDown d \<Longrightarrow> d \<le> cur (ps_World p) \<Longrightarrow>
     run_step srv line notice close lnerr p (return_main close (Some ContextDeadlineExceeded) p)"

text \<open>The process of \<^verbatim>\<open>RunWith\<close>, which logs the signal and closes its store, and that of \<^verbatim>\<open>roleruntime.Run\<close>.\<close>

definition gateway_step where
  "gateway_step cfg h close lnerr = run_step (gateway_server cfg h) (gateway_listening cfg) shutdown_requested close lnerr"

definition role_step where
  "role_step addr rc h lnerr = run_step (role_server addr h) (role_listening addr rc) (\<lambda>sig. []) (\<lambda>w. w) lnerr"

text \<open>\<^verbatim>\<open>main\<close>: \<^verbatim>\<open>log.Fatal\<close> ends the process with the status 1.\<close>

definition exit_status :: "goerr option \<Rightarrow> int" where
  "exit_status res = (case res of None \<Rightarrow> 0 | Some e \<Rightarrow> 1)"

section \<open>Lemmas\<close>

text \<open>What is started fits the selection of roles.\<close>

lemma RunWith_started:
  assumes "RunWith gl lib clib build env w = (w', Inr (cfg, prog))"
  shows "LoadConfig clib env = Inr cfg \<and>
    (case prog of
       RoleProgram rc \<Rightarrow> \<not> HasRole (cfg_Runtime cfg) RoleREBFF \<and> rc_Selection rc = cfg_Runtime cfg
     | GatewayProgram g \<Rightarrow> Roles (cfg_Runtime cfg) = [RoleREBFF])"
proof (cases prog)
  case (RoleProgram rc)
  with assms show ?thesis
    by (auto simp: RunWith_def role_runtime_config_def split: sum.splits if_splits prod.splits)
next
  case (GatewayProgram g)
  with assms have "LoadConfig clib env = Inr cfg" "HasRole (cfg_Runtime cfg) RoleREBFF" "length (Roles (cfg_Runtime cfg)) \<le> 1"
    by (auto simp: RunWith_def gateway_start_def split: sum.splits if_splits prod.splits)
  with GatewayProgram show ?thesis
    by (cases "Roles (cfg_Runtime cfg)") (auto simp: HasRole_def)
qed

text \<open>
  Every accepted request is being served or has been answered; while the main goroutine waits, the server has not been
  closed, and once it shuts down no connection is accepted.
\<close>

definition life_inv :: "'w process \<Rightarrow> bool" where
  "life_inv p \<longleftrightarrow>
     ps_Accepted p = mset (map fst (ps_Answered p)) + ps_Active p \<and>
     (case ps_Main p of
        Selecting \<Rightarrow> ps_ErrCh p \<noteq> Some ErrServerClosed
      | ShuttingDown d \<Rightarrow> ps_Listener p \<noteq> Accepting
      | Returned res \<Rightarrow> True)"

lemma life_inv_start: "life_inv (start_process w)"
  by (simp add: life_inv_def start_process_def)

lemmas process_defs = main_running_def return_main_def take_request_def answer_request_def begin_shutdown_def

lemma life_inv_step: "run_step srv line notice close lnerr p q \<Longrightarrow> life_inv p \<Longrightarrow> life_inv q"
  by (induction rule: run_step.induct)
    (auto simp: life_inv_def process_defs split: main_state.splits prod.splits)

lemma life_inv_reachable: "(run_step srv line notice close lnerr)\<^sup>*\<^sup>* (start_process w) p \<Longrightarrow> life_inv p"
  by (induction rule: rtranclp_induct) (auto simp: life_inv_start intro: life_inv_step)

text \<open>The last step of a process that has returned.\<close>

lemma returned_step:
  assumes "run_step srv line notice close lnerr p q" "ps_Main q = Returned res"
  obtains (error) e where "ps_Main p = Selecting" "ps_ErrCh p = Some e" "res = server_result e" "q = return_main close res p"
  | (drained) d where "ps_Main p = ShuttingDown d" "ps_Active p = {#}" "res = lnerr" "q = return_main close res (p\<lparr>ps_Idle := 0\<rparr>)"
  | (deadline) d where "ps_Main p = ShuttingDown d" "d \<le> cur (ps_World p)" "res = Some ContextDeadlineExceeded"
      "q = return_main close res p"
  using assms by (cases rule: run_step.cases) (auto simp: process_defs split: main_state.splits prod.splits)

text \<open>A shutdown ends: when the requests that are being served are answered, and in any case after the deadline.\<close>

lemma answer_request_simps [simp]:
  "ps_Main (answer_request srv r p) = ps_Main p" "ps_Active (answer_request srv r p) = ps_Active p - {#r#}"
  "ps_Accepted (answer_request srv r p) = ps_Accepted p"
  by (simp_all add: answer_request_def split: prod.split)

lemma return_main_simps [simp]:
  "ps_Main (return_main close res p) = Returned res" "ps_Accepted (return_main close res p) = ps_Accepted p"
  by (simp_all add: return_main_def)

lemma shutdown_returns:
  assumes "ps_Main p = ShuttingDown d"
  shows "\<exists>q. (run_step srv line notice close lnerr)\<^sup>*\<^sup>* p q \<and> ps_Main q = Returned lnerr \<and> ps_Accepted q = ps_Accepted p"
  using assms
proof (induction "size (ps_Active p)" arbitrary: p rule: less_induct)
  case less
  show ?case
  proof (cases "ps_Active p = {#}")
    case True
    with less.prems have "run_step srv line notice close lnerr p (return_main close lnerr (p\<lparr>ps_Idle := 0\<rparr>))" by (rule drained)
    then show ?thesis by (intro exI [of _ "return_main close lnerr (p\<lparr>ps_Idle := 0\<rparr>)"]) auto
  next
    case False
    then obtain r where r: "r \<in># ps_Active p" by auto
    with less.prems have "run_step srv line notice close lnerr p (answer_request srv r p)"
      by (intro answer) (simp add: main_running_def)
    moreover have "size (ps_Active (answer_request srv r p)) < size (ps_Active p)" using r by (simp add: size_Diff1_less)
    with less.hyps [of "answer_request srv r p"] less.prems obtain q where
      "(run_step srv line notice close lnerr)\<^sup>*\<^sup>* (answer_request srv r p) q" "ps_Main q = Returned lnerr"
      "ps_Accepted q = ps_Accepted p" by auto
    ultimately show ?thesis by (meson converse_rtranclp_into_rtranclp)
  qed
qed

section \<open>Properties\<close>

text \<open>
  C12. A process that returns without an error has served all that it took: under every interleaving of arriving requests,
  failures of the listener and signals, the gateway's process ends with status 0 only when every accepted request has
  been answered, before the store is closed, and nothing is accepted any more. With an error it ends only for a failed
  listener, for an error of closing it, or after the deadline of the shutdown.
\<close>

theorem graceful_shutdown:
  assumes "(gateway_step cfg h close lnerr)\<^sup>*\<^sup>* (start_process w) p" "ps_Main p = Returned res"
  shows "\<exists>q. (gateway_step cfg h close lnerr)\<^sup>*\<^sup>* (start_process w) q \<and> main_running q \<and>
    ps_World p = close (ps_World q) \<and> ps_Accepted p = ps_Accepted q \<and> ps_Answered p = ps_Answered q \<and>
    (if exit_status res = 0
     then ps_Accepted q = mset (map fst (ps_Answered q)) \<and> ps_Listener q \<noteq> Accepting
     else (\<exists>e. ps_ErrCh q = Some (ListenError e) \<and> res = Some (ErrWrapped ''http server'' e)) \<or> res = lnerr \<or>
       (\<exists>d. ps_Main q = ShuttingDown d \<and> d \<le> cur (ps_World q) \<and> res = Some ContextDeadlineExceeded))"
  using assms(1)
proof (cases rule: rtranclp.cases)
  case rtrancl_refl
  with assms(2) show ?thesis by (simp add: start_process_def)
next
  case (rtrancl_into_rtrancl q)
  then have step: "run_step (gateway_server cfg h) (gateway_listening cfg) shutdown_requested close lnerr q p"
    by (simp add: gateway_step_def)
  have inv: "life_inv q" by (rule life_inv_reachable) (use rtrancl_into_rtrancl in \<open>simp add: gateway_step_def\<close>)
  from step assms(2) show ?thesis
  proof (cases rule: returned_step)
    case (error e)
    with rtrancl_into_rtrancl inv show ?thesis
      by (intro exI [of _ q]) (auto simp: life_inv_def main_running_def return_main_def server_result_def exit_status_def
        split: listen_error.splits)
  next
    case (drained d)
    with rtrancl_into_rtrancl inv show ?thesis
      by (intro exI [of _ q]) (auto simp: life_inv_def main_running_def return_main_def)
  next
    case (deadline d)
    with rtrancl_into_rtrancl show ?thesis
      by (intro exI [of _ q]) (auto simp: main_running_def return_main_def exit_status_def)
  qed
qed

text \<open>A run with one request and a signal.\<close>

definition demo_run_world :: world where
  "demo_run_world = \<lparr>clk = (\<lambda>n. int n), ticks = 0, rand_src = (\<lambda>n k. Inr []), rands = 0\<rparr>"

lemma demo_shutdown_run:
  "\<exists>p. (gateway_step cfg handle_live (\<lambda>w. w) None)\<^sup>*\<^sup>* (start_process demo_run_world) p \<and> ps_Main p = Returned None \<and>
     ps_Accepted p = {#demo_login_request#}"
proof -
  let ?step = "gateway_step cfg handle_live (\<lambda>w. w) None" and ?s0 = "start_process demo_run_world"
  let ?s1 = "?s0\<lparr>ps_Listener := Starting, ps_Log := ps_Log ?s0 @ [gateway_listening cfg]\<rparr>"
  let ?s2 = "?s1\<lparr>ps_Listener := Accepting\<rparr>"
  let ?s3 = "take_request demo_login_request ?s2"
  let ?s4 = "?s3\<lparr>ps_SigCh := (case ps_SigCh ?s3 of None \<Rightarrow> Some ''interrupt'' | Some s \<Rightarrow> Some s)\<rparr>"
  let ?s5 = "(begin_shutdown ?s4)\<lparr>ps_Log := ps_Log ?s4 @ shutdown_requested ''interrupt''\<rparr>"
  have "?step ?s0 ?s1" unfolding gateway_step_def by (rule announce) (simp_all add: start_process_def main_running_def)
  moreover have "?step ?s1 ?s2" unfolding gateway_step_def by (rule bind) (simp_all add: start_process_def)
  moreover have "?step ?s2 ?s3"
    unfolding gateway_step_def by (rule arrive) (simp_all add: start_process_def main_running_def)
  moreover have "?step ?s3 ?s4"
    unfolding gateway_step_def by (rule notify) (simp_all add: start_process_def main_running_def take_request_def)
  moreover have "?step ?s4 ?s5"
    unfolding gateway_step_def by (rule on_signal) (simp_all add: start_process_def take_request_def)
  ultimately have reach: "?step\<^sup>*\<^sup>* ?s0 ?s5" by (meson rtranclp.rtrancl_refl rtranclp.rtrancl_into_rtrancl)
  have s5: "ps_Main ?s5 = ShuttingDown (Time_Add 0 (10 * Second))" "ps_Accepted ?s5 = {#demo_login_request#}"
    by (simp_all add: begin_shutdown_def Now_def take_request_def start_process_def demo_run_world_def)
  from shutdown_returns [OF s5(1), of "gateway_server cfg handle_live" "gateway_listening cfg" shutdown_requested "\<lambda>w. w" None]
  obtain q where "?step\<^sup>*\<^sup>* ?s5 q" "ps_Main q = Returned None" "ps_Accepted q = {#demo_login_request#}"
    unfolding gateway_step_def s5(2) by blast
  with reach show ?thesis by (meson rtranclp_trans)
qed

theorem graceful_shutdown_witness:
  "\<exists>p (q :: world process). (gateway_step demo_gateway_config handle_live (\<lambda>w. w) None)\<^sup>*\<^sup>* (start_process demo_run_world) p \<and>
     ps_Main p = Returned None \<and> ps_Accepted p = {#demo_login_request#} \<and> main_running q \<and> ps_Answered p = ps_Answered q \<and>
     ps_Accepted q = mset (map fst (ps_Answered q))"
proof -
  from demo_shutdown_run obtain p where p: "(gateway_step demo_gateway_config handle_live (\<lambda>w. w) None)\<^sup>*\<^sup>* (start_process demo_run_world) p"
    "ps_Main p = Returned None" "ps_Accepted p = {#demo_login_request#}" by blast
  have ok: "exit_status None = 0" by (simp add: exit_status_def)
  obtain q :: "world process" where "main_running q" "ps_Answered p = ps_Answered q"
    "ps_Accepted q = mset (map fst (ps_Answered q))"
    using graceful_shutdown [OF p(1,2)] unfolding if_P [OF ok] by blast
  with p show ?thesis by blast
qed

end
