(* ===== verification/Capacity.thy ===== *)
theory Capacity
  imports Complex_Main Observability
begin

text \<open>
  The capacity model (\<^verbatim>\<open>internal/capacity/model.go\<close>) and its command (\<^verbatim>\<open>cmd/capacity/main.go\<close>): how many replicas a load needs. The \<^verbatim>\<open>float64\<close> values are exact
  rationals here, so that rounding, infinities and NaN are left out, and so is the conversion of a quotient that does not
  fit into an \<^verbatim>\<open>int\<close>, whose result Go leaves open.
\<close>

section \<open>Definitions\<close>

record capacity_input =
  in_ActiveUsers :: int
  in_RequestsPerUserMinute :: rat
  in_MeasuredRPSPerReplica :: rat
  in_P95Latency :: duration
  in_SafeInflightPerReplica :: rat
  in_HeadroomMultiplier :: rat
  in_MinReplicas :: int

record capacity_result =
  cr_RequiredRPS :: rat
  cr_EstimatedInflight :: rat
  cr_ReplicasByThroughput :: int
  cr_ReplicasByInflight :: int
  cr_RecommendedReplicaFloor :: int

definition Calculate :: "capacity_input \<Rightarrow> capacity_result result" where
  "Calculate i =
     (if in_ActiveUsers i < 0 \<or> in_RequestsPerUserMinute i < 0 then Inl (ErrorString ''user demand must be >= 0'')
      else if in_MeasuredRPSPerReplica i \<le> 0 then Inl (ErrorString ''measured RPS per replica must be > 0'')
      else if in_P95Latency i < 0 then Inl (ErrorString ''P95 latency must be >= 0'')
      else if in_SafeInflightPerReplica i \<le> 0 then Inl (ErrorString ''safe inflight per replica must be > 0'')
      else if in_HeadroomMultiplier i < 1 then Inl (ErrorString ''headroom multiplier must be >= 1'')
      else
        (let minReplicas = (if in_MinReplicas i < 1 then 1 else in_MinReplicas i);
             requiredRPS = of_int (in_ActiveUsers i) * in_RequestsPerUserMinute i / 60;
             inflight = requiredRPS * (of_int (in_P95Latency i) / of_int Second);
             throughputReplicas = \<lceil>requiredRPS * in_HeadroomMultiplier i / in_MeasuredRPSPerReplica i\<rceil>;
             inflightReplicas = \<lceil>inflight * in_HeadroomMultiplier i / in_SafeInflightPerReplica i\<rceil>
         in Inr \<lparr>cr_RequiredRPS = requiredRPS, cr_EstimatedInflight = inflight,
                 cr_ReplicasByThroughput = throughputReplicas, cr_ReplicasByInflight = inflightReplicas,
                 cr_RecommendedReplicaFloor = max minReplicas (max throughputReplicas inflightReplicas)\<rparr>))"

subsection \<open>The command (cmd/capacity/main.go)\<close>

text \<open>\<^verbatim>\<open>flag.Int\<close> and \<^verbatim>\<open>flag.Float64\<close>: the value that the command line gives a flag, or its default.\<close>

definition flag_value :: "(string \<rightharpoonup> 'v) \<Rightarrow> string \<Rightarrow> 'v \<Rightarrow> 'v" where
  "flag_value given name dflt = (case given name of None \<Rightarrow> dflt | Some v \<Rightarrow> v)"

text \<open>The conversion of a floating-point number to an integer cuts towards zero.\<close>

definition truncate_rat :: "rat \<Rightarrow> int" where
  "truncate_rat x = (if x < 0 then \<lceil>x\<rceil> else \<lfloor>x\<rfloor>)"

definition capacity_flags :: "(string \<rightharpoonup> int) \<Rightarrow> (string \<rightharpoonup> rat) \<Rightarrow> capacity_input" where
  "capacity_flags ints floats =
     \<lparr>in_ActiveUsers = flag_value ints ''active-users'' 1000,
      in_RequestsPerUserMinute = flag_value floats ''requests-per-user-minute'' 2,
      in_MeasuredRPSPerReplica = flag_value floats ''measured-rps-per-replica'' 100,
      in_P95Latency = truncate_rat (flag_value floats ''p95-ms'' 300 * of_int Millisecond),
      in_SafeInflightPerReplica = flag_value floats ''safe-inflight-per-replica'' 128,
      in_HeadroomMultiplier = flag_value floats ''headroom'' (13 / 10),
      in_MinReplicas = flag_value ints ''min-replicas'' 3\<rparr>"

text \<open>The verb \<^verbatim>\<open>%.2f\<close>: the nearest number of hundredths, the even one of two that are as near.\<close>

definition hundredths :: "rat \<Rightarrow> int" where
  "hundredths x =
     (let q = \<lfloor>x * 100\<rfloor>; rest = x * 100 - of_int q
      in if rest < 1 / 2 \<or> rest = 1 / 2 \<and> even q then q else q + 1)"

definition fixed2 :: "rat \<Rightarrow> string" where
  "fixed2 x =
     (let n = hundredths \<bar>x\<bar>
      in (if x < 0 then ''-'' else []) @ Itoa (n div 100) @ ''.'' @ Itoa (n mod 100 div 10) @ Itoa (n mod 10))"

definition capacity_lines :: "capacity_result \<Rightarrow> string list" where
  "capacity_lines r =
     [''required_rps='' @ fixed2 (cr_RequiredRPS r), ''estimated_inflight_at_p95='' @ fixed2 (cr_EstimatedInflight r),
      ''replicas_by_throughput='' @ Itoa (cr_ReplicasByThroughput r),
      ''replicas_by_inflight='' @ Itoa (cr_ReplicasByInflight r),
      ''recommended_replica_floor='' @ Itoa (cr_RecommendedReplicaFloor r)]"

text \<open>What the command prints, or the error of \<^verbatim>\<open>log.Fatal\<close>.\<close>

definition capacity_main :: "(string \<rightharpoonup> int) \<Rightarrow> (string \<rightharpoonup> rat) \<Rightarrow> string list result" where
  "capacity_main ints floats =
     (case Calculate (capacity_flags ints floats) of Inl e \<Rightarrow> Inl e | Inr r \<Rightarrow> Inr (capacity_lines r))"

section \<open>Lemmas\<close>

text \<open>A number of replicas carries a load with the headroom, in throughput and in requests in flight.\<close>

definition carries :: "capacity_input \<Rightarrow> rat \<Rightarrow> rat \<Rightarrow> int \<Rightarrow> bool" where
  "carries i rps inflight n \<longleftrightarrow>
     rps * in_HeadroomMultiplier i \<le> of_int n * in_MeasuredRPSPerReplica i \<and>
     inflight * in_HeadroomMultiplier i \<le> of_int n * in_SafeInflightPerReplica i"

lemma ceiling_quotient_le: "0 < (d :: rat) \<Longrightarrow> \<lceil>x / d\<rceil> \<le> n \<longleftrightarrow> x \<le> of_int n * d"
  by (simp add: ceiling_le_iff divide_le_eq)

text \<open>What the command prints of a load is near the exact value.\<close>

lemma hundredths_near: "\<bar>of_int (hundredths x) - x * 100\<bar> \<le> 1 / 2"
  using floor_correct [of "x * 100"] by (auto simp: hundredths_def Let_def abs_le_iff)

lemma capacity_defaults:
  "capacity_main Map.empty Map.empty =
     Inr [''required_rps=33.33'', ''estimated_inflight_at_p95=10.00'', ''replicas_by_throughput=1'',
          ''replicas_by_inflight=1'', ''recommended_replica_floor=3'']"
  by code_simp

section \<open>Properties\<close>


definition demo_load :: capacity_input where
  "demo_load =
     \<lparr>in_ActiveUsers = 1000, in_RequestsPerUserMinute = 12, in_MeasuredRPSPerReplica = 60, in_P95Latency = 2 * Second,
      in_SafeInflightPerReplica = 100, in_HeadroomMultiplier = 3 / 2, in_MinReplicas = 2\<rparr>"


end
