(* ===== verification/MockServices.thy ===== *)
theory MockServices
  imports AccessLog ServeMux Observability
begin

text \<open>
  The services that the asset portal is tried against (\<^verbatim>\<open>examples/asset-portal/cmd/mock-services/main.go\<close>): the
  asset service with its province scopes, the storage service that hands out upload addresses, the log of their
  responses and the choice of the services that a process runs. The JSON decoders are arguments. A logger appends a
  line to the world. The theorems say that an asset is shown only to a principal whose provinces include it, and that the
  payload of a token is the one that was encoded into it.
\<close>

section \<open>Definitions\<close>

subsection \<open>Data\<close>

record mock_asset =
  ma_ID :: string
  ma_Name :: string
  ma_Serial :: string
  ma_Status :: string
  ma_ProjectID :: string
  ma_ProvinceID :: string
  ma_Province :: string

text \<open>\<^verbatim>\<open>AllowedProvinces\<close> is a map: its entries, in some order.\<close>

record principal =
  pr_Subject :: string
  pr_Username :: string
  pr_AllowedProvinces :: "(string \<times> bool) list"

datatype mockService = mockServiceAll | mockServiceAsset | mockServiceStorage

definition mockAssets :: "string \<rightharpoonup> mock_asset" where
  "mockAssets =
     [''A001'' \<mapsto> \<lparr>ma_ID = ''A001'', ma_Name = ''Demo Notebook'', ma_Serial = ''SN-DEMO-001'', ma_Status = ''active'',
                  ma_ProjectID = ''PRJ-001'', ma_ProvinceID = ''50'', ma_Province = ''Chiang Mai''\<rparr>,
      ''A002'' \<mapsto> \<lparr>ma_ID = ''A002'', ma_Name = ''Bangkok Demo Server'', ma_Serial = ''SN-DEMO-002'',
                  ma_Status = ''active'', ma_ProjectID = ''PRJ-002'', ma_ProvinceID = ''10'', ma_Province = ''Bangkok''\<rparr>]"

definition mock_asset_json :: "mock_asset \<Rightarrow> json" where
  "mock_asset_json a =
     JObj [(''id'', JStr (ma_ID a)), (''name'', JStr (ma_Name a)), (''serial'', JStr (ma_Serial a)),
           (''status'', JStr (ma_Status a)), (''project_id'', JStr (ma_ProjectID a)),
           (''province_id'', JStr (ma_ProvinceID a)), (''province'', JStr (ma_Province a))]"

definition parseMockService :: "string \<Rightarrow> mockService result" where
  "parseMockService v =
     (let s = TrimSpace (ToLower v)
      in if s = '''' \<or> s = ''all'' then Inr mockServiceAll
         else if s = ''asset'' then Inr mockServiceAsset
         else if s = ''storage'' then Inr mockServiceStorage
         else Inl (ErrorString ''MOCK_SERVICE must be one of: asset, storage, all''))"

subsection \<open>Principals\<close>

text \<open>
  \<^verbatim>\<open>base64.RawURLEncoding.DecodeString\<close>: line ends are skipped, four characters give three bytes, two or three
  characters at the end one or two bytes (the bits that are left over are not looked at), one character is an error.
\<close>

definition base64_DecodeString :: "string \<Rightarrow> string option" where
  "base64_DecodeString s =
     (let cs = filter (\<lambda>c. c \<noteq> CHR 0x0A \<and> c \<noteq> CHR 0x0D) s
      in if list_all (\<lambda>c. b64_value c \<noteq> None) cs
         then map_option (map char_of) (b64_bytes (map (\<lambda>c. the (b64_value c)) cs)) else None)"

type_synonym claims = "string \<rightharpoonup> json"

definition decodeJWTPayloadForMock :: "(string \<Rightarrow> claims result) \<Rightarrow> string \<Rightarrow> claims option" where
  "decodeJWTPayloadForMock unmarshal token =
     (let parts = Split token (CHR ''.'')
      in if length parts \<noteq> 3 then None
         else (case base64_DecodeString (parts ! 1) of
             None \<Rightarrow> None
           | Some raw \<Rightarrow> (case unmarshal raw of Inl e \<Rightarrow> None | Inr claims \<Rightarrow> Some claims)))"

definition alicePrincipal :: "string \<Rightarrow> principal" where
  "alicePrincipal subject = \<lparr>pr_Subject = subject, pr_Username = ''alice'', pr_AllowedProvinces = [(''50'', True)]\<rparr>"

definition bobPrincipal :: "string \<Rightarrow> principal" where
  "bobPrincipal subject = \<lparr>pr_Subject = subject, pr_Username = ''bob'', pr_AllowedProvinces = [(''10'', True)]\<rparr>"

text \<open>The type assertion \<^verbatim>\<open>claims[key].(string)\<close>.\<close>

definition claim_string :: "claims \<Rightarrow> string \<Rightarrow> string" where
  "claim_string claims key = (case claims key of Some (JStr s) \<Rightarrow> s | _ \<Rightarrow> '''')"

definition resolveMockPrincipal :: "(string \<Rightarrow> claims result) \<Rightarrow> string \<Rightarrow> principal option" where
  "resolveMockPrincipal unmarshal authz =
     (if \<not> HasPrefix authz ''Bearer '' then None
      else (let token = TrimSpace (TrimPrefix authz ''Bearer '')
            in if token = '''' then None
               else if token = ''alice-token'' then Some (alicePrincipal ''demo-alice'')
               else if token = ''bob-token'' then Some (bobPrincipal ''demo-bob'')
               else (case decodeJWTPayloadForMock unmarshal token of
                   None \<Rightarrow> None
                 | Some claims \<Rightarrow>
                     (let username = claim_string claims ''preferred_username'';
                          email = claim_string claims ''email'';
                          subject = claim_string claims ''sub''
                      in if username = ''alice'' \<or> email = ''alice@example.com'' then Some (alicePrincipal subject)
                         else if username = ''bob'' \<or> email = ''bob@example.com'' then Some (bobPrincipal subject)
                         else None))))"

definition provinceKeys :: "(string \<times> bool) list \<Rightarrow> string list" where
  "provinceKeys m = sort (map fst (filter snd m))"

definition province_allowed :: "principal \<Rightarrow> string \<Rightarrow> bool" where
  "province_allowed p province \<longleftrightarrow> map_of (pr_AllowedProvinces p) province = Some True"

subsection \<open>Responses\<close>

definition writeJSONStatus :: "response_writer \<Rightarrow> int \<Rightarrow> json \<Rightarrow> response_writer" where
  "writeJSONStatus rw status v =
     Write (WriteHeader (SetHeader rw ''Content-Type'' ''application/json'') status) (Json v)"

definition mock_writeJSON :: "response_writer \<Rightarrow> json \<Rightarrow> response_writer" where
  "mock_writeJSON rw v = writeJSONStatus rw 200 v"

definition requireBearer :: "'w handler \<Rightarrow> 'w handler" where
  "requireBearer next r w rw =
     (if \<not> HasPrefix (Header_Get (rq_Header r) ''Authorization'') ''Bearer ''
      then (w, http_Error rw ''missing Bearer token'' 401)
      else next r w rw)"

text \<open>A logger of the package \<^verbatim>\<open>log\<close> and \<^verbatim>\<open>Printf\<close> with a line of fields.\<close>

type_synonym 'w logger = "string \<Rightarrow> 'w \<Rightarrow> 'w"

definition log_fields :: "(string \<times> string) list \<Rightarrow> string" where
  "log_fields fs = strings_Join (map (\<lambda>(k, v). k @ ''='' @ v) fs) '' ''"

definition pick_logger :: "'w logger \<Rightarrow> 'w logger option list \<Rightarrow> 'w logger" where
  "pick_logger std loggers = (case loggers of Some l # _ \<Rightarrow> l | _ \<Rightarrow> std)"

definition withResponseLog :: "string \<Rightarrow> 'z world_scheme logger \<Rightarrow> 'z world_scheme handler \<Rightarrow> 'z world_scheme handler" where
  "withResponseLog component logger next r w rw =
     (let (started, w1) = Now w;
          (w2, rw2) = next r w1 rw;
          (now, w3) = Now w2
      in (logger (log_fields
            [(''component'', component), (''event'', ''response''), (''method'', rq_Method r), (''path'', rq_Path r),
             (''request_id'', Header_Get (rq_Header r) ''X-Request-ID''),
             (''trace_id'', Header_Get (rq_Header r) ''X-Trace-ID''),
             (''status'', Itoa (recorded_status rw rw2)),
             (''duration_ms'', Itoa (Milliseconds (Time_Sub now started)))]) w3, rw2))"

subsection \<open>The asset service\<close>

definition allowed_list :: "principal \<Rightarrow> string" where
  "allowed_list p = strings_Join (provinceKeys (pr_AllowedProvinces p)) '',''"

definition denied_json :: "principal \<Rightarrow> mock_asset \<Rightarrow> json" where
  "denied_json p item =
     JObj [(''allowed_provinces'', JArr (map JStr (provinceKeys (pr_AllowedProvinces p)))),
           (''asset_id'', JStr (ma_ID item)), (''asset_province_id'', JStr (ma_ProvinceID item)),
           (''error'', JStr ''forbidden''), (''reason'', JStr ''province_scope_denied''),
           (''subject'', JStr (pr_Subject p)), (''username'', JStr (pr_Username p))]"

definition asset_event :: "request \<Rightarrow> string \<Rightarrow> (string \<times> string) list \<Rightarrow> string" where
  "asset_event r event fs =
     log_fields ([(''component'', ''asset-api''), (''event'', event),
       (''request_id'', Header_Get (rq_Header r) ''X-Request-ID''),
       (''trace_id'', Header_Get (rq_Header r) ''X-Trace-ID'')] @ fs)"

definition request_event :: "string \<Rightarrow> request \<Rightarrow> (string \<times> string) list \<Rightarrow> string" where
  "request_event component r fs =
     log_fields ([(''component'', component), (''event'', ''request''), (''method'', rq_Method r), (''path'', rq_Path r),
       (''request_id'', Header_Get (rq_Header r) ''X-Request-ID''),
       (''trace_id'', Header_Get (rq_Header r) ''X-Trace-ID'')] @ fs)"

definition authorization_event :: "request \<Rightarrow> principal \<Rightarrow> mock_asset \<Rightarrow> string \<Rightarrow> string" where
  "authorization_event r p item decision =
     asset_event r ''authorization''
       [(''username'', pr_Username p), (''asset_id'', ma_ID item), (''asset_province'', ma_ProvinceID item),
        (''allowed_provinces'', allowed_list p), (''decision'', decision)]"

definition serve_mock_asset :: "(string \<Rightarrow> claims result) \<Rightarrow> 'w logger \<Rightarrow> 'w handler" where
  "serve_mock_asset unmarshal logger r w rw =
     (let assetID = rq_PathValue r ''id'';
          w1 = logger (request_event ''asset-api'' r [(''asset_id'', assetID)]) w
      in case resolveMockPrincipal unmarshal (Header_Get (rq_Header r) ''Authorization'') of
           None \<Rightarrow>
             (logger (asset_event r ''identity''
                [(''asset_id'', assetID), (''decision'', ''reject''), (''reason'', ''invalid_bearer'')]) w1,
              http_Error rw ''invalid bearer identity'' 401)
         | Some p \<Rightarrow>
             (let w2 = logger (asset_event r ''identity''
                    [(''subject'', pr_Subject p), (''username'', pr_Username p),
                     (''allowed_provinces'', allowed_list p)]) w1
              in case mockAssets assetID of
                   None \<Rightarrow>
                     (logger (asset_event r ''resource''
                        [(''username'', pr_Username p), (''asset_id'', assetID), (''decision'', ''not_found'')]) w2,
                      http_NotFound rw)
                 | Some item \<Rightarrow>
                     if \<not> province_allowed p (ma_ProvinceID item)
                     then (logger (authorization_event r p item ''deny'') w2, writeJSONStatus rw 403 (denied_json p item))
                     else (logger (authorization_event r p item ''allow'') w2, mock_writeJSON rw (mock_asset_json item))))"

definition newAssetHandler ::
  "(string \<Rightarrow> claims result) \<Rightarrow> 'z world_scheme logger \<Rightarrow> 'z world_scheme logger option list \<Rightarrow> 'z world_scheme handler" where
  "newAssetHandler unmarshal std loggers =
     (let logger = pick_logger std loggers
      in withResponseLog ''asset-api'' logger
           (mux_ServeHTTP (\<lambda>h. h) [(''GET /api/assets/{id}'', serve_mock_asset unmarshal logger)]))"

subsection \<open>The storage service\<close>

text \<open>\<^verbatim>\<open>Format(time.RFC3339)\<close> of a time drops its fraction of a second.\<close>

definition whole_second :: "time \<Rightarrow> time" where
  "whole_second t = t - t mod Second"

definition storage_event :: "request \<Rightarrow> (string \<times> string) list \<Rightarrow> string" where
  "storage_event r fs =
     log_fields ([(''component'', ''storage-api''), (''event'', ''presign''),
       (''request_id'', Header_Get (rq_Header r) ''X-Request-ID''),
       (''trace_id'', Header_Get (rq_Header r) ''X-Trace-ID'')] @ fs)"

definition presign_json :: "string \<Rightarrow> time \<Rightarrow> json" where
  "presign_json key now =
     JObj [(''expires_at'', JTime (whole_second (Time_Add now (5 * Minute)))), (''method'', JStr ''PUT''),
           (''url'', JStr (''https://storage.example.invalid/upload/'' @ key))]"

text \<open>\<open>decode\<close> gives the field \<^verbatim>\<open>object_key\<close> of what can be read of the body, or the error of the decoder.\<close>

definition serve_mock_presign ::
  "(string \<times> bool \<Rightarrow> string result) \<Rightarrow> 'z world_scheme logger \<Rightarrow> 'z world_scheme handler" where
  "serve_mock_presign decode logger r w rw =
     (let w1 = logger (request_event ''storage-api'' r []) w
      in case decode (case rq_Body r of None \<Rightarrow> ('''', False) | Some b \<Rightarrow> read_body b) of
           Inl e \<Rightarrow>
             (logger (storage_event r [(''decision'', ''reject''), (''reason'', ''bad_request'')]) w1,
              http_Error rw ''bad request'' 400)
         | Inr key \<Rightarrow>
             (let w2 = logger (storage_event r [(''object_key'', key), (''decision'', ''allow'')]) w1;
                  (now, w3) = Now w2
              in (w3, mock_writeJSON rw (presign_json key now))))"

definition newStorageHandler ::
  "(string \<times> bool \<Rightarrow> string result) \<Rightarrow> 'z world_scheme logger \<Rightarrow> 'z world_scheme logger option list
   \<Rightarrow> 'z world_scheme handler" where
  "newStorageHandler decode std loggers =
     (let logger = pick_logger std loggers
      in withResponseLog ''storage-api'' logger
           (mux_ServeHTTP (\<lambda>h. h) [(''POST /api/presign/upload'', requireBearer (serve_mock_presign decode logger))]))"

subsection \<open>The process\<close>

text \<open>
  What \<^verbatim>\<open>main\<close> runs: the line that announces a listener, its address and its handler, or the error with which the
  process ends at once. In the mode \<^verbatim>\<open>all\<close> the first listener runs in a goroutine of its own.
\<close>

definition mock_main ::
  "(string \<Rightarrow> claims result) \<Rightarrow> (string \<times> bool \<Rightarrow> string result) \<Rightarrow> 'z world_scheme logger \<Rightarrow> 'z world_scheme logger
   \<Rightarrow> (string \<rightharpoonup> string) \<Rightarrow> (string \<times> string \<times> 'z world_scheme handler) list result" where
  "mock_main unmarshal decode std logger env =
     (case parseMockService (case env ''MOCK_SERVICE'' of None \<Rightarrow> '''' | Some v \<Rightarrow> v) of
        Inl e \<Rightarrow> Inl e
      | Inr mode \<Rightarrow>
          (let assets = (''component=asset-api event=start addr=:19001'', '':19001'', newAssetHandler unmarshal std [Some logger]);
               storage = (''component=storage-api event=start addr=:19002'', '':19002'', newStorageHandler decode std [Some logger])
           in Inr (case mode of
                mockServiceAsset \<Rightarrow> [assets]
              | mockServiceStorage \<Rightarrow> [storage]
              | mockServiceAll \<Rightarrow> [assets, storage])))"

section \<open>Lemmas\<close>

subsection \<open>Base64\<close>

lemma b64_range: "b64 n \<in> set base64_alphabet"
  by (simp add: b64_def)

lemma b64_plain: "b64 n \<noteq> CHR ''.''" "b64 n \<noteq> CHR 0x0A" "b64 n \<noteq> CHR 0x0D"
proof -
  have "\<not> list_ex (\<lambda>c. c = CHR ''.'' \<or> c = CHR 0x0A \<or> c = CHR 0x0D) base64_alphabet" by code_simp
  with b64_range [of n] show "b64 n \<noteq> CHR ''.''" "b64 n \<noteq> CHR 0x0A" "b64 n \<noteq> CHR 0x0D" by (auto simp: list_ex_iff)
qed

lemma base64_DecodeString_Encode: "base64_DecodeString (base64_RawURL (map byte_of s)) = Some s"
proof -
  have "list_all (\<lambda>b. b < 256) (map byte_of s)"
    by (simp add: list_all_iff byte_of_def)
  from base64_RawURL_digits [OF this] obtain ds where ds: "base64_RawURL (map byte_of s) = map b64 ds"
    "list_all (\<lambda>d. d < 64) ds" "b64_bytes ds = Some (map byte_of s)" by blast
  have skip: "filter (\<lambda>c. c \<noteq> CHR 0x0A \<and> c \<noteq> CHR 0x0D) (map b64 ds) = map b64 ds"
    by (simp add: filter_id_conv b64_plain)
  have vals: "list_all (\<lambda>c. b64_value c \<noteq> None) (map b64 ds)" "map (\<lambda>c. the (b64_value c)) (map b64 ds) = ds"
    using ds(2) by (induction ds) (auto simp: b64_value_b64)
  show ?thesis
    unfolding base64_DecodeString_def Let_def ds(1) skip using vals ds(3) by (simp add: comp_def)
qed

lemma base64_no_dot: "CHR ''.'' \<notin> set (base64_RawURL bs)"
  by (induction bs rule: base64_RawURL.induct) (auto simp: b64_plain [THEN not_sym] b64_plain)

subsection \<open>The routes\<close>

text \<open>When a multiplexer of one pattern serves a request; otherwise it answers with text.\<close>

lemma findHandler_single:
  "findHandler [(p, h)] r = MuxServe q vs g \<longleftrightarrow>
     q = p \<and> g = h \<and> mux_path r = EscapedPath (rq_URL r) \<and> match_path p (mux_path r) = Some vs \<and>
     (pattern_method p = rq_Method r \<or> rq_Method r = ''HEAD'' \<and> pattern_method p = ''GET'')"
  by (auto simp: findHandler_def mux_match_def Let_def split: option.splits if_splits)

lemma rw_Body_simps [simp]:
  "rw_Body (WriteHeader rw c) = rw_Body rw" "rw_Body (Write rw b) = rw_Body rw @ [b]"
  "rw_Body (SetHeader rw k v) = rw_Body rw" "rw_Body (DelHeader rw k) = rw_Body rw"
  "rw_Body (http_Error rw m c) = rw_Body rw @ [Text (m @ [CHR 0x0A])]"
  by (simp_all add: WriteHeader_def Write_def SetHeader_def DelHeader_def http_Error_def Let_def)

lemma mux_no_json:
  assumes "rq_Path r = ''*'' \<or> (\<nexists>p vs h. findHandler routes r = MuxServe p vs h)" "Json v \<notin> set (rw_Body rw)"
  shows "Json v \<notin> set (rw_Body (snd (mux_ServeHTTP run routes r w rw)))"
  using assms by (auto simp: mux_ServeHTTP_def http_Redirect_def http_NotFound_def Let_def split: mux_answer.split)

lemma asset_pattern:
  "pattern_method ''GET /api/assets/{id}'' = ''GET''"
  "Split (pattern_path ''GET /api/assets/{id}'') (CHR ''/'') = ['''', ''api'', ''assets'', ''{id}'']"
  by code_simp+

lemma asset_wildcards:
  "wildcard '''' = None" "wildcard ''api'' = None" "wildcard ''assets'' = None" "wildcard ''{id}'' = Some ''id''"
  by code_simp+

lemma match_segments_Cons:
  "match_segments (p # ps) path = Some vs \<longleftrightarrow>
     (\<exists>s ss. path = s # ss \<and>
        (case wildcard p of
           None \<Rightarrow> p = s \<and> match_segments ps ss = Some vs
         | Some name \<Rightarrow> s \<noteq> '''' \<and> (\<exists>us. match_segments ps ss = Some us \<and> vs = (name, s) # us)))"
  by (cases path) (auto split: option.splits)

lemma match_segments_Nil: "match_segments [] path = Some vs \<longleftrightarrow> path = [] \<and> vs = []"
  by (cases path) auto

lemma asset_match:
  "match_path ''GET /api/assets/{id}'' path = Some vs \<longleftrightarrow>
     (\<exists>ident. ident \<noteq> '''' \<and> path_segments path = ['''', ''api'', ''assets'', ident] \<and> vs = [(''id'', ident)])"
  unfolding match_path_def asset_pattern
  by (auto simp: match_segments_Cons match_segments_Nil asset_wildcards)

lemma snd_withResponseLog:
  "snd (withResponseLog component logger next r w rw) = snd (next r (snd (Now w)) rw)"
  by (simp add: withResponseLog_def Let_def split: prod.split)

lemma mock_asset_json_inj [simp]: "mock_asset_json a = mock_asset_json b \<longleftrightarrow> a = b"
  by (cases a; cases b) (simp add: mock_asset_json_def)

lemma denied_not_asset [simp]: "mock_asset_json a \<noteq> denied_json p b"
  by (simp add: mock_asset_json_def denied_json_def)

lemma mockAssets_ID: "mockAssets ident = Some a \<Longrightarrow> ma_ID a = ident \<and> ident \<noteq> ''''"
  by (auto simp: mockAssets_def split: if_splits)

lemma serve_mock_asset_shows:
  assumes "rw_Body rw = []"
  shows "Json (mock_asset_json a) \<in> set (rw_Body (snd (serve_mock_asset unmarshal logger r w rw))) \<longleftrightarrow>
    rq_PathValue r ''id'' = ma_ID a \<and> mockAssets (ma_ID a) = Some a \<and>
    (\<exists>p. resolveMockPrincipal unmarshal (Header_Get (rq_Header r) ''Authorization'') = Some p \<and>
       province_allowed p (ma_ProvinceID a))"
proof (cases "resolveMockPrincipal unmarshal (Header_Get (rq_Header r) ''Authorization'')")
  case None
  with assms show ?thesis by (simp add: serve_mock_asset_def Let_def)
next
  case (Some p)
  show ?thesis
  proof (cases "mockAssets (rq_PathValue r ''id'')")
    case None
    with Some assms show ?thesis by (auto simp: serve_mock_asset_def http_NotFound_def Let_def)
  next
    case item: (Some item)
    with mockAssets_ID have "ma_ID item = rq_PathValue r ''id''" by blast
    with Some item assms show ?thesis
      by (auto simp: serve_mock_asset_def mock_writeJSON_def writeJSONStatus_def Let_def)
  qed
qed

section \<open>Properties\<close>

text \<open>
  C40. The asset service shows an asset exactly to its readers: whatever the request is, the answer carries the JSON of an
  asset if and only if the request is a GET or HEAD of the clean path of that asset and its bearer token names a principal
  whose provinces include the one of the asset. Refused requests do not leak it.
\<close>

theorem mock_asset_scoped:
  assumes "rw_Body rw = []"
  shows "Json (mock_asset_json a) \<in> set (rw_Body (snd (newAssetHandler unmarshal std loggers r w rw))) \<longleftrightarrow>
    rq_Path r \<noteq> ''*'' \<and> (rq_Method r = ''GET'' \<or> rq_Method r = ''HEAD'') \<and> mux_path r = EscapedPath (rq_URL r) \<and>
    path_segments (mux_path r) = ['''', ''api'', ''assets'', ma_ID a] \<and> mockAssets (ma_ID a) = Some a \<and>
    (\<exists>p. resolveMockPrincipal unmarshal (Header_Get (rq_Header r) ''Authorization'') = Some p \<and>
       province_allowed p (ma_ProvinceID a))"
proof -
  let ?h = "serve_mock_asset unmarshal (pick_logger std loggers)"
  let ?routes = "[(''GET /api/assets/{id}'', ?h)]"
  have out: "snd (newAssetHandler unmarshal std loggers r w rw) = snd (mux_ServeHTTP (\<lambda>h. h) ?routes r (snd (Now w)) rw)"
    by (simp add: newAssetHandler_def Let_def snd_withResponseLog)
  have serve: "(\<exists>p vs h. findHandler ?routes r = MuxServe p vs h) \<longleftrightarrow>
      (rq_Method r = ''GET'' \<or> rq_Method r = ''HEAD'') \<and> mux_path r = EscapedPath (rq_URL r) \<and>
      (\<exists>ident. ident \<noteq> '''' \<and> path_segments (mux_path r) = ['''', ''api'', ''assets'', ident])"
    by (auto simp: findHandler_single asset_match asset_pattern)
  show ?thesis
  proof (cases "rq_Path r \<noteq> ''*'' \<and> (\<exists>p vs h. findHandler ?routes r = MuxServe p vs h)")
    case True
    then obtain vs where "findHandler ?routes r = MuxServe ''GET /api/assets/{id}'' vs ?h" by (auto simp: findHandler_single)
    moreover from this obtain ident where "vs = [(''id'', ident)]" "path_segments (mux_path r) = ['''', ''api'', ''assets'', ident]"
      by (auto simp: findHandler_single asset_match)
    ultimately show ?thesis
      using True serve unfolding out
      by (auto simp: mux_ServeHTTP_def with_match_def serve_mock_asset_shows [OF assms])
  next
    case False
    with mux_no_json [of r ?routes "mock_asset_json a" rw] assms
    have "Json (mock_asset_json a) \<notin> set (rw_Body (snd (newAssetHandler unmarshal std loggers r w rw)))"
      unfolding out by simp
    moreover have "ma_ID a \<noteq> []" if "mockAssets (ma_ID a) = Some a" using mockAssets_ID [OF that] by simp
    ultimately show ?thesis using False serve by blast
  qed
qed

definition demo_asset_request :: "string \<Rightarrow> request" where
  "demo_asset_request token =
     (demo_mux_request ''/api/assets/A001'')\<lparr>rq_Header := [''Authorization'' \<mapsto> [''Bearer '' @ token]]\<rparr>"

definition demo_log_world :: world where
  "demo_log_world = \<lparr>clk = (\<lambda>n. int n), ticks = 0, rand_src = (\<lambda>n k. Inr []), rands = 0\<rparr>"

theorem mock_asset_scoped_witness:
  "Json (mock_asset_json (the (mockAssets ''A001''))) \<in>
     set (rw_Body (snd (newAssetHandler (\<lambda>s. Inr Map.empty) (\<lambda>l w. w) [] (demo_asset_request ''alice-token'') demo_log_world new_response))) \<and>
   Json (mock_asset_json (the (mockAssets ''A001''))) \<notin>
     set (rw_Body (snd (newAssetHandler (\<lambda>s. Inr Map.empty) (\<lambda>l w. w) [] (demo_asset_request ''bob-token'') demo_log_world new_response)))"
proof -
  let ?a = "the (mockAssets ''A001'')"
  have rw: "rw_Body new_response = []" by (simp add: new_response_def)
  have path: "rq_Path (demo_asset_request t) \<noteq> ''*''" "rq_Method (demo_asset_request t) = ''GET''"
    "mux_path (demo_asset_request t) = EscapedPath (rq_URL (demo_asset_request t))"
    "path_segments (mux_path (demo_asset_request t)) = ['''', ''api'', ''assets'', ''A001'']" for t
    by code_simp+
  have a: "ma_ID ?a = ''A001''" "mockAssets (ma_ID ?a) = Some ?a" by (simp_all add: mockAssets_def)
  have principals:
    "resolveMockPrincipal (\<lambda>s. Inr Map.empty) (Header_Get (rq_Header (demo_asset_request ''alice-token'')) ''Authorization'') =
       Some (alicePrincipal ''demo-alice'')"
    "resolveMockPrincipal (\<lambda>s. Inr Map.empty) (Header_Get (rq_Header (demo_asset_request ''bob-token'')) ''Authorization'') =
       Some (bobPrincipal ''demo-bob'')"
    "province_allowed (alicePrincipal ''demo-alice'') (ma_ProvinceID ?a)"
    "\<not> province_allowed (bobPrincipal ''demo-bob'') (ma_ProvinceID ?a)" by code_simp+
  show ?thesis
    unfolding mock_asset_scoped [OF rw, of ?a "\<lambda>s. Inr Map.empty" "\<lambda>l w. w" "[]" "demo_asset_request ''alice-token''" demo_log_world]
      mock_asset_scoped [OF rw, of ?a "\<lambda>s. Inr Map.empty" "\<lambda>l w. w" "[]" "demo_asset_request ''bob-token''" demo_log_world]
    using path a principals by (intro conjI) auto
qed

text \<open>
  The payload of a token is read back: for a token of three parts, the claims are those of the JSON text that was
  encoded as its second part, whatever bytes it has, and there are none where that text does not decode.
\<close>

theorem mock_token_payload:
  assumes "CHR ''.'' \<notin> set h" "CHR ''.'' \<notin> set signature"
  shows "decodeJWTPayloadForMock unmarshal (strings_Join [h, base64_RawURL (map byte_of payload), signature] ''.'') =
    (case unmarshal payload of Inl e \<Rightarrow> None | Inr claims \<Rightarrow> Some claims)"
proof -
  have "Split (strings_Join [h, base64_RawURL (map byte_of payload), signature] ''.'') (CHR ''.'') =
      [h, base64_RawURL (map byte_of payload), signature]"
    by (rule Split_strings_Join) (use assms base64_no_dot in auto)
  then show ?thesis
    by (simp add: decodeJWTPayloadForMock_def base64_DecodeString_Encode Let_def del: strings_Join.simps)
qed

theorem mock_token_payload_witness:
  "decodeJWTPayloadForMock (\<lambda>s. if s = ''{}'' then Inr Map.empty else Inl (ExternalError ''json''))
     (strings_Join [''h'', base64_RawURL (map byte_of ''{}''), ''s''] ''.'') = Some Map.empty"
  using mock_token_payload [of "''h''" "''s''" "\<lambda>s. if s = ''{}'' then Inr Map.empty else Inl (ExternalError ''json'')" "''{}''"]
  by simp

end
