(* ===== verification/Spec2Isabelle.thy ===== *)
theory Spec2Isabelle
  imports TokenConcurrency Lifecycle Capacity MockServices
begin

text \<open>
  \<^bold>\<open>A verification development of the gateway runtime.\<close>

  The program (\<^verbatim>\<open>src/\<close>, in Go) is a backend for browsers and a runtime for storage services. A process with the role
  \<^verbatim>\<open>rebff\<close> signs users in with OpenID Connect, keeps their sessions and OAuth tokens on the server, checks the
  permissions of the routes of an application and calls upstream services with the tokens of the session. A process
  with the role \<^verbatim>\<open>storage\<close> authorises workloads and hands out presigned operations of an object store. Both are
  started from the environment by \<^verbatim>\<open>internal/app\<close>.

  \<^bold>\<open>How the code is modelled.\<close> A Go value is a record or datatype with the fields of the source under a short prefix; an
  interface is a record of functions; an error is a value of \<open>goerr\<close>, and an operation that can fail returns
  \<open>goerr + 'a\<close>. Stateful code passes a world: \<open>world\<close> has the clock and the source of randomness, and each component
  extends it with what it keeps (\<open>sessions\<close>, \<open>tokens\<close>, \<open>locks\<close>, \<open>flows\<close>, \<open>events\<close>, \<open>registry\<close>, \<open>cached\<close>). A handler
  maps a request, a world and a response writer to a world and a response writer; a middleware maps handlers to
  handlers. Every branch of the source that returns an error is a branch of the model. Panics on nil interfaces are the
  error \<open>NilDereference\<close>.

  \<^bold>\<open>The theories\<close>, from the bottom up:

  \<^item> \<open>GoPrelude\<close>, \<open>GoStrings\<close>, \<open>GoWorld\<close>, \<open>GoURL\<close>, \<open>GoQuery\<close>, \<open>GoURLText\<close>, \<open>GoHTTP\<close>, \<open>ServeMux\<close>, \<open>GoConv\<close>: errors with
    wrapping, instants and durations, 64-bit wrap-around, and what the code uses of \<^verbatim>\<open>strings\<close>, \<^verbatim>\<open>path\<close>, \<^verbatim>\<open>crypto/rand\<close>,
    \<^verbatim>\<open>encoding\<close>, \<^verbatim>\<open>net/url\<close> (parsing and printing of addresses and queries, with their round trips), \<^verbatim>\<open>net/http\<close> (with the
    multiplexer, whose redirections stay on the host), \<^verbatim>\<open>strconv\<close> and \<^verbatim>\<open>time\<close>.
  \<^item> \<open>Session\<close> (\<^verbatim>\<open>internal/session\<close>): the memory store and \<open>LifecycleStore\<close> around any store. The locales
    \<open>session_store_contract\<close> and \<open>exact_session_store\<close> are the interface \<^verbatim>\<open>session.Store\<close>. Lifetimes are capped, idle
    sessions end, active ones do not, deleted ones stay deleted.
  \<^item> \<open>Token\<close>, \<open>TokenConcurrency\<close> (\<^verbatim>\<open>internal/token\<close>): the stores, the memory locker and \<open>AccessToken\<close> with refresh,
    alone and as a step relation of any number of requests. No token is handed out that has expired, a failed refresh
    ends the session, and each refresh token is sent once.
  \<^item> \<open>Auth\<close>, \<open>OIDC\<close>, \<open>AuthHTTP\<close> (\<^verbatim>\<open>internal/auth\<close>, \<^verbatim>\<open>internal/auth/oidc\<close>): login flows, the service, the provider over
    the OAuth and OpenID libraries, and the HTTP handlers. A flow is used once, a login is tied to a verified ID token
    with the nonce of its flow, the redirect after it stays on the gateway, a logout ends the session, and the address
    of the provider's logout is the configured one with its parameters.
  \<^item> \<open>Observability\<close>, \<open>MetricsText\<close> (\<^verbatim>\<open>internal/audit\<close>, \<^verbatim>\<open>internal/observability\<close>): events, sinks, the registry of metrics
    and its text, which no recorded value can forge.
  \<^item> \<open>Middleware\<close>, \<open>AccessLog\<close>, \<open>UserContext\<close>, \<open>Chain\<close>, \<open>Router\<close> (\<^verbatim>\<open>internal/httpx\<close>, \<^verbatim>\<open>internal/policy\<close>, \<^verbatim>\<open>internal/cache\<close>,
    \<^verbatim>\<open>internal/usercontext\<close>): each middleware, the permission check with the static policy, the locale \<open>middleware\<close> with
    an interpretation for every one in the chain, and the routes with their dispatch. Rates are bounded, forged requests
    reach no route, the client address cannot be spoofed, bodies are read up to their limit, the access log shows no
    secret of a query, and no route hides another.
  \<^item> \<open>Outbound\<close> (\<^verbatim>\<open>internal/outbound\<close>): the JSON client with retries, the metrics around it, and the circuit breaker and
    bulkhead, as a function and as a step relation of concurrent calls.
  \<^item> \<open>RuntimeCfg\<close>, \<open>Storage\<close>, \<open>AccessControl\<close>, \<open>RoleRuntime\<close> (\<^verbatim>\<open>internal/runtimecfg\<close>, \<^verbatim>\<open>internal/capability\<close>,
    \<^verbatim>\<open>internal/storage\<close>, \<^verbatim>\<open>internal/storagetarget\<close>, \<^verbatim>\<open>internal/storageprovider\<close>, \<^verbatim>\<open>internal/storagecontract\<close>,
    \<^verbatim>\<open>internal/requestidentity\<close>, \<^verbatim>\<open>internal/workloadauth\<close>, \<^verbatim>\<open>internal/accesspolicy\<close>, \<^verbatim>\<open>internal/roleruntime\<close>): the selection
    of roles, the registries, the remote signer, the identity of a workload and every storage route. The code of the
    authorisation refines an inductive specification, and no route reports on the signer without it.
  \<^item> \<open>AppAPI\<close> (\<^verbatim>\<open>internal/appapi\<close>, \<^verbatim>\<open>internal/domainapi\<close>), \<open>Core\<close> (\<^verbatim>\<open>core\<close>) and \<open>AssetPortal\<close>
    (\<^verbatim>\<open>examples/asset-portal/internal\<close>): the routes of applications. Permissions are enforced, calls are made in the
    session that was authorised, and uploads stay below their prefix.
  \<^item> \<open>Redis\<close> (\<^verbatim>\<open>internal/store/redis\<close>): the shared stores and the refresh lock over the commands of the server, whose laws
    are the hypotheses \<open>redis_laws\<close>. Sessions are read back until they expire, and the lock excludes within its lease.
  \<^item> \<open>AppConfig\<close>, \<open>Startup\<close>, \<open>Gateway\<close>, \<open>Lifecycle\<close> (\<^verbatim>\<open>internal/app\<close>, the end of \<^verbatim>\<open>roleruntime.Run\<close>): every setting, its
    validation, the start of both kinds of process, and their life as a step relation of arriving requests, a listener
    that may fail, signals and the shutdown. A configuration that loads also starts, its public addresses are on its
    host, and a process that ends without an error has answered all that it accepted.
  \<^item> \<open>Capacity\<close> (\<^verbatim>\<open>internal/capacity\<close>, \<^verbatim>\<open>cmd/capacity\<close>): the planning of replicas and its command.
  \<^item> \<open>MockServices\<close> (\<^verbatim>\<open>examples/asset-portal/cmd/mock-services\<close>): the services of the example. An asset is shown exactly
    to the principals of its province.

  \<^bold>\<open>Parameters.\<close> Code outside of the repository is an argument with the laws that are used of it: the OAuth and OpenID
  libraries, the HTTP transport, the JSON codecs, the commands of Redis, the parsing of addresses and networks, SHA-256.
  Each property with such a law has a witness in which a concrete function satisfies it.

  \<^bold>\<open>Bounds and abstractions.\<close> The retry loop recurses on the number of attempts that are left, which is fixed before it
  starts. The loop that waits for the lock in Redis is a partial function into \<open>option\<close>, and that it returns is a
  theorem. Floating-point numbers are exact rationals (rates, tokens of a bucket, capacity) or, where the code reads
  them from the environment, rationals with infinities and NaN. Maps that Go ranges over come as lists in an arbitrary
  order. Waiting is a change of the world by others.

  \<^bold>\<open>Not modelled.\<close> The sockets below \<^verbatim>\<open>http.Server\<close>, its timeouts (they are fields of the server only) and panics of
  handlers; the interleaving of two handlers inside of a request, which \<open>TokenConcurrency\<close>, \<open>Outbound\<close> and \<open>Redis\<close> have for
  the parts that share state; JSON as text; the parsing of the command line; the limit on the number of parameters of a
  query; of the patterns of \<^verbatim>\<open>ServeMux\<close> those with hosts, trailing wildcards or braces in a base path, which the program
  does not use.
\<close>

end
